(* ===== verification/Prelude.thy ===== *)
theory Prelude
  imports Main "HOL-Library.Char_ord" "HOL-Library.List_Lexorder" "HOL-Library.Product_Lexorder"
begin

text \<open>
  Shared vocabulary of the development: errors as values, the authenticated principal that
  every access decision takes as its argument, the helpers of the Go \<open>strings\<close> and \<open>slices\<close>
  packages that the sources use, and the lemma collections that the component theories share.

  A Go function with result \<open>(T, error)\<close> is modelled by a value of \<open>'a result\<close>: \<open>Inl e\<close> is a
  returned error, \<open>Inr x\<close> a returned value with a nil error.
\<close>

section \<open>Errors as values\<close>

datatype api_error =
    NotFound string string      \<comment> \<open>\<open>apierrors.NewNotFound\<close>: resource kind and name\<close>
  | Forbidden string            \<comment> \<open>\<open>types.NewErrForbidden\<close>\<close>
  | BadRequest string           \<comment> \<open>\<open>types.NewErrBadRequest\<close>\<close>
  | Invalid string              \<comment> \<open>\<open>fmt.Errorf\<close> raised by a validation\<close>
  | AlreadyExists string        \<comment> \<open>\<open>apierrors.NewAlreadyExists\<close>\<close>
  | Unavailable string          \<comment> \<open>any other failure of a client or a store\<close>

type_synonym 'a result = "api_error + 'a"

definition IsNotFound :: "api_error \<Rightarrow> bool" where
  "IsNotFound e = (case e of NotFound _ _ \<Rightarrow> True | _ \<Rightarrow> False)"

text \<open>\<open>kclient.IgnoreAlreadyExists\<close>, on an optional error.\<close>

definition IgnoreAlreadyExists :: "api_error option \<Rightarrow> api_error option" where
  "IgnoreAlreadyExists e = (case e of Some (AlreadyExists _) \<Rightarrow> None | _ \<Rightarrow> e)"

text \<open>Sequencing: the Go idiom \<open>x, err := f(); if err != nil { return err }\<close>.\<close>

definition andThen :: "'a result \<Rightarrow> ('a \<Rightarrow> 'b result) \<Rightarrow> 'b result" where
  "andThen r f = (case r of Inl e \<Rightarrow> Inl e | Inr x \<Rightarrow> f x)"

lemma andThen_simps [simp]:
  "andThen (Inl e) f = Inl e"
  "andThen (Inr x) f = f x"
  by (simp_all add: andThen_def)

lemma andThen_eq_Inr:
  "andThen r f = Inr y \<longleftrightarrow> (\<exists>x. r = Inr x \<and> f x = Inr y)"
  by (cases r) auto

lemma andThen_eq_Inl:
  "andThen r f = Inl e \<longleftrightarrow> r = Inl e \<or> (\<exists>x. r = Inr x \<and> f x = Inl e)"
  by (cases r) auto

section \<open>Collections of lemmas\<close>

named_theorems go_strings \<open>lemmas on the Go string helpers\<close>
named_theorems subject_simps \<open>what it means for a rule's subjects to match a user\<close>
named_theorems lookup_specs \<open>what the rule lookups return under the indexer contract\<close>

section \<open>Principals\<close>

text \<open>
  \<open>kuser.Info\<close> of k8s.io/apiserver: the user name, the stable user ID, the group names and the
  multi-valued extra attributes. A missing extra key reads as the empty list, as indexing a Go
  map with a missing key does.
\<close>

record user_info =
  GetName :: string
  GetUID :: string
  GetGroups :: "string list"
  GetExtra :: "string \<Rightarrow> string list"

section \<open>Go strings\<close>

definition HasPrefix :: "string \<Rightarrow> string \<Rightarrow> bool" where
  "HasPrefix s p = (take (length p) s = p)"

definition HasSuffix :: "string \<Rightarrow> string \<Rightarrow> bool" where
  "HasSuffix s p = (length p \<le> length s \<and> drop (length s - length p) s = p)"

text \<open>\<open>strings.CutPrefix\<close> and \<open>CutSuffix\<close>; \<open>None\<close> is the result with \<open>found == false\<close>.\<close>

definition CutPrefix :: "string \<Rightarrow> string \<Rightarrow> string option" where
  "CutPrefix s p = (if HasPrefix s p then Some (drop (length p) s) else None)"

definition CutSuffix :: "string \<Rightarrow> string \<Rightarrow> string option" where
  "CutSuffix s p = (if HasSuffix s p then Some (take (length s - length p) s) else None)"

definition TrimPrefix :: "string \<Rightarrow> string \<Rightarrow> string" where
  "TrimPrefix s p = (case CutPrefix s p of Some r \<Rightarrow> r | None \<Rightarrow> s)"

definition TrimSuffix :: "string \<Rightarrow> string \<Rightarrow> string" where
  "TrimSuffix s p = (case CutSuffix s p of Some r \<Rightarrow> r | None \<Rightarrow> s)"

text \<open>\<open>strings.Cut\<close> at the first occurrence of a one-character separator.\<close>

fun Cut :: "string \<Rightarrow> char \<Rightarrow> (string \<times> string) option" where
  "Cut [] c = None"
| "Cut (x # xs) c =
     (if x = c then Some ([], xs)
      else (case Cut xs c of None \<Rightarrow> None | Some (a, b) \<Rightarrow> Some (x # a, b)))"

text \<open>\<open>strings.SplitN(s, sep, 2)\<close> for a one-character separator.\<close>

definition SplitN2 :: "string \<Rightarrow> char \<Rightarrow> string list" where
  "SplitN2 s c = (case Cut s c of None \<Rightarrow> [s] | Some (a, b) \<Rightarrow> [a, b])"

text \<open>\<open>strings.Split\<close> at a one-character separator.\<close>

fun Split :: "char \<Rightarrow> string \<Rightarrow> string list" where
  "Split c [] = [[]]"
| "Split c (x # s) =
    (if x = c then [] # Split c s
     else (case Split c s of [] \<Rightarrow> [[x]] | y # ys \<Rightarrow> (x # y) # ys))"

text \<open>\<open>strings.TrimSpace\<close> on the ASCII white space.\<close>

definition is_space :: "char \<Rightarrow> bool" where
  "is_space c = (c = CHR '' '' \<or> c = CHR 0x09 \<or> c = CHR 0x0A \<or> c = CHR 0x0B \<or> c = CHR 0x0C \<or> c = CHR 0x0D)"

definition TrimSpace :: "string \<Rightarrow> string" where
  "TrimSpace s = rev (dropWhile is_space (rev (dropWhile is_space s)))"

text \<open>\<open>strings.ToLower\<close> on the ASCII letters.\<close>

definition to_lower :: "char \<Rightarrow> char" where
  "to_lower c = (let n = of_char c :: nat in if 65 \<le> n \<and> n \<le> 90 then char_of (n + 32) else c)"

definition ToLower :: "string \<Rightarrow> string" where
  "ToLower s = map to_lower s"

text \<open>
  \<open>strings.EqualFold\<close>, the loop over ASCII text. Bytes beyond ASCII are compared as they are: the folding of Unicode
  is not modelled, and where it matters a statement is restricted to ASCII.
\<close>

definition fold_byte :: "char \<Rightarrow> char \<Rightarrow> bool" where
  "fold_byte s t =
    (let a = of_char s :: nat; b = of_char t :: nat; lo = min a b; hi = max a b
     in a = b \<or> 65 \<le> lo \<and> lo \<le> 90 \<and> hi = lo + 32)"

fun EqualFold :: "string \<Rightarrow> string \<Rightarrow> bool" where
  "EqualFold [] t = (t = [])"
| "EqualFold (a # s) t = (case t of [] \<Rightarrow> False | b # t' \<Rightarrow> fold_byte a b \<and> EqualFold s t')"

definition ascii_text :: "string \<Rightarrow> bool" where
  "ascii_text s = list_all (\<lambda>c. of_char c < (128 :: nat)) s"

lemma fold_numbers:
  "(if 65 \<le> a \<and> a \<le> 90 then a + 32 else a) = (if 65 \<le> b \<and> b \<le> 90 then b + 32 else b) \<longleftrightarrow>
    a = b \<or> 65 \<le> min a b \<and> min a b \<le> 90 \<and> max a b = min a b + 32" for a b :: nat
  by auto

lemma fold_byte_iff: "fold_byte a b \<longleftrightarrow> to_lower a = to_lower b"
proof -
  have lower: "of_char (to_lower c) = (let n = of_char c :: nat in if 65 \<le> n \<and> n \<le> 90 then n + 32 else n)" for c
    by (simp add: to_lower_def Let_def take_bit_nat_eq_self)
  have "to_lower a = to_lower b \<longleftrightarrow> of_char (to_lower a) = (of_char (to_lower b) :: nat)" by simp
  also have "\<dots> \<longleftrightarrow> fold_byte a b" unfolding lower fold_byte_def Let_def by (rule fold_numbers)
  finally show ?thesis by blast
qed

text \<open>Text folds to the same text exactly when the lower case of both is the same.\<close>

lemma EqualFold_ToLower: "EqualFold s t \<longleftrightarrow> ToLower s = ToLower t"
  by (induction s arbitrary: t) (auto simp: ToLower_def fold_byte_iff split: list.splits)

declare EqualFold.simps [simp del]

lemma HasPrefix_append [simp, go_strings]: "HasPrefix (p @ s) p"
  by (simp add: HasPrefix_def)

lemma HasPrefix_iff [go_strings]: "HasPrefix s p \<longleftrightarrow> (\<exists>r. s = p @ r)"
proof
  assume "HasPrefix s p"
  then have "take (length p) s = p" by (simp add: HasPrefix_def)
  then have "s = p @ drop (length p) s" by (metis append_take_drop_id)
  then show "\<exists>r. s = p @ r" ..
qed (auto simp: HasPrefix_def)

lemma HasPrefix_trans: "HasPrefix s p \<Longrightarrow> HasPrefix p q \<Longrightarrow> HasPrefix s q"
  by (auto simp: HasPrefix_iff)

text \<open>Two prefixes that disagree at a position cannot both be prefixes of the same string.\<close>

lemma HasPrefix_nth: "HasPrefix s p \<Longrightarrow> i < length p \<Longrightarrow> s ! i = p ! i"
  by (auto simp: HasPrefix_iff nth_append)

lemma HasSuffix_iff [go_strings]: "HasSuffix s p \<longleftrightarrow> (\<exists>r. s = r @ p)"
proof
  assume "HasSuffix s p"
  then have "drop (length s - length p) s = p" by (simp add: HasSuffix_def)
  then have "s = take (length s - length p) s @ p" by (metis append_take_drop_id)
  then show "\<exists>r. s = r @ p" ..
qed (auto simp: HasSuffix_def)

lemma CutPrefix_Some [go_strings]: "CutPrefix s p = Some r \<longleftrightarrow> s = p @ r"
  by (auto simp: CutPrefix_def HasPrefix_iff)

lemma CutPrefix_append [simp]: "CutPrefix (p @ r) p = Some r"
  by (simp add: CutPrefix_Some)

lemma TrimPrefix_append [simp]: "TrimPrefix (p @ r) p = r"
  by (simp add: TrimPrefix_def)

lemma CutSuffix_Some [go_strings]: "CutSuffix s p = Some r \<longleftrightarrow> s = r @ p"
  by (auto simp: CutSuffix_def HasSuffix_iff)

lemma Cut_SomeD: "Cut s c = Some (a, b) \<Longrightarrow> s = a @ c # b \<and> c \<notin> set a"
  by (induction s arbitrary: a) (auto split: if_splits option.splits)

lemma Cut_append: "c \<notin> set a \<Longrightarrow> Cut (a @ c # b) c = Some (a, b)"
  by (induction a) auto

lemma Cut_Some [go_strings]: "Cut s c = Some (a, b) \<longleftrightarrow> s = a @ c # b \<and> c \<notin> set a"
  using Cut_SomeD Cut_append by blast

lemma Cut_None [go_strings]: "Cut s c = None \<longleftrightarrow> c \<notin> set s"
  by (induction s) (auto split: option.splits)

lemma Split_pieces: "piece \<in> set (Split c s) \<Longrightarrow> c \<notin> set piece \<and> set piece \<subseteq> set s"
proof (induction s arbitrary: piece)
  case (Cons x s)
  then show ?case by (cases "Split c s") (fastforce split: if_splits)+
qed simp

lemma Split_append: "c \<notin> set a \<Longrightarrow> Split c (a @ c # s) = a # Split c s"
  by (induction a) auto

lemma Split_none: "c \<notin> set a \<Longrightarrow> Split c a = [a]"
  by (induction a) auto

lemma SplitN2_length: "length (SplitN2 s c) \<le> 2"
  by (simp add: SplitN2_def split: option.splits prod.splits)

section \<open>UTF-8\<close>

text \<open>
  \<open>utf8.DecodeRune\<close>: the number of bytes of the character at the start of a string, 0 when its bytes are not the shortest encoding
  of a code point other than a surrogate; and \<open>utf8.ValidString\<close>.
\<close>

definition continuation :: "char \<Rightarrow> bool" where
  "continuation c = (let n = of_char c :: nat in 128 \<le> n \<and> n < 192)"

definition second_byte_ok :: "char \<Rightarrow> char \<Rightarrow> bool" where
  "second_byte_ok c d =
    (let n = of_char c :: nat; m = of_char d :: nat
     in (if n = 0xE0 then 0xA0 else if n = 0xF0 then 0x90 else 0x80) \<le> m \<and> m \<le> (if n = 0xED then 0x9F else if n = 0xF4 then 0x8F else 0xBF))"

definition rune_size :: "string \<Rightarrow> nat" where
  "rune_size s =
    (case s of
       [] \<Rightarrow> 0
     | c # s \<Rightarrow>
         let n = of_char c :: nat
         in if n < 128 then 1
            else if n < 0xC2 \<or> n > 0xF4 then 0
            else (case s of
                    [] \<Rightarrow> 0
                  | d # s \<Rightarrow>
                      if n < 0xE0 then (if continuation d then 2 else 0)
                      else (case s of
                              [] \<Rightarrow> 0
                            | e # s \<Rightarrow>
                                if n < 0xF0 then (if second_byte_ok c d \<and> continuation e then 3 else 0)
                                else (case s of [] \<Rightarrow> 0 | g # s \<Rightarrow> if second_byte_ok c d \<and> continuation e \<and> continuation g then 4 else 0))))"

function valid_utf8 :: "string \<Rightarrow> bool" where
  "valid_utf8 [] = True"
| "valid_utf8 (c # s) = (case rune_size (c # s) of 0 \<Rightarrow> False | Suc k \<Rightarrow> valid_utf8 (drop k s))"
  by pat_completeness auto
termination by (relation "measure length") auto

lemma rune_size_ascii [simp]: "of_char c < (128 :: nat) \<Longrightarrow> rune_size (c # s) = 1"
  by (simp add: rune_size_def)

lemma ascii_valid_utf8: "ascii_text s \<Longrightarrow> valid_utf8 s"
  by (induction s) (auto simp: ascii_text_def)

text \<open>The character at the start is decided by its own bytes, and no byte of a longer character is ASCII.\<close>

lemma rune_size_long:
  assumes "rune_size (c # s) = Suc k" "128 \<le> (of_char c :: nat)"
  shows "k \<le> length s" "rune_size (c # take k s @ r) = Suc k" "\<forall>x\<in>set (take k s). 128 \<le> (of_char x :: nat)"
proof -
  consider d t where "s = d # t" "k = 1" "128 \<le> (of_char d :: nat)" "rune_size (c # d # r) = 2"
    | d e t where "s = d # e # t" "k = 2" "128 \<le> (of_char d :: nat)" "128 \<le> (of_char e :: nat)" "rune_size (c # d # e # r) = 3"
    | d e g t where "s = d # e # g # t" "k = 3" "128 \<le> (of_char d :: nat)" "128 \<le> (of_char e :: nat)" "128 \<le> (of_char g :: nat)" "rune_size (c # d # e # g # r) = 4"
    using assms by (auto simp: rune_size_def continuation_def second_byte_ok_def Let_def split: if_splits list.splits)
  then show "k \<le> length s" "rune_size (c # take k s @ r) = Suc k" "\<forall>x\<in>set (take k s). 128 \<le> (of_char x :: nat)"
    by (cases; simp add: numeral_2_eq_2 numeral_3_eq_3)+
qed

section \<open>Keeping the first occurrence\<close>

text \<open>
  The loops that collect rules skip a rule whose name they have seen: the result is the list
  without later duplicates of the key.
\<close>

fun add_unseen :: "('a \<Rightarrow> 'k) \<Rightarrow> 'k list \<Rightarrow> 'a list \<Rightarrow> 'a list" where
  "add_unseen key seen [] = []"
| "add_unseen key seen (x # xs) =
     (if key x \<in> set seen then add_unseen key seen xs
      else x # add_unseen key (key x # seen) xs)"

lemma set_add_unseen_subset: "set (add_unseen key seen xs) \<subseteq> set xs"
  by (induction key seen xs rule: add_unseen.induct) auto

lemma add_unseen_keys:
  "key ` set (add_unseen key seen xs) = key ` set xs - set seen"
proof (induction key seen xs rule: add_unseen.induct)
  case (2 key seen x xs)
  show ?case
  proof (cases "key x \<in> set seen")
    case True
    with 2 show ?thesis by auto
  next
    case False
    with 2(2) have "key ` set (add_unseen key (key x # seen) xs) = key ` set xs - insert (key x) (set seen)"
      by simp
    with False show ?thesis by auto
  qed
qed simp

lemma distinct_add_unseen: "distinct (map key (add_unseen key seen xs))"
proof (induction key seen xs rule: add_unseen.induct)
  case (2 key seen x xs)
  show ?case
  proof (cases "key x \<in> set seen")
    case False
    have "key x \<notin> key ` set (add_unseen key (key x # seen) xs)"
      by (simp add: add_unseen_keys)
    with 2(2) False show ?thesis by simp
  qed (use 2(1) in simp)
qed simp

text \<open>With keys that identify the elements nothing is lost.\<close>

lemma set_add_unseen:
  assumes "inj_on key (set xs)"
  shows "set (add_unseen key [] xs) = set xs"
proof
  show "set xs \<subseteq> set (add_unseen key [] xs)"
  proof
    fix x assume x: "x \<in> set xs"
    then have "key x \<in> key ` set (add_unseen key [] xs)" by (simp add: add_unseen_keys)
    then obtain y where y: "y \<in> set (add_unseen key [] xs)" and k: "key y = key x" by auto
    from y have "y \<in> set xs" using set_add_unseen_subset by fastforce
    with assms x k have "y = x" by (auto dest: inj_onD)
    with y show "x \<in> set (add_unseen key [] xs)" by simp
  qed
qed (rule set_add_unseen_subset)

text \<open>
  Appending to an accumulator the elements whose key it does not hold yet, and doing so for the
  results of a list of lookups, of which the first error ends the loop.
\<close>

definition append_unseen :: "('a \<Rightarrow> 'k) \<Rightarrow> 'a list \<Rightarrow> 'a list \<Rightarrow> 'a list" where
  "append_unseen key acc xs = acc @ add_unseen key (map key acc) xs"

fun collect :: "('a \<Rightarrow> 'n) \<Rightarrow> ('k \<Rightarrow> 'a list result) \<Rightarrow> 'k list \<Rightarrow> 'a list \<Rightarrow> 'a list result" where
  "collect key f [] acc = Inr acc"
| "collect key f (k # ks) acc = andThen (f k) (\<lambda>rs. collect key f ks (append_unseen key acc rs))"

lemma set_append_unseen_subset: "set (append_unseen key acc xs) \<subseteq> set acc \<union> set xs"
  using set_add_unseen_subset [of key "map key acc" xs] by (auto simp: append_unseen_def)

lemma append_unseen_distinct:
  assumes "distinct (map key acc)"
  shows "distinct (map key (append_unseen key acc xs))"
proof -
  have "key ` set (add_unseen key (map key acc) xs) \<inter> set (map key acc) = {}"
    by (auto simp: add_unseen_keys)
  with assms show ?thesis
    by (auto simp: append_unseen_def distinct_add_unseen)
qed

lemma set_append_unseen:
  assumes inj: "inj_on key A" and acc: "set acc \<subseteq> A" and xs: "set xs \<subseteq> A"
  shows "set (append_unseen key acc xs) = set acc \<union> set xs"
proof
  show "set acc \<union> set xs \<subseteq> set (append_unseen key acc xs)"
  proof
    fix x assume "x \<in> set acc \<union> set xs"
    then consider "x \<in> set acc" | "x \<in> set xs" "key x \<in> set (map key acc)" | "x \<in> set xs" "key x \<notin> set (map key acc)"
      by blast
    then show "x \<in> set (append_unseen key acc xs)"
    proof cases
      case 1
      then show ?thesis by (simp add: append_unseen_def)
    next
      case 2
      then obtain y where "y \<in> set acc" "key y = key x" by auto
      with 2 inj acc xs have "x \<in> set acc" by (metis inj_onD subsetD)
      then show ?thesis by (simp add: append_unseen_def)
    next
      case 3
      then have "key x \<in> key ` set (add_unseen key (map key acc) xs)" by (simp add: add_unseen_keys)
      then obtain y where y: "y \<in> set (add_unseen key (map key acc) xs)" "key y = key x" by auto
      then have "y \<in> set xs" using set_add_unseen_subset by fastforce
      with y 3 inj xs have "x = y" by (metis inj_onD subsetD)
      with y show ?thesis by (simp add: append_unseen_def)
    qed
  qed
qed (rule set_append_unseen_subset)

lemma collect_finds:
  assumes inj: "inj_on key A" and acc: "set acc \<subseteq> A"
    and f: "\<And>k. k \<in> set ks \<Longrightarrow> \<exists>rs. f k = Inr rs \<and> set rs = B k" and B: "\<And>k. k \<in> set ks \<Longrightarrow> B k \<subseteq> A"
  shows "\<exists>rs. collect key f ks acc = Inr rs \<and> set rs = set acc \<union> (\<Union>k\<in>set ks. B k)"
  using acc f B
proof (induction ks arbitrary: acc)
  case (Cons k ks)
  obtain rs where rs: "f k = Inr rs" "set rs = B k" using Cons.prems(2) by auto
  have sub: "set rs \<subseteq> A" using rs(2) Cons.prems(3) by auto
  have new: "set (append_unseen key acc rs) = set acc \<union> B k"
    using set_append_unseen [OF inj Cons.prems(1) sub] rs(2) by simp
  have subnew: "set (append_unseen key acc rs) \<subseteq> A"
    using new Cons.prems(1,3) by auto
  have "\<exists>rs'. collect key f ks (append_unseen key acc rs) = Inr rs' \<and>
      set rs' = set (append_unseen key acc rs) \<union> (\<Union>k\<in>set ks. B k)"
    by (rule Cons.IH [OF subnew]) (use Cons.prems(2,3) in auto)
  with rs(1) new show ?case by (auto simp: Un_assoc)
qed simp

section \<open>Invariants of step relations\<close>

text \<open>A property that every step of a state machine keeps holds in every state it reaches.\<close>

locale invariant_steps =
  fixes step :: "'s \<Rightarrow> 's \<Rightarrow> bool" and inv :: "'s \<Rightarrow> bool"
  assumes step_keeps: "inv s \<Longrightarrow> step s t \<Longrightarrow> inv t"
begin

lemma reachable_keeps: "step\<^sup>*\<^sup>* s t \<Longrightarrow> inv s \<Longrightarrow> inv t"
  by (induction rule: rtranclp_induct) (auto intro: step_keeps)

end

end
