(* ===== verification/Roles.thy ===== *)
theory Roles
  imports Prelude "HOL-Library.Word"
begin

text \<open>
  User roles (apiclient/types/user.go). A \<open>Role\<close> is a Go \<open>int\<close> used as a set of bit flags, so
  it is modelled at its width, as a 64-bit word. Base roles are meant to be mutually exclusive;
  the auditor flag combines with any of them. The theory also states the intended reading: a
  linear hierarchy of base roles and an independent auditor flag, and shows that the bit-level
  code implements it.
\<close>

unbundle bit_operations_syntax

section \<open>Constants\<close>

type_synonym Role = "64 word"

definition RoleUnknown :: Role where "RoleUnknown = 0"
definition RoleBasic :: Role where "RoleBasic = push_bit 2 1"
definition RoleOwner :: Role where "RoleOwner = push_bit 3 1"
definition RoleAdmin :: Role where "RoleAdmin = push_bit 4 1"
definition RoleAuditor :: Role where "RoleAuditor = push_bit 5 1"
definition RolePowerUserPlus :: Role where "RolePowerUserPlus = push_bit 6 1"
definition RolePowerUser :: Role where "RolePowerUser = push_bit 7 1"

definition GroupOwner :: string where "GroupOwner = ''owner''"
definition GroupAdmin :: string where "GroupAdmin = ''admin''"
definition GroupAuditor :: string where "GroupAuditor = ''auditor''"
definition GroupPowerUserPlus :: string where "GroupPowerUserPlus = ''power-user-plus''"
definition GroupPowerUser :: string where "GroupPowerUser = ''power-user''"
definition GroupBasic :: string where "GroupBasic = ''basic''"
definition GroupAuthenticated :: string where "GroupAuthenticated = ''authenticated''"
definition GroupMCP :: string where "GroupMCP = ''mcp''"
definition GroupCompositeMCP :: string where "GroupCompositeMCP = ''composite-mcp''"
definition GroupSkills :: string where "GroupSkills = ''skills''"
definition GroupAPI :: string where "GroupAPI = ''api''"
definition GroupLLM :: string where "GroupLLM = ''llm''"
definition GroupDeviceScans :: string where "GroupDeviceScans = ''device-scans''"
definition GroupDeviceEnroll :: string where "GroupDeviceEnroll = ''device-enroll''"
definition GroupTunnel :: string where "GroupTunnel = ''obot-tunnel''"
definition GroupTunnelBridge :: string where "GroupTunnelBridge = ''obot-tunnel-bridge''"
definition GroupTunnelPeer :: string where "GroupTunnelPeer = ''obot-tunnel-peer''"
definition GroupClaudeEnvironment :: string where "GroupClaudeEnvironment = ''claude-environment''"
definition GroupSCIM :: string where "GroupSCIM = ''obot-scim''"

lemmas role_defs =
  RoleUnknown_def RoleBasic_def RoleOwner_def RoleAdmin_def RoleAuditor_def
  RolePowerUserPlus_def RolePowerUser_def

lemmas group_defs =
  GroupOwner_def GroupAdmin_def GroupAuditor_def GroupPowerUserPlus_def GroupPowerUser_def
  GroupBasic_def GroupAuthenticated_def GroupMCP_def GroupCompositeMCP_def GroupSkills_def
  GroupAPI_def GroupLLM_def GroupDeviceScans_def GroupDeviceEnroll_def GroupTunnel_def
  GroupTunnelBridge_def GroupTunnelPeer_def GroupClaudeEnvironment_def GroupSCIM_def

section \<open>Operations\<close>

text \<open>
  \<open>roleMap\<close>: each base role with the roles it implies. A Go map is iterated in no particular
  order; the only iteration, in \<open>HasRole\<close>, asks whether some entry satisfies a test.
\<close>

definition roleMap :: "(Role \<times> Role) list" where
  "roleMap =
    [(RoleOwner, RoleOwner OR RoleAdmin OR RolePowerUserPlus OR RolePowerUser OR RoleBasic),
     (RoleAdmin, RoleAdmin OR RolePowerUserPlus OR RolePowerUser OR RoleBasic),
     (RolePowerUserPlus, RolePowerUserPlus OR RolePowerUser OR RoleBasic),
     (RolePowerUser, RolePowerUser OR RoleBasic),
     (RoleBasic, RoleBasic)]"

definition HasRole :: "Role \<Rightarrow> Role \<Rightarrow> bool" where
  "HasRole u role =
    (list_ex (\<lambda>r. case map_of roleMap (u AND r) of
                     Some r' \<Rightarrow> r' AND role = role
                   | None \<Rightarrow> False) (map snd roleMap)
     \<or> u AND role = role)"

definition IsExactBaseRole :: "Role \<Rightarrow> Role \<Rightarrow> bool" where
  "IsExactBaseRole u role = (u AND role = role)"

definition SwitchBaseRole :: "Role \<Rightarrow> Role \<Rightarrow> Role" where
  "SwitchBaseRole u role = role OR (u AND RoleAuditor)"

definition ExtractBaseRole :: "Role \<Rightarrow> Role" where
  "ExtractBaseRole u = u AND NOT RoleAuditor"

definition HasAuditorRole :: "Role \<Rightarrow> bool" where
  "HasAuditorRole u = (u AND RoleAuditor \<noteq> 0)"

definition groups :: "Role \<Rightarrow> bool \<Rightarrow> string list" where
  "groups u onlyRoleGroups =
    (if HasRole u RoleOwner then [GroupOwner] else []) @
    (if HasRole u RoleAdmin then [GroupAdmin] else []) @
    (if HasRole u RolePowerUserPlus then [GroupPowerUserPlus] else []) @
    (if HasRole u RolePowerUser then [GroupPowerUser] else []) @
    (if HasRole u RoleBasic then [GroupBasic] else []) @
    (if HasRole u RoleAuditor then [GroupAuditor] else []) @
    (if u \<noteq> RoleUnknown
     then [GroupAuthenticated] @
          (if \<not> onlyRoleGroups then [GroupAPI, GroupLLM, GroupSkills, GroupMCP, GroupDeviceScans] else [])
     else [])"

definition RoleGroups :: "Role \<Rightarrow> string list" where
  "RoleGroups u = groups u True"

definition Groups :: "Role \<Rightarrow> string list" where
  "Groups u = groups u False"

section \<open>The intended hierarchy\<close>

datatype base_role = Basic | PowerUser | PowerUserPlus | Admin | Owner

fun level :: "base_role \<Rightarrow> nat" where
  "level Basic = 0"
| "level PowerUser = 1"
| "level PowerUserPlus = 2"
| "level Admin = 3"
| "level Owner = 4"

lemma level_inject [simp]: "level a = level b \<longleftrightarrow> a = b"
  by (cases a; cases b) auto

instantiation base_role :: linorder
begin

definition less_eq_base_role :: "base_role \<Rightarrow> base_role \<Rightarrow> bool" where
  "less_eq_base_role a b \<longleftrightarrow> level a \<le> level b"

definition less_base_role :: "base_role \<Rightarrow> base_role \<Rightarrow> bool" where
  "less_base_role a b \<longleftrightarrow> level a < level b"

instance
  by intro_classes (auto simp: less_eq_base_role_def less_base_role_def)

end

fun encode_base :: "base_role \<Rightarrow> Role" where
  "encode_base Basic = RoleBasic"
| "encode_base PowerUser = RolePowerUser"
| "encode_base PowerUserPlus = RolePowerUserPlus"
| "encode_base Admin = RoleAdmin"
| "encode_base Owner = RoleOwner"

text \<open>A stored role: a base role with or without the auditor flag.\<close>

definition encode_role :: "base_role \<Rightarrow> bool \<Rightarrow> Role" where
  "encode_role b auditor = (if auditor then encode_base b OR RoleAuditor else encode_base b)"

fun base_group :: "base_role \<Rightarrow> string" where
  "base_group Basic = GroupBasic"
| "base_group PowerUser = GroupPowerUser"
| "base_group PowerUserPlus = GroupPowerUserPlus"
| "base_group Admin = GroupAdmin"
| "base_group Owner = GroupOwner"

section \<open>Lemmas\<close>

lemma HasRole_encode_base: "HasRole (encode_role b auditor) (encode_base r) \<longleftrightarrow> r \<le> b"
  by (cases b; cases r; cases auditor)
     (simp_all add: HasRole_def roleMap_def encode_role_def role_defs less_eq_base_role_def)

lemma HasRole_encode_auditor: "HasRole (encode_role b auditor) RoleAuditor \<longleftrightarrow> auditor"
  by (cases b; cases auditor)
     (simp_all add: HasRole_def roleMap_def encode_role_def role_defs)

lemma encode_role_not_unknown [simp]: "encode_role b auditor \<noteq> RoleUnknown"
  by (cases b; cases auditor) (simp_all add: encode_role_def role_defs)

lemma HasRole_encode [simp]:
  "HasRole (encode_role b auditor) RoleOwner \<longleftrightarrow> Owner \<le> b"
  "HasRole (encode_role b auditor) RoleAdmin \<longleftrightarrow> Admin \<le> b"
  "HasRole (encode_role b auditor) RolePowerUserPlus \<longleftrightarrow> PowerUserPlus \<le> b"
  "HasRole (encode_role b auditor) RolePowerUser \<longleftrightarrow> PowerUser \<le> b"
  "HasRole (encode_role b auditor) RoleBasic \<longleftrightarrow> Basic \<le> b"
  "HasRole (encode_role b auditor) RoleAuditor \<longleftrightarrow> auditor"
  using HasRole_encode_base [of b auditor Owner] HasRole_encode_base [of b auditor Admin]
    HasRole_encode_base [of b auditor PowerUserPlus] HasRole_encode_base [of b auditor PowerUser]
    HasRole_encode_base [of b auditor Basic] HasRole_encode_auditor [of b auditor]
  by simp_all

section \<open>Properties\<close>

text \<open>
  C30: for every stored role (a base role, optionally combined with the auditor flag), the
  bit-level test \<open>HasRole\<close> against a base role is the linear hierarchy
  basic, power user, power user plus, admin, owner, and the auditor flag is independent of it.
\<close>

theorem HasRole_refines_hierarchy:
  "(HasRole (encode_role b auditor) (encode_base r) \<longleftrightarrow> r \<le> b)
   \<and> (HasRole (encode_role b auditor) RoleAuditor \<longleftrightarrow> auditor)
   \<and> (HasAuditorRole (encode_role b auditor) \<longleftrightarrow> auditor)
   \<and> ExtractBaseRole (encode_role b auditor) = encode_base b"
proof -
  have "HasAuditorRole (encode_role b auditor) \<longleftrightarrow> auditor"
    by (cases b; cases auditor) (simp_all add: HasAuditorRole_def encode_role_def role_defs)
  moreover have "ExtractBaseRole (encode_role b auditor) = encode_base b"
    by (cases b; cases auditor) (simp_all add: ExtractBaseRole_def encode_role_def role_defs)
  ultimately show ?thesis
    by (simp add: HasRole_encode_base HasRole_encode_auditor)
qed

text \<open>
  The groups a stored role gives are exactly the groups of the base roles it implies, the
  auditor group when the flag is set, and the groups of every authenticated user; so raising the
  base role never loses a group.
\<close>

theorem Groups_of_stored_role:
  "set (Groups (encode_role b auditor)) =
     base_group ` {r. r \<le> b} \<union> (if auditor then {GroupAuditor} else {})
     \<union> {GroupAuthenticated, GroupAPI, GroupLLM, GroupSkills, GroupMCP, GroupDeviceScans}"
proof -
  have below: "{r. r \<le> b} = set (filter (\<lambda>r. r \<le> b) [Owner, Admin, PowerUserPlus, PowerUser, Basic])"
  proof (rule set_eqI)
    fix r
    show "r \<in> {r. r \<le> b} \<longleftrightarrow> r \<in> set (filter (\<lambda>r. r \<le> b) [Owner, Admin, PowerUserPlus, PowerUser, Basic])"
      by (cases r) simp_all
  qed
  show ?thesis
    unfolding below Groups_def groups_def by auto
qed

text \<open>
  Switching the base role of any 64-bit role value keeps the auditor flag and replaces
  everything else, for a new base role without the auditor bit.
\<close>

theorem SwitchBaseRole_keeps_auditor:
  assumes "r AND RoleAuditor = 0"
  shows "HasAuditorRole (SwitchBaseRole u r) = HasAuditorRole u
    \<and> ExtractBaseRole (SwitchBaseRole u r) = r"
proof
  have "SwitchBaseRole u r AND RoleAuditor = (r AND RoleAuditor) OR (u AND RoleAuditor)"
    unfolding SwitchBaseRole_def
    by (rule bit_eqI) (auto simp: bit_and_iff bit_or_iff)
  with assms show "HasAuditorRole (SwitchBaseRole u r) = HasAuditorRole u"
    by (simp add: HasAuditorRole_def)
  have "\<not> (bit r n \<and> bit RoleAuditor n)" for n
    using assms by (metis bit_0_eq bit_and_iff bot_apply bot_bool_def)
  then show "ExtractBaseRole (SwitchBaseRole u r) = r"
    unfolding SwitchBaseRole_def ExtractBaseRole_def
    by (intro bit_eqI) (auto simp: bit_and_iff bit_or_iff bit_not_iff dest: bit_imp_le_length)
qed

theorem SwitchBaseRole_keeps_auditor_witness:
  "HasAuditorRole (SwitchBaseRole (RoleBasic OR RoleAuditor) RoleAdmin)
   \<and> ExtractBaseRole (SwitchBaseRole (RoleBasic OR RoleAuditor) RoleAdmin) = RoleAdmin"
proof -
  have h: "RoleAdmin AND RoleAuditor = 0"
    by (simp add: role_defs)
  show ?thesis
    using SwitchBaseRole_keeps_auditor [OF h, of "RoleBasic OR RoleAuditor"]
    by (simp add: HasAuditorRole_def role_defs)
qed

end
