(* ===== verification/Subjects.thy ===== *)
theory Subjects
  imports Prelude
begin

text \<open>
  What the access-control components share: rule subjects and their validation
  (apiclient/types/accesscontrolrule.go), the group sets of a user (pkg/subjectgroups), the
  metadata every stored object carries, and the indexers of the informer caches. The indexers are
  code of k8s.io/client-go: a lookup is a parameter of the model, and \<open>indexer_ok\<close> states the
  documented contract of \<open>Indexer.ByIndex\<close> that the results below rely on.
\<close>

section \<open>Subjects and resources\<close>

text \<open>The type of a subject is a Go string; a value other than the four constants is \<open>SubjectTypeOther\<close>.\<close>

datatype SubjectType =
    SubjectTypeGroup | SubjectTypeObotGroup | SubjectTypeUser | SubjectTypeSelector
  | SubjectTypeOther string

record Subject =
  SubjType :: SubjectType
  SubjID :: string

datatype ResourceType =
    ResourceTypeMCPServerCatalogEntry | ResourceTypeMCPServer | ResourceTypeMcpCatalog
  | ResourceTypeSelector | ResourceTypeOther string

record Resource =
  ResType :: ResourceType
  ResID :: string

definition Subject_Validate :: "Subject \<Rightarrow> unit result" where
  "Subject_Validate s =
    (case SubjType s of
       SubjectTypeUser \<Rightarrow> if SubjID s = [] then Inl (Invalid ''subject ID is required'') else Inr ()
     | SubjectTypeGroup \<Rightarrow> if SubjID s = [] then Inl (Invalid ''subject ID is required'') else Inr ()
     | SubjectTypeObotGroup \<Rightarrow> if SubjID s = [] then Inl (Invalid ''subject ID is required'') else Inr ()
     | SubjectTypeSelector \<Rightarrow>
         if SubjID s \<noteq> ''*'' then Inl (Invalid ''selector subject ID must be '*' '') else Inr ()
     | SubjectTypeOther t \<Rightarrow> Inl (Invalid (''invalid subject type: '' @ t)))"

definition Resource_Validate :: "Resource \<Rightarrow> unit result" where
  "Resource_Validate r =
    (case ResType r of
       ResourceTypeMCPServerCatalogEntry \<Rightarrow> if ResID r = [] then Inl (Invalid ''resource ID is required'') else Inr ()
     | ResourceTypeMCPServer \<Rightarrow> if ResID r = [] then Inl (Invalid ''resource ID is required'') else Inr ()
     | ResourceTypeMcpCatalog \<Rightarrow> if ResID r = [] then Inl (Invalid ''resource ID is required'') else Inr ()
     | ResourceTypeSelector \<Rightarrow>
         if ResID r \<noteq> ''*'' then Inl (Invalid ''selector resource ID must be '*' '') else Inr ()
     | ResourceTypeOther t \<Rightarrow> Inl (Invalid (''invalid resource type: '' @ t)))"

text \<open>A validation loop: the first error ends it.\<close>

fun validate_all :: "('a \<Rightarrow> unit result) \<Rightarrow> 'a list \<Rightarrow> unit result" where
  "validate_all f [] = Inr ()"
| "validate_all f (x # xs) = andThen (f x) (\<lambda>_. validate_all f xs)"

lemma validate_all_Inr: "validate_all f xs = Inr () \<longleftrightarrow> (\<forall>x\<in>set xs. f x = Inr ())"
  by (induction xs) (auto simp: andThen_eq_Inr)

section \<open>Groups of a user\<close>

definition Sets :: "user_info option \<Rightarrow> string list \<times> string list" where
  "Sets user =
    (case user of
       None \<Rightarrow> ([], [])
     | Some u \<Rightarrow> (GetExtra u ''auth_provider_groups'', GetExtra u ''obot_groups''))"

section \<open>Matching a subject\<close>

text \<open>
  The \<open>switch subject.Type\<close> at the heart of every access loop. \<open>groups\<close> and \<open>obotGroups\<close> are the
  two group sets of \<open>Sets\<close>.
\<close>

definition subject_matches :: "string \<Rightarrow> string list \<Rightarrow> string list \<Rightarrow> Subject \<Rightarrow> bool" where
  "subject_matches userID groups obotGroups s =
    (case SubjType s of
       SubjectTypeUser \<Rightarrow> SubjID s = userID
     | SubjectTypeGroup \<Rightarrow> SubjID s \<in> set groups
     | SubjectTypeObotGroup \<Rightarrow> SubjID s \<in> set obotGroups
     | SubjectTypeSelector \<Rightarrow> SubjID s = ''*''
     | SubjectTypeOther _ \<Rightarrow> False)"

text \<open>The specification: a subject covers a user.\<close>

definition covers :: "Subject \<Rightarrow> user_info \<Rightarrow> bool" where
  "covers s u = subject_matches (GetUID u) (GetExtra u ''auth_provider_groups'') (GetExtra u ''obot_groups'') s"

text \<open>The user's group memberships grow and nothing else changes.\<close>

definition more_groups :: "user_info \<Rightarrow> user_info \<Rightarrow> bool" where
  "more_groups u v \<longleftrightarrow> GetUID v = GetUID u
     \<and> set (GetExtra u ''auth_provider_groups'') \<subseteq> set (GetExtra v ''auth_provider_groups'')
     \<and> set (GetExtra u ''obot_groups'') \<subseteq> set (GetExtra v ''obot_groups'')"

lemma covers_mono: "covers s u \<Longrightarrow> more_groups u v \<Longrightarrow> covers s v"
  by (auto simp: covers_def subject_matches_def more_groups_def split: SubjectType.splits)

lemma covers_iff: "covers s u \<longleftrightarrow>
     (SubjType s = SubjectTypeUser \<and> SubjID s = GetUID u)
   \<or> (SubjType s = SubjectTypeGroup \<and> SubjID s \<in> set (GetExtra u ''auth_provider_groups''))
   \<or> (SubjType s = SubjectTypeObotGroup \<and> SubjID s \<in> set (GetExtra u ''obot_groups''))
   \<or> (SubjType s = SubjectTypeSelector \<and> SubjID s = ''*'')"
  by (simp add: covers_def subject_matches_def split: SubjectType.split)

lemma covers_wildcard [subject_simps]: "SubjType s = SubjectTypeSelector \<Longrightarrow> covers s u \<longleftrightarrow> SubjID s = ''*''"
  by (simp add: covers_def subject_matches_def)

lemma covers_user [subject_simps]: "SubjType s = SubjectTypeUser \<Longrightarrow> covers s u \<longleftrightarrow> SubjID s = GetUID u"
  by (simp add: covers_def subject_matches_def)

text \<open>
  The contract of every component that decides by subjects: its test on one rule is the search
  for a subject of the rule that covers the user. The lemmas are the ones that the properties of
  the rule helpers, the skill rules and the vMCP profiles use.
\<close>

locale subject_matcher =
  fixes rule_matches :: "user_info \<Rightarrow> 'r \<Rightarrow> bool"
    and subjects_of :: "'r \<Rightarrow> Subject list"
  assumes matches_iff: "rule_matches u r \<longleftrightarrow> (\<exists>s\<in>set (subjects_of r). covers s u)"
begin

lemma matches_mono_groups: "rule_matches u r \<Longrightarrow> more_groups u v \<Longrightarrow> rule_matches v r"
  by (auto simp: matches_iff intro: covers_mono)

lemma matches_mono_subjects:
  "rule_matches u r \<Longrightarrow> set (subjects_of r) \<subseteq> set (subjects_of r') \<Longrightarrow> rule_matches u r'"
  by (auto simp: matches_iff)

lemma matches_everyone:
  "s \<in> set (subjects_of r) \<Longrightarrow> SubjType s = SubjectTypeSelector \<Longrightarrow> SubjID s = ''*'' \<Longrightarrow> rule_matches u r"
  by (auto simp: matches_iff covers_def subject_matches_def intro!: bexI [of _ s])

lemma no_subjects_no_match: "subjects_of r = [] \<Longrightarrow> \<not> rule_matches u r"
  by (simp add: matches_iff)

lemma any_match:
  "list_ex (rule_matches u) rs \<longleftrightarrow> (\<exists>r\<in>set rs. \<exists>s\<in>set (subjects_of r). covers s u)"
  by (simp add: list_ex_iff matches_iff)

end

section \<open>Stored objects and indexers\<close>

text \<open>\<open>metav1.ObjectMeta\<close>: the fields the modelled code reads. Timestamps are instants.\<close>

record object_meta =
  Name :: string
  Namespace :: string
  DeletionTimestamp :: "int option"
  CreationTimestamp :: int

definition DefaultNamespace :: string where "DefaultNamespace = ''default''"
definition DefaultCatalog :: string where "DefaultCatalog = ''default''"

text \<open>The filter of every rule lookup: the namespace asked for, and not being deleted.\<close>

definition live_in :: "string \<Rightarrow> 'a object_meta_scheme \<Rightarrow> bool" where
  "live_in namespace r = (Namespace r = namespace \<and> DeletionTimestamp r = None)"

text \<open>\<open>gocache.Indexer.ByIndex(indexName, key)\<close>.\<close>

type_synonym 'o indexer = "string \<Rightarrow> string \<Rightarrow> 'o list result"

text \<open>
  The index functions registered with an informer, by index name. The contract: for a registered
  index, \<open>ByIndex\<close> returns the stored objects whose index values include the key, in some order.
\<close>

type_synonym 'o index_funcs = "string \<rightharpoonup> ('o \<Rightarrow> string list)"

definition indexer_ok :: "'o indexer \<Rightarrow> 'o index_funcs \<Rightarrow> 'o list \<Rightarrow> bool" where
  "indexer_ok idx fns store \<longleftrightarrow>
    (\<forall>name f key. fns name = Some f \<longrightarrow>
       (\<exists>xs. idx name key = Inr xs \<and> set xs = {x \<in> set store. key \<in> set (f x)}))"

text \<open>An indexer over a list of objects, which meets the contract.\<close>

definition list_indexer :: "'o index_funcs \<Rightarrow> 'o list \<Rightarrow> 'o indexer" where
  "list_indexer fns store name key =
    (case fns name of
       None \<Rightarrow> Inl (Unavailable (''Index with name '' @ name @ '' does not exist''))
     | Some f \<Rightarrow> Inr (filter (\<lambda>x. key \<in> set (f x)) store))"

lemma list_indexer_ok: "indexer_ok (list_indexer fns store) fns store"
  by (auto simp: indexer_ok_def list_indexer_def)

text \<open>
  Two shapes recur in the helpers: a lookup whose result is filtered, and a decision that tries the
  rules of a first lookup and then, if none matches, those of a second.
\<close>

definition finds :: "'r list result \<Rightarrow> 'r set \<Rightarrow> bool" where
  "finds l A \<longleftrightarrow> (\<exists>rs. l = Inr rs \<and> set rs = A)"

lemma finds_ByIndex:
  assumes "indexer_ok idx fns store" and "fns name = Some f"
  shows "finds (idx name key) {x \<in> set store. key \<in> set (f x)}"
  using assms unfolding indexer_ok_def finds_def by blast

lemma finds_filter: "finds l A \<Longrightarrow> finds (andThen l (\<lambda>xs. Inr (filter P xs))) {x \<in> A. P x}"
  by (auto simp: finds_def)

lemma finds_two:
  assumes "finds l A" and "finds m B"
  shows "andThen l (\<lambda>xs. if list_ex P xs then Inr True else andThen m (\<lambda>ys. Inr (list_ex P ys)))
         = Inr (\<exists>x\<in>A \<union> B. P x)"
  using assms by (auto simp: finds_def list_ex_iff)

end
