(* ===== verification/Access_Control_Rule.thy ===== *)
theory Access_Control_Rule
  imports Subjects
begin

text \<open>
  Access control rules for MCP servers and catalog entries (pkg/accesscontrolrule/helper.go). A
  rule lives in one catalog or one power-user workspace and grants its subjects the servers and
  entries it names, or everything in its scope through the \<open>*\<close> selector. The helper looks rules up
  in the informer's indexes; the index functions are those registered in pkg/services/config.go.
\<close>

section \<open>Data\<close>

record AccessControlRule = object_meta +
  MCPCatalogID :: string
  PowerUserWorkspaceID :: string
  acrSubjects :: "Subject list"
  acrResources :: "Resource list"

definition AccessControlRuleManifest_Validate :: "Resource list \<Rightarrow> Subject list \<Rightarrow> unit result" where
  "AccessControlRuleManifest_Validate resources subjects =
    andThen (validate_all Resource_Validate resources) (\<lambda>_. validate_all Subject_Validate subjects)"

text \<open>The index functions of the rule informer.\<close>

definition resource_ids :: "ResourceType \<Rightarrow> AccessControlRule \<Rightarrow> string list" where
  "resource_ids t acr = map ResID (filter (\<lambda>r. ResType r = t) (acrResources acr))"

definition acr_index_funcs :: "AccessControlRule index_funcs" where
  "acr_index_funcs =
    [''user-ids'' \<mapsto> (\<lambda>acr. map SubjID (filter (\<lambda>s. SubjType s = SubjectTypeUser) (acrSubjects acr))),
     ''catalog-entry-names'' \<mapsto> resource_ids ResourceTypeMCPServerCatalogEntry,
     ''server-names'' \<mapsto> resource_ids ResourceTypeMCPServer,
     ''selectors'' \<mapsto> resource_ids ResourceTypeSelector]"

section \<open>Lookups\<close>

definition GetAccessControlRulesForUser ::
  "AccessControlRule indexer \<Rightarrow> string \<Rightarrow> string \<Rightarrow> AccessControlRule list result" where
  "GetAccessControlRulesForUser idx namespace userID =
    andThen (idx ''user-ids'' userID) (\<lambda>acrs. Inr (filter (live_in namespace) acrs))"

definition GetAccessControlRulesForMCPServer ::
  "AccessControlRule indexer \<Rightarrow> string \<Rightarrow> string \<Rightarrow> AccessControlRule list result" where
  "GetAccessControlRulesForMCPServer idx namespace serverName =
    andThen (idx ''server-names'' serverName) (\<lambda>acrs. Inr (filter (live_in namespace) acrs))"

definition GetAccessControlRulesForMCPServerCatalogEntry ::
  "AccessControlRule indexer \<Rightarrow> string \<Rightarrow> string \<Rightarrow> AccessControlRule list result" where
  "GetAccessControlRulesForMCPServerCatalogEntry idx namespace entryName =
    andThen (idx ''catalog-entry-names'' entryName) (\<lambda>acrs. Inr (filter (live_in namespace) acrs))"

definition GetAccessControlRulesForSelector ::
  "AccessControlRule indexer \<Rightarrow> string \<Rightarrow> string \<Rightarrow> AccessControlRule list result" where
  "GetAccessControlRulesForSelector idx namespace selector =
    andThen (idx ''selectors'' selector) (\<lambda>acrs. Inr (filter (live_in namespace) acrs))"

definition GetAccessControlRulesForMCPServerInCatalog ::
  "AccessControlRule indexer \<Rightarrow> string \<Rightarrow> string \<Rightarrow> string \<Rightarrow> AccessControlRule list result" where
  "GetAccessControlRulesForMCPServerInCatalog idx namespace serverName catalogID =
    andThen (GetAccessControlRulesForMCPServer idx namespace serverName)
      (\<lambda>rules. Inr (filter (\<lambda>rule. MCPCatalogID rule = catalogID) rules))"

definition GetAccessControlRulesForMCPServerCatalogEntryInCatalog ::
  "AccessControlRule indexer \<Rightarrow> string \<Rightarrow> string \<Rightarrow> string \<Rightarrow> AccessControlRule list result" where
  "GetAccessControlRulesForMCPServerCatalogEntryInCatalog idx namespace entryName catalogID =
    andThen (GetAccessControlRulesForMCPServerCatalogEntry idx namespace entryName)
      (\<lambda>rules. Inr (filter (\<lambda>rule. MCPCatalogID rule = catalogID) rules))"

definition GetAccessControlRulesForSelectorInCatalog ::
  "AccessControlRule indexer \<Rightarrow> string \<Rightarrow> string \<Rightarrow> string \<Rightarrow> AccessControlRule list result" where
  "GetAccessControlRulesForSelectorInCatalog idx namespace selector catalogID =
    andThen (GetAccessControlRulesForSelector idx namespace selector)
      (\<lambda>rules. Inr (filter (\<lambda>rule. MCPCatalogID rule = catalogID) rules))"

definition GetAccessControlRulesForMCPServerInWorkspace ::
  "AccessControlRule indexer \<Rightarrow> string \<Rightarrow> string \<Rightarrow> string \<Rightarrow> AccessControlRule list result" where
  "GetAccessControlRulesForMCPServerInWorkspace idx namespace serverName workspaceID =
    andThen (GetAccessControlRulesForMCPServer idx namespace serverName)
      (\<lambda>rules. Inr (filter (\<lambda>rule. PowerUserWorkspaceID rule = workspaceID) rules))"

definition GetAccessControlRulesForMCPServerCatalogEntryInWorkspace ::
  "AccessControlRule indexer \<Rightarrow> string \<Rightarrow> string \<Rightarrow> string \<Rightarrow> AccessControlRule list result" where
  "GetAccessControlRulesForMCPServerCatalogEntryInWorkspace idx namespace entryName workspaceID =
    andThen (GetAccessControlRulesForMCPServerCatalogEntry idx namespace entryName)
      (\<lambda>rules. Inr (filter (\<lambda>rule. PowerUserWorkspaceID rule = workspaceID) rules))"

definition GetAccessControlRulesForSelectorInWorkspace ::
  "AccessControlRule indexer \<Rightarrow> string \<Rightarrow> string \<Rightarrow> string \<Rightarrow> AccessControlRule list result" where
  "GetAccessControlRulesForSelectorInWorkspace idx namespace selector workspaceID =
    andThen (GetAccessControlRulesForSelector idx namespace selector)
      (\<lambda>rules. Inr (filter (\<lambda>rule. PowerUserWorkspaceID rule = workspaceID) rules))"

section \<open>Decisions\<close>

text \<open>
  The doubly nested loop over the rules and their subjects that every decision runs, once over the
  \<open>*\<close> selector rules and once over the rules that name the resource.
\<close>

definition acr_matches :: "user_info \<Rightarrow> AccessControlRule \<Rightarrow> bool" where
  "acr_matches user rule =
    (let (groups, obotGroups) = Sets (Some user)
     in list_ex (subject_matches (GetUID user) groups obotGroups) (acrSubjects rule))"

definition UserHasAccessToMCPServerInCatalog ::
  "AccessControlRule indexer \<Rightarrow> user_info \<Rightarrow> string \<Rightarrow> string \<Rightarrow> bool result" where
  "UserHasAccessToMCPServerInCatalog idx user serverName catalogID =
    andThen (GetAccessControlRulesForSelectorInCatalog idx DefaultNamespace ''*'' catalogID) (\<lambda>selectorRules.
      if list_ex (acr_matches user) selectorRules then Inr True
      else andThen (GetAccessControlRulesForMCPServerInCatalog idx DefaultNamespace serverName catalogID) (\<lambda>rules.
        Inr (list_ex (acr_matches user) rules)))"

definition UserHasAccessToMCPServerCatalogEntryInCatalog ::
  "AccessControlRule indexer \<Rightarrow> user_info \<Rightarrow> string \<Rightarrow> string \<Rightarrow> bool result" where
  "UserHasAccessToMCPServerCatalogEntryInCatalog idx user entryName catalogID =
    andThen (GetAccessControlRulesForSelectorInCatalog idx DefaultNamespace ''*'' catalogID) (\<lambda>selectorRules.
      if list_ex (acr_matches user) selectorRules then Inr True
      else andThen (GetAccessControlRulesForMCPServerCatalogEntryInCatalog idx DefaultNamespace entryName catalogID) (\<lambda>rules.
        Inr (list_ex (acr_matches user) rules)))"

definition UserHasAccessToMCPServerCatalogEntry ::
  "AccessControlRule indexer \<Rightarrow> user_info \<Rightarrow> string \<Rightarrow> bool result" where
  "UserHasAccessToMCPServerCatalogEntry idx user entryName =
    UserHasAccessToMCPServerCatalogEntryInCatalog idx user entryName DefaultCatalog"

text \<open>The wildcard checks look only for the \<open>*\<close> selector subject: is everyone granted?\<close>

definition wildcard_subject :: "AccessControlRule \<Rightarrow> bool" where
  "wildcard_subject rule =
    list_ex (\<lambda>s. SubjType s = SubjectTypeSelector \<and> SubjID s = ''*'') (acrSubjects rule)"

definition HasWildcardAccessToMCPServerCatalogEntryInCatalog ::
  "AccessControlRule indexer \<Rightarrow> string \<Rightarrow> string \<Rightarrow> bool result" where
  "HasWildcardAccessToMCPServerCatalogEntryInCatalog idx entryName catalogID =
    andThen (GetAccessControlRulesForSelectorInCatalog idx DefaultNamespace ''*'' catalogID) (\<lambda>selectorRules.
      if list_ex wildcard_subject selectorRules then Inr True
      else andThen (GetAccessControlRulesForMCPServerCatalogEntryInCatalog idx DefaultNamespace entryName catalogID) (\<lambda>rules.
        Inr (list_ex wildcard_subject rules)))"

definition HasWildcardAccessToMCPServerInCatalog ::
  "AccessControlRule indexer \<Rightarrow> string \<Rightarrow> string \<Rightarrow> bool result" where
  "HasWildcardAccessToMCPServerInCatalog idx serverName catalogID =
    andThen (GetAccessControlRulesForSelectorInCatalog idx DefaultNamespace ''*'' catalogID) (\<lambda>selectorRules.
      if list_ex wildcard_subject selectorRules then Inr True
      else andThen (GetAccessControlRulesForMCPServerInCatalog idx DefaultNamespace serverName catalogID) (\<lambda>rules.
        Inr (list_ex wildcard_subject rules)))"

definition UserHasAccessToMCPServerInWorkspace ::
  "AccessControlRule indexer \<Rightarrow> user_info \<Rightarrow> string \<Rightarrow> string \<Rightarrow> string \<Rightarrow> bool result" where
  "UserHasAccessToMCPServerInWorkspace idx user serverName workspaceID serverUserID =
    (if serverUserID = GetUID user then Inr True
     else andThen (GetAccessControlRulesForSelectorInWorkspace idx DefaultNamespace ''*'' workspaceID) (\<lambda>selectorRules.
       if list_ex (acr_matches user) selectorRules then Inr True
       else andThen (GetAccessControlRulesForMCPServerInWorkspace idx DefaultNamespace serverName workspaceID) (\<lambda>rules.
         Inr (list_ex (acr_matches user) rules))))"

text \<open>\<open>v1.PowerUserWorkspace\<close> and the client's \<open>Get\<close> for it.\<close>

record PowerUserWorkspace = object_meta +
  puwUserID :: string

definition UserHasAccessToMCPServerCatalogEntryInWorkspace ::
  "AccessControlRule indexer \<Rightarrow> (string \<Rightarrow> string \<Rightarrow> PowerUserWorkspace result) \<Rightarrow>
   user_info \<Rightarrow> string \<Rightarrow> string \<Rightarrow> bool result" where
  "UserHasAccessToMCPServerCatalogEntryInWorkspace idx getWorkspace user entryName workspaceID =
    andThen (GetAccessControlRulesForSelectorInWorkspace idx DefaultNamespace ''*'' workspaceID) (\<lambda>selectorRules.
      if list_ex (acr_matches user) selectorRules then Inr True
      else andThen (GetAccessControlRulesForMCPServerCatalogEntryInWorkspace idx DefaultNamespace entryName workspaceID) (\<lambda>rules.
        if list_ex (acr_matches user) rules then Inr True
        else if workspaceID \<noteq> []
        then andThen (getWorkspace DefaultNamespace workspaceID) (\<lambda>workspace. Inr (puwUserID workspace = GetUID user))
        else Inr False))"


section \<open>Specification and lemmas\<close>

text \<open>
  What the rules promise: a user has a resource when some live rule of the scope names the resource
  or the \<open>*\<close> selector among its resources, and has a subject that covers the user.
\<close>

definition names_resource :: "ResourceType \<Rightarrow> string \<Rightarrow> AccessControlRule \<Rightarrow> bool" where
  "names_resource t name rule \<longleftrightarrow>
    (\<exists>res\<in>set (acrResources rule).
       ResType res = ResourceTypeSelector \<and> ResID res = ''*'' \<or> ResType res = t \<and> ResID res = name)"

definition acr_granted ::
  "AccessControlRule list \<Rightarrow> (AccessControlRule \<Rightarrow> bool) \<Rightarrow> ResourceType \<Rightarrow> string \<Rightarrow> user_info \<Rightarrow> bool" where
  "acr_granted store scope t name user \<longleftrightarrow>
    (\<exists>rule\<in>set store. live_in DefaultNamespace rule \<and> scope rule \<and> names_resource t name rule
       \<and> (\<exists>s\<in>set (acrSubjects rule). covers s user))"

text \<open>The nested loop of the decisions meets the subject contract.\<close>

interpretation acr: subject_matcher acr_matches acrSubjects
  by unfold_locales (simp add: acr_matches_def Sets_def covers_def list_ex_iff)

lemma resource_ids_iff: "k \<in> set (resource_ids t r) \<longleftrightarrow> (\<exists>res\<in>set (acrResources r). ResType res = t \<and> ResID res = k)"
  by (auto simp: resource_ids_def)

lemma names_resource_iff:
  "names_resource t name r \<longleftrightarrow>
    ''*'' \<in> set (resource_ids ResourceTypeSelector r) \<or> name \<in> set (resource_ids t r)"
  by (auto simp: names_resource_def resource_ids_iff)

lemma wildcard_subject_iff: "wildcard_subject r \<longleftrightarrow> (\<exists>s\<in>set (acrSubjects r). SubjType s = SubjectTypeSelector \<and> SubjID s = ''*'')"
  by (simp add: wildcard_subject_def list_ex_iff)

text \<open>The live rules of a scope that carry a key in one of the resource indexes.\<close>

definition keyed ::
  "AccessControlRule list \<Rightarrow> ResourceType \<Rightarrow> string \<Rightarrow> string \<Rightarrow> (AccessControlRule \<Rightarrow> bool) \<Rightarrow> AccessControlRule set" where
  "keyed store t key namespace scope =
    {r \<in> set store. key \<in> set (resource_ids t r) \<and> live_in namespace r \<and> scope r}"

text \<open>The rules of the two lookups are the live rules of the scope that name the resource.\<close>

lemma keyed_union:
  "(\<exists>r\<in>keyed store ResourceTypeSelector ''*'' DefaultNamespace scope \<union> keyed store t name DefaultNamespace scope. P r)
   \<longleftrightarrow> (\<exists>r\<in>set store. live_in DefaultNamespace r \<and> scope r \<and> names_resource t name r \<and> P r)"
  unfolding keyed_def names_resource_iff by blast

lemma keyed_granted:
  "(\<exists>r\<in>keyed store ResourceTypeSelector ''*'' DefaultNamespace scope \<union> keyed store t name DefaultNamespace scope. acr_matches u r)
   \<longleftrightarrow> acr_granted store scope t name u"
  unfolding keyed_union acr_granted_def acr.matches_iff ..

text \<open>
  The rule informer as the helper sees it: an indexer that meets its contract for the registered
  index functions. Every lookup then returns exactly the live rules of the scope that carry the key.
\<close>

locale acr_informer =
  fixes idx :: "AccessControlRule indexer" and store :: "AccessControlRule list"
  assumes idx_ok: "indexer_ok idx acr_index_funcs store"
begin

lemma finds_keyed:
  assumes "acr_index_funcs name = Some (resource_ids t)"
  shows "finds (andThen (andThen (idx name key) (\<lambda>acrs. Inr (filter (live_in namespace) acrs)))
                  (\<lambda>rules. Inr (filter scope rules))) (keyed store t key namespace scope)"
proof -
  have "{r \<in> {r \<in> {r \<in> set store. key \<in> set (resource_ids t r)}. live_in namespace r}. scope r}
        = keyed store t key namespace scope"
    by (auto simp: keyed_def)
  with finds_filter [OF finds_filter [OF finds_ByIndex [OF idx_ok assms, of key], of "live_in namespace"], of scope]
  show ?thesis by simp
qed

lemma catalog_lookups [lookup_specs]:
  "finds (GetAccessControlRulesForSelectorInCatalog idx ns k c)
     (keyed store ResourceTypeSelector k ns (\<lambda>r. MCPCatalogID r = c))"
  "finds (GetAccessControlRulesForMCPServerInCatalog idx ns k c)
     (keyed store ResourceTypeMCPServer k ns (\<lambda>r. MCPCatalogID r = c))"
  "finds (GetAccessControlRulesForMCPServerCatalogEntryInCatalog idx ns k c)
     (keyed store ResourceTypeMCPServerCatalogEntry k ns (\<lambda>r. MCPCatalogID r = c))"
  unfolding GetAccessControlRulesForSelectorInCatalog_def GetAccessControlRulesForSelector_def
    GetAccessControlRulesForMCPServerInCatalog_def GetAccessControlRulesForMCPServer_def
    GetAccessControlRulesForMCPServerCatalogEntryInCatalog_def
    GetAccessControlRulesForMCPServerCatalogEntry_def
  by (rule finds_keyed, simp add: acr_index_funcs_def)+

lemma workspace_lookups [lookup_specs]:
  "finds (GetAccessControlRulesForSelectorInWorkspace idx ns k w)
     (keyed store ResourceTypeSelector k ns (\<lambda>r. PowerUserWorkspaceID r = w))"
  "finds (GetAccessControlRulesForMCPServerInWorkspace idx ns k w)
     (keyed store ResourceTypeMCPServer k ns (\<lambda>r. PowerUserWorkspaceID r = w))"
  "finds (GetAccessControlRulesForMCPServerCatalogEntryInWorkspace idx ns k w)
     (keyed store ResourceTypeMCPServerCatalogEntry k ns (\<lambda>r. PowerUserWorkspaceID r = w))"
  unfolding GetAccessControlRulesForSelectorInWorkspace_def GetAccessControlRulesForSelector_def
    GetAccessControlRulesForMCPServerInWorkspace_def GetAccessControlRulesForMCPServer_def
    GetAccessControlRulesForMCPServerCatalogEntryInWorkspace_def
    GetAccessControlRulesForMCPServerCatalogEntry_def
  by (rule finds_keyed, simp add: acr_index_funcs_def)+

lemma server_catalog_decision:
  "UserHasAccessToMCPServerInCatalog idx u name c =
    Inr (acr_granted store (\<lambda>r. MCPCatalogID r = c) ResourceTypeMCPServer name u)"
  unfolding UserHasAccessToMCPServerInCatalog_def finds_two [OF catalog_lookups(1,2)] keyed_granted ..

lemma entry_catalog_decision:
  "UserHasAccessToMCPServerCatalogEntryInCatalog idx u name c =
    Inr (acr_granted store (\<lambda>r. MCPCatalogID r = c) ResourceTypeMCPServerCatalogEntry name u)"
  unfolding UserHasAccessToMCPServerCatalogEntryInCatalog_def finds_two [OF catalog_lookups(1,3)] keyed_granted ..

lemma server_workspace_decision:
  "UserHasAccessToMCPServerInWorkspace idx u name w owner =
    Inr (owner = GetUID u \<or> acr_granted store (\<lambda>r. PowerUserWorkspaceID r = w) ResourceTypeMCPServer name u)"
  unfolding UserHasAccessToMCPServerInWorkspace_def finds_two [OF workspace_lookups(1,2)] keyed_granted
  by simp

lemma entry_workspace_decision:
  "UserHasAccessToMCPServerCatalogEntryInWorkspace idx getW u name w =
    (if acr_granted store (\<lambda>r. PowerUserWorkspaceID r = w) ResourceTypeMCPServerCatalogEntry name u then Inr True
     else if w = [] then Inr False
     else andThen (getW DefaultNamespace w) (\<lambda>ws. Inr (puwUserID ws = GetUID u)))"
proof -
  obtain sel rules where "GetAccessControlRulesForSelectorInWorkspace idx DefaultNamespace ''*'' w = Inr sel"
      "GetAccessControlRulesForMCPServerCatalogEntryInWorkspace idx DefaultNamespace name w = Inr rules"
      "list_ex (acr_matches u) sel \<or> list_ex (acr_matches u) rules \<longleftrightarrow>
       acr_granted store (\<lambda>r. PowerUserWorkspaceID r = w) ResourceTypeMCPServerCatalogEntry name u"
    using workspace_lookups(1,3) keyed_granted unfolding finds_def list_ex_iff by (metis Un_iff)
  then show ?thesis
    by (auto simp: UserHasAccessToMCPServerCatalogEntryInWorkspace_def)
qed

lemma wildcard_decisions:
  "HasWildcardAccessToMCPServerInCatalog idx name c =
    Inr (\<exists>r\<in>set store. live_in DefaultNamespace r \<and> MCPCatalogID r = c
           \<and> names_resource ResourceTypeMCPServer name r \<and> wildcard_subject r)"
  "HasWildcardAccessToMCPServerCatalogEntryInCatalog idx name c =
    Inr (\<exists>r\<in>set store. live_in DefaultNamespace r \<and> MCPCatalogID r = c
           \<and> names_resource ResourceTypeMCPServerCatalogEntry name r \<and> wildcard_subject r)"
  unfolding HasWildcardAccessToMCPServerInCatalog_def HasWildcardAccessToMCPServerCatalogEntryInCatalog_def
    finds_two [OF catalog_lookups(1,2)] finds_two [OF catalog_lookups(1,3)] keyed_union by simp_all

end

interpretation acr_list: acr_informer "list_indexer acr_index_funcs store" store for store
  by unfold_locales (rule list_indexer_ok)

text \<open>A user nobody mentions is covered only by the \<open>*\<close> selector.\<close>

lemma stranger_exists:
  "\<exists>u :: user_info. GetExtra u = (\<lambda>_. []) \<and> (\<forall>rule\<in>set store. \<forall>s\<in>set (acrSubjects rule). SubjID s \<noteq> GetUID u)"
proof -
  let ?ids = "SubjID ` (\<Union>rule\<in>set store. set (acrSubjects rule))"
  have "finite ?ids" by simp
  then obtain uid :: string where "uid \<notin> ?ids"
    using ex_new_if_finite infinite_UNIV_listI by blast
  then show ?thesis
    by (intro exI [of _ "\<lparr>GetName = [], GetUID = uid, GetGroups = [], GetExtra = (\<lambda>_. [])\<rparr>"]) auto
qed

lemma stranger_covered:
  assumes "GetExtra u = (\<lambda>_. [])" and "SubjID s \<noteq> GetUID u"
  shows "covers s u \<longleftrightarrow> SubjType s = SubjectTypeSelector \<and> SubjID s = ''*''"
  using assms by (simp add: covers_def subject_matches_def split: SubjectType.splits)

section \<open>Properties\<close>

text \<open>
  C24: given an informer index that meets its contract, the decision on an MCP server of a catalog
  never fails and is exactly the specification: some live rule of that catalog names the server, or
  everything, and covers the user. Rules of other catalogs, of other namespaces and rules being
  deleted never grant.
\<close>

theorem server_in_catalog_spec:
  assumes "indexer_ok idx acr_index_funcs store"
  shows "UserHasAccessToMCPServerInCatalog idx user serverName catalogID =
    Inr (acr_granted store (\<lambda>r. MCPCatalogID r = catalogID) ResourceTypeMCPServer serverName user)"
  using assms by (intro acr_informer.server_catalog_decision acr_informer.intro)

definition example_user :: user_info where
  "example_user = \<lparr>GetName = ''alice'', GetUID = ''7'', GetGroups = [''api''],
     GetExtra = (\<lambda>_. [])(''auth_provider_groups'' := [''okta/eng''])\<rparr>"

definition example_rule :: AccessControlRule where
  "example_rule = \<lparr>Name = ''acr1x'', Namespace = ''default'', DeletionTimestamp = None, CreationTimestamp = 0,
     MCPCatalogID = ''default'', PowerUserWorkspaceID = [],
     acrSubjects = [\<lparr>SubjType = SubjectTypeGroup, SubjID = ''okta/eng''\<rparr>],
     acrResources = [\<lparr>ResType = ResourceTypeMCPServer, ResID = ''ms1a''\<rparr>]\<rparr>"

theorem server_in_catalog_spec_witness:
  "UserHasAccessToMCPServerInCatalog (list_indexer acr_index_funcs [example_rule]) example_user ''ms1a'' ''default'' = Inr True
   \<and> UserHasAccessToMCPServerInCatalog (list_indexer acr_index_funcs [example_rule]) example_user ''ms1b'' ''default'' = Inr False"
  unfolding server_in_catalog_spec [OF list_indexer_ok]
  by (simp add: acr_granted_def example_rule_def example_user_def live_in_def names_resource_def
      covers_def subject_matches_def DefaultNamespace_def)

text \<open>
  The wildcard check on a catalog server answers whether every possible user, known or not, has
  access to it.
\<close>

theorem wildcard_means_everyone:
  assumes "indexer_ok idx acr_index_funcs store"
  shows "HasWildcardAccessToMCPServerInCatalog idx serverName catalogID =
    Inr (\<forall>user. UserHasAccessToMCPServerInCatalog idx user serverName catalogID = Inr True)"
proof -
  note acr = acr_informer.intro [OF assms]
  have "(\<forall>user. UserHasAccessToMCPServerInCatalog idx user serverName catalogID = Inr True) \<longleftrightarrow>
    (\<exists>r\<in>set store. live_in DefaultNamespace r \<and> MCPCatalogID r = catalogID
           \<and> names_resource ResourceTypeMCPServer serverName r \<and> wildcard_subject r)" (is "?all \<longleftrightarrow> ?wild")
  proof
    assume ?all
    obtain u :: user_info where u: "GetExtra u = (\<lambda>_. [])"
        "\<forall>rule\<in>set store. \<forall>s\<in>set (acrSubjects rule). SubjID s \<noteq> GetUID u"
      using stranger_exists by blast
    from \<open>?all\<close> have "acr_granted store (\<lambda>r. MCPCatalogID r = catalogID) ResourceTypeMCPServer serverName u"
      by (simp add: acr_informer.server_catalog_decision [OF acr])
    with u show ?wild
      unfolding acr_granted_def wildcard_subject_iff by (metis stranger_covered)
  next
    assume ?wild
    then show ?all
      unfolding acr_informer.server_catalog_decision [OF acr] acr_granted_def wildcard_subject_iff
      using covers_wildcard by blast
  qed
  then show ?thesis by (simp add: acr_informer.wildcard_decisions(1) [OF acr])
qed

theorem wildcard_means_everyone_witness:
  "HasWildcardAccessToMCPServerInCatalog (list_indexer acr_index_funcs [example_rule]) ''ms1a'' ''default'' = Inr False
   \<and> \<not> (\<forall>user. UserHasAccessToMCPServerInCatalog (list_indexer acr_index_funcs [example_rule]) user ''ms1a'' ''default'' = Inr True)"
proof -
  let ?idx = "list_indexer acr_index_funcs [example_rule]"
  have w: "HasWildcardAccessToMCPServerInCatalog ?idx ''ms1a'' ''default'' = Inr False"
    by (simp add: acr_list.wildcard_decisions wildcard_subject_def example_rule_def)
  show ?thesis
    using w wildcard_means_everyone [OF list_indexer_ok, of "[example_rule]" "''ms1a''" "''default''"] by simp
qed

text \<open>
  Workspace decisions. A server of a workspace is open to the user it belongs to without any
  rule and to the others exactly by the workspace's live rules; a catalog entry of a workspace is
  open by the rules and otherwise only to the owner of the workspace, whose lookup error, and no
  other, makes the decision fail.
\<close>

theorem workspace_decisions_spec:
  assumes "indexer_ok idx acr_index_funcs store"
  shows "UserHasAccessToMCPServerInWorkspace idx user serverName workspaceID serverUserID =
      Inr (serverUserID = GetUID user \<or>
           acr_granted store (\<lambda>r. PowerUserWorkspaceID r = workspaceID) ResourceTypeMCPServer serverName user)
    \<and> UserHasAccessToMCPServerCatalogEntryInWorkspace idx getWorkspace user entryName workspaceID =
      (if acr_granted store (\<lambda>r. PowerUserWorkspaceID r = workspaceID) ResourceTypeMCPServerCatalogEntry entryName user
       then Inr True
       else if workspaceID = [] then Inr False
       else andThen (getWorkspace DefaultNamespace workspaceID) (\<lambda>ws. Inr (puwUserID ws = GetUID user)))"
  using acr_informer.server_workspace_decision [OF acr_informer.intro [OF assms]]
    acr_informer.entry_workspace_decision [OF acr_informer.intro [OF assms]] by blast

theorem workspace_decisions_spec_witness:
  "UserHasAccessToMCPServerInWorkspace (list_indexer acr_index_funcs [example_rule]) example_user ''ms1a'' ''puw1'' ''7'' = Inr True
   \<and> UserHasAccessToMCPServerInWorkspace (list_indexer acr_index_funcs [example_rule]) example_user ''ms1a'' ''puw1'' ''8'' = Inr False
   \<and> UserHasAccessToMCPServerCatalogEntryInWorkspace (list_indexer acr_index_funcs [example_rule])
       (\<lambda>_ n. Inl (NotFound ''poweruserworkspace'' n)) example_user ''e'' ''puw1'' = Inl (NotFound ''poweruserworkspace'' ''puw1'')"
  using workspace_decisions_spec [OF list_indexer_ok, of "[example_rule]" example_user "''ms1a''" "''puw1''" "''7''"]
    workspace_decisions_spec [OF list_indexer_ok, of "[example_rule]" example_user "''ms1a''" "''puw1''" "''8''"
      "\<lambda>_ n. Inl (NotFound ''poweruserworkspace'' n)" "''e''"]
  by (simp add: acr_granted_def example_rule_def example_user_def)

text \<open>
  Access through rules only grows with the user's groups: a user who keeps the ID and gains
  memberships keeps every server the rules gave.
\<close>

theorem server_access_mono_groups:
  assumes "indexer_ok idx acr_index_funcs store" and "more_groups user user'"
    and "UserHasAccessToMCPServerInCatalog idx user serverName catalogID = Inr True"
  shows "UserHasAccessToMCPServerInCatalog idx user' serverName catalogID = Inr True"
  using assms(2,3) unfolding acr_informer.server_catalog_decision [OF acr_informer.intro [OF assms(1)]]
  by (auto simp: acr_granted_def intro: covers_mono)

theorem server_access_mono_groups_witness:
  "UserHasAccessToMCPServerInCatalog (list_indexer acr_index_funcs [example_rule])
     (example_user\<lparr>GetExtra := (\<lambda>_. [])(''auth_provider_groups'' := [''okta/ops'', ''okta/eng''])\<rparr>) ''ms1a'' ''default'' = Inr True"
proof -
  have acc: "UserHasAccessToMCPServerInCatalog (list_indexer acr_index_funcs [example_rule]) example_user ''ms1a'' ''default'' = Inr True"
    by (simp add: acr_list.server_catalog_decision acr_granted_def example_rule_def example_user_def live_in_def
        names_resource_def covers_def subject_matches_def DefaultNamespace_def)
  show ?thesis
    by (rule server_access_mono_groups [OF list_indexer_ok _ acc])
       (simp add: more_groups_def example_user_def)
qed

end
