(* ===== verification/Skill_Access_Rule.thy ===== *)
theory Skill_Access_Rule
  imports Subjects
begin

text \<open>
  Skill access rules (pkg/skillaccessrule/helper.go, apiclient/types/skillaccessrule.go). A rule
  grants its subjects single skills, whole skill repositories, or everything. The helper answers two
  questions by different routes: whether a user has one skill (from the rules of the resource), and
  the scope of everything the user has (from the rules of the user). The index functions are those
  registered in pkg/services/config.go.
\<close>

section \<open>Data\<close>

datatype SkillResourceType =
    SkillResourceTypeSkill | SkillResourceTypeSkillRepository | SkillResourceTypeSelector
  | SkillResourceTypeOther string

record SkillResource =
  SkResType :: SkillResourceType
  SkResID :: string

record SkillAccessRule = object_meta +
  sarSubjects :: "Subject list"
  sarResources :: "SkillResource list"

record Skill = object_meta +
  skRepoID :: string

definition SkillResource_IsWildcard :: "SkillResource \<Rightarrow> bool" where
  "SkillResource_IsWildcard r = (SkResType r = SkillResourceTypeSelector \<and> SkResID r = ''*'')"

definition SkillResource_Validate :: "SkillResource \<Rightarrow> unit result" where
  "SkillResource_Validate r =
    (case SkResType r of
       SkillResourceTypeSkill \<Rightarrow> if SkResID r = [] then Inl (Invalid ''resource ID is required'') else Inr ()
     | SkillResourceTypeSkillRepository \<Rightarrow> if SkResID r = [] then Inl (Invalid ''resource ID is required'') else Inr ()
     | SkillResourceTypeSelector \<Rightarrow>
         if SkResID r \<noteq> ''*'' then Inl (Invalid ''selector resource ID must be '*' '') else Inr ()
     | SkillResourceTypeOther t \<Rightarrow> Inl (Invalid (''invalid resource type: '' @ t)))"

text \<open>The two validation loops, each with the set of values seen so far.\<close>

fun validate_subjects :: "nat \<Rightarrow> Subject list \<Rightarrow> Subject list \<Rightarrow> unit result" where
  "validate_subjects n seen [] = Inr ()"
| "validate_subjects n seen (s # ss) =
    andThen (Subject_Validate s) (\<lambda>_.
      if SubjID s = ''*'' \<and> n > 1 then Inl (Invalid ''wildcard subject (*) must be the only subject'')
      else if s \<in> set seen then Inl (Invalid (''duplicate subject: '' @ SubjID s))
      else validate_subjects n (s # seen) ss)"

fun validate_skill_resources :: "nat \<Rightarrow> SkillResource list \<Rightarrow> SkillResource list \<Rightarrow> unit result" where
  "validate_skill_resources n seen [] = Inr ()"
| "validate_skill_resources n seen (r # rs) =
    andThen (SkillResource_Validate r) (\<lambda>_.
      if SkillResource_IsWildcard r \<and> n > 1 then Inl (Invalid ''wildcard resource (*) must be the only resource'')
      else if r \<in> set seen then Inl (Invalid (''duplicate resource: '' @ SkResID r))
      else validate_skill_resources n (r # seen) rs)"

definition SkillAccessRuleManifest_Validate :: "Subject list \<Rightarrow> SkillResource list \<Rightarrow> unit result" where
  "SkillAccessRuleManifest_Validate subjects resources =
    (if subjects = [] then Inl (Invalid ''at least one subject is required'')
     else andThen (validate_subjects (length subjects) [] subjects) (\<lambda>_.
       if resources = [] then Inl (Invalid ''at least one resource is required'')
       else validate_skill_resources (length resources) [] resources))"

text \<open>Index functions.\<close>

definition skill_resource_ids :: "SkillResourceType \<Rightarrow> SkillAccessRule \<Rightarrow> string list" where
  "skill_resource_ids t rule = map SkResID (filter (\<lambda>r. SkResType r = t) (sarResources rule))"

definition skill_subject_ids :: "SubjectType \<Rightarrow> SkillAccessRule \<Rightarrow> string list" where
  "skill_subject_ids t rule = map SubjID (filter (\<lambda>s. SubjType s = t) (sarSubjects rule))"

definition SkillIDIndex :: string where "SkillIDIndex = ''skill-ids''"
definition RepositoryIDIndex :: string where "RepositoryIDIndex = ''repository-ids''"
definition ResourceSelectorIndex :: string where "ResourceSelectorIndex = ''selectors''"
definition UserIDIndex :: string where "UserIDIndex = ''user-ids''"
definition GroupIDIndex :: string where "GroupIDIndex = ''group-ids''"
definition ObotGroupIDIndex :: string where "ObotGroupIDIndex = ''obot-group-ids''"
definition SubjectSelectorIndex :: string where "SubjectSelectorIndex = ''subject-selectors''"

lemmas skill_index_defs =
  SkillIDIndex_def RepositoryIDIndex_def ResourceSelectorIndex_def UserIDIndex_def GroupIDIndex_def
  ObotGroupIDIndex_def SubjectSelectorIndex_def

definition skill_index_funcs :: "SkillAccessRule index_funcs" where
  "skill_index_funcs =
    [SkillIDIndex \<mapsto> skill_resource_ids SkillResourceTypeSkill,
     RepositoryIDIndex \<mapsto> skill_resource_ids SkillResourceTypeSkillRepository,
     ResourceSelectorIndex \<mapsto> skill_resource_ids SkillResourceTypeSelector,
     UserIDIndex \<mapsto> skill_subject_ids SubjectTypeUser,
     GroupIDIndex \<mapsto> skill_subject_ids SubjectTypeGroup,
     ObotGroupIDIndex \<mapsto> skill_subject_ids SubjectTypeObotGroup,
     SubjectSelectorIndex \<mapsto> skill_subject_ids SubjectTypeSelector]"

section \<open>Lookups\<close>

definition getIndexedRules ::
  "SkillAccessRule indexer \<Rightarrow> string \<Rightarrow> string \<Rightarrow> string \<Rightarrow> SkillAccessRule list result" where
  "getIndexedRules idx namespace indexName key =
    andThen (idx indexName key)
      (\<lambda>rules. Inr (filter (live_in namespace) rules))"

definition GetSkillAccessRulesForSkill :: "SkillAccessRule indexer \<Rightarrow> string \<Rightarrow> string \<Rightarrow> SkillAccessRule list result" where
  "GetSkillAccessRulesForSkill idx namespace skillID = getIndexedRules idx namespace SkillIDIndex skillID"

definition GetSkillAccessRulesForRepository :: "SkillAccessRule indexer \<Rightarrow> string \<Rightarrow> string \<Rightarrow> SkillAccessRule list result" where
  "GetSkillAccessRulesForRepository idx namespace repoID = getIndexedRules idx namespace RepositoryIDIndex repoID"

definition GetSkillAccessRulesForSelector :: "SkillAccessRule indexer \<Rightarrow> string \<Rightarrow> string \<Rightarrow> SkillAccessRule list result" where
  "GetSkillAccessRulesForSelector idx namespace selector = getIndexedRules idx namespace ResourceSelectorIndex selector"

definition GetSkillAccessRulesForUser :: "SkillAccessRule indexer \<Rightarrow> string \<Rightarrow> string \<Rightarrow> SkillAccessRule list result" where
  "GetSkillAccessRulesForUser idx namespace userID = getIndexedRules idx namespace UserIDIndex userID"

definition GetSkillAccessRulesForGroup :: "SkillAccessRule indexer \<Rightarrow> string \<Rightarrow> string \<Rightarrow> SkillAccessRule list result" where
  "GetSkillAccessRulesForGroup idx namespace groupID = getIndexedRules idx namespace GroupIDIndex groupID"

definition GetSkillAccessRulesForSubjectSelector :: "SkillAccessRule indexer \<Rightarrow> string \<Rightarrow> string \<Rightarrow> SkillAccessRule list result" where
  "GetSkillAccessRulesForSubjectSelector idx namespace selector = getIndexedRules idx namespace SubjectSelectorIndex selector"

section \<open>Decisions\<close>

definition hasMatchingSubject :: "SkillAccessRule list \<Rightarrow> string \<Rightarrow> string list \<Rightarrow> string list \<Rightarrow> bool" where
  "hasMatchingSubject rules userID groups obotGroups =
    list_ex (\<lambda>rule. list_ex (subject_matches userID groups obotGroups) (sarSubjects rule)) rules"

definition UserHasAccessToSkillID ::
  "SkillAccessRule indexer \<Rightarrow> user_info option \<Rightarrow> string \<Rightarrow> string \<Rightarrow> bool result" where
  "UserHasAccessToSkillID idx user skillID repoID =
    (if skillID = [] \<and> repoID = [] then Inr False
     else let (groups, obotGroups) = Sets user;
              userID = (case user of Some u \<Rightarrow> GetUID u | None \<Rightarrow> [])
          in andThen (GetSkillAccessRulesForSelector idx DefaultNamespace ''*'') (\<lambda>selectorRules.
             if hasMatchingSubject selectorRules userID groups obotGroups then Inr True
             else andThen (if repoID \<noteq> []
                           then andThen (GetSkillAccessRulesForRepository idx DefaultNamespace repoID)
                                  (\<lambda>repoRules. Inr (hasMatchingSubject repoRules userID groups obotGroups))
                           else Inr False) (\<lambda>byRepo.
             if byRepo then Inr True
             else if skillID \<noteq> []
                  then andThen (GetSkillAccessRulesForSkill idx DefaultNamespace skillID)
                         (\<lambda>skillRules. Inr (hasMatchingSubject skillRules userID groups obotGroups))
                  else Inr False)))"

definition UserHasAccessToSkill :: "SkillAccessRule indexer \<Rightarrow> user_info option \<Rightarrow> Skill option \<Rightarrow> bool result" where
  "UserHasAccessToSkill idx user skill =
    (case skill of
       None \<Rightarrow> Inr False
     | Some sk \<Rightarrow> UserHasAccessToSkillID idx user (Name sk) (skRepoID sk))"

text \<open>
  \<open>getRulesForUser\<close>: the rules of everyone, then of the user, then of each group, keeping the first
  rule of each name. Go iterates the two group sets in an unspecified order; the model takes the
  order of the user's attribute lists, and the results below depend only on the set of rules found.
\<close>

definition getRulesForUser ::
  "SkillAccessRule indexer \<Rightarrow> string \<Rightarrow> user_info option \<Rightarrow> SkillAccessRule list result" where
  "getRulesForUser idx namespace user =
    andThen (GetSkillAccessRulesForSubjectSelector idx namespace ''*'') (\<lambda>selectorRules.
    andThen (case user of
               Some u \<Rightarrow> if GetUID u \<noteq> []
                          then andThen (GetSkillAccessRulesForUser idx namespace (GetUID u))
                                 (\<lambda>userRules. Inr (append_unseen Name (append_unseen Name [] selectorRules) userRules))
                          else Inr (append_unseen Name [] selectorRules)
             | None \<Rightarrow> Inr (append_unseen Name [] selectorRules)) (\<lambda>result.
    let (groups, obotGroups) = Sets user
    in andThen (collect Name (GetSkillAccessRulesForGroup idx namespace) groups result) (\<lambda>result'.
       collect Name (getIndexedRules idx namespace ObotGroupIDIndex) obotGroups result')))"

text \<open>The loop over the resources of the rules; a \<open>*\<close> selector ends it at once.\<close>

fun scope_loop :: "SkillResource list \<Rightarrow> string list \<Rightarrow> string list \<Rightarrow> bool \<times> string list \<times> string list" where
  "scope_loop [] repoIDs skillIDs = (False, repoIDs, skillIDs)"
| "scope_loop (r # rs) repoIDs skillIDs =
    (case SkResType r of
       SkillResourceTypeSelector \<Rightarrow>
         if SkResID r = ''*'' then (True, repoIDs, skillIDs) else scope_loop rs repoIDs skillIDs
     | SkillResourceTypeSkillRepository \<Rightarrow>
         scope_loop rs (if SkResID r \<noteq> [] then SkResID r # repoIDs else repoIDs) skillIDs
     | SkillResourceTypeSkill \<Rightarrow>
         scope_loop rs repoIDs (if SkResID r \<noteq> [] then SkResID r # skillIDs else skillIDs)
     | SkillResourceTypeOther _ \<Rightarrow> scope_loop rs repoIDs skillIDs)"

definition GetUserSkillAccessScope ::
  "SkillAccessRule indexer \<Rightarrow> user_info option \<Rightarrow> (bool \<times> string list \<times> string list) result" where
  "GetUserSkillAccessScope idx user =
    andThen (getRulesForUser idx DefaultNamespace user)
      (\<lambda>rules. Inr (scope_loop (concat (map sarResources rules)) [] []))"

section \<open>Specification\<close>

text \<open>The principal of a request without a user: no ID and no groups.\<close>

definition principal_of :: "user_info option \<Rightarrow> user_info" where
  "principal_of user = (case user of
     Some u \<Rightarrow> u
   | None \<Rightarrow> \<lparr>GetName = [], GetUID = [], GetGroups = [], GetExtra = (\<lambda>_. [])\<rparr>)"

definition sar_matches :: "user_info \<Rightarrow> SkillAccessRule \<Rightarrow> bool" where
  "sar_matches u rule =
    hasMatchingSubject [rule] (GetUID u) (GetExtra u ''auth_provider_groups'') (GetExtra u ''obot_groups'')"

text \<open>A resource entry that includes a skill of a repository.\<close>

definition includes_skill :: "string \<Rightarrow> string \<Rightarrow> SkillResource \<Rightarrow> bool" where
  "includes_skill skillID repoID r \<longleftrightarrow> SkillResource_IsWildcard r
     \<or> (SkResType r = SkillResourceTypeSkillRepository \<and> repoID \<noteq> [] \<and> SkResID r = repoID)
     \<or> (SkResType r = SkillResourceTypeSkill \<and> skillID \<noteq> [] \<and> SkResID r = skillID)"

definition user_rules :: "SkillAccessRule list \<Rightarrow> user_info \<Rightarrow> SkillAccessRule set" where
  "user_rules store u = {r \<in> set store. live_in DefaultNamespace r \<and> (\<exists>s\<in>set (sarSubjects r). covers s u)}"

definition sar_granted :: "SkillAccessRule list \<Rightarrow> user_info \<Rightarrow> string \<Rightarrow> string \<Rightarrow> bool" where
  "sar_granted store u skillID repoID \<longleftrightarrow>
    (\<exists>r\<in>user_rules store u. \<exists>res\<in>set (sarResources r). includes_skill skillID repoID res)"

interpretation sar: subject_matcher sar_matches sarSubjects
  by unfold_locales (simp add: sar_matches_def hasMatchingSubject_def list_ex_iff covers_def)

lemma hasMatchingSubject_iff:
  assumes "Sets user = (groups, obotGroups)"
  shows "hasMatchingSubject rules (case user of None \<Rightarrow> [] | Some u \<Rightarrow> GetUID u) groups obotGroups
    \<longleftrightarrow> list_ex (sar_matches (principal_of user)) rules"
  using assms by (auto simp: Sets_def principal_of_def sar_matches_def hasMatchingSubject_def list_ex_iff split: option.splits)

lemma Sets_principal:
  "Sets user = (GetExtra (principal_of user) ''auth_provider_groups'', GetExtra (principal_of user) ''obot_groups'')"
  by (simp add: Sets_def principal_of_def split: option.split)

lemma in_skill_resource_ids:
  "k \<in> set (skill_resource_ids t rule) \<longleftrightarrow> (\<exists>r\<in>set (sarResources rule). SkResType r = t \<and> SkResID r = k)"
  by (auto simp: skill_resource_ids_def)

lemma in_skill_subject_ids:
  "k \<in> set (skill_subject_ids t rule) \<longleftrightarrow> (\<exists>s\<in>set (sarSubjects rule). SubjType s = t \<and> SubjID s = k)"
  by (auto simp: skill_subject_ids_def)

text \<open>A rule of valid subjects covers a user iff one of the four subject indexes lists it for the user.\<close>

lemma covered_by_ids:
  assumes "\<And>s. s \<in> set (sarSubjects r) \<Longrightarrow> Subject_Validate s = Inr ()"
  shows "(\<exists>s\<in>set (sarSubjects r). covers s u) \<longleftrightarrow>
        ''*'' \<in> set (skill_subject_ids SubjectTypeSelector r)
      \<or> (GetUID u \<noteq> [] \<and> GetUID u \<in> set (skill_subject_ids SubjectTypeUser r))
      \<or> (\<exists>k\<in>set (GetExtra u ''auth_provider_groups''). k \<in> set (skill_subject_ids SubjectTypeGroup r))
      \<or> (\<exists>k\<in>set (GetExtra u ''obot_groups''). k \<in> set (skill_subject_ids SubjectTypeObotGroup r))"
proof -
  have "SubjType s = SubjectTypeUser \<longrightarrow> SubjID s \<noteq> []" if "s \<in> set (sarSubjects r)" for s
    using assms [OF that] by (auto simp: Subject_Validate_def split: if_splits)
  then have "(\<exists>s\<in>set (sarSubjects r). SubjType s = SubjectTypeUser \<and> SubjID s = GetUID u) \<longleftrightarrow>
      GetUID u \<noteq> [] \<and> (\<exists>s\<in>set (sarSubjects r). SubjType s = SubjectTypeUser \<and> SubjID s = GetUID u)" by metis
  then show ?thesis unfolding covers_iff in_skill_subject_ids bex_disj_distrib by blast
qed

lemma scope_loop_all:
  "fst (scope_loop rs repoIDs skillIDs) \<longleftrightarrow> (\<exists>r\<in>set rs. SkillResource_IsWildcard r)"
  by (induction rs repoIDs skillIDs rule: scope_loop.induct)
     (auto simp: SkillResource_IsWildcard_def split: SkillResourceType.split)

lemma scope_loop_ids:
  assumes "\<not> (\<exists>r\<in>set rs. SkillResource_IsWildcard r)"
  shows "set (fst (snd (scope_loop rs repoIDs skillIDs))) =
      set repoIDs \<union> {SkResID r | r. r \<in> set rs \<and> SkResType r = SkillResourceTypeSkillRepository \<and> SkResID r \<noteq> []}
    \<and> set (snd (snd (scope_loop rs repoIDs skillIDs))) =
      set skillIDs \<union> {SkResID r | r. r \<in> set rs \<and> SkResType r = SkillResourceTypeSkill \<and> SkResID r \<noteq> []}"
  using assms
proof (induction rs repoIDs skillIDs rule: scope_loop.induct)
  case (2 r rs repoIDs skillIDs)
  then show ?case
    by (cases "SkResType r") (auto simp: SkillResource_IsWildcard_def)
qed simp

lemma scope_loop_decides:
  assumes "scope_loop rs [] [] = (all, repos, skills)" and "skillID \<noteq> [] \<or> repoID \<noteq> []"
  shows "(all \<or> repoID \<in> set repos \<or> skillID \<in> set skills) \<longleftrightarrow> (\<exists>r\<in>set rs. includes_skill skillID repoID r)"
proof (cases all)
  case True
  with assms(1) scope_loop_all [of rs "[]" "[]"] show ?thesis by (auto simp: includes_skill_def)
next
  case False
  with assms(1) scope_loop_all [of rs "[]" "[]"] have none: "\<not> (\<exists>r\<in>set rs. SkillResource_IsWildcard r)" by simp
  show ?thesis
    using scope_loop_ids [OF none, of "[]" "[]"] assms(1) none False
    by (auto simp: includes_skill_def)
qed

section \<open>The informer contract\<close>

locale skill_informer =
  fixes idx :: "SkillAccessRule indexer" and store :: "SkillAccessRule list"
  assumes idx_ok: "indexer_ok idx skill_index_funcs store"
begin

lemma finds_indexed:
  assumes "skill_index_funcs name = Some f"
  shows "finds (getIndexedRules idx ns name key) {r \<in> set store. live_in ns r \<and> key \<in> set (f r)}"
proof -
  have "{r \<in> {r \<in> set store. key \<in> set (f r)}. live_in ns r} = {r \<in> set store. live_in ns r \<and> key \<in> set (f r)}"
    by auto
  with finds_filter [OF finds_ByIndex [OF idx_ok assms, of key], of "live_in ns"] show ?thesis
    by (simp add: getIndexedRules_def)
qed

lemma resource_lookups [lookup_specs]:
  "finds (GetSkillAccessRulesForSelector idx ns k) {r \<in> set store. live_in ns r \<and> k \<in> set (skill_resource_ids SkillResourceTypeSelector r)}"
  "finds (GetSkillAccessRulesForRepository idx ns k) {r \<in> set store. live_in ns r \<and> k \<in> set (skill_resource_ids SkillResourceTypeSkillRepository r)}"
  "finds (GetSkillAccessRulesForSkill idx ns k) {r \<in> set store. live_in ns r \<and> k \<in> set (skill_resource_ids SkillResourceTypeSkill r)}"
  unfolding GetSkillAccessRulesForSelector_def GetSkillAccessRulesForRepository_def GetSkillAccessRulesForSkill_def
  by (rule finds_indexed, simp add: skill_index_funcs_def skill_index_defs)+

lemma subject_lookups [lookup_specs]:
  "finds (GetSkillAccessRulesForSubjectSelector idx ns k) {r \<in> set store. live_in ns r \<and> k \<in> set (skill_subject_ids SubjectTypeSelector r)}"
  "finds (GetSkillAccessRulesForUser idx ns k) {r \<in> set store. live_in ns r \<and> k \<in> set (skill_subject_ids SubjectTypeUser r)}"
  "finds (GetSkillAccessRulesForGroup idx ns k) {r \<in> set store. live_in ns r \<and> k \<in> set (skill_subject_ids SubjectTypeGroup r)}"
  "finds (getIndexedRules idx ns ObotGroupIDIndex k) {r \<in> set store. live_in ns r \<and> k \<in> set (skill_subject_ids SubjectTypeObotGroup r)}"
  unfolding GetSkillAccessRulesForSubjectSelector_def GetSkillAccessRulesForUser_def GetSkillAccessRulesForGroup_def
  by (rule finds_indexed, simp add: skill_index_funcs_def skill_index_defs)+

lemma skill_decision:
  assumes "skillID \<noteq> [] \<or> repoID \<noteq> []"
  shows "UserHasAccessToSkillID idx user skillID repoID = Inr (sar_granted store (principal_of user) skillID repoID)"
proof -
  obtain sel where sel: "GetSkillAccessRulesForSelector idx DefaultNamespace ''*'' = Inr sel"
      "set sel = {r \<in> set store. live_in DefaultNamespace r \<and> ''*'' \<in> set (skill_resource_ids SkillResourceTypeSelector r)}"
    using resource_lookups(1) unfolding finds_def by blast
  obtain rep where rep: "GetSkillAccessRulesForRepository idx DefaultNamespace repoID = Inr rep"
      "set rep = {r \<in> set store. live_in DefaultNamespace r \<and> repoID \<in> set (skill_resource_ids SkillResourceTypeSkillRepository r)}"
    using resource_lookups(2) unfolding finds_def by blast
  obtain ski where ski: "GetSkillAccessRulesForSkill idx DefaultNamespace skillID = Inr ski"
      "set ski = {r \<in> set store. live_in DefaultNamespace r \<and> skillID \<in> set (skill_resource_ids SkillResourceTypeSkill r)}"
    using resource_lookups(3) unfolding finds_def by blast
  let ?m = "list_ex (sar_matches (principal_of user))"
  have "UserHasAccessToSkillID idx user skillID repoID = Inr (?m sel \<or> (repoID \<noteq> [] \<and> ?m rep) \<or> (skillID \<noteq> [] \<and> ?m ski))"
    using assms sel(1) rep(1) ski(1) hasMatchingSubject_iff [OF Sets_principal, of _ user]
    by (auto simp: UserHasAccessToSkillID_def Sets_principal Let_def)
  moreover have "(?m sel \<or> (repoID \<noteq> [] \<and> ?m rep) \<or> (skillID \<noteq> [] \<and> ?m ski)) \<longleftrightarrow>
      sar_granted store (principal_of user) skillID repoID"
    unfolding sar.any_match sel(2) rep(2) ski(2) sar_granted_def user_rules_def includes_skill_def
      SkillResource_IsWildcard_def in_skill_resource_ids
    by blast
  ultimately show ?thesis by simp
qed

text \<open>The rules collected for a user are all the live rules with a subject that covers the user.\<close>

lemma collected_rules:
  assumes names: "inj_on Name {r \<in> set store. live_in DefaultNamespace r}"
    and valid: "\<And>r s. r \<in> set store \<Longrightarrow> s \<in> set (sarSubjects r) \<Longrightarrow> Subject_Validate s = Inr ()"
  shows "finds (getRulesForUser idx DefaultNamespace user) (user_rules store (principal_of user))"
proof -
  let ?live = "{r \<in> set store. live_in DefaultNamespace r}"
  let ?by = "\<lambda>t k. {r \<in> set store. live_in DefaultNamespace r \<and> k \<in> set (skill_subject_ids t r)}"
  let ?u = "principal_of user"
  obtain sel where sel: "GetSkillAccessRulesForSubjectSelector idx DefaultNamespace ''*'' = Inr sel"
      "set sel = ?by SubjectTypeSelector ''*''"
    using subject_lookups(1) unfolding finds_def by blast
  obtain usr where usr: "GetSkillAccessRulesForUser idx DefaultNamespace (GetUID ?u) = Inr usr"
      "set usr = ?by SubjectTypeUser (GetUID ?u)"
    using subject_lookups(2) unfolding finds_def by blast
  define acc where "acc = (if GetUID ?u = [] then append_unseen Name [] sel
                           else append_unseen Name (append_unseen Name [] sel) usr)"
  have sel_set: "set (append_unseen Name [] sel) = set sel"
    using set_append_unseen [OF names, of "[]" sel] sel(2) by auto
  have acc_set: "set acc = ?by SubjectTypeSelector ''*'' \<union> (if GetUID ?u = [] then {} else ?by SubjectTypeUser (GetUID ?u))"
    using set_append_unseen [OF names, of "append_unseen Name [] sel" usr] sel_set sel(2) usr(2)
    by (auto simp: acc_def)
  have "\<exists>rs. collect Name (GetSkillAccessRulesForGroup idx DefaultNamespace) gs acc = Inr rs \<and>
        set rs = set acc \<union> (\<Union>k\<in>set gs. ?by SubjectTypeGroup k)" for gs
    by (rule collect_finds [OF names]) (use acc_set subject_lookups(3) in \<open>auto simp: finds_def\<close>)
  then obtain rs1 where rs1:
      "collect Name (GetSkillAccessRulesForGroup idx DefaultNamespace) (GetExtra ?u ''auth_provider_groups'') acc = Inr rs1"
      "set rs1 = set acc \<union> (\<Union>k\<in>set (GetExtra ?u ''auth_provider_groups''). ?by SubjectTypeGroup k)" by blast
  have "\<exists>rs. collect Name (getIndexedRules idx DefaultNamespace ObotGroupIDIndex) gs rs1 = Inr rs \<and>
        set rs = set rs1 \<union> (\<Union>k\<in>set gs. ?by SubjectTypeObotGroup k)" for gs
    by (rule collect_finds [OF names]) (use acc_set rs1(2) subject_lookups(4) in \<open>auto simp: finds_def\<close>)
  then obtain rs2 where rs2:
      "collect Name (getIndexedRules idx DefaultNamespace ObotGroupIDIndex) (GetExtra ?u ''obot_groups'') rs1 = Inr rs2"
      "set rs2 = set rs1 \<union> (\<Union>k\<in>set (GetExtra ?u ''obot_groups''). ?by SubjectTypeObotGroup k)" by blast
  have "getRulesForUser idx DefaultNamespace user = Inr rs2"
    using sel(1) usr(1) rs1(1) rs2(1)
    by (auto simp: getRulesForUser_def Sets_principal acc_def principal_of_def split: option.splits if_splits)
  moreover have "set rs2 = user_rules store ?u"
  proof -
    have "user_rules store ?u = {r \<in> set store. live_in DefaultNamespace r \<and> (
        ''*'' \<in> set (skill_subject_ids SubjectTypeSelector r)
      \<or> (GetUID ?u \<noteq> [] \<and> GetUID ?u \<in> set (skill_subject_ids SubjectTypeUser r))
      \<or> (\<exists>k\<in>set (GetExtra ?u ''auth_provider_groups''). k \<in> set (skill_subject_ids SubjectTypeGroup r))
      \<or> (\<exists>k\<in>set (GetExtra ?u ''obot_groups''). k \<in> set (skill_subject_ids SubjectTypeObotGroup r)))}"
      unfolding user_rules_def by (intro Collect_cong conj_cong refl covered_by_ids valid)
    then show ?thesis
      unfolding rs2(2) rs1(2) acc_set by auto
  qed
  ultimately show ?thesis by (simp add: finds_def)
qed

lemma scope_decides:
  assumes "inj_on Name {r \<in> set store. live_in DefaultNamespace r}"
    and "\<And>r s. r \<in> set store \<Longrightarrow> s \<in> set (sarSubjects r) \<Longrightarrow> Subject_Validate s = Inr ()"
  shows "\<exists>all repos skills. GetUserSkillAccessScope idx user = Inr (all, repos, skills) \<and>
    (\<forall>skillID repoID. skillID \<noteq> [] \<or> repoID \<noteq> [] \<longrightarrow>
       UserHasAccessToSkillID idx user skillID repoID = Inr (all \<or> repoID \<in> set repos \<or> skillID \<in> set skills))"
proof -
  have "finds (getRulesForUser idx DefaultNamespace user) (user_rules store (principal_of user))"
    by (rule collected_rules) (use assms in blast)+
  then obtain rules where rules: "getRulesForUser idx DefaultNamespace user = Inr rules"
      "set rules = user_rules store (principal_of user)"
    by (auto simp: finds_def)
  obtain all repos skills where scope: "scope_loop (concat (map sarResources rules)) [] [] = (all, repos, skills)"
    by (metis prod_cases3)
  have "UserHasAccessToSkillID idx user skillID repoID = Inr (all \<or> repoID \<in> set repos \<or> skillID \<in> set skills)"
    if "skillID \<noteq> [] \<or> repoID \<noteq> []" for skillID repoID
    using skill_decision [OF that] scope_loop_decides [OF scope that] rules(2)
    by (simp add: sar_granted_def)
  with rules(1) scope show ?thesis by (auto simp: GetUserSkillAccessScope_def)
qed

end

interpretation skill_list: skill_informer "list_indexer skill_index_funcs store" store for store
  by unfold_locales (rule list_indexer_ok)

section \<open>Validation\<close>

lemma validate_subjects_Inr:
  "validate_subjects n seen ss = Inr () \<longleftrightarrow>
    (\<forall>s\<in>set ss. Subject_Validate s = Inr () \<and> \<not> (SubjID s = ''*'' \<and> n > 1)) \<and> distinct ss \<and> set ss \<inter> set seen = {}"
  by (induction n seen ss rule: validate_subjects.induct) (auto simp: andThen_eq_Inr)

lemma validate_skill_resources_Inr:
  "validate_skill_resources n seen rs = Inr () \<longleftrightarrow>
    (\<forall>r\<in>set rs. SkillResource_Validate r = Inr () \<and> \<not> (SkillResource_IsWildcard r \<and> n > 1))
      \<and> distinct rs \<and> set rs \<inter> set seen = {}"
  by (induction n seen rs rule: validate_skill_resources.induct) (auto simp: andThen_eq_Inr)

lemma valid_manifest_subjects:
  "SkillAccessRuleManifest_Validate subjects resources = Inr () \<Longrightarrow> s \<in> set subjects \<Longrightarrow> Subject_Validate s = Inr ()"
  by (auto simp: SkillAccessRuleManifest_Validate_def andThen_eq_Inr validate_subjects_Inr split: if_splits)

section \<open>Properties\<close>

text \<open>
  C31: the two routes of the skill helper agree. For stored rules that passed validation and have
  distinct names, the scope of a user is computed without error, and this one scope decides every
  skill: the decision on a skill of a repository is that the scope is everything, or holds the
  repository, or holds the skill.
\<close>

theorem skill_scope_agrees:
  assumes "indexer_ok idx skill_index_funcs store"
    and "inj_on Name {r \<in> set store. live_in DefaultNamespace r}"
    and "\<forall>r\<in>set store. SkillAccessRuleManifest_Validate (sarSubjects r) (sarResources r) = Inr ()"
  shows "\<exists>all repos skills. GetUserSkillAccessScope idx user = Inr (all, repos, skills) \<and>
    (\<forall>skillID repoID. skillID \<noteq> [] \<or> repoID \<noteq> [] \<longrightarrow>
       UserHasAccessToSkillID idx user skillID repoID = Inr (all \<or> repoID \<in> set repos \<or> skillID \<in> set skills))"
  using assms valid_manifest_subjects
  by (intro skill_informer.scope_decides [OF skill_informer.intro]) blast+

definition example_skill_rule :: SkillAccessRule where
  "example_skill_rule = \<lparr>Name = ''sar1'', Namespace = ''default'', DeletionTimestamp = None, CreationTimestamp = 0,
     sarSubjects = [\<lparr>SubjType = SubjectTypeUser, SubjID = ''7''\<rparr>],
     sarResources = [\<lparr>SkResType = SkillResourceTypeSkillRepository, SkResID = ''repo1''\<rparr>]\<rparr>"

theorem skill_scope_agrees_witness:
  "\<exists>all repos skills. GetUserSkillAccessScope (list_indexer skill_index_funcs [example_skill_rule]) None = Inr (all, repos, skills) \<and>
    (\<forall>skillID repoID. skillID \<noteq> [] \<or> repoID \<noteq> [] \<longrightarrow>
       UserHasAccessToSkillID (list_indexer skill_index_funcs [example_skill_rule]) None skillID repoID
         = Inr (all \<or> repoID \<in> set repos \<or> skillID \<in> set skills))"
proof (rule skill_scope_agrees [OF list_indexer_ok])
  show "inj_on Name {r \<in> set [example_skill_rule]. live_in DefaultNamespace r}" by (simp add: inj_on_def)
  show "\<forall>r\<in>set [example_skill_rule]. SkillAccessRuleManifest_Validate (sarSubjects r) (sarResources r) = Inr ()"
    by (simp add: example_skill_rule_def SkillAccessRuleManifest_Validate_def Subject_Validate_def
        SkillResource_Validate_def SkillResource_IsWildcard_def)
qed

text \<open>
  What the validation of a skill access rule accepts: at least one subject and one resource, each
  valid by itself, none repeated, and a wildcard on either side only alone.
\<close>

theorem skill_manifest_valid_iff:
  "SkillAccessRuleManifest_Validate subjects resources = Inr () \<longleftrightarrow>
     subjects \<noteq> [] \<and> distinct subjects \<and> (\<forall>s\<in>set subjects. Subject_Validate s = Inr ())
     \<and> ((\<exists>s\<in>set subjects. SubjID s = ''*'') \<longrightarrow> length subjects = 1)
     \<and> resources \<noteq> [] \<and> distinct resources \<and> (\<forall>r\<in>set resources. SkillResource_Validate r = Inr ())
     \<and> ((\<exists>r\<in>set resources. SkillResource_IsWildcard r) \<longrightarrow> length resources = 1)"
proof -
  have len: "length xs = 1 \<longleftrightarrow> xs \<noteq> [] \<and> \<not> length xs > 1" for xs :: "'x list"
    by (cases xs) auto
  show ?thesis
    unfolding SkillAccessRuleManifest_Validate_def len
    by (auto simp: andThen_eq_Inr validate_subjects_Inr validate_skill_resources_Inr)
qed

theorem skill_manifest_valid_iff_witness:
  "SkillAccessRuleManifest_Validate [\<lparr>SubjType = SubjectTypeSelector, SubjID = ''*''\<rparr>]
       [\<lparr>SkResType = SkillResourceTypeSkill, SkResID = ''sk1''\<rparr>] = Inr ()
   \<and> SkillAccessRuleManifest_Validate
       [\<lparr>SubjType = SubjectTypeSelector, SubjID = ''*''\<rparr>, \<lparr>SubjType = SubjectTypeUser, SubjID = ''7''\<rparr>]
       [\<lparr>SkResType = SkillResourceTypeSkill, SkResID = ''sk1''\<rparr>] \<noteq> Inr ()"
  unfolding skill_manifest_valid_iff
  by (simp add: Subject_Validate_def SkillResource_Validate_def SkillResource_IsWildcard_def)

end
