(* ===== verification/Model_Access_Policy.thy ===== *)
theory Model_Access_Policy
  imports Subjects Roles "HOL-Library.AList"
begin

text \<open>
  Model access policies, the profiles of the LLM gateway (pkg/modelaccesspolicy, pkg/llm/modelnames.go,
  pkg/alias/get.go, apiclient/types/modelaccesspolicy.go and defaultmodelalias.go). A policy grants its
  subjects models by ID, by a default alias, by a prefix pattern, or all eligible models. The theory
  holds the grant computation, the access decisions built on it, the resolution of the model
  names clients send, and the creation of the profiles that must exist. The informer indexes and the
  storage client are parameters. Go maps that the code ranges over are association lists.
\<close>

section \<open>Data\<close>

record ModelResource =
  mrID :: string

record ModelAccessPolicy = object_meta +
  mapSubjects :: "Subject list"
  mapModels :: "ModelResource list"

record Model = object_meta +
  mdlName :: string
  TargetModel :: string
  ModelProvider :: string
  Active :: bool
  Usage :: string
  Dialect :: string

record DefaultModelAlias = object_meta +
  dmaAlias :: string
  dmaModel :: string

definition ModelPrefix :: string where "ModelPrefix = ''m1''"

definition IsModelID :: "string \<Rightarrow> bool" where
  "IsModelID i = HasPrefix i ModelPrefix"

definition DefaultModelAliasTypeUnknown :: string where "DefaultModelAliasTypeUnknown = ''unknown''"

definition DefaultModelAliasTypeFromString :: "string \<Rightarrow> string" where
  "DefaultModelAliasTypeFromString str =
    (if str \<in> {''text-embedding'', ''llm'', ''llm-mini'', ''image-generation'', ''vision'', ''unknown''}
     then str else DefaultModelAliasTypeUnknown)"

definition ModelResource_IsWildcard :: "ModelResource \<Rightarrow> bool" where
  "ModelResource_IsWildcard m = (mrID m = ''*'')"

definition IsDefaultModelAliasRef :: "ModelResource \<Rightarrow> string option" where
  "IsDefaultModelAliasRef m = CutPrefix (mrID m) ''obot://''"

definition IsWildcardSuffix :: "ModelResource \<Rightarrow> string option" where
  "IsWildcardSuffix m =
    (case CutSuffix (mrID m) ''*'' of
       None \<Rightarrow> None
     | Some prefix \<Rightarrow> if prefix = [] \<or> CHR ''*'' \<in> set prefix then None else Some prefix)"

definition MatchesTargetModel :: "ModelResource \<Rightarrow> string \<Rightarrow> bool" where
  "MatchesTargetModel m targetModel =
    (case IsWildcardSuffix m of
       None \<Rightarrow> False
     | Some prefix \<Rightarrow>
         if HasPrefix targetModel prefix then True
         else (case Cut targetModel (CHR ''/'') of
                 None \<Rightarrow> False
               | Some (_, native) \<Rightarrow> CHR ''/'' \<notin> set prefix \<and> HasPrefix native prefix))"

definition ModelResource_Validate :: "ModelResource \<Rightarrow> unit result" where
  "ModelResource_Validate m =
    (if mrID m = [] then Inl (Invalid ''model resource ID is required'')
     else (case IsDefaultModelAliasRef m of
       Some alias \<Rightarrow>
         if DefaultModelAliasTypeFromString alias = DefaultModelAliasTypeUnknown
         then Inl (Invalid ''unknown model alias type reference'') else Inr ()
     | None \<Rightarrow>
         if CHR ''*'' \<in> set (mrID m) \<and> \<not> ModelResource_IsWildcard m \<and> IsWildcardSuffix m = None
         then Inl (Invalid ''wildcard (*) is only allowed as the sole entry or as a trailing wildcard suffix'')
         else (case IsWildcardSuffix m of
           Some prefix \<Rightarrow> if prefix \<noteq> TrimSpace prefix
             then Inl (Invalid ''wildcard suffix pattern prefix must not begin or end with whitespace'') else Inr ()
         | None \<Rightarrow> Inr ())))"

fun validate_policy_subjects :: "nat \<Rightarrow> Subject list \<Rightarrow> Subject list \<Rightarrow> unit result" where
  "validate_policy_subjects n seen [] = Inr ()"
| "validate_policy_subjects n seen (s # ss) =
    andThen (Subject_Validate s) (\<lambda>_.
      if SubjID s = ''*'' \<and> n > 1 then Inl (Invalid ''wildcard subject (*) must be the only subject'')
      else if s \<in> set seen then Inl (Invalid (''duplicate subject: '' @ SubjID s))
      else validate_policy_subjects n (s # seen) ss)"

fun validate_policy_models :: "nat \<Rightarrow> ModelResource list \<Rightarrow> ModelResource list \<Rightarrow> unit result" where
  "validate_policy_models n seen [] = Inr ()"
| "validate_policy_models n seen (m # ms) =
    andThen (ModelResource_Validate m) (\<lambda>_.
      if ModelResource_IsWildcard m \<and> n > 1 then Inl (Invalid ''wildcard model (*) must be the only model'')
      else if m \<in> set seen then Inl (Invalid (''duplicate model '' @ mrID m))
      else validate_policy_models n (m # seen) ms)"

definition ModelAccessPolicyManifest_Validate :: "Subject list \<Rightarrow> ModelResource list \<Rightarrow> unit result" where
  "ModelAccessPolicyManifest_Validate subjects models =
    (if subjects = [] then Inl (Invalid ''at least one subject is required'')
     else andThen (validate_policy_subjects (length subjects) [] subjects)
            (\<lambda>_. validate_policy_models (length models) [] models))"

text \<open>Eligibility (validation.go).\<close>

definition IsAllowedModelUsage :: "string \<Rightarrow> bool" where
  "IsAllowedModelUsage usage = (usage = ''llm'')"

definition IsAllowedDefaultModelAlias :: "string \<Rightarrow> bool" where
  "IsAllowedDefaultModelAlias alias =
    (let aliasType = DefaultModelAliasTypeFromString alias in aliasType = ''llm'' \<or> aliasType = ''llm-mini'')"

definition ValidateModelResource :: "(string \<Rightarrow> string \<Rightarrow> Model result) \<Rightarrow> string \<Rightarrow> ModelResource \<Rightarrow> unit result" where
  "ValidateModelResource get namespace resource =
    (case IsDefaultModelAliasRef resource of
       Some alias \<Rightarrow> if IsAllowedDefaultModelAlias alias then Inr () else Inl (Invalid ''must reference default model alias'')
     | None \<Rightarrow>
         if ModelResource_IsWildcard resource then Inr ()
         else if IsWildcardSuffix resource \<noteq> None then Inr ()
         else if \<not> IsModelID (mrID resource) then Inl (Invalid ''must reference a valid model ID'')
         else andThen (get namespace (mrID resource)) (\<lambda>model.
           if \<not> IsAllowedModelUsage (Usage model) then Inl (Invalid ''must have a usage type of llm'') else Inr ()))"

fun ValidateModelResources :: "(string \<Rightarrow> string \<Rightarrow> Model result) \<Rightarrow> string \<Rightarrow> ModelResource list \<Rightarrow> unit result" where
  "ValidateModelResources get namespace [] = Inr ()"
| "ValidateModelResources get namespace (r # rs) =
    andThen (ValidateModelResource get namespace r) (\<lambda>_. ValidateModelResources get namespace rs)"

section \<open>Indexes\<close>

definition mapSubjectIndexFunc :: "SubjectType \<Rightarrow> ModelAccessPolicy \<Rightarrow> string list" where
  "mapSubjectIndexFunc subjectType policy =
    (if DeletionTimestamp policy \<noteq> None then []
     else map SubjID (filter (\<lambda>s. SubjType s = subjectType) (mapSubjects policy)))"

definition dmaModelIndexFunc :: "DefaultModelAlias \<Rightarrow> string list" where
  "dmaModelIndexFunc dma =
    (if DeletionTimestamp dma \<noteq> None \<or> \<not> IsModelID (dmaModel dma)
        \<or> DefaultModelAliasTypeFromString (dmaAlias dma) = DefaultModelAliasTypeUnknown
        \<or> Name dma \<noteq> dmaAlias dma
     then [] else [dmaAlias dma @ ''/'' @ dmaModel dma])"

definition modelProviderTargetKey :: "string \<Rightarrow> string \<Rightarrow> string" where
  "modelProviderTargetKey provider targetModel = provider @ ''/'' @ targetModel"

definition modelProviderIndexFunc :: "Model \<Rightarrow> string list" where
  "modelProviderIndexFunc model =
    (let provider = ModelProvider model; target = TargetModel model
     in if DeletionTimestamp model \<noteq> None \<or> \<not> Active model \<or> provider = [] \<or> target = [] then []
        else [provider, modelProviderTargetKey provider target])"

definition map_index_funcs :: "ModelAccessPolicy index_funcs" where
  "map_index_funcs =
    [''user-id'' \<mapsto> mapSubjectIndexFunc SubjectTypeUser,
     ''group-id'' \<mapsto> mapSubjectIndexFunc SubjectTypeGroup,
     ''obot-group-id'' \<mapsto> mapSubjectIndexFunc SubjectTypeObotGroup,
     ''selector-id'' \<mapsto> mapSubjectIndexFunc SubjectTypeSelector]"

definition model_index_funcs :: "Model index_funcs" where
  "model_index_funcs = [''model-provider'' \<mapsto> modelProviderIndexFunc]"

text \<open>
  The helper: the two indexers it queries by key, the list of all models in the cache
  (\<open>Indexer.List\<close>) and the values of the alias index (\<open>Indexer.ListIndexFuncValues\<close>).
\<close>

record map_helper =
  mapIndexer :: "ModelAccessPolicy indexer"
  modelIndexer :: "Model indexer"
  modelList :: "Model list"
  dmaValues :: "string list"

section \<open>Grants\<close>

record modelGrants =
  aliasModels :: "(string \<times> string) list"
  eligibleModels :: "(string \<times> Model) list"

definition getAliasModels :: "map_helper \<Rightarrow> (string \<times> string) list" where
  "getAliasModels h =
    fold (\<lambda>v aliasModelIDs. case Cut v (CHR ''/'') of
            None \<Rightarrow> aliasModelIDs
          | Some (alias, model) \<Rightarrow>
              if \<not> IsModelID model \<or> DefaultModelAliasTypeFromString alias = DefaultModelAliasTypeUnknown
              then aliasModelIDs else AList.update alias model aliasModelIDs) (dmaValues h) []"

definition newModelGrants :: "map_helper \<Rightarrow> modelGrants" where
  "newModelGrants h =
    \<lparr>aliasModels = getAliasModels h,
     eligibleModels = fold (\<lambda>model g. if \<not> IsAllowedModelUsage (Usage model) then g
                                       else AList.update (Name model) model g) (modelList h) []\<rparr>"

text \<open>\<open>allowed\<close> is the list of the IDs mapped to true.\<close>

definition addModel :: "modelGrants \<Rightarrow> ModelResource \<Rightarrow> string list \<Rightarrow> string list" where
  "addModel g resource allowed =
    (let addID = (\<lambda>modelID. if IsModelID modelID \<and> map_of (eligibleModels g) modelID \<noteq> None
                            then List.insert modelID allowed else allowed)
     in if ModelResource_IsWildcard resource
        then fold (\<lambda>(modelID, _). List.insert modelID) (eligibleModels g) allowed
        else case IsDefaultModelAliasRef resource of
          Some alias \<Rightarrow>
            if \<not> IsAllowedDefaultModelAlias alias then allowed
            else addID (case map_of (aliasModels g) alias of Some m \<Rightarrow> m | None \<Rightarrow> [])
        | None \<Rightarrow>
            if IsWildcardSuffix resource \<noteq> None
            then fold (\<lambda>(i, model) a. if MatchesTargetModel resource (TargetModel model) then List.insert i a else a)
                   (eligibleModels g) allowed
            else addID (mrID resource))"

definition addPolicyModels :: "modelGrants \<Rightarrow> ModelAccessPolicy \<Rightarrow> string list \<Rightarrow> string list" where
  "addPolicyModels g policy allowed = fold (addModel g) (mapModels policy) allowed"

section \<open>Policies of a user\<close>

definition getIndexedPolicies :: "map_helper \<Rightarrow> string \<Rightarrow> string \<Rightarrow> ModelAccessPolicy list result" where
  "getIndexedPolicies h index key = andThen (mapIndexer h index key) (\<lambda>policies. Inr policies)"

definition getUserPolicies :: "map_helper \<Rightarrow> string \<Rightarrow> ModelAccessPolicy list result" where
  "getUserPolicies h userID = getIndexedPolicies h ''user-id'' userID"

definition getGroupPolicies :: "map_helper \<Rightarrow> string \<Rightarrow> ModelAccessPolicy list result" where
  "getGroupPolicies h groupID = getIndexedPolicies h ''group-id'' groupID"

definition getWildcardUserPolicies :: "map_helper \<Rightarrow> ModelAccessPolicy list result" where
  "getWildcardUserPolicies h = getIndexedPolicies h ''selector-id'' ''*''"

text \<open>
  As for the skill rules, Go iterates the group sets in an unspecified order and the model in the
  order of the user's attribute lists; the results below speak of the set of policies found.
\<close>

definition UserPolicies :: "map_helper \<Rightarrow> user_info \<Rightarrow> ModelAccessPolicy list result" where
  "UserPolicies h user =
    andThen (getWildcardUserPolicies h) (\<lambda>everyone.
    andThen (getUserPolicies h (GetUID user)) (\<lambda>own.
    let result = append_unseen Name (append_unseen Name [] everyone) own;
        (groups, obotGroups) = Sets (Some user)
    in andThen (collect Name (getGroupPolicies h) groups result) (\<lambda>result'.
       collect Name (getIndexedPolicies h ''obot-group-id'') obotGroups result')))"

section \<open>Decisions\<close>

definition GetUserAllowedModels :: "map_helper \<Rightarrow> user_info \<Rightarrow> (string list \<times> bool) result" where
  "GetUserAllowedModels h user =
    andThen (UserPolicies h user) (\<lambda>policies.
      Inr (fold (addPolicyModels (newModelGrants h)) policies [], False))"

definition UserHasAccessToModel :: "map_helper \<Rightarrow> user_info \<Rightarrow> string \<Rightarrow> bool result" where
  "UserHasAccessToModel h user modelID =
    andThen (GetUserAllowedModels h user) (\<lambda>(allowedModels, allowAll). Inr (allowAll \<or> modelID \<in> set allowedModels))"

definition PolicyAllowedModels :: "map_helper \<Rightarrow> ModelAccessPolicy \<Rightarrow> string list" where
  "PolicyAllowedModels h policy = addPolicyModels (newModelGrants h) policy []"

definition UserProfileIDsForModel :: "map_helper \<Rightarrow> user_info \<Rightarrow> string \<Rightarrow> string list result" where
  "UserProfileIDsForModel h user modelID =
    andThen (UserPolicies h user) (\<lambda>policies.
      Inr (map Name (filter (\<lambda>policy. modelID \<in> set (addPolicyModels (newModelGrants h) policy [])) policies)))"

definition UserProfileIDs :: "map_helper \<Rightarrow> user_info \<Rightarrow> string list result" where
  "UserProfileIDs h user = andThen (UserPolicies h user) (\<lambda>policies. Inr (map Name policies))"

text \<open>\<open>None\<close> is the nil map, which the caller reads as no restriction when \<open>allowAll\<close> is set.\<close>

definition GetUserAllowedTargetModels ::
  "map_helper \<Rightarrow> user_info \<Rightarrow> string \<Rightarrow> string \<Rightarrow> (string list option \<times> bool) result" where
  "GetUserAllowedTargetModels h user provider dialect =
    andThen (GetUserAllowedModels h user) (\<lambda>(allowedModels, allowAll).
      if allowAll \<and> dialect = [] then Inr (None, True)
      else andThen (modelIndexer h ''model-provider'' provider) (\<lambda>objs.
        Inr (Some (fold (\<lambda>m allowed.
                     if dialect \<noteq> [] \<and> Dialect m \<noteq> dialect then allowed
                     else if allowAll \<or> Name m \<in> set allowedModels then List.insert (TargetModel m) allowed
                     else allowed) objs []), False)))"

section \<open>Resolving model names\<close>

text \<open>The loop that keeps the most recently created model.\<close>

definition newest_of :: "Model list \<Rightarrow> Model option" where
  "newest_of objs =
    fold (\<lambda>m newest. case newest of
            None \<Rightarrow> Some m
          | Some n \<Rightarrow> if CreationTimestamp m > CreationTimestamp n then Some m else Some n) objs None"

definition resolveTargetModel :: "map_helper \<Rightarrow> string \<Rightarrow> string \<Rightarrow> Model result" where
  "resolveTargetModel h provider targetModel =
    andThen (modelIndexer h ''model-provider'' (modelProviderTargetKey provider targetModel)) (\<lambda>objs.
      case newest_of objs of None \<Rightarrow> Inl (NotFound ''model'' targetModel) | Some m \<Rightarrow> Inr m)"

definition ResolveTargetModel :: "map_helper \<Rightarrow> string \<Rightarrow> string \<Rightarrow> Model result" where
  "ResolveTargetModel h provider target =
    andThen (modelIndexer h ''model-provider'' provider) (\<lambda>objs.
      case newest_of (filter (\<lambda>m. TargetModel m = target) objs) of
        None \<Rightarrow> Inl (NotFound ''model'' target) | Some m \<Rightarrow> Inr m)"

text \<open>pkg/llm/modelnames.go.\<close>

definition firstPartyProviders :: "string list" where
  "firstPartyProviders = [''openai'', ''anthropic'', ''gemini'', ''mistral'', ''cohere'', ''xai'', ''deepseek'']"

definition IsFirstPartyProvider :: "string \<Rightarrow> bool" where
  "IsFirstPartyProvider provider = (provider \<in> set firstPartyProviders)"

definition DatedVersionOf :: "string \<Rightarrow> string \<Rightarrow> string option" where
  "DatedVersionOf alias i =
    (case CutPrefix i (alias @ ''-'') of
       None \<Rightarrow> None
     | Some date \<Rightarrow>
         if length date \<noteq> 8 then None
         else if list_ex (\<lambda>c. c < CHR ''0'' \<or> c > CHR ''9'') date then None
         else Some date)"

record candidate =
  cModel :: Model
  cUsable :: bool
  cExact :: bool
  cFirstParty :: bool
  cDate :: string

definition better :: "candidate \<Rightarrow> candidate \<Rightarrow> bool" where
  "better a b =
    (if cUsable a \<noteq> cUsable b then cUsable a
     else if cFirstParty a \<noteq> cFirstParty b then cFirstParty a
     else if cExact a \<noteq> cExact b then cExact a
     else if cDate a \<noteq> cDate b then cDate a > cDate b
     else CreationTimestamp (cModel a) > CreationTimestamp (cModel b))"

text \<open>The candidate a model gives for a name: \<open>None\<close> where the loop continues. \<open>usable\<close> may be nil.\<close>

definition candidate_of :: "string \<Rightarrow> (Model \<Rightarrow> bool) option \<Rightarrow> Model \<Rightarrow> candidate option" where
  "candidate_of name usable m =
    (let (wantUpstream, wantID, qualified) =
           (case Cut name (CHR ''/'') of Some (a, b) \<Rightarrow> (a, b, True) | None \<Rightarrow> ([], name, False))
     in case Cut (TargetModel m) (CHR ''/'') of
          None \<Rightarrow> None
        | Some (upstream, i) \<Rightarrow>
            if qualified \<and> upstream \<noteq> wantUpstream then None
            else let mk = (\<lambda>exact date. Some \<lparr>cModel = m,
                             cUsable = (case usable of None \<Rightarrow> True | Some f \<Rightarrow> f m),
                             cExact = exact, cFirstParty = IsFirstPartyProvider upstream, cDate = date\<rparr>)
                 in if i = wantID then mk True []
                    else (case DatedVersionOf wantID i of None \<Rightarrow> None | Some date \<Rightarrow> mk False date))"

definition keep_best :: "candidate \<Rightarrow> candidate option \<Rightarrow> candidate option" where
  "keep_best c best = (case best of None \<Rightarrow> Some c | Some b \<Rightarrow> if better c b then Some c else Some b)"

definition ResolveUpstreamModelName ::
  "map_helper \<Rightarrow> string \<Rightarrow> string \<Rightarrow> (Model \<Rightarrow> bool) option \<Rightarrow> Model result" where
  "ResolveUpstreamModelName h provider name usable =
    andThen (modelIndexer h ''model-provider'' provider) (\<lambda>objs.
      case fold (\<lambda>m best. case candidate_of name usable m of None \<Rightarrow> best | Some c \<Rightarrow> keep_best c best) objs None of
        None \<Rightarrow> Inl (NotFound ''model'' name)
      | Some best \<Rightarrow> Inr (cModel best))"

section \<open>Aliases\<close>

text \<open>
  pkg/alias/get.go. The client is a pair of parameters, one typed for \<open>Alias\<close> objects and one for
  objects of a kind given by name; \<open>hashed\<close> stands for \<open>hash.String(name.SafeHashConcatName(id, scope))\<close>,
  and \<open>knownKind\<close> for the kinds the scheme can instantiate.
\<close>

record Alias = object_meta +
  TargetName :: string
  TargetNamespace :: string
  TargetKind :: string

datatype kobject = KModel Model | KDefaultModelAlias DefaultModelAlias | KOther string

record kube_reader =
  getAlias :: "string \<Rightarrow> string \<Rightarrow> Alias result"
  getObject :: "string \<Rightarrow> string \<Rightarrow> string \<Rightarrow> kobject result"
  knownKind :: "string \<Rightarrow> bool"
  hashed :: "string \<Rightarrow> string \<Rightarrow> string"

definition KeyFromScopeID :: "kube_reader \<Rightarrow> string \<Rightarrow> string \<Rightarrow> string" where
  "KeyFromScopeID c scope i = ''al1'' @ take 8 (hashed c i scope)"

definition Alias_Get :: "kube_reader \<Rightarrow> string \<Rightarrow> string \<Rightarrow> string \<Rightarrow> string \<Rightarrow> kobject result" where
  "Alias_Get c kind scope namespace name =
    (let viaAlias = (\<lambda>errLookup. case getAlias c [] (KeyFromScopeID c scope name) of
            Inl e \<Rightarrow> if IsNotFound e then Inl errLookup else Inl e
          | Inr a \<Rightarrow> if TargetKind a \<noteq> kind then Inl errLookup
                      else getObject c kind (TargetNamespace a) (TargetName a))
     in if namespace = [] then viaAlias (NotFound kind name)
        else case getObject c kind namespace name of
          Inr obj \<Rightarrow> Inr obj
        | Inl e \<Rightarrow> if \<not> IsNotFound e then Inl e else viaAlias e)"

definition GetFromScope :: "kube_reader \<Rightarrow> string \<Rightarrow> string \<Rightarrow> string \<Rightarrow> kobject result" where
  "GetFromScope c scope namespace name =
    (if \<not> knownKind c scope then Inl (NotFound scope name)
     else case getAlias c [] (KeyFromScopeID c scope name) of
       Inl e \<Rightarrow> if IsNotFound e then getObject c scope namespace name else Inl e
     | Inr a \<Rightarrow> if \<not> knownKind c (TargetKind a) then Inl (NotFound (TargetKind a) name)
                 else getObject c (TargetKind a) (TargetNamespace a) (TargetName a))"

text \<open>\<open>invalidSegment\<close> is \<open>len(rest.IsValidPathSegmentName(reference)) != 0\<close>.\<close>

definition ResolveModelReference ::
  "map_helper \<Rightarrow> kube_reader \<Rightarrow> (string \<Rightarrow> bool) \<Rightarrow> string \<Rightarrow> string \<Rightarrow> string \<Rightarrow> Model result" where
  "ResolveModelReference h c invalidSegment namespace provider reference =
    (let active = (\<lambda>model. if \<not> Active model then Inl (Invalid ''model is not active'') else Inr model)
     in if invalidSegment reference then resolveTargetModel h provider reference
        else case GetFromScope c ''Model'' namespace reference of
          Inl e \<Rightarrow> if IsNotFound e then resolveTargetModel h provider reference else Inl e
        | Inr (KDefaultModelAlias a) \<Rightarrow>
            if dmaModel a = [] then Inl (Invalid ''default model alias is not configured'')
            else andThen (Alias_Get c ''Model'' ''Model'' namespace (dmaModel a)) (\<lambda>obj.
                   case obj of KModel model \<Rightarrow> active model | _ \<Rightarrow> Inl (Unavailable ''unexpected kind''))
        | Inr (KModel model) \<Rightarrow> active model
        | Inr (KOther _) \<Rightarrow> resolveTargetModel h provider reference)"

section \<open>Profiles that must exist\<close>

text \<open>
  profiles.go. The storage client is a pair of parameters over a store of type \<open>'s\<close>: \<open>list\<close> returns the
  policies of the default namespace, \<open>create\<close> an optional error and the new store.
\<close>

definition DefaultPolicyName :: string where "DefaultPolicyName = ''map1-default''"
definition everyoneProfileName :: string where "everyoneProfileName = ''map1-everyone''"

definition everyone_subject :: Subject where
  "everyone_subject = \<lparr>SubjType = SubjectTypeSelector, SubjID = ''*''\<rparr>"

definition new_profile :: "string \<Rightarrow> Subject list \<Rightarrow> ModelResource list \<Rightarrow> ModelAccessPolicy" where
  "new_profile name subjects models =
    \<lparr>Name = name, Namespace = DefaultNamespace, DeletionTimestamp = None, CreationTimestamp = 0,
     mapSubjects = subjects, mapModels = models\<rparr>"

definition DefaultPolicy :: "ModelResource list \<Rightarrow> ModelAccessPolicy" where
  "DefaultPolicy models = new_profile DefaultPolicyName [everyone_subject] models"

definition firstStartDefaultPolicy :: ModelAccessPolicy where
  "firstStartDefaultPolicy = DefaultPolicy [\<lparr>mrID = ''obot://llm''\<rparr>, \<lparr>mrID = ''obot://llm-mini''\<rparr>]"

definition AppliesToEveryone :: "Subject list \<Rightarrow> bool" where
  "AppliesToEveryone subjects = list_ex (\<lambda>s. SubjType s = SubjectTypeSelector \<and> SubjID s = ''*'') subjects"

type_synonym 's policy_creator = "ModelAccessPolicy \<Rightarrow> 's \<Rightarrow> api_error option \<times> 's"

definition EnsureEveryoneProfile ::
  "('s \<Rightarrow> ModelAccessPolicy list result) \<Rightarrow> 's policy_creator \<Rightarrow> 's \<Rightarrow> string result \<times> 's" where
  "EnsureEveryoneProfile list create st =
    (case list st of
       Inl e \<Rightarrow> (Inl e, st)
     | Inr items \<Rightarrow>
        (let everyone = map Name (filter (\<lambda>p. DeletionTimestamp p = None \<and> AppliesToEveryone (mapSubjects p)) items)
         in if DefaultPolicyName \<in> set everyone then (Inr DefaultPolicyName, st)
            else if everyoneProfileName \<in> set everyone then (Inr everyoneProfileName, st)
            else if everyone \<noteq> [] then (Inr (hd (sort everyone)), st)
            else let profile = (if items = [] then firstStartDefaultPolicy
                                else new_profile everyoneProfileName [everyone_subject] []);
                     (err, st') = create profile st
                 in case IgnoreAlreadyExists err of
                      Some e \<Rightarrow> (Inl e, st')
                    | None \<Rightarrow> (Inr (Name profile), st')))"

definition EnsureProfiles ::
  "('s \<Rightarrow> ModelAccessPolicy list result) \<Rightarrow> 's policy_creator \<Rightarrow> 's \<Rightarrow> string list result \<times> 's" where
  "EnsureProfiles list create st =
    (case list st of
       Inl e \<Rightarrow> (Inl e, st)
     | Inr items \<Rightarrow>
         if items = []
         then let (err, st') = create firstStartDefaultPolicy st
              in case IgnoreAlreadyExists err of
                   Some e \<Rightarrow> (Inl e, st')
                 | None \<Rightarrow> (Inr [Name firstStartDefaultPolicy], st')
         else (Inr (sort (map Name (filter (\<lambda>p. DeletionTimestamp p = None) items))), st))"

definition EnsureProfile ::
  "'s policy_creator \<Rightarrow> string \<Rightarrow> Subject list \<Rightarrow> 's \<Rightarrow> api_error option \<times> 's" where
  "EnsureProfile create name subjects st =
    (let (err, st') = create (new_profile name subjects []) st in (IgnoreAlreadyExists err, st'))"

section \<open>Specification\<close>

text \<open>A policy entry selects a model: everything, an alias that points to it, a pattern, or its ID.\<close>

definition selects :: "(string \<rightharpoonup> string) \<Rightarrow> ModelResource \<Rightarrow> string \<Rightarrow> Model \<Rightarrow> bool" where
  "selects aliases r i m \<longleftrightarrow>
    ModelResource_IsWildcard r
    \<or> (\<not> ModelResource_IsWildcard r \<and>
       (case IsDefaultModelAliasRef r of
          Some alias \<Rightarrow> IsAllowedDefaultModelAlias alias \<and> aliases alias = Some i \<and> IsModelID i
        | None \<Rightarrow> if IsWildcardSuffix r \<noteq> None then MatchesTargetModel r (TargetModel m)
                   else mrID r = i \<and> IsModelID i))"

definition granted_ids :: "modelGrants \<Rightarrow> ModelResource \<Rightarrow> string set" where
  "granted_ids g r = {i. \<exists>m. (i, m) \<in> set (eligibleModels g) \<and> selects (map_of (aliasModels g)) r i m}"

lemma set_fold_insert:
  "set (fold (\<lambda>x a. if P x then List.insert (f x) a else a) xs a) = set a \<union> f ` {x \<in> set xs. P x}"
  by (induction xs arbitrary: a) auto

lemma set_addModel:
  "set (addModel g r allowed) = set allowed \<union> granted_ids g r"
proof -
  have all: "set (fold (\<lambda>(i, _). List.insert i) xs a) = set a \<union> fst ` set xs" for xs :: "(string \<times> Model) list" and a
    by (induction xs arbitrary: a) auto
  have pat: "set (fold (\<lambda>(i, m) a. if P m then List.insert i a else a) xs a) = set a \<union> {i. \<exists>m. (i, m) \<in> set xs \<and> P m}"
    for xs :: "(string \<times> Model) list" and P a
    by (induction xs arbitrary: a) (auto split: if_splits)
  have one: "map_of xs i \<noteq> None \<longleftrightarrow> (\<exists>m. (i, m) \<in> set xs)" for xs :: "(string \<times> Model) list" and i
    by (force simp: map_of_eq_None_iff image_iff)
  have noid: "\<not> IsModelID []" by (simp add: IsModelID_def ModelPrefix_def HasPrefix_def)
  show ?thesis
    unfolding addModel_def granted_ids_def selects_def one
    by (auto simp: all pat Let_def noid split: option.splits intro: rev_image_eqI)
qed

lemma set_addPolicyModels:
  "set (addPolicyModels g p allowed) = set allowed \<union> (\<Union>r\<in>set (mapModels p). granted_ids g r)"
  unfolding addPolicyModels_def
proof (induction "mapModels p" arbitrary: allowed p)
  case (Cons r rs)
  have "set (fold (addModel g) rs a) = set a \<union> (\<Union>r\<in>set rs. granted_ids g r)" for a
    using Cons(1) [of "p\<lparr>mapModels := rs\<rparr>" a] by simp
  then show ?case by (auto simp: Cons(2) [symmetric] set_addModel)
qed simp

lemma set_fold_policies:
  "set (fold (addPolicyModels g) ps allowed) = set allowed \<union> (\<Union>p\<in>set ps. set (addPolicyModels g p []))"
  by (induction ps arbitrary: allowed) (auto simp: set_addPolicyModels)

lemma fold_update_eligible:
  assumes "inj_on Name (set ms)"
  shows "set (fold (\<lambda>m g. if \<not> P m then g else AList.update (Name m) m g) ms []) = {(Name m, m) | m. m \<in> set ms \<and> P m}"
  using assms
proof (induction ms rule: rev_induct)
  case (snoc m ms)
  let ?f = "\<lambda>m g. if \<not> P m then g else AList.update (Name m) m g"
  have inj: "inj_on Name (set ms)" using snoc.prems by (simp add: inj_on_def)
  note IH = snoc.IH [OF inj]
  have upd: "set (AList.update (Name m) m xs) = insert (Name m, m) {(k, v) \<in> set xs. k \<noteq> Name m}"
    if "distinct (map fst xs)" for xs :: "(string \<times> 'a object_meta_scheme) list"
    using that by (induction xs) (auto simp: image_iff)
  have dist: "distinct (map fst (fold ?f ms g))" if "distinct (map fst g)" for ms g
    using that by (induction ms arbitrary: g) (auto simp: AList.distinct_update)
  have same: "x = m" if "x \<in> set ms" "Name x = Name m" for x
    using snoc.prems that by (auto simp: inj_on_def)
  show ?case
    using same by (auto simp: upd dist IH)
qed simp

section \<open>The caches\<close>

text \<open>
  What the helper relies on: its indexers and lists show the policies, models and aliases that are
  stored, and names identify objects of a kind (all of them live in one namespace).
\<close>

definition helper_ok :: "map_helper \<Rightarrow> ModelAccessPolicy list \<Rightarrow> Model list \<Rightarrow> DefaultModelAlias list \<Rightarrow> bool" where
  "helper_ok h policies models aliases \<longleftrightarrow>
     indexer_ok (mapIndexer h) map_index_funcs policies
   \<and> indexer_ok (modelIndexer h) model_index_funcs models
   \<and> set (modelList h) = set models
   \<and> set (dmaValues h) = (\<Union>a\<in>set aliases. set (dmaModelIndexFunc a))
   \<and> inj_on Name (set policies) \<and> inj_on Name (set models) \<and> inj_on Name (set aliases)"

text \<open>A helper over lists of objects, which meets the contract.\<close>

definition list_helper :: "ModelAccessPolicy list \<Rightarrow> Model list \<Rightarrow> DefaultModelAlias list \<Rightarrow> map_helper" where
  "list_helper policies models aliases =
    \<lparr>mapIndexer = list_indexer map_index_funcs policies, modelIndexer = list_indexer model_index_funcs models,
     modelList = models, dmaValues = concat (map dmaModelIndexFunc aliases)\<rparr>"

lemma list_helper_ok:
  assumes "inj_on Name (set policies)" "inj_on Name (set models)" "inj_on Name (set aliases)"
  shows "helper_ok (list_helper policies models aliases) policies models aliases"
  using assms by (simp add: helper_ok_def list_helper_def list_indexer_ok)

definition user_policies :: "ModelAccessPolicy list \<Rightarrow> user_info \<Rightarrow> ModelAccessPolicy set" where
  "user_policies policies u =
    {p \<in> set policies. DeletionTimestamp p = None \<and> (\<exists>s\<in>set (mapSubjects p). covers s u)}"

text \<open>The current model of an alias: the alias object of that name, if it is live and well formed.\<close>

definition alias_target :: "DefaultModelAlias list \<Rightarrow> string \<Rightarrow> string \<Rightarrow> bool" where
  "alias_target aliases alias i \<longleftrightarrow>
    (\<exists>a\<in>set aliases. DeletionTimestamp a = None \<and> Name a = alias \<and> dmaAlias a = alias \<and> dmaModel a = i)"

definition grants_model ::
  "ModelAccessPolicy list \<Rightarrow> Model list \<Rightarrow> DefaultModelAlias list \<Rightarrow> user_info \<Rightarrow> string \<Rightarrow> bool" where
  "grants_model policies models aliases u i \<longleftrightarrow>
    (\<exists>p\<in>user_policies policies u. \<exists>r\<in>set (mapModels p). \<exists>m\<in>set models. Name m = i \<and> Usage m = ''llm'' \<and>
      (if mrID r = ''*'' then True
       else case IsDefaultModelAliasRef r of
         Some alias \<Rightarrow> alias \<in> {''llm'', ''llm-mini''} \<and> IsModelID i \<and> alias_target aliases alias i
       | None \<Rightarrow> if IsWildcardSuffix r \<noteq> None then MatchesTargetModel r (TargetModel m) else mrID r = i \<and> IsModelID i))"

definition map_matches :: "user_info \<Rightarrow> ModelAccessPolicy \<Rightarrow> bool" where
  "map_matches u p =
    list_ex (subject_matches (GetUID u) (GetExtra u ''auth_provider_groups'') (GetExtra u ''obot_groups'')) (mapSubjects p)"

interpretation map_policy: subject_matcher map_matches mapSubjects
  by unfold_locales (simp add: map_matches_def list_ex_iff covers_def)

lemma allowed_alias: "IsAllowedDefaultModelAlias a \<longleftrightarrow> a \<in> {''llm'', ''llm-mini''}"
  by (simp add: IsAllowedDefaultModelAlias_def DefaultModelAliasTypeFromString_def
      DefaultModelAliasTypeUnknown_def Let_def)

lemma known_alias_no_slash:
  "DefaultModelAliasTypeFromString a \<noteq> DefaultModelAliasTypeUnknown \<Longrightarrow> CHR ''/'' \<notin> set a"
  by (auto simp: DefaultModelAliasTypeFromString_def split: if_splits)

lemma in_mapSubjectIndexFunc:
  "k \<in> set (mapSubjectIndexFunc t p) \<longleftrightarrow>
    DeletionTimestamp p = None \<and> (\<exists>s\<in>set (mapSubjects p). SubjType s = t \<and> SubjID s = k)"
  by (auto simp: mapSubjectIndexFunc_def)

text \<open>What an alias index value says, if anything.\<close>

definition parse_alias :: "string \<Rightarrow> (string \<times> string) option" where
  "parse_alias v = (case Cut v (CHR ''/'') of
     None \<Rightarrow> None
   | Some (alias, model) \<Rightarrow>
       if \<not> IsModelID model \<or> DefaultModelAliasTypeFromString alias = DefaultModelAliasTypeUnknown
       then None else Some (alias, model))"

lemma getAliasModels_parse:
  "getAliasModels h = fold (\<lambda>v acc. case parse_alias v of None \<Rightarrow> acc | Some (a, m) \<Rightarrow> AList.update a m acc) (dmaValues h) []"
  unfolding getAliasModels_def
  by (rule fold_cong) (auto simp: parse_alias_def fun_eq_iff split: option.splits)

lemma fold_alias_lookup:
  assumes "\<And>v v' i j. v \<in> set vs \<Longrightarrow> v' \<in> set vs \<Longrightarrow> parse_alias v = Some (a, i) \<Longrightarrow> parse_alias v' = Some (a, j) \<Longrightarrow> i = j"
  shows "map_of (fold (\<lambda>v acc. case parse_alias v of None \<Rightarrow> acc | Some (a, m) \<Rightarrow> AList.update a m acc) vs acc) a = Some i
    \<longleftrightarrow> (\<exists>v\<in>set vs. parse_alias v = Some (a, i)) \<or>
        (\<not> (\<exists>v\<in>set vs. \<exists>j. parse_alias v = Some (a, j)) \<and> map_of acc a = Some i)"
  using assms
proof (induction vs arbitrary: acc)
  case (Cons v vs)
  let ?acc = "case parse_alias v of None \<Rightarrow> acc | Some (a, m) \<Rightarrow> AList.update a m acc"
  have IH: "map_of (fold (\<lambda>v acc. case parse_alias v of None \<Rightarrow> acc | Some (a, m) \<Rightarrow> AList.update a m acc) vs ?acc) a = Some i
    \<longleftrightarrow> (\<exists>v\<in>set vs. parse_alias v = Some (a, i)) \<or>
        (\<not> (\<exists>v\<in>set vs. \<exists>j. parse_alias v = Some (a, j)) \<and> map_of ?acc a = Some i)"
    by (rule Cons.IH) (use Cons.prems in auto)
  have uniq: "j = i'" if "parse_alias v = Some (a, j)" "w \<in> set vs" "parse_alias w = Some (a, i')" for w j i'
    using Cons.prems that by auto
  show ?case
  proof (cases "parse_alias v")
    case None
    then show ?thesis using IH by simp
  next
    case (Some p)
    obtain b j where p: "p = (b, j)" by fastforce
    show ?thesis
    proof (cases "b = a")
      case True
      with Some p uniq IH show ?thesis by (simp add: update_conv') metis
    next
      case False
      with Some p IH show ?thesis by (simp add: update_conv')
    qed
  qed
qed simp

lemma parse_index_value:
  "v \<in> set (dmaModelIndexFunc d) \<Longrightarrow> parse_alias v = Some (a, i) \<longleftrightarrow>
     DeletionTimestamp d = None \<and> IsModelID i \<and> DefaultModelAliasTypeFromString a \<noteq> DefaultModelAliasTypeUnknown
     \<and> Name d = a \<and> dmaAlias d = a \<and> dmaModel d = i"
  using known_alias_no_slash [of "dmaAlias d"]
  by (auto simp: dmaModelIndexFunc_def parse_alias_def Cut_append split: if_splits)

locale model_caches =
  fixes h :: map_helper and policies :: "ModelAccessPolicy list" and models :: "Model list"
    and aliases :: "DefaultModelAlias list"
  assumes ok: "helper_ok h policies models aliases"
begin

lemma finds_policies:
  assumes "map_index_funcs name = Some (mapSubjectIndexFunc t)"
  shows "finds (getIndexedPolicies h name k)
    {p \<in> set policies. DeletionTimestamp p = None \<and> (\<exists>s\<in>set (mapSubjects p). SubjType s = t \<and> SubjID s = k)}"
proof -
  have "indexer_ok (mapIndexer h) map_index_funcs policies" using ok by (simp add: helper_ok_def)
  from finds_ByIndex [OF this assms, of k] show ?thesis
    by (auto simp: getIndexedPolicies_def in_mapSubjectIndexFunc finds_def)
qed

lemma policy_lookups [lookup_specs]:
  "finds (getWildcardUserPolicies h) {p \<in> set policies. DeletionTimestamp p = None \<and> (\<exists>s\<in>set (mapSubjects p). SubjType s = SubjectTypeSelector \<and> SubjID s = ''*'')}"
  "finds (getUserPolicies h k) {p \<in> set policies. DeletionTimestamp p = None \<and> (\<exists>s\<in>set (mapSubjects p). SubjType s = SubjectTypeUser \<and> SubjID s = k)}"
  "finds (getGroupPolicies h k) {p \<in> set policies. DeletionTimestamp p = None \<and> (\<exists>s\<in>set (mapSubjects p). SubjType s = SubjectTypeGroup \<and> SubjID s = k)}"
  "finds (getIndexedPolicies h ''obot-group-id'' k) {p \<in> set policies. DeletionTimestamp p = None \<and> (\<exists>s\<in>set (mapSubjects p). SubjType s = SubjectTypeObotGroup \<and> SubjID s = k)}"
  unfolding getWildcardUserPolicies_def getUserPolicies_def getGroupPolicies_def
  by (rule finds_policies, simp add: map_index_funcs_def)+

lemma UserPolicies_finds: "finds (UserPolicies h u) (user_policies policies u)"
proof -
  let ?by = "\<lambda>t k. {p \<in> set policies. DeletionTimestamp p = None \<and> (\<exists>s\<in>set (mapSubjects p). SubjType s = t \<and> SubjID s = k)}"
  have inj: "inj_on Name (set policies)" using ok by (simp add: helper_ok_def)
  obtain ev where ev: "getWildcardUserPolicies h = Inr ev" "set ev = ?by SubjectTypeSelector ''*''"
    using policy_lookups(1) unfolding finds_def by blast
  obtain own where own: "getUserPolicies h (GetUID u) = Inr own" "set own = ?by SubjectTypeUser (GetUID u)"
    using policy_lookups(2) unfolding finds_def by blast
  define acc where "acc = append_unseen Name (append_unseen Name [] ev) own"
  have ev_set: "set (append_unseen Name [] ev) = set ev"
    using set_append_unseen [OF inj, of "[]" ev] ev(2) by auto
  have acc_set: "set acc = ?by SubjectTypeSelector ''*'' \<union> ?by SubjectTypeUser (GetUID u)"
    using set_append_unseen [OF inj, of "append_unseen Name [] ev" own] ev_set ev(2) own(2)
    by (auto simp: acc_def)
  have "\<exists>rs. collect Name (getGroupPolicies h) gs acc = Inr rs \<and> set rs = set acc \<union> (\<Union>k\<in>set gs. ?by SubjectTypeGroup k)" for gs
    by (rule collect_finds [OF inj]) (use acc_set policy_lookups(3) in \<open>auto simp: finds_def\<close>)
  then obtain rs1 where rs1: "collect Name (getGroupPolicies h) (GetExtra u ''auth_provider_groups'') acc = Inr rs1"
      "set rs1 = set acc \<union> (\<Union>k\<in>set (GetExtra u ''auth_provider_groups''). ?by SubjectTypeGroup k)" by blast
  have "\<exists>rs. collect Name (getIndexedPolicies h ''obot-group-id'') gs rs1 = Inr rs \<and> set rs = set rs1 \<union> (\<Union>k\<in>set gs. ?by SubjectTypeObotGroup k)" for gs
    by (rule collect_finds [OF inj]) (use acc_set rs1(2) policy_lookups(4) in \<open>auto simp: finds_def\<close>)
  then obtain rs2 where rs2: "collect Name (getIndexedPolicies h ''obot-group-id'') (GetExtra u ''obot_groups'') rs1 = Inr rs2"
      "set rs2 = set rs1 \<union> (\<Union>k\<in>set (GetExtra u ''obot_groups''). ?by SubjectTypeObotGroup k)" by blast
  have "UserPolicies h u = Inr rs2"
    using ev(1) own(1) rs1(1) rs2(1) by (simp add: UserPolicies_def Sets_def acc_def)
  moreover have "set rs2 = user_policies policies u"
    unfolding rs2(2) rs1(2) acc_set user_policies_def covers_iff bex_disj_distrib by blast
  ultimately show ?thesis by (simp add: finds_def)
qed

lemma eligible: "set (eligibleModels (newModelGrants h)) = {(Name m, m) | m. m \<in> set models \<and> Usage m = ''llm''}"
proof -
  have "inj_on Name (set (modelList h))" "set (modelList h) = set models" using ok by (auto simp: helper_ok_def)
  then show ?thesis
    using fold_update_eligible [of "modelList h" "\<lambda>m. IsAllowedModelUsage (Usage m)"]
    by (simp add: newModelGrants_def IsAllowedModelUsage_def)
qed

lemma alias_lookup:
  "map_of (getAliasModels h) a = Some i \<longleftrightarrow>
    IsModelID i \<and> DefaultModelAliasTypeFromString a \<noteq> DefaultModelAliasTypeUnknown \<and> alias_target aliases a i"
proof -
  have vals: "set (dmaValues h) = (\<Union>d\<in>set aliases. set (dmaModelIndexFunc d))"
    and inj: "inj_on Name (set aliases)" using ok by (auto simp: helper_ok_def)
  have uniq: "i' = j" if "v \<in> set (dmaValues h)" "v' \<in> set (dmaValues h)"
      "parse_alias v = Some (a, i')" "parse_alias v' = Some (a, j)" for v v' i' j
    using that inj unfolding vals by (auto simp: parse_index_value dest: inj_onD)
  have "(\<exists>v\<in>set (dmaValues h). parse_alias v = Some (a, i)) \<longleftrightarrow>
    IsModelID i \<and> DefaultModelAliasTypeFromString a \<noteq> DefaultModelAliasTypeUnknown \<and> alias_target aliases a i" (is "?l \<longleftrightarrow> ?r")
  proof
    assume ?l
    then show ?r unfolding vals by (auto simp: parse_index_value alias_target_def)
  next
    assume ?r
    then obtain d where d: "d \<in> set aliases" "DeletionTimestamp d = None" "Name d = a" "dmaAlias d = a" "dmaModel d = i"
        "IsModelID i" "DefaultModelAliasTypeFromString a \<noteq> DefaultModelAliasTypeUnknown"
      by (auto simp: alias_target_def)
    then have v: "a @ ''/'' @ i \<in> set (dmaModelIndexFunc d)" by (simp add: dmaModelIndexFunc_def)
    with d show ?l unfolding vals by (auto simp: parse_index_value intro!: bexI [of _ d] bexI [of _ "a @ ''/'' @ i"])
  qed
  moreover have "map_of (getAliasModels h) a = Some i \<longleftrightarrow> (\<exists>v\<in>set (dmaValues h). parse_alias v = Some (a, i))"
    unfolding getAliasModels_parse using fold_alias_lookup [of "dmaValues h" a "[]" i] uniq by simp
  ultimately show ?thesis by simp
qed

lemma granted_ids_iff:
  "i \<in> granted_ids (newModelGrants h) r \<longleftrightarrow> (\<exists>m\<in>set models. Name m = i \<and> Usage m = ''llm'' \<and>
      (if mrID r = ''*'' then True
       else case IsDefaultModelAliasRef r of
         Some alias \<Rightarrow> alias \<in> {''llm'', ''llm-mini''} \<and> IsModelID i \<and> alias_target aliases alias i
       | None \<Rightarrow> if IsWildcardSuffix r \<noteq> None then MatchesTargetModel r (TargetModel m) else mrID r = i \<and> IsModelID i))"
proof -
  have al: "map_of (aliasModels (newModelGrants h)) a = Some i \<longleftrightarrow> IsModelID i \<and> alias_target aliases a i"
    if "a \<in> {''llm'', ''llm-mini''}" for a
    using that by (auto simp: newModelGrants_def alias_lookup DefaultModelAliasTypeFromString_def DefaultModelAliasTypeUnknown_def)
  show ?thesis
    unfolding granted_ids_def eligible selects_def ModelResource_IsWildcard_def allowed_alias
    using al by (auto split: option.splits)
qed

lemma allowed_models: "\<exists>allowed. GetUserAllowedModels h u = Inr (allowed, False) \<and> (\<forall>i. i \<in> set allowed \<longleftrightarrow> grants_model policies models aliases u i)"
proof -
  obtain ps where ps: "UserPolicies h u = Inr ps" "set ps = user_policies policies u"
    using UserPolicies_finds unfolding finds_def by blast
  have "i \<in> set (fold (addPolicyModels (newModelGrants h)) ps []) \<longleftrightarrow> grants_model policies models aliases u i" for i
    unfolding set_fold_policies set_addPolicyModels grants_model_def ps(2) [symmetric] granted_ids_iff [symmetric]
    by simp
  then show ?thesis by (simp add: GetUserAllowedModels_def ps(1))
qed

lemma access_decision: "UserHasAccessToModel h u i = Inr (grants_model policies models aliases u i)"
  using allowed_models[of u] by (auto simp: UserHasAccessToModel_def)

end

text \<open>The contract holds for the caches of any stored objects, each name kept once.\<close>

lemma inj_on_add_unseen: "inj_on key (set (add_unseen key [] xs))"
  using distinct_add_unseen [of key "[]" xs] by (simp add: distinct_map)

interpretation list_caches: model_caches
    "list_helper (add_unseen Name [] ps) (add_unseen Name [] ms) (add_unseen Name [] as)"
    "add_unseen Name [] ps" "add_unseen Name [] ms" "add_unseen Name [] as" for ps ms as
  by unfold_locales (intro list_helper_ok inj_on_add_unseen)

section \<open>Properties of the grants\<close>

text \<open>
  C25: over caches that show the stored objects, the models a user is allowed are computed without failing and are
  those of the specification: some live policy with a subject that covers the user has an entry that selects the
  model, and the model is stored and is an LLM. An entry selects by everything, by one of the two
  default aliases that currently points to the model, by a prefix pattern, or by the ID. The decision on a single model is the same for every user
  who is not an administrator or owner. (For those two roles the comment of \<open>UserHasAccessToModel\<close> promises every model, which its code does not
  give; nothing is claimed of that case here.)
\<close>

theorem model_access_spec:
  assumes "helper_ok h policies models aliases"
  shows "(\<exists>allowed. GetUserAllowedModels h user = Inr (allowed, False)
      \<and> (\<forall>modelID. modelID \<in> set allowed \<longleftrightarrow> grants_model policies models aliases user modelID))
    \<and> (GroupAdmin \<notin> set (GetGroups user) \<and> GroupOwner \<notin> set (GetGroups user) \<longrightarrow>
        (\<forall>modelID. UserHasAccessToModel h user modelID = Inr (grants_model policies models aliases user modelID)))"
proof -
  have caches: "model_caches h policies models aliases" using assms by (rule model_caches.intro)
  show ?thesis using model_caches.allowed_models[OF caches] model_caches.access_decision[OF caches] by blast
qed

definition example_model :: "string \<Rightarrow> string \<Rightarrow> int \<Rightarrow> Model" where
  "example_model name target created = \<lparr>Name = name, Namespace = ''default'', DeletionTimestamp = None, CreationTimestamp = created,
     mdlName = name, TargetModel = target, ModelProvider = ''llm-gateway'', Active = True, Usage = ''llm'', Dialect = []\<rparr>"

definition example_policy :: "ModelResource list \<Rightarrow> ModelAccessPolicy" where
  "example_policy ms = \<lparr>Name = ''map1a'', Namespace = ''default'', DeletionTimestamp = None, CreationTimestamp = 0,
     mapSubjects = [\<lparr>SubjType = SubjectTypeUser, SubjID = ''7''\<rparr>], mapModels = ms\<rparr>"

definition example_caller :: user_info where
  "example_caller = \<lparr>GetName = ''alice'', GetUID = ''7'', GetGroups = [], GetExtra = (\<lambda>_. [])\<rparr>"

theorem model_access_spec_witness:
  "UserHasAccessToModel (list_helper [example_policy [\<lparr>mrID = ''m1a''\<rparr>]]
       [example_model ''m1a'' ''openai/gpt'' 1, example_model ''m1b'' ''openai/gpt-b'' 2] []) example_caller ''m1a'' = Inr True
   \<and> UserHasAccessToModel (list_helper [example_policy [\<lparr>mrID = ''m1a''\<rparr>]]
       [example_model ''m1a'' ''openai/gpt'' 1, example_model ''m1b'' ''openai/gpt-b'' 2] []) example_caller ''m1b'' = Inr False"
proof -
  let ?ps = "[example_policy [\<lparr>mrID = ''m1a''\<rparr>]]"
  let ?ms = "[example_model ''m1a'' ''openai/gpt'' 1, example_model ''m1b'' ''openai/gpt-b'' 2]"
  have ok: "helper_ok (list_helper ?ps ?ms []) ?ps ?ms []"
    by (rule list_helper_ok) (simp_all add: inj_on_def example_model_def)
  have "UserHasAccessToModel (list_helper ?ps ?ms []) example_caller i = Inr (grants_model ?ps ?ms [] example_caller i)" for i
    using model_access_spec [OF ok, of example_caller] by (simp add: example_caller_def)
  then show ?thesis
    unfolding grants_model_def user_policies_def
    by (simp add: example_policy_def example_model_def example_caller_def covers_def subject_matches_def
        IsDefaultModelAliasRef_def CutPrefix_def HasPrefix_def IsWildcardSuffix_def CutSuffix_def HasSuffix_def
        IsModelID_def ModelPrefix_def)
qed

text \<open>
  The budgets of the gateway follow the grants. The profiles that grant a model to a user are
  among the user's profiles, there is one exactly when the user may use the model, and the two
  computations fail together.
\<close>

theorem profiles_for_model_iff_access:
  "UserHasAccessToModel h user modelID = andThen (UserProfileIDsForModel h user modelID) (\<lambda>ids. Inr (ids \<noteq> []))
   \<and> (\<forall>ids. UserProfileIDsForModel h user modelID = Inr ids \<longrightarrow>
        (\<exists>all. UserProfileIDs h user = Inr all \<and> set ids \<subseteq> set all))"
  by (cases "UserPolicies h user")
     (auto simp: UserHasAccessToModel_def GetUserAllowedModels_def UserProfileIDsForModel_def UserProfileIDs_def
        set_fold_policies filter_empty_conv)

theorem profiles_for_model_iff_access_witness:
  "UserProfileIDs (list_helper [example_policy [\<lparr>mrID = ''*''\<rparr>]] [example_model ''m1a'' ''gpt'' 1] []) example_caller = Inr [''map1a'']
   \<and> (\<exists>all. UserProfileIDs (list_helper [example_policy [\<lparr>mrID = ''*''\<rparr>]] [example_model ''m1a'' ''gpt'' 1] []) example_caller = Inr all
        \<and> set [''map1a''] \<subseteq> set all)"
proof -
  let ?h = "list_helper [example_policy [\<lparr>mrID = ''*''\<rparr>]] [example_model ''m1a'' ''gpt'' 1] []"
  have ps: "UserPolicies ?h example_caller = Inr [example_policy [\<lparr>mrID = ''*''\<rparr>]]"
    by (simp add: UserPolicies_def getWildcardUserPolicies_def getUserPolicies_def getIndexedPolicies_def
        list_helper_def list_indexer_def map_index_funcs_def mapSubjectIndexFunc_def example_policy_def
        example_caller_def Sets_def append_unseen_def)
  have "UserProfileIDsForModel ?h example_caller ''m1a'' = Inr [''map1a'']"
    unfolding UserProfileIDsForModel_def ps andThen_simps
    by (simp add: addPolicyModels_def addModel_def newModelGrants_def getAliasModels_def
        list_helper_def example_policy_def example_model_def ModelResource_IsWildcard_def IsAllowedModelUsage_def)
  with profiles_for_model_iff_access [of ?h example_caller "''m1a''"] ps show ?thesis
    by (simp add: UserProfileIDs_def example_policy_def)
qed

section \<open>Target models and name resolution\<close>

text \<open>A model that serves a provider's target: stored, live, active and configured.\<close>

definition serves :: "Model \<Rightarrow> string \<Rightarrow> string \<Rightarrow> bool" where
  "serves m provider target \<longleftrightarrow> DeletionTimestamp m = None \<and> Active m \<and> ModelProvider m = provider \<and> provider \<noteq> []
     \<and> TargetModel m = target \<and> target \<noteq> []"

lemma slash_key_inject:
  assumes "CHR ''/'' \<notin> set p" and "CHR ''/'' \<notin> set q"
  shows "modelProviderTargetKey p t = modelProviderTargetKey q s \<longleftrightarrow> p = q \<and> t = s"
proof
  assume "modelProviderTargetKey p t = modelProviderTargetKey q s"
  then have "p @ CHR ''/'' # t = q @ CHR ''/'' # s" by (simp add: modelProviderTargetKey_def)
  then have "Cut (p @ CHR ''/'' # t) (CHR ''/'') = Cut (q @ CHR ''/'' # s) (CHR ''/'')" by (rule arg_cong)
  then show "p = q \<and> t = s" by (simp only: Cut_append [OF assms(1)] Cut_append [OF assms(2)]) simp
qed simp

lemma provider_key:
  assumes "CHR ''/'' \<notin> set provider"
  shows "provider \<in> set (modelProviderIndexFunc m) \<longleftrightarrow> serves m provider (TargetModel m)"
  using assms by (auto simp: modelProviderIndexFunc_def serves_def Let_def modelProviderTargetKey_def)

lemma target_key:
  assumes "CHR ''/'' \<notin> set provider" and "CHR ''/'' \<notin> set (ModelProvider m)"
  shows "modelProviderTargetKey provider t \<in> set (modelProviderIndexFunc m) \<longleftrightarrow> serves m provider t"
proof -
  have "modelProviderTargetKey provider t \<noteq> ModelProvider m"
  proof
    assume "modelProviderTargetKey provider t = ModelProvider m"
    then have "set (ModelProvider m) = set (provider @ CHR ''/'' # t)" by (simp add: modelProviderTargetKey_def)
    with assms(2) show False by simp
  qed
  then show ?thesis
    using slash_key_inject [OF assms] by (auto simp: modelProviderIndexFunc_def serves_def Let_def)
qed

lemma newest_of_snoc:
  "newest_of (ms @ [m]) = (case newest_of ms of
     None \<Rightarrow> Some m | Some n \<Rightarrow> if CreationTimestamp m > CreationTimestamp n then Some m else Some n)"
  by (simp add: newest_of_def)

lemma newest_of_None: "newest_of ms = None \<longleftrightarrow> ms = []"
  by (cases ms rule: rev_cases) (auto simp: newest_of_snoc newest_of_def split: option.splits)

lemma newest_of_Some:
  "newest_of ms = Some m \<Longrightarrow> m \<in> set ms \<and> (\<forall>m'\<in>set ms. CreationTimestamp m' \<le> CreationTimestamp m)"
proof (induction ms arbitrary: m rule: rev_induct)
  case (snoc x xs)
  then show ?case
    by (cases "newest_of xs") (force simp: newest_of_snoc newest_of_None split: if_splits)+
qed (simp add: newest_of_def)

text \<open>What a resolution must return: the newest model that serves the target, or not found.\<close>

definition resolves_newest :: "Model list \<Rightarrow> string \<Rightarrow> string \<Rightarrow> Model result \<Rightarrow> bool" where
  "resolves_newest models provider target r =
    (case r of
       Inr m \<Rightarrow> m \<in> set models \<and> serves m provider target
                \<and> (\<forall>m'\<in>set models. serves m' provider target \<longrightarrow> CreationTimestamp m' \<le> CreationTimestamp m)
     | Inl e \<Rightarrow> e = NotFound ''model'' target \<and> (\<forall>m'\<in>set models. \<not> serves m' provider target))"

lemma newest_resolves:
  assumes "set objs = {m \<in> set models. serves m provider target}"
  shows "resolves_newest models provider target
           (case newest_of objs of None \<Rightarrow> Inl (NotFound ''model'' target) | Some m \<Rightarrow> Inr m)"
proof (cases "newest_of objs")
  case None
  then have "set objs = {}" by (simp add: newest_of_None)
  with None assms show ?thesis by (auto simp: resolves_newest_def)
next
  case (Some m)
  with newest_of_Some [OF Some] assms show ?thesis by (auto simp: resolves_newest_def)
qed

context model_caches
begin

lemma finds_models: "finds (modelIndexer h ''model-provider'' k) {m \<in> set models. k \<in> set (modelProviderIndexFunc m)}"
  using ok by (intro finds_ByIndex [where fns = model_index_funcs]) (simp_all add: helper_ok_def model_index_funcs_def)

lemma finds_provider_models:
  assumes "CHR ''/'' \<notin> set provider"
  shows "finds (modelIndexer h ''model-provider'' provider) {m \<in> set models. serves m provider (TargetModel m)}"
  using finds_models [of provider] by (simp add: provider_key [OF assms])

lemma both_resolve_newest:
  assumes "CHR ''/'' \<notin> set provider" and "\<And>m. m \<in> set models \<Longrightarrow> CHR ''/'' \<notin> set (ModelProvider m)"
  shows "resolves_newest models provider target (resolveTargetModel h provider target)"
    and "resolves_newest models provider target (ResolveTargetModel h provider target)"
proof -
  obtain objs where "modelIndexer h ''model-provider'' (modelProviderTargetKey provider target) = Inr objs"
      "set objs = {m \<in> set models. modelProviderTargetKey provider target \<in> set (modelProviderIndexFunc m)}"
    using finds_models unfolding finds_def by blast
  moreover from this(2) have "set objs = {m \<in> set models. serves m provider target}"
    using target_key [OF assms(1) assms(2)] by blast
  ultimately show "resolves_newest models provider target (resolveTargetModel h provider target)"
    using newest_resolves by (simp add: resolveTargetModel_def)
  obtain all where all: "modelIndexer h ''model-provider'' provider = Inr all"
      "set all = {m \<in> set models. serves m provider (TargetModel m)}"
    using finds_provider_models [OF assms(1)] unfolding finds_def by blast
  then have "set (filter (\<lambda>m. TargetModel m = target) all) = {m \<in> set models. serves m provider target}"
    by (auto simp: serves_def)
  with all(1) show "resolves_newest models provider target (ResolveTargetModel h provider target)"
    using newest_resolves by (simp add: ResolveTargetModel_def)
qed

lemma targets_listed:
  assumes "CHR ''/'' \<notin> set provider"
  shows "\<exists>ts. GetUserAllowedTargetModels h u provider dialect = Inr (Some ts, False) \<and>
    (\<forall>target. target \<in> set ts \<longleftrightarrow> (\<exists>m\<in>set models. serves m provider target \<and> (dialect = [] \<or> Dialect m = dialect)
       \<and> UserHasAccessToModel h u (Name m) = Inr True))"
proof -
  obtain ps where ps: "UserPolicies h u = Inr ps" using UserPolicies_finds unfolding finds_def by blast
  define allowed where "allowed = fold (addPolicyModels (newModelGrants h)) ps []"
  have acc: "UserHasAccessToModel h u i = Inr True \<longleftrightarrow> i \<in> set allowed" for i
    by (simp add: UserHasAccessToModel_def GetUserAllowedModels_def ps allowed_def)
  obtain objs where objs: "modelIndexer h ''model-provider'' provider = Inr objs"
      "set objs = {m \<in> set models. serves m provider (TargetModel m)}"
    using finds_provider_models [OF assms] unfolding finds_def by blast
  let ?P = "\<lambda>m. (dialect = [] \<or> Dialect m = dialect) \<and> Name m \<in> set allowed"
  have step: "(\<lambda>m a. if dialect \<noteq> [] \<and> Dialect m \<noteq> dialect then a
                     else if False \<or> Name m \<in> set allowed then List.insert (TargetModel m) a else a)
            = (\<lambda>m a. if ?P m then List.insert (TargetModel m) a else a)"
    by (auto simp: fun_eq_iff)
  have "GetUserAllowedTargetModels h u provider dialect =
      Inr (Some (fold (\<lambda>m a. if ?P m then List.insert (TargetModel m) a else a) objs []), False)"
    by (simp add: GetUserAllowedTargetModels_def GetUserAllowedModels_def ps objs(1) allowed_def [symmetric] step)
  then show ?thesis
    unfolding acc set_fold_insert objs(2) by (auto simp: serves_def image_iff set_fold_insert objs(2))
qed

end

text \<open>
  The targets listed to a client are exactly the ones a live, active model of the provider
  (and of the dialect, if one is asked for) maps to and the user may use. No error is returned.
  Provider names have no slash, as Kubernetes resource names.
\<close>

theorem allowed_targets_spec:
  assumes "helper_ok h policies models aliases" and "CHR ''/'' \<notin> set provider"
  shows "\<exists>ts. GetUserAllowedTargetModels h user provider dialect = Inr (Some ts, False) \<and>
    (\<forall>target. target \<in> set ts \<longleftrightarrow> (\<exists>m\<in>set models. serves m provider target \<and> (dialect = [] \<or> Dialect m = dialect)
       \<and> UserHasAccessToModel h user (Name m) = Inr True))"
  using assms by (intro model_caches.targets_listed model_caches.intro)

theorem allowed_targets_spec_witness:
  "\<exists>ts. GetUserAllowedTargetModels (list_helper [] [example_model ''m1a'' ''gpt'' 1] []) example_caller ''llm-gateway'' ''openai'' = Inr (Some ts, False) \<and>
    (\<forall>target. target \<in> set ts \<longleftrightarrow> (\<exists>m\<in>set [example_model ''m1a'' ''gpt'' 1]. serves m ''llm-gateway'' target \<and> (''openai'' = [] \<or> Dialect m = ''openai'')
       \<and> UserHasAccessToModel (list_helper [] [example_model ''m1a'' ''gpt'' 1] []) example_caller (Name m) = Inr True))"
  by (rule allowed_targets_spec [OF list_helper_ok]) (simp_all add: inj_on_def)

text \<open>
  The two lookups of a target, by the combined key and by scanning the models of the provider,
  both return the most recently created model that serves the target, and not found exactly when
  there is none. They rest on the encoding of the combined key being unambiguous.
\<close>

theorem target_resolution_newest:
  assumes "helper_ok h policies models aliases" and "CHR ''/'' \<notin> set provider"
    and "\<forall>m\<in>set models. CHR ''/'' \<notin> set (ModelProvider m)"
  shows "resolves_newest models provider target (resolveTargetModel h provider target)
    \<and> resolves_newest models provider target (ResolveTargetModel h provider target)"
  using assms model_caches.both_resolve_newest [OF model_caches.intro] by blast

theorem target_resolution_newest_witness:
  "resolves_newest [example_model ''m1a'' ''a/gpt'' 1, example_model ''m1b'' ''a/gpt'' 2] ''llm-gateway'' ''a/gpt''
     (resolveTargetModel (list_helper [] [example_model ''m1a'' ''a/gpt'' 1, example_model ''m1b'' ''a/gpt'' 2] []) ''llm-gateway'' ''a/gpt'')"
  using target_resolution_newest [OF list_helper_ok, of "[]" "[example_model ''m1a'' ''a/gpt'' 1, example_model ''m1b'' ''a/gpt'' 2]" "[]"
      "''llm-gateway''" "''a/gpt''"]
  by (simp add: inj_on_def example_model_def)

text \<open>
  A listed target need not be usable: when two models serve it and the user may use only the older
  one, it is listed, but a request for it resolves to the newer model, which is refused.
\<close>

theorem listed_target_refused:
  "\<exists>h ts m. helper_ok h [example_policy [\<lparr>mrID = ''m1a''\<rparr>]] [example_model ''m1a'' ''gpt'' 1, example_model ''m1b'' ''gpt'' 2] []
     \<and> GetUserAllowedTargetModels h example_caller ''llm-gateway'' [] = Inr (Some ts, False) \<and> ''gpt'' \<in> set ts
     \<and> resolveTargetModel h ''llm-gateway'' ''gpt'' = Inr m \<and> UserHasAccessToModel h example_caller (Name m) = Inr False"
proof -
  let ?ps = "[example_policy [\<lparr>mrID = ''m1a''\<rparr>]]"
  let ?ms = "[example_model ''m1a'' ''gpt'' 1, example_model ''m1b'' ''gpt'' 2]"
  let ?h = "list_helper ?ps ?ms []"
  have ok: "helper_ok ?h ?ps ?ms []" by (rule list_helper_ok) (simp_all add: inj_on_def example_model_def)
  note caches = model_caches.intro [OF ok]
  note defs = grants_model_def user_policies_def example_policy_def example_model_def example_caller_def covers_def
    subject_matches_def IsDefaultModelAliasRef_def CutPrefix_def HasPrefix_def IsWildcardSuffix_def CutSuffix_def
    HasSuffix_def IsModelID_def ModelPrefix_def
  have yes: "UserHasAccessToModel ?h example_caller ''m1a'' = Inr True"
    and no: "UserHasAccessToModel ?h example_caller ''m1b'' = Inr False"
    unfolding model_caches.access_decision [OF caches] by (simp_all add: defs)
  obtain ts where ts: "GetUserAllowedTargetModels ?h example_caller ''llm-gateway'' [] = Inr (Some ts, False)"
      "''gpt'' \<in> set ts"
    using model_caches.targets_listed [OF caches, of "''llm-gateway''" example_caller "[]"] yes
    by (auto simp: serves_def example_model_def)
  have "resolveTargetModel ?h ''llm-gateway'' ''gpt'' = Inr (example_model ''m1b'' ''gpt'' 2)"
    by (simp add: resolveTargetModel_def list_helper_def list_indexer_def model_index_funcs_def modelProviderIndexFunc_def
        modelProviderTargetKey_def newest_of_def example_model_def Let_def)
  with ok ts no show ?thesis by (auto simp: example_model_def)
qed

section \<open>Upstream names\<close>

text \<open>The order in which the code's comment ranks candidates, lexicographically.\<close>

definition rank :: "candidate \<Rightarrow> bool \<times> bool \<times> bool \<times> string \<times> int" where
  "rank c = (cUsable c, cFirstParty c, cExact c, cDate c, CreationTimestamp (cModel c))"

lemma better_iff_rank: "better a b \<longleftrightarrow> rank b < rank a"
  unfolding better_def rank_def by (auto simp: less_prod_def less_eq_prod_def)

definition best_of :: "candidate list \<Rightarrow> candidate option" where
  "best_of cs = fold keep_best cs None"

lemma best_of_snoc: "best_of (cs @ [c]) = keep_best c (best_of cs)"
  by (simp add: best_of_def)

lemma best_of_None: "best_of cs = None \<longleftrightarrow> cs = []"
  by (cases cs rule: rev_cases) (auto simp: best_of_snoc best_of_def keep_best_def split: option.splits)

lemma best_of_Some: "best_of cs = Some b \<Longrightarrow> b \<in> set cs \<and> (\<forall>c\<in>set cs. rank c \<le> rank b)"
proof (induction cs arbitrary: b rule: rev_induct)
  case (snoc c cs)
  show ?case
  proof (cases "best_of cs")
    case None
    then have "cs = []" by (simp add: best_of_None)
    with snoc.prems show ?thesis by (simp add: best_of_def keep_best_def)
  next
    case (Some b')
    from snoc.IH [OF Some] snoc.prems Some show ?thesis
      by (auto simp: best_of_snoc keep_best_def better_iff_rank split: if_splits intro: order_trans less_imp_le)
  qed
qed (simp add: best_of_def)

lemma fold_candidates:
  "fold (\<lambda>m best. case f m of None \<Rightarrow> best | Some c \<Rightarrow> keep_best c best) objs best = fold keep_best (List.map_filter f objs) best"
  by (induction objs arbitrary: best) (auto simp: map_filter_simps split: option.splits)

text \<open>
  The resolution of the name a client sends returns a model of the provider that matches the
  name, and of those one of the highest rank: usable by the caller before all else, then from
  the provider that made the model, then by exact ID, then by latest date, then the newest. It
  is not found exactly when no model of the provider matches.
\<close>

theorem upstream_resolution_best:
  assumes "modelIndexer h ''model-provider'' provider = Inr objs"
  shows "case ResolveUpstreamModelName h provider name usable of
     Inl e \<Rightarrow> e = NotFound ''model'' name \<and> (\<forall>m\<in>set objs. candidate_of name usable m = None)
   | Inr m \<Rightarrow> m \<in> set objs \<and> (\<exists>c. candidate_of name usable m = Some c
       \<and> (\<forall>m'\<in>set objs. \<forall>c'. candidate_of name usable m' = Some c' \<longrightarrow> rank c' \<le> rank c))"
proof -
  let ?cs = "List.map_filter (candidate_of name usable) objs"
  have cs: "c \<in> set ?cs \<longleftrightarrow> (\<exists>m\<in>set objs. candidate_of name usable m = Some c)" for c
    by (force simp: List.map_filter_def)
  have own: "cModel c = m" if "candidate_of name usable m = Some c" for m c
    using that by (auto simp: candidate_of_def Let_def split: option.splits if_splits prod.splits)
  have res: "ResolveUpstreamModelName h provider name usable =
      (case best_of ?cs of None \<Rightarrow> Inl (NotFound ''model'' name) | Some best \<Rightarrow> Inr (cModel best))"
    by (simp add: ResolveUpstreamModelName_def assms fold_candidates best_of_def)
  show ?thesis
  proof (cases "best_of ?cs")
    case None
    then have "set ?cs = {}" by (simp add: best_of_None)
    then have "candidate_of name usable m = None" if "m \<in> set objs" for m
      using cs that by (metis empty_iff not_None_eq)
    with None res show ?thesis by simp
  next
    case (Some b)
    from best_of_Some [OF Some] obtain m where m: "m \<in> set objs" "candidate_of name usable m = Some b"
        and top: "\<forall>c\<in>set ?cs. rank c \<le> rank b"
      using cs by blast
    have "\<forall>m'\<in>set objs. \<forall>c'. candidate_of name usable m' = Some c' \<longrightarrow> rank c' \<le> rank b"
      using top cs by blast
    with m own [OF m(2)] Some res show ?thesis by simp
  qed
qed

theorem upstream_resolution_best_witness:
  "ResolveUpstreamModelName (list_helper [] [example_model ''m1a'' ''anthropic/claude-20250101'' 1] []) ''llm-gateway'' ''claude'' None
     = Inr (example_model ''m1a'' ''anthropic/claude-20250101'' 1)
   \<and> (case ResolveUpstreamModelName (list_helper [] [example_model ''m1a'' ''gpt'' 1] []) ''llm-gateway'' ''claude'' None of
     Inl e \<Rightarrow> e = NotFound ''model'' ''claude'' \<and> (\<forall>m\<in>set [example_model ''m1a'' ''gpt'' 1]. candidate_of ''claude'' None m = None)
   | Inr m \<Rightarrow> m \<in> set [example_model ''m1a'' ''gpt'' 1] \<and> (\<exists>c. candidate_of ''claude'' None m = Some c
       \<and> (\<forall>m'\<in>set [example_model ''m1a'' ''gpt'' 1]. \<forall>c'. candidate_of ''claude'' None m' = Some c' \<longrightarrow> rank c' \<le> rank c)))"
proof
  have idx: "modelIndexer (list_helper [] [example_model ''m1a'' t 1] []) ''model-provider'' ''llm-gateway'' = Inr [example_model ''m1a'' t 1]"
    if "t \<noteq> []" for t
    using that by (simp add: list_helper_def list_indexer_def model_index_funcs_def modelProviderIndexFunc_def example_model_def Let_def)
  show "ResolveUpstreamModelName (list_helper [] [example_model ''m1a'' ''anthropic/claude-20250101'' 1] []) ''llm-gateway'' ''claude'' None
     = Inr (example_model ''m1a'' ''anthropic/claude-20250101'' 1)"
    unfolding ResolveUpstreamModelName_def idx [of "''anthropic/claude-20250101''", simplified] andThen_simps
    by (simp add: candidate_of_def example_model_def DatedVersionOf_def CutPrefix_def
        HasPrefix_def keep_best_def less_char_def)
  show "case ResolveUpstreamModelName (list_helper [] [example_model ''m1a'' ''gpt'' 1] []) ''llm-gateway'' ''claude'' None of
     Inl e \<Rightarrow> e = NotFound ''model'' ''claude'' \<and> (\<forall>m\<in>set [example_model ''m1a'' ''gpt'' 1]. candidate_of ''claude'' None m = None)
   | Inr m \<Rightarrow> m \<in> set [example_model ''m1a'' ''gpt'' 1] \<and> (\<exists>c. candidate_of ''claude'' None m = Some c
       \<and> (\<forall>m'\<in>set [example_model ''m1a'' ''gpt'' 1]. \<forall>c'. candidate_of ''claude'' None m' = Some c' \<longrightarrow> rank c' \<le> rank c))"
    by (rule upstream_resolution_best [OF idx]) simp
qed

section \<open>The profile for everyone\<close>

text \<open>
  What the storage client promises: listing succeeds, creating an object whose name is taken fails
  and changes nothing, and creating one with a new name adds it.
\<close>

definition policy_store_ok :: "('s \<Rightarrow> ModelAccessPolicy list result) \<Rightarrow> 's policy_creator \<Rightarrow> bool" where
  "policy_store_ok list create \<longleftrightarrow>
    (\<forall>st. \<exists>items. list st = Inr items \<and>
      (\<forall>p. (Name p \<in> Name ` set items \<longrightarrow> create p st = (Some (AlreadyExists (Name p)), st)) \<and>
           (Name p \<notin> Name ` set items \<longrightarrow>
              (\<exists>st' items'. create p st = (None, st') \<and> list st' = Inr items' \<and> set items' = insert p (set items)))))"

definition everyone_profile :: "ModelAccessPolicy \<Rightarrow> bool" where
  "everyone_profile p \<longleftrightarrow> DeletionTimestamp p = None \<and> AppliesToEveryone (mapSubjects p)"

lemma EnsureEveryoneProfile_found_name:
  assumes "list st = Inr items" and "ev = map Name (filter (\<lambda>p. DeletionTimestamp p = None \<and> AppliesToEveryone (mapSubjects p)) items)"
    and "ev \<noteq> []"
  shows "\<exists>n\<in>set ev. EnsureEveryoneProfile list create st = (Inr n, st)"
proof -
  have "hd (sort ev) \<in> set (sort ev)" by (rule hd_in_set) (use assms(3) in \<open>metis set_empty set_sort\<close>)
  then have hd: "hd (sort ev) \<in> set ev" by simp
  have "EnsureEveryoneProfile list create st =
      (if DefaultPolicyName \<in> set ev then (Inr DefaultPolicyName, st)
       else if everyoneProfileName \<in> set ev then (Inr everyoneProfileName, st) else (Inr (hd (sort ev)), st))"
    unfolding EnsureEveryoneProfile_def assms(1) sum.case Let_def assms(2) [symmetric] using assms(3) by simp
  with hd show ?thesis by auto
qed

lemma EnsureEveryoneProfile_found:
  assumes "list st = Inr items" and "\<exists>p\<in>set items. everyone_profile p"
  shows "\<exists>p\<in>set items. everyone_profile p \<and> EnsureEveryoneProfile list create st = (Inr (Name p), st)"
proof -
  define ev where "ev = map Name (filter (\<lambda>p. DeletionTimestamp p = None \<and> AppliesToEveryone (mapSubjects p)) items)"
  have ev: "set ev = Name ` {p \<in> set items. everyone_profile p}" by (auto simp: ev_def everyone_profile_def)
  with assms(2) have "set ev \<noteq> {}" by force
  then have "\<exists>n\<in>set ev. EnsureEveryoneProfile list create st = (Inr n, st)"
    by (intro EnsureEveryoneProfile_found_name [where list = list, OF assms(1) ev_def]) auto
  then show ?thesis unfolding ev by auto
qed

text \<open>
  After ensuring the profile for everyone, the returned name is that of a live stored profile
  whose subjects include everyone, nothing that was stored is lost, and doing it again returns
  the same name and changes nothing. The hypothesis on the fixed name excludes a stored profile that
  has it without applying to everyone.
\<close>

theorem everyone_profile_ensured:
  assumes "policy_store_ok list create" and "list st = Inr items"
    and "\<forall>p\<in>set items. Name p = everyoneProfileName \<longrightarrow> everyone_profile p"
  shows "\<exists>name st' items'. EnsureEveryoneProfile list create st = (Inr name, st') \<and> list st' = Inr items'
    \<and> (\<exists>p\<in>set items'. Name p = name \<and> everyone_profile p) \<and> set items \<subseteq> set items'
    \<and> EnsureEveryoneProfile list create st' = (Inr name, st')"
proof (cases "\<exists>p\<in>set items. everyone_profile p")
  case True
  from EnsureEveryoneProfile_found [where list = list, OF assms(2) True] assms(2) show ?thesis by blast
next
  case False
  define q where "q = (if items = [] then firstStartDefaultPolicy else new_profile everyoneProfileName [everyone_subject] [])"
  have q: "everyone_profile q"
    by (simp add: q_def everyone_profile_def firstStartDefaultPolicy_def DefaultPolicy_def new_profile_def AppliesToEveryone_def everyone_subject_def)
  have fresh: "Name q \<notin> Name ` set items"
  proof
    assume "Name q \<in> Name ` set items"
    then have "items \<noteq> []" "everyoneProfileName \<in> Name ` set items"
      by (auto simp: q_def new_profile_def split: if_splits)
    with assms(3) False show False by force
  qed
  obtain st' items' where cr: "create q st = (None, st')" "list st' = Inr items'" "set items' = insert q (set items)"
    using assms(1,2) fresh unfolding policy_store_ok_def by (metis sum.inject(2))
  have none: "filter (\<lambda>p. DeletionTimestamp p = None \<and> AppliesToEveryone (mapSubjects p)) items = []"
    using False by (auto simp: filter_empty_conv everyone_profile_def)
  have first: "EnsureEveryoneProfile list create st = (Inr (Name q), st')"
    using cr(1) by (simp add: EnsureEveryoneProfile_def assms(2) none q_def [symmetric] IgnoreAlreadyExists_def)
  have only: "p = q" if "p \<in> set items'" "everyone_profile p" for p using cr(3) False that by auto
  have "\<exists>p\<in>set items'. everyone_profile p" using cr(3) q by auto
  then have "EnsureEveryoneProfile list create st' = (Inr (Name q), st')"
    using EnsureEveryoneProfile_found [where list = list, OF cr(2)] only by metis
  with first cr q show ?thesis by auto
qed

definition list_create :: "ModelAccessPolicy list policy_creator" where
  "list_create p st = (if Name p \<in> Name ` set st then (Some (AlreadyExists (Name p)), st) else (None, p # st))"

lemma list_store_ok: "policy_store_ok Inr list_create"
  by (simp add: policy_store_ok_def list_create_def)

theorem everyone_profile_ensured_witness:
  "\<exists>name st' items'. EnsureEveryoneProfile Inr list_create [example_policy []] = (Inr name, st') \<and> Inr st' = (Inr items' :: ModelAccessPolicy list result)
    \<and> (\<exists>p\<in>set items'. Name p = name \<and> everyone_profile p) \<and> set [example_policy []] \<subseteq> set items'
    \<and> EnsureEveryoneProfile Inr list_create st' = (Inr name, st')"
  by (rule everyone_profile_ensured [OF list_store_ok]) (simp_all add: example_policy_def everyoneProfileName_def)

text \<open>
  Without that hypothesis the code returns a profile that does not apply to everyone: a stored
  profile with the fixed name makes the creation fail with already exists, which is ignored.
\<close>

theorem everyone_profile_name_taken:
  "EnsureEveryoneProfile Inr list_create [example_policy []\<lparr>Name := everyoneProfileName\<rparr>]
     = (Inr everyoneProfileName, [example_policy []\<lparr>Name := everyoneProfileName\<rparr>])
   \<and> \<not> everyone_profile (example_policy []\<lparr>Name := everyoneProfileName\<rparr>)"
  by (simp add: EnsureEveryoneProfile_def example_policy_def AppliesToEveryone_def list_create_def
      new_profile_def IgnoreAlreadyExists_def everyone_profile_def)

end
