(* ===== verification/VMCP.thy ===== *)
theory VMCP
  imports Subjects Roles "HOL-Library.AList"
begin

text \<open>
  Virtual MCP servers: the types and validation of apiclient/types/vmcp.go and the profiles of
  pkg/vmcp/profiles.go. A vMCP bundles components; its profiles grant the users they cover
  components and tools, and the instance of a user may select fewer. A grant is a list of
  references of original tool names; \<open>None\<close> is Go's nil, an unrestricted grant, and \<open>Some []\<close> the
  empty grant. Go maps that the code ranges over are association lists.
\<close>

section \<open>Data\<close>

record MCPSecretBinding =
  sbName :: string
  sbKey :: string

datatype UsageKind = Env | Header | File | DynamicFile | Interpolated | OtherUsage string

record MCPConfigurationOption =
  coName :: string
  coValue :: string
  coDescription :: string

record MCPConfig =
  cfUserAllowed :: bool
  cfName :: string
  cfDescription :: string
  cfKey :: string
  cfValue :: string
  cfStatic :: bool
  cfSensitive :: bool
  cfRequired :: bool
  cfPrefix :: string
  cfOptions :: "MCPConfigurationOption list"
  cfSecretBinding :: "MCPSecretBinding option"
  cfUsage :: UsageKind

text \<open>The configurations of the runtimes, of which a manifest has at most one.\<close>

record UVXRuntimeConfig =
  uvPackage :: string
  uvCommand :: string
  uvArgs :: "string list"
  uvEgressDomains :: "string list"
  uvDenyAllEgress :: "bool option"
  uvStartupTimeoutSeconds :: int

record NPXRuntimeConfig =
  npPackage :: string
  npArgs :: "string list"
  npEgressDomains :: "string list"
  npDenyAllEgress :: "bool option"
  npStartupTimeoutSeconds :: int

record ContainerizedRuntimeConfig =
  ctImage :: string
  ctCommand :: string
  ctArgs :: "string list"
  ctPort :: int
  ctPath :: string
  ctHealthzPath :: string
  ctEgressDomains :: "string list"
  ctDenyAllEgress :: "bool option"
  ctStartupTimeoutSeconds :: int

record RemoteCatalogConfig =
  LocalhostCallbackEnabled :: bool
  LocalhostCallbackPath :: string
  FixedURL :: string
  TunnelName :: string
  URLTemplate :: string
  Hostname :: string
  StaticOAuthRequired :: bool

text \<open>The source of a document is a URL or its content; the schema is the raw JSON text.\<close>

record OpenAPIRuntimeConfig =
  oaSourceURL :: string
  oaSourceContent :: string
  oaSchema :: "string option"
  oaBaseURL :: string
  oaEgressDomains :: "string list"
  oaDenyAllEgress :: "bool option"

record MCPResourceRequests =
  rqCPU :: string
  rqMemory :: string

record MCPResourceRequirements =
  rrRequests :: MCPResourceRequests
  rrLimits :: MCPResourceRequests

record MCPServerTool =
  mtID :: string
  mtName :: string
  mtDescription :: string
  mtParams :: "(string \<times> string) list"
  mtCredentials :: "string list"
  mtEnabled :: bool
  mtUnsupported :: bool

record MCPServerCatalogEntryManifest =
  emMetadata :: "(string \<times> string) list"
  emEntryKey :: string
  emName :: string
  emShortDescription :: string
  emDescription :: string
  emIcon :: string
  emRepoURL :: string
  emToolPreview :: "MCPServerTool list"
  emUpgradeNote :: string
  emMinObotVersion :: string
  emMaxObotVersion :: string
  emRuntime :: string
  emUVXConfig :: "UVXRuntimeConfig option"
  emNPXConfig :: "NPXRuntimeConfig option"
  emContainerizedConfig :: "ContainerizedRuntimeConfig option"
  emRemoteConfig :: "RemoteCatalogConfig option"
  emOpenAPIConfig :: "OpenAPIRuntimeConfig option"
  emConfig :: "MCPConfig list"
  emStaticConfigurationRevision :: string
  emResources :: "MCPResourceRequirements option"

record MCPServerCatalogEntrySnapshot =
  snManifest :: MCPServerCatalogEntryManifest
  snUnsupportedTools :: "string list"

datatype VMCPConfigurationPolicyType = PolicyUnset | PolicyProhibited | PolicyFixed | PolicyUserAllowed | PolicyOther string

record VMCPConfigurationPolicy =
  cpKey :: string
  cpPolicy :: VMCPConfigurationPolicyType
  cpValue :: string
  cpSecretBinding :: "MCPSecretBinding option"

record ToolOverride =
  toName :: string
  toOverrideName :: string
  toDescription :: string
  toOverrideDescription :: string
  toEnabled :: bool

record VMCPComponent =
  vcID :: string
  vcName :: string
  vcMCPCatalogID :: string
  vcMCPServerCatalogEntryID :: string
  vcCatalogEntry :: MCPServerCatalogEntrySnapshot
  vcSourceDigest :: string
  vcConfiguration :: "VMCPConfigurationPolicy list"
  vcForceSingleUser :: bool
  vcOAuthCredentialID :: string
  vcToolPrefix :: string
  vcToolOverrides :: "ToolOverride list"

text \<open>\<open>csAllowedTools\<close>: nil means all tools, the empty list no tools.\<close>

record VMCPComponentSet =
  csAllowedTools :: "string list option"

type_synonym component_map = "(string \<times> VMCPComponentSet) list"

record VMCPProfilePermissions =
  AllowAllComponents :: bool
  AllowedComponents :: "component_map option"

record VMCPProfile =
  vpName :: string
  vpSubjects :: "Subject list"
  vpPermissions :: VMCPProfilePermissions

record VMCPManifest =
  vmDisplayName :: string
  vmToolSearch :: bool
  vmComponents :: "VMCPComponent list"
  vmProfiles :: "VMCPProfile list option"

record VMCPToolReference =
  ComponentID :: string
  trName :: string

record VMCPInstanceManifest =
  imVMCPID :: string
  imComponentSet :: "component_map option"

text \<open>The stored objects (pkg/storage/apis/obot.obot.ai/v1): the fields of their specs that the code reads.\<close>

record VMCP_obj = object_meta +
  vmManifest :: VMCPManifest
  vmUserID :: string
  vmLegacySlug :: string
  vmStaticConfigurationHash :: string
  vmStaticConfigurationCredentialName :: string
  vmComponentStaticConfigurationHashes :: "(string \<times> string) list"

record VMCPInstance = object_meta +
  viManifest :: VMCPInstanceManifest
  viUserID :: string
  viLegacySlug :: string
  viLegacyCreatedAt :: "int option"
  viLegacyComponents :: "VMCPComponent list"
  viLegacyDisabledComponents :: "string list"
  viUserConfigurationHash :: string

section \<open>Tool references\<close>

definition from_ref :: "VMCPToolReference \<Rightarrow> component_map \<Rightarrow> component_map" where
  "from_ref ref result =
    (let old = map_of result (ComponentID ref);
         tools = (case old of Some c \<Rightarrow> csAllowedTools c | None \<Rightarrow> None);
         tools' = (if trName ref = ''*'' then None
                   else if old = None \<or> tools \<noteq> None
                   then Some ((case tools of Some ts \<Rightarrow> ts | None \<Rightarrow> []) @ [trName ref])
                   else tools)
     in AList.update (ComponentID ref) \<lparr>csAllowedTools = tools'\<rparr> result)"

definition ComponentsFromToolReferences :: "VMCPToolReference list option \<Rightarrow> component_map option" where
  "ComponentsFromToolReferences refs = map_option (\<lambda>rs. fold from_ref rs []) refs"

definition component_refs :: "string \<times> VMCPComponentSet \<Rightarrow> VMCPToolReference list" where
  "component_refs = (\<lambda>(componentID, component).
    case csAllowedTools component of
      None \<Rightarrow> [\<lparr>ComponentID = componentID, trName = ''*''\<rparr>]
    | Some names \<Rightarrow> map (\<lambda>name. \<lparr>ComponentID = componentID, trName = name\<rparr>) names)"

definition ComponentToolReferences :: "component_map option \<Rightarrow> VMCPToolReference list option" where
  "ComponentToolReferences components = map_option (\<lambda>cs. concat (map component_refs cs)) components"

definition VMCPToolReference_Validate :: "VMCPToolReference \<Rightarrow> unit result" where
  "VMCPToolReference_Validate r =
    (if ComponentID r = [] \<or> trName r = []
     then Inl (Invalid ''tool reference requires componentID and original tool name'') else Inr ())"

definition ValidateToolReference :: "VMCPManifest \<Rightarrow> VMCPToolReference \<Rightarrow> unit result" where
  "ValidateToolReference m ref =
    andThen (VMCPToolReference_Validate ref) (\<lambda>_.
      case find (\<lambda>component. vcID component = ComponentID ref) (vmComponents m) of
        None \<Rightarrow> Inl (Invalid (''unknown tool component '' @ ComponentID ref))
      | Some component \<Rightarrow>
          if trName ref = ''*'' \<or> vcToolOverrides component = [] then Inr ()
          else if list_ex (\<lambda>tool. toName tool = trName ref \<and> toEnabled tool) (vcToolOverrides component) then Inr ()
          else Inl (Invalid (''tool is not enabled on component '' @ ComponentID ref)))"

definition ValidateComponents :: "VMCPManifest \<Rightarrow> component_map option \<Rightarrow> unit result" where
  "ValidateComponents m components =
    validate_all (\<lambda>(componentID, component).
      if componentID = [] \<or> \<not> list_ex (\<lambda>c. vcID c = componentID) (vmComponents m)
      then Inl (Invalid (''unknown tool component '' @ componentID))
      else validate_all (\<lambda>name. ValidateToolReference m \<lparr>ComponentID = componentID, trName = name\<rparr>)
             (case csAllowedTools component of Some ts \<Rightarrow> ts | None \<Rightarrow> []))
      (case components of Some cs \<Rightarrow> cs | None \<Rightarrow> [])"

section \<open>Defaults and validation of a manifest\<close>

definition DefaultConfigurationPolicies :: "VMCPManifest \<Rightarrow> VMCPManifest" where
  "DefaultConfigurationPolicies m =
    m\<lparr>vmComponents := map (\<lambda>c. c\<lparr>vcConfiguration :=
        map (\<lambda>p. if cpPolicy p = PolicyUnset then p\<lparr>cpPolicy := PolicyProhibited\<rparr> else p) (vcConfiguration c)\<rparr>)
      (vmComponents m)\<rparr>"

definition Default :: "bool \<Rightarrow> VMCPManifest \<Rightarrow> VMCPManifest" where
  "Default personalServer m =
    (let m' = DefaultConfigurationPolicies m
     in if personalServer then m'\<lparr>vmProfiles := None\<rparr>
        else if vmProfiles m' = None
        then m'\<lparr>vmProfiles := Some [\<lparr>vpName = ''default'',
               vpSubjects = [\<lparr>SubjType = SubjectTypeObotGroup, SubjID = GroupAdmin\<rparr>],
               vpPermissions = \<lparr>AllowAllComponents = True, AllowedComponents = None\<rparr>\<rparr>]\<rparr>
        else m')"

definition validateConfigurationSecretBinding :: "VMCPComponent \<Rightarrow> VMCPConfigurationPolicy \<Rightarrow> unit result" where
  "validateConfigurationSecretBinding component policy =
    (case cpSecretBinding policy of
       None \<Rightarrow> Inr ()
     | Some binding \<Rightarrow>
         if cpPolicy policy \<noteq> PolicyFixed then Inl (Invalid ''may only set secretBinding with fixed policy'')
         else if cpValue policy \<noteq> [] then Inl (Invalid ''secretBinding and value are mutually exclusive'')
         else if sbName binding = [] \<or> sbKey binding = [] then Inl (Invalid ''secretBinding requires both name and key'')
         else if \<not> list_ex (\<lambda>config. cfKey config = cpKey policy) (emConfig (snManifest (vcCatalogEntry component)))
         then Inl (Invalid ''secretBinding does not match a catalog entry configuration field'')
         else Inr ())"

text \<open>The loop over the policies of a component returns the map of policies by key.\<close>

fun validate_policies ::
  "VMCPComponent \<Rightarrow> (string \<times> VMCPConfigurationPolicyType) list \<Rightarrow> VMCPConfigurationPolicy list
   \<Rightarrow> (string \<times> VMCPConfigurationPolicyType) list result" where
  "validate_policies component keys [] = Inr keys"
| "validate_policies component keys (policy # policies) =
    (if cpKey policy = [] then Inl (Invalid ''configuration key is required'')
     else if map_of keys (cpKey policy) \<noteq> None then Inl (Invalid ''duplicate configuration key'')
     else if (case cpPolicy policy of PolicyOther _ \<Rightarrow> True | _ \<Rightarrow> False) then Inl (Invalid ''invalid policy'')
     else if cpPolicy policy \<noteq> PolicyFixed \<and> cpValue policy \<noteq> [] then Inl (Invalid ''may only set value with fixed policy'')
     else andThen (validateConfigurationSecretBinding component policy)
            (\<lambda>_. validate_policies component ((cpKey policy, cpPolicy policy) # keys) policies))"

definition required_ok :: "(string \<times> VMCPConfigurationPolicyType) list \<Rightarrow> MCPConfig \<Rightarrow> unit result" where
  "required_ok keys config =
    (if cfRequired config \<and> \<not> cfStatic config \<and> cfSecretBinding config = None
     then (case map_of keys (cfKey config) of
             None \<Rightarrow> Inl (Invalid ''required configuration cannot be prohibited'')
           | Some p \<Rightarrow> if p = PolicyUnset \<or> p = PolicyProhibited
                       then Inl (Invalid ''required configuration cannot be prohibited'') else Inr ())
     else Inr ())"

fun validate_manifest_components :: "string list \<Rightarrow> string list \<Rightarrow> VMCPComponent list \<Rightarrow> unit result" where
  "validate_manifest_components names ids [] = Inr ()"
| "validate_manifest_components names ids (c # cs) =
    (if vcName c = [] then Inl (Invalid ''component name is required'')
     else if CHR ''.'' \<in> set (vcID c) then Inl (Invalid ''component ID cannot contain a period'')
     else if vcID c \<noteq> [] \<and> vcID c \<in> set ids then Inl (Invalid ''duplicate component ID'')
     else if vcName c \<in> set names then Inl (Invalid ''duplicate component name'')
     else if vcMCPServerCatalogEntryID c = [] then Inl (Invalid ''mcpServerCatalogEntryID is required'')
     else andThen (validate_policies c [] (vcConfiguration c)) (\<lambda>keys.
          andThen (validate_all (required_ok keys) (emConfig (snManifest (vcCatalogEntry c)))) (\<lambda>_.
            validate_manifest_components (vcName c # names) (if vcID c \<noteq> [] then vcID c # ids else ids) cs)))"

fun validate_profiles :: "VMCPManifest \<Rightarrow> string list \<Rightarrow> VMCPProfile list \<Rightarrow> unit result" where
  "validate_profiles m names [] = Inr ()"
| "validate_profiles m names (p # ps) =
    andThen (ValidateComponents m (AllowedComponents (vpPermissions p))) (\<lambda>_.
      if vpName p = [] then Inl (Invalid ''profile name is required'')
      else if vpName p \<in> set names then Inl (Invalid ''duplicate profile name'')
      else if vpSubjects p = [] then Inl (Invalid ''profile must have at least one subject'')
      else andThen (validate_all Subject_Validate (vpSubjects p)) (\<lambda>_. validate_profiles m (vpName p # names) ps))"

definition profiles_of :: "VMCPManifest \<Rightarrow> VMCPProfile list" where
  "profiles_of m = (case vmProfiles m of Some ps \<Rightarrow> ps | None \<Rightarrow> [])"

definition VMCPManifest_Validate :: "VMCPManifest \<Rightarrow> unit result" where
  "VMCPManifest_Validate m =
    (if vmDisplayName m = [] then Inl (Invalid ''displayName is required'')
     else andThen (validate_manifest_components [] [] (vmComponents m)) (\<lambda>_. validate_profiles m [] (profiles_of m)))"

definition VMCPInstanceManifest_Validate :: "VMCPInstanceManifest \<Rightarrow> unit result" where
  "VMCPInstanceManifest_Validate m =
    (if imVMCPID m = [] then Inl (Invalid ''vmcpID is required'')
     else andThen (validate_all (\<lambda>(componentID, _). if componentID = [] then Inl (Invalid ''component ID is required'') else Inr ())
                     (case imComponentSet m of Some cs \<Rightarrow> cs | None \<Rightarrow> [])) (\<lambda>_.
            validate_all VMCPToolReference_Validate
              (case ComponentToolReferences (imComponentSet m) of Some rs \<Rightarrow> rs | None \<Rightarrow> [])))"

section \<open>Profiles\<close>

definition PruneRemovedComponentProfiles :: "VMCPComponent list \<Rightarrow> VMCPManifest \<Rightarrow> VMCPManifest" where
  "PruneRemovedComponentProfiles previous manifest =
    fold (\<lambda>component m.
      if list_ex (\<lambda>current. vcID current = vcID component) (vmComponents m) then m
      else m\<lparr>vmProfiles := map_option (map (\<lambda>p. p\<lparr>vpPermissions := (vpPermissions p)\<lparr>AllowedComponents :=
               map_option (AList.delete (vcID component)) (AllowedComponents (vpPermissions p))\<rparr>\<rparr>)) (vmProfiles m)\<rparr>)
      previous manifest"

definition profile_matches :: "user_info \<Rightarrow> VMCPProfile \<Rightarrow> bool" where
  "profile_matches u profile =
    list_ex (\<lambda>subject.
        (SubjType subject = SubjectTypeSelector \<and> SubjID subject = ''*'')
      \<or> (SubjType subject = SubjectTypeUser \<and> SubjID subject = GetUID u)
      \<or> (SubjType subject = SubjectTypeObotGroup \<and> SubjID subject \<in> set (GetExtra u ''obot_groups''))
      \<or> (SubjType subject = SubjectTypeGroup \<and> SubjID subject \<in> set (GetExtra u ''auth_provider_groups'')))
      (vpSubjects profile)"

definition MatchingProfiles :: "user_info \<Rightarrow> VMCPProfile list \<Rightarrow> VMCPProfile list" where
  "MatchingProfiles u profiles = filter (profile_matches u) profiles"

definition ToolGranted :: "VMCPToolReference list option \<Rightarrow> VMCPToolReference \<Rightarrow> bool" where
  "ToolGranted grant tool =
    (case grant of
       None \<Rightarrow> True
     | Some g \<Rightarrow> tool \<in> set g \<or> \<lparr>ComponentID = ComponentID tool, trName = ''*''\<rparr> \<in> set g)"

text \<open>The references the matching profiles grant, in the order of the profiles.\<close>

definition profile_refs :: "VMCPProfile \<Rightarrow> VMCPToolReference list" where
  "profile_refs p = (case ComponentToolReferences (AllowedComponents (vpPermissions p)) of Some rs \<Rightarrow> rs | None \<Rightarrow> [])"

definition contract_selection ::
  "bool \<Rightarrow> VMCPToolReference list \<Rightarrow> VMCPToolReference list \<Rightarrow> VMCPToolReference list" where
  "contract_selection all tools refs =
    concat (map (\<lambda>tool. if all \<or> ToolGranted (Some tools) tool then [tool]
                         else if trName tool = ''*'' then filter (\<lambda>granted. ComponentID granted = ComponentID tool) tools
                         else []) refs)"

text \<open>
  \<open>tools\<close> is nil in Go when no profile adds a reference; \<open>ToolGranted\<close> is then only reached with
  \<open>all\<close> set, which the model's \<open>Some tools\<close> does not distinguish.
\<close>

definition AllowedTools ::
  "user_info \<Rightarrow> VMCPProfile list \<Rightarrow> component_map option \<Rightarrow> VMCPToolReference list option" where
  "AllowedTools u profiles selection =
    (let matching = MatchingProfiles u profiles;
         all = list_ex (\<lambda>p. AllowAllComponents (vpPermissions p)) matching;
         tools = concat (map profile_refs matching);
         canonical = (\<lambda>ts. Some (remdups_adj (sort_key (\<lambda>r. (ComponentID r, trName r)) ts)))
     in if \<not> all \<and> tools = [] then Some []
        else case ComponentToolReferences selection of
          Some refs \<Rightarrow> canonical (contract_selection all tools refs)
        | None \<Rightarrow> if all then None else canonical tools)"

definition InstanceGrant :: "user_info \<Rightarrow> VMCP_obj \<Rightarrow> VMCPInstance \<Rightarrow> VMCPToolReference list option" where
  "InstanceGrant u vmcp inst =
    (if vmUserID vmcp = [] then AllowedTools u (profiles_of (vmManifest vmcp)) (imComponentSet (viManifest inst))
     else if vmUserID vmcp = viUserID inst then ComponentToolReferences (imComponentSet (viManifest inst))
     else Some [])"

definition EnabledComponents :: "user_info \<Rightarrow> VMCP_obj \<Rightarrow> VMCPComponent list \<Rightarrow> VMCPComponent list" where
  "EnabledComponents u vmcp components =
    (if vmUserID vmcp \<noteq> [] then components
     else let matching = MatchingProfiles u (profiles_of (vmManifest vmcp))
          in if list_ex (\<lambda>p. AllowAllComponents (vpPermissions p)) matching then components
             else filter (\<lambda>c. list_ex (\<lambda>p. case AllowedComponents (vpPermissions p) of
                                       Some cs \<Rightarrow> vcID c \<in> fst ` set cs | None \<Rightarrow> False) matching) components)"

text \<open>The loop over the grant: \<open>None\<close> when a \<open>*\<close> of the component ends it, else the distinct names.\<close>

fun granted_names :: "string \<Rightarrow> string list \<Rightarrow> VMCPToolReference list \<Rightarrow> string list option" where
  "granted_names componentID names [] = Some names"
| "granted_names componentID names (ref # refs) =
    (if ComponentID ref \<noteq> componentID then granted_names componentID names refs
     else if trName ref = ''*'' then None
     else granted_names componentID (if trName ref \<in> set names then names else names @ [trName ref]) refs)"

definition GrantedToolOverrides ::
  "string \<Rightarrow> ToolOverride list \<Rightarrow> VMCPToolReference list option \<Rightarrow> ToolOverride list \<times> bool" where
  "GrantedToolOverrides componentID overrides grant =
    (case grant of
       None \<Rightarrow> (overrides, False)
     | Some g \<Rightarrow>
         (case granted_names componentID [] g of
            None \<Rightarrow> (overrides, False)
          | Some names \<Rightarrow>
              (if overrides \<noteq> [] then filter (\<lambda>tool. toName tool \<in> set names \<and> toEnabled tool) overrides
               else map (\<lambda>name. \<lparr>toName = name, toOverrideName = [], toDescription = [], toOverrideDescription = [], toEnabled = True\<rparr>) names,
               True)))"

section \<open>What profiles and selections grant\<close>

interpretation vmcp_profile: subject_matcher profile_matches vpSubjects
  by unfold_locales (auto simp: profile_matches_def list_ex_iff covers_iff)

text \<open>A component set includes a tool: no list, the tool itself, or a listed \<open>*\<close>.\<close>

definition set_includes :: "component_map \<Rightarrow> VMCPToolReference \<Rightarrow> bool" where
  "set_includes cs t \<longleftrightarrow> (\<exists>c. (ComponentID t, c) \<in> set cs \<and>
     (case csAllowedTools c of None \<Rightarrow> True | Some ts \<Rightarrow> trName t \<in> set ts \<or> ''*'' \<in> set ts))"

definition profiles_grant :: "user_info \<Rightarrow> VMCPProfile list \<Rightarrow> VMCPToolReference \<Rightarrow> bool" where
  "profiles_grant u profiles t \<longleftrightarrow>
    (\<exists>p\<in>set profiles. (\<exists>s\<in>set (vpSubjects p). covers s u) \<and>
      (AllowAllComponents (vpPermissions p)
       \<or> (\<exists>cs. AllowedComponents (vpPermissions p) = Some cs \<and> set_includes cs t)))"

definition lists_tool :: "VMCPComponentSet \<Rightarrow> string \<Rightarrow> bool" where
  "lists_tool c n = (case csAllowedTools c of None \<Rightarrow> n = ''*'' | Some ts \<Rightarrow> n \<in> set ts)"

lemma in_component_refs: "r \<in> set (component_refs (i, c)) \<longleftrightarrow> ComponentID r = i \<and> lists_tool c (trName r)"
  by (cases r) (auto simp: component_refs_def lists_tool_def split: option.splits)

lemma in_concat_refs:
  "r \<in> set (concat (map component_refs cs)) \<longleftrightarrow> (\<exists>c. (ComponentID r, c) \<in> set cs \<and> lists_tool c (trName r))"
  by (force simp: in_component_refs)

lemma set_includes_lists:
  "set_includes cs t \<longleftrightarrow> (\<exists>c. (ComponentID t, c) \<in> set cs \<and> (lists_tool c (trName t) \<or> lists_tool c ''*''))"
  unfolding set_includes_def lists_tool_def by (metis (no_types, lifting) option.case_eq_if)

lemma refs_grant_iff: "ToolGranted (Some (concat (map component_refs cs))) t \<longleftrightarrow> set_includes cs t"
  by (simp only: ToolGranted_def option.case in_concat_refs set_includes_lists VMCPToolReference.simps) blast

lemma ToolGranted_union:
  "ToolGranted (Some (concat (map f ps))) t \<longleftrightarrow> (\<exists>p\<in>set ps. ToolGranted (Some (f p)) t)"
  by (auto simp: ToolGranted_def)

lemma profile_refs_grant:
  "ToolGranted (Some (profile_refs p)) t \<longleftrightarrow>
    (\<exists>cs. AllowedComponents (vpPermissions p) = Some cs \<and> set_includes cs t)"
  by (cases "AllowedComponents (vpPermissions p)")
     (auto simp: profile_refs_def ComponentToolReferences_def refs_grant_iff, auto simp: ToolGranted_def)

lemma profiles_grant_matching:
  "profiles_grant u profiles t \<longleftrightarrow>
     list_ex (\<lambda>p. AllowAllComponents (vpPermissions p)) (MatchingProfiles u profiles)
   \<or> ToolGranted (Some (concat (map profile_refs (MatchingProfiles u profiles)))) t"
  unfolding ToolGranted_union profile_refs_grant profiles_grant_def MatchingProfiles_def list_ex_iff
  by (auto simp: vmcp_profile.matches_iff)

lemma ToolGranted_canonical:
  "ToolGranted (Some (remdups_adj (sort_key f ts))) t \<longleftrightarrow> ToolGranted (Some ts) t"
  by (simp add: ToolGranted_def)

lemma wildcard_ref: "trName w = ''*'' \<and> ComponentID w = i \<longleftrightarrow> w = \<lparr>ComponentID = i, trName = ''*''\<rparr>"
  by (cases w) auto

lemma in_contract_selection:
  "r \<in> set (contract_selection all tools refs) \<longleftrightarrow>
     (r \<in> set refs \<and> (all \<or> ToolGranted (Some tools) r))
   \<or> (\<exists>w\<in>set refs. (trName w = ''*'' \<and> ComponentID w = ComponentID r) \<and> \<not> all \<and> \<not> ToolGranted (Some tools) w \<and> r \<in> set tools)"
  unfolding contract_selection_def by (induction refs) (auto split: if_splits)

lemma contract_selection_grant:
  "ToolGranted (Some (contract_selection all tools refs)) t \<longleftrightarrow>
     (all \<or> ToolGranted (Some tools) t) \<and> ToolGranted (Some refs) t"
  unfolding ToolGranted_def option.case in_contract_selection wildcard_ref by auto

lemma AllowedTools_unselected:
  "ToolGranted (AllowedTools u profiles None) t \<longleftrightarrow> profiles_grant u profiles t"
  unfolding profiles_grant_matching
  by (simp add: AllowedTools_def Let_def ComponentToolReferences_def ToolGranted_canonical del: concat_eq_Nil_conv)
     (auto simp: ToolGranted_def)

lemma AllowedTools_selected:
  "ToolGranted (AllowedTools u profiles (Some selection)) t \<longleftrightarrow> profiles_grant u profiles t \<and> set_includes selection t"
  unfolding profiles_grant_matching refs_grant_iff [symmetric]
  by (simp add: AllowedTools_def Let_def ComponentToolReferences_def ToolGranted_canonical contract_selection_grant del: concat_eq_Nil_conv)
     (auto simp: ToolGranted_def)

text \<open>
  C22: what a user may call on a shared vMCP. Without a selection it is exactly what the profiles
  that cover the user grant, and with one it is exactly what the profiles grant and the
  selection includes: a selection narrows grants and never widens them, tool by tool.
\<close>

theorem AllowedTools_exact:
  "ToolGranted (AllowedTools u profiles None) t = profiles_grant u profiles t
   \<and> ToolGranted (AllowedTools u profiles (Some selection)) t = (profiles_grant u profiles t \<and> set_includes selection t)"
  by (simp add: AllowedTools_unselected AllowedTools_selected)

text \<open>
  A component with a tool that the profiles grant to a user is enabled for the user, so
  no granted tool is on a component that is left unconnected. On a personal vMCP every component is.
\<close>

theorem granted_component_enabled:
  assumes "component \<in> set components" and "ComponentID t = vcID component"
    and "ToolGranted (AllowedTools u (profiles_of (vmManifest vmcp)) selection) t"
  shows "component \<in> set (EnabledComponents u vmcp components)"
proof -
  have "profiles_grant u (profiles_of (vmManifest vmcp)) t"
    using assms(3) by (cases selection) (simp_all add: AllowedTools_unselected AllowedTools_selected)
  then obtain p where p: "p \<in> set (MatchingProfiles u (profiles_of (vmManifest vmcp)))"
      "AllowAllComponents (vpPermissions p) \<or> (\<exists>cs. AllowedComponents (vpPermissions p) = Some cs \<and> set_includes cs t)"
    by (auto simp: profiles_grant_def MatchingProfiles_def vmcp_profile.matches_iff)
  show ?thesis
  proof (cases "list_ex (\<lambda>p. AllowAllComponents (vpPermissions p)) (MatchingProfiles u (profiles_of (vmManifest vmcp)))")
    case True
    then show ?thesis using assms(1) by (simp add: EnabledComponents_def)
  next
    case False
    with p obtain cs where "AllowedComponents (vpPermissions p) = Some cs" "set_includes cs t"
      by (auto simp: list_ex_iff)
    then have "AllowedComponents (vpPermissions p) = Some cs" "vcID component \<in> fst ` set cs"
      using assms(2) by (force simp: set_includes_def)+
    with p(1) assms(1) False show ?thesis
      by (simp add: EnabledComponents_def list_ex_iff) (metis (no_types, lifting) option.simps(5))
  qed
qed

definition example_profile :: "component_map option \<Rightarrow> VMCPProfile" where
  "example_profile cs = \<lparr>vpName = ''all'', vpSubjects = [\<lparr>SubjType = SubjectTypeSelector, SubjID = ''*''\<rparr>],
     vpPermissions = \<lparr>AllowAllComponents = False, AllowedComponents = cs\<rparr>\<rparr>"

definition example_snapshot :: MCPServerCatalogEntrySnapshot where
  "example_snapshot = \<lparr>snManifest = \<lparr>emMetadata = [], emEntryKey = [], emName = ''Entry'', emShortDescription = [],
     emDescription = [], emIcon = [], emRepoURL = [], emToolPreview = [], emUpgradeNote = [], emMinObotVersion = [],
     emMaxObotVersion = [], emRuntime = ''remote'', emUVXConfig = None, emNPXConfig = None, emContainerizedConfig = None,
     emRemoteConfig = None, emOpenAPIConfig = None, emConfig = [], emStaticConfigurationRevision = [], emResources = None\<rparr>,
     snUnsupportedTools = []\<rparr>"

definition example_component :: "string \<Rightarrow> string \<Rightarrow> VMCPComponent" where
  "example_component i name = \<lparr>vcID = i, vcName = name, vcMCPCatalogID = ''default'', vcMCPServerCatalogEntryID = ''entry'',
     vcCatalogEntry = example_snapshot, vcSourceDigest = [], vcConfiguration = [], vcForceSingleUser = False,
     vcOAuthCredentialID = [], vcToolPrefix = [], vcToolOverrides = []\<rparr>"

definition example_vmcp :: "VMCPProfile list \<Rightarrow> string \<Rightarrow> VMCP_obj" where
  "example_vmcp ps owner = \<lparr>Name = ''vmcp1x'', Namespace = ''default'', DeletionTimestamp = None, CreationTimestamp = 0,
     vmManifest = \<lparr>vmDisplayName = ''V'', vmToolSearch = False, vmComponents = [example_component ''c1'' ''one''], vmProfiles = Some ps\<rparr>,
     vmUserID = owner, vmLegacySlug = [], vmStaticConfigurationHash = [], vmStaticConfigurationCredentialName = [],
     vmComponentStaticConfigurationHashes = []\<rparr>"

definition vmcp_user :: user_info where
  "vmcp_user = \<lparr>GetName = ''alice'', GetUID = ''7'', GetGroups = [], GetExtra = (\<lambda>_. [])\<rparr>"

theorem granted_component_enabled_witness:
  "example_component ''c1'' ''one'' \<in> set (EnabledComponents vmcp_user
     (example_vmcp [example_profile (Some [(''c1'', \<lparr>csAllowedTools = Some [''search'']\<rparr>)])] []) [example_component ''c1'' ''one''])"
  by (rule granted_component_enabled [where t = "\<lparr>ComponentID = ''c1'', trName = ''search''\<rparr>" and selection = None])
     (simp_all add: AllowedTools_unselected profiles_grant_def profiles_of_def example_vmcp_def example_profile_def
       example_component_def covers_def subject_matches_def set_includes_def)

section \<open>Overrides under a grant\<close>

lemma ref_eq: "\<lparr>ComponentID = i, trName = n\<rparr> = ref \<longleftrightarrow> ComponentID ref = i \<and> trName ref = n"
  by (cases ref) auto

lemma granted_names_None: "granted_names i names g = None \<longleftrightarrow> \<lparr>ComponentID = i, trName = ''*''\<rparr> \<in> set g"
  by (induction i names g rule: granted_names.induct) (auto simp: ref_eq)

lemma granted_names_Some:
  "granted_names i names g = Some ns \<Longrightarrow> set ns = set names \<union> {n. \<lparr>ComponentID = i, trName = n\<rparr> \<in> set g}"
proof (induction i names g arbitrary: ns rule: granted_names.induct)
  case (2 i names ref refs)
  then show ?case by (auto simp: ref_eq split: if_splits)
qed simp

text \<open>
  A component's overrides under a grant. They are restricted exactly when the grant does not
  cover the whole component; unrestricted they are unchanged. Restricted, the tools that remain
  are the enabled ones the grant names, and on a component without overrides the
  enabled tools are exactly the ones the grant names.
\<close>

theorem GrantedToolOverrides_exact:
  "case GrantedToolOverrides componentID overrides grant of (tools, restricted) \<Rightarrow>
     (restricted \<longleftrightarrow> \<not> ToolGranted grant \<lparr>ComponentID = componentID, trName = ''*''\<rparr>)
   \<and> (if \<not> restricted then tools = overrides
      else if overrides \<noteq> []
      then tools = filter (\<lambda>t. toEnabled t \<and> ToolGranted grant \<lparr>ComponentID = componentID, trName = toName t\<rparr>) overrides
      else toName ` set tools = {n. ToolGranted grant \<lparr>ComponentID = componentID, trName = n\<rparr>} \<and> (\<forall>t\<in>set tools. toEnabled t))"
proof (cases grant)
  case None
  then show ?thesis by (simp add: GrantedToolOverrides_def ToolGranted_def)
next
  case (Some g)
  show ?thesis
  proof (cases "granted_names componentID [] g")
    case None
    with Some show ?thesis
      using granted_names_None [of componentID "[]" g] by (simp add: GrantedToolOverrides_def ToolGranted_def)
  next
    case names: (Some ns)
    have nostar: "\<lparr>ComponentID = componentID, trName = ''*''\<rparr> \<notin> set g"
      using granted_names_None [of componentID "[]" g] names by simp
    have "n \<in> set ns \<longleftrightarrow> \<lparr>ComponentID = componentID, trName = n\<rparr> \<in> set g" for n
      using granted_names_Some [OF names] by simp
    with Some names nostar show ?thesis
      by (auto simp: GrantedToolOverrides_def ToolGranted_def image_image conj_commute intro: filter_cong)
  qed
qed

theorem GrantedToolOverrides_exact_witness:
  "GrantedToolOverrides ''c1'' [] (Some [\<lparr>ComponentID = ''c1'', trName = ''search''\<rparr>]) =
     ([\<lparr>toName = ''search'', toOverrideName = [], toDescription = [], toOverrideDescription = [], toEnabled = True\<rparr>], True)
   \<and> toName ` set (fst (GrantedToolOverrides ''c1'' [] (Some [\<lparr>ComponentID = ''c1'', trName = ''search''\<rparr>]))) =
       {n. ToolGranted (Some [\<lparr>ComponentID = ''c1'', trName = ''search''\<rparr>]) \<lparr>ComponentID = ''c1'', trName = n\<rparr>}"
proof -
  have eq: "GrantedToolOverrides ''c1'' [] (Some [\<lparr>ComponentID = ''c1'', trName = ''search''\<rparr>]) =
     ([\<lparr>toName = ''search'', toOverrideName = [], toDescription = [], toOverrideDescription = [], toEnabled = True\<rparr>], True)"
    by (simp add: GrantedToolOverrides_def)
  show ?thesis
    using GrantedToolOverrides_exact [where componentID = "''c1''" and overrides = "[]" and
        grant = "Some [\<lparr>ComponentID = ''c1'', trName = ''search''\<rparr>]"] eq by (simp add: ToolGranted_def)
qed

section \<open>Converting references\<close>

lemma update_append_new: "i \<notin> fst ` set acc \<Longrightarrow> AList.update i v (acc @ xs) = acc @ AList.update i v xs"
  by (induction acc) auto

lemma map_of_append_new: "i \<notin> fst ` set acc \<Longrightarrow> map_of (acc @ xs) i = map_of xs i"
  by (induction acc) auto

lemma fold_named_refs:
  assumes "i \<notin> fst ` set acc" and "''*'' \<notin> set ts"
  shows "fold from_ref (map (\<lambda>n. \<lparr>ComponentID = i, trName = n\<rparr>) ts) (acc @ [(i, \<lparr>csAllowedTools = Some us\<rparr>)])
    = acc @ [(i, \<lparr>csAllowedTools = Some (us @ ts)\<rparr>)]"
  using assms(2)
proof (induction ts arbitrary: us)
  case (Cons t ts)
  have "from_ref \<lparr>ComponentID = i, trName = t\<rparr> (acc @ [(i, \<lparr>csAllowedTools = Some us\<rparr>)]) = acc @ [(i, \<lparr>csAllowedTools = Some (us @ [t])\<rparr>)]"
    using Cons.prems assms(1) by (simp add: from_ref_def map_of_append_new update_append_new Let_def eq_commute [of "''*''"] del: map_of_append)
  with Cons show ?case by simp
qed simp

lemma fold_component_refs:
  assumes "i \<notin> fst ` set acc"
    and "case csAllowedTools c of None \<Rightarrow> True | Some ts \<Rightarrow> ts \<noteq> [] \<and> ''*'' \<notin> set ts"
  shows "fold from_ref (component_refs (i, c)) acc = acc @ [(i, c)]"
proof -
  have first: "from_ref \<lparr>ComponentID = i, trName = n\<rparr> acc =
      acc @ [(i, \<lparr>csAllowedTools = (if n = ''*'' then None else Some [n])\<rparr>)]" for n
    using assms(1) map_of_append_new [of i acc "[]"] update_append_new [of i acc _ "[]"]
    by (simp add: from_ref_def Let_def)
  show ?thesis
  proof (cases "csAllowedTools c")
    case None
    then show ?thesis by (cases c) (simp add: component_refs_def first)
  next
    case (Some ts)
    with assms(2) obtain t ts' where ts: "ts = t # ts'" "t \<noteq> ''*''" "''*'' \<notin> set ts'" by (cases ts) auto
    have "fold from_ref (map (\<lambda>n. \<lparr>ComponentID = i, trName = n\<rparr>) ts') (acc @ [(i, \<lparr>csAllowedTools = Some [t]\<rparr>)])
      = acc @ [(i, \<lparr>csAllowedTools = Some ([t] @ ts')\<rparr>)]"
      by (rule fold_named_refs [OF assms(1) ts(3)])
    with Some ts show ?thesis by (cases c) (simp add: component_refs_def first)
  qed
qed

lemma fold_all_refs:
  assumes "distinct (map fst cs)" and "fst ` set cs \<inter> fst ` set acc = {}"
    and "\<forall>(i, c)\<in>set cs. case csAllowedTools c of None \<Rightarrow> True | Some ts \<Rightarrow> ts \<noteq> [] \<and> ''*'' \<notin> set ts"
  shows "fold from_ref (concat (map component_refs cs)) acc = acc @ cs"
  using assms
proof (induction cs arbitrary: acc)
  case (Cons p cs)
  obtain i c where p: "p = (i, c)" by fastforce
  have "fold from_ref (component_refs (i, c)) acc = acc @ [(i, c)]"
    by (rule fold_component_refs) (use Cons.prems p in auto)
  moreover have "fold from_ref (concat (map component_refs cs)) (acc @ [(i, c)]) = (acc @ [(i, c)]) @ cs"
    by (rule Cons.IH) (use Cons.prems p in auto)
  ultimately show ?case by (simp add: p)
qed simp

lemma from_ref_distinct: "distinct (map fst acc) \<Longrightarrow> distinct (map fst (from_ref r acc))"
  by (simp add: from_ref_def Let_def AList.distinct_update)

lemma set_includes_map_of:
  assumes "distinct (map fst acc)"
  shows "set_includes acc t \<longleftrightarrow> (\<exists>c. map_of acc (ComponentID t) = Some c \<and> (lists_tool c (trName t) \<or> lists_tool c ''*''))"
  unfolding set_includes_lists using assms by (auto dest: map_of_SomeD)

lemma set_includes_from_ref:
  assumes "distinct (map fst acc)"
  shows "set_includes (from_ref r acc) t \<longleftrightarrow> set_includes acc t \<or> ToolGranted (Some [r]) t"
proof -
  have r: "t = r \<longleftrightarrow> ComponentID t = ComponentID r \<and> trName t = trName r"
    "\<lparr>ComponentID = ComponentID t, trName = ''*''\<rparr> = r \<longleftrightarrow> ComponentID t = ComponentID r \<and> trName r = ''*''"
    by (cases r; cases t; auto)+
  show ?thesis
    unfolding set_includes_map_of [OF assms] set_includes_map_of [OF from_ref_distinct [OF assms]]
    by (auto simp: from_ref_def Let_def update_conv' ToolGranted_def r lists_tool_def split: option.splits)
qed

lemma set_includes_fold:
  "distinct (map fst acc) \<Longrightarrow> set_includes (fold from_ref refs acc) t \<longleftrightarrow> set_includes acc t \<or> ToolGranted (Some refs) t"
proof (induction refs arbitrary: acc)
  case (Cons r refs)
  then show ?case
    by (simp add: from_ref_distinct set_includes_from_ref) (auto simp: ToolGranted_def)
qed (simp add: ToolGranted_def)

text \<open>
  References and component sets convert to each other. Converting references to a component
  set keeps exactly what they grant, whatever their order and repetitions. A component set
  with distinct components, no component without tools and no tool called \<open>*\<close> is recovered from its references.
\<close>

theorem tool_references_roundtrip:
  "(\<forall>refs cs. ComponentsFromToolReferences (Some refs) = Some cs \<longrightarrow> set_includes cs t = ToolGranted (Some refs) t)
   \<and> (distinct (map fst cs) \<and> (\<forall>(i, c)\<in>set cs. case csAllowedTools c of None \<Rightarrow> True | Some ts \<Rightarrow> ts \<noteq> [] \<and> ''*'' \<notin> set ts)
      \<longrightarrow> ComponentsFromToolReferences (ComponentToolReferences (Some cs)) = Some cs)"
proof -
  have "\<not> set_includes [] t" by (simp add: set_includes_def)
  then show ?thesis
    using set_includes_fold [of "[]" _ t] fold_all_refs [of cs "[]"]
    by (auto simp: ComponentsFromToolReferences_def ComponentToolReferences_def)
qed

theorem tool_references_roundtrip_witness:
  "ComponentsFromToolReferences (ComponentToolReferences (Some [(''a'', \<lparr>csAllowedTools = None\<rparr>), (''b'', \<lparr>csAllowedTools = Some [''x'', ''y'']\<rparr>)]))
     = Some [(''a'', \<lparr>csAllowedTools = None\<rparr>), (''b'', \<lparr>csAllowedTools = Some [''x'', ''y'']\<rparr>)]"
  using tool_references_roundtrip [of undefined "[(''a'', \<lparr>csAllowedTools = None\<rparr>), (''b'', \<lparr>csAllowedTools = Some [''x'', ''y'']\<rparr>)]"]
  by simp

section \<open>Validated manifests\<close>

lemma validate_policies_Inr:
  assumes "validate_policies c keys ps = Inr ks" and "map_of ks k = Some p"
  shows "map_of keys k = Some p \<or> (\<exists>pol\<in>set ps. cpKey pol = k \<and> cpPolicy pol = p \<and> (\<forall>s. p \<noteq> PolicyOther s))"
  using assms
  by (induction c keys ps rule: validate_policies.induct)
     (auto simp: andThen_eq_Inr split: if_splits VMCPConfigurationPolicyType.splits)

lemma required_ok_Inr:
  assumes "validate_policies c [] ps = Inr ks" and "required_ok ks config = Inr ()"
    and "cfRequired config" "\<not> cfStatic config" "cfSecretBinding config = None"
  shows "\<exists>pol\<in>set ps. cpKey pol = cfKey config \<and> cpPolicy pol \<in> {PolicyFixed, PolicyUserAllowed}"
proof -
  from assms(2-) obtain p where p: "map_of ks (cfKey config) = Some p" "p \<noteq> PolicyUnset" "p \<noteq> PolicyProhibited"
    by (auto simp: required_ok_def split: option.splits if_splits)
  from validate_policies_Inr [OF assms(1) p(1)] p(2,3) show ?thesis
    by (cases p) auto
qed

definition component_well_formed :: "VMCPComponent \<Rightarrow> bool" where
  "component_well_formed c \<longleftrightarrow> vcName c \<noteq> [] \<and> CHR ''.'' \<notin> set (vcID c) \<and> vcMCPServerCatalogEntryID c \<noteq> []
     \<and> (\<forall>config\<in>set (emConfig (snManifest (vcCatalogEntry c))).
          cfRequired config \<and> \<not> cfStatic config \<and> cfSecretBinding config = None \<longrightarrow>
          (\<exists>pol\<in>set (vcConfiguration c). cpKey pol = cfKey config \<and> cpPolicy pol \<in> {PolicyFixed, PolicyUserAllowed}))"

lemma validate_components_Inr:
  "validate_manifest_components names ids cs = Inr () \<Longrightarrow>
     (\<forall>c\<in>set cs. component_well_formed c)
   \<and> distinct (map vcName cs) \<and> set (map vcName cs) \<inter> set names = {}
   \<and> distinct (filter (\<lambda>i. i \<noteq> []) (map vcID cs)) \<and> set (filter (\<lambda>i. i \<noteq> []) (map vcID cs)) \<inter> set ids = {}"
proof (induction names ids cs rule: validate_manifest_components.induct)
  case (2 names ids c cs)
  then obtain ks where ks: "validate_policies c [] (vcConfiguration c) = Inr ks"
      "\<forall>config\<in>set (emConfig (snManifest (vcCatalogEntry c))). required_ok ks config = Inr ()"
      "validate_manifest_components (vcName c # names) (if vcID c \<noteq> [] then vcID c # ids else ids) cs = Inr ()"
    by (auto simp: andThen_eq_Inr validate_all_Inr split: if_splits)
  have wf: "component_well_formed c"
    using 2(2) required_ok_Inr [OF ks(1)] ks(2) by (auto simp: component_well_formed_def split: if_splits)
  have IH: "(\<forall>c\<in>set cs. component_well_formed c)
   \<and> distinct (map vcName cs) \<and> set (map vcName cs) \<inter> set (vcName c # names) = {}
   \<and> distinct (filter (\<lambda>i. i \<noteq> []) (map vcID cs))
   \<and> set (filter (\<lambda>i. i \<noteq> []) (map vcID cs)) \<inter> set (if vcID c \<noteq> [] then vcID c # ids else ids) = {}"
    by (rule 2(1)) (use 2(2) ks(3) in \<open>auto split: if_splits\<close>)
  from 2(2) have "vcName c \<notin> set names" "vcID c \<noteq> [] \<Longrightarrow> vcID c \<notin> set ids" by (auto split: if_splits)
  with wf IH show ?case by (auto split: if_splits)
qed simp

lemma find_component:
  "find (\<lambda>c. vcID c = i) cs = Some c \<Longrightarrow> c \<in> set cs \<and> vcID c = i"
  by (induction cs) (auto split: if_splits)

lemma validate_profiles_Inr:
  "validate_profiles m names ps = Inr () \<Longrightarrow> p \<in> set ps \<Longrightarrow>
     vpSubjects p \<noteq> [] \<and> (\<forall>s\<in>set (vpSubjects p). Subject_Validate s = Inr ())
     \<and> ValidateComponents m (AllowedComponents (vpPermissions p)) = Inr ()"
  by (induction m names ps rule: validate_profiles.induct) (auto simp: andThen_eq_Inr validate_all_Inr split: if_splits)

definition reference_resolves :: "VMCPManifest \<Rightarrow> string \<Rightarrow> string \<Rightarrow> bool" where
  "reference_resolves m i n \<longleftrightarrow> (\<exists>c\<in>set (vmComponents m). vcID c = i \<and>
     (n = ''*'' \<or> vcToolOverrides c = [] \<or> (\<exists>tool\<in>set (vcToolOverrides c). toName tool = n \<and> toEnabled tool)))"

lemma ValidateToolReference_Inr:
  "ValidateToolReference m \<lparr>ComponentID = i, trName = n\<rparr> = Inr () \<Longrightarrow> i \<noteq> [] \<and> n \<noteq> [] \<and> reference_resolves m i n"
  by (auto simp: ValidateToolReference_def VMCPToolReference_Validate_def andThen_eq_Inr list_ex_iff reference_resolves_def
      split: option.splits if_splits dest!: find_component)

lemma ValidateComponents_Inr:
  assumes "ValidateComponents m (Some cs) = Inr ()" and "(i, c) \<in> set cs"
  shows "i \<in> vcID ` set (vmComponents m) \<and> i \<noteq> [] \<and>
    (\<forall>ts. csAllowedTools c = Some ts \<longrightarrow> (\<forall>n\<in>set ts. n \<noteq> [] \<and> reference_resolves m i n))"
  using assms ValidateToolReference_Inr
  by (fastforce simp: ValidateComponents_def validate_all_Inr list_ex_iff split: if_splits option.splits)

text \<open>
  What a validated manifest guarantees. Component names are distinct, and so are the IDs that
  are set, none with a period; every required input that the definition does not supply is fixed
  or left to the user; every profile has valid subjects, and every component and tool it names is
  a component of the manifest with that tool enabled.
\<close>

theorem valid_manifest_sound:
  assumes "VMCPManifest_Validate m = Inr ()"
  shows "(\<forall>c\<in>set (vmComponents m). component_well_formed c)
    \<and> distinct (map vcName (vmComponents m)) \<and> distinct (filter (\<lambda>i. i \<noteq> []) (map vcID (vmComponents m)))
    \<and> (\<forall>p\<in>set (profiles_of m). vpSubjects p \<noteq> [] \<and> (\<forall>s\<in>set (vpSubjects p). Subject_Validate s = Inr ())
        \<and> (\<forall>cs i c. AllowedComponents (vpPermissions p) = Some cs \<and> (i, c) \<in> set cs \<longrightarrow>
             i \<in> vcID ` set (vmComponents m) \<and>
             (\<forall>ts. csAllowedTools c = Some ts \<longrightarrow> (\<forall>n\<in>set ts. n \<noteq> [] \<and> reference_resolves m i n))))"
proof -
  from assms have v: "validate_manifest_components [] [] (vmComponents m) = Inr ()" "validate_profiles m [] (profiles_of m) = Inr ()"
    by (auto simp: VMCPManifest_Validate_def andThen_eq_Inr split: if_splits)
  have prof: "vpSubjects p \<noteq> [] \<and> (\<forall>s\<in>set (vpSubjects p). Subject_Validate s = Inr ())"
    "AllowedComponents (vpPermissions p) = Some cs \<Longrightarrow> (i, c) \<in> set cs \<Longrightarrow>
       i \<in> vcID ` set (vmComponents m) \<and> (\<forall>ts. csAllowedTools c = Some ts \<longrightarrow> (\<forall>n\<in>set ts. n \<noteq> [] \<and> reference_resolves m i n))"
    if "p \<in> set (profiles_of m)" for p cs i c
    using validate_profiles_Inr [OF v(2) that] ValidateComponents_Inr [of m cs i c] by auto
  show ?thesis
    using validate_components_Inr [OF v(1)] prof by blast
qed

theorem valid_manifest_sound_witness:
  "distinct (map vcName (vmComponents (vmManifest (example_vmcp [example_profile (Some [(''c1'', \<lparr>csAllowedTools = Some [''search'']\<rparr>)])] []))))"
proof -
  have "VMCPManifest_Validate (vmManifest (example_vmcp [example_profile (Some [(''c1'', \<lparr>csAllowedTools = Some [''search'']\<rparr>)])] [])) = Inr ()"
    by (simp add: VMCPManifest_Validate_def example_vmcp_def example_profile_def example_component_def example_snapshot_def
        profiles_of_def ValidateComponents_def ValidateToolReference_def VMCPToolReference_Validate_def Subject_Validate_def)
  from valid_manifest_sound [OF this] show ?thesis by blast
qed

end
