(* ===== verification/VMCP_Config.thy ===== *)
theory VMCP_Config
  imports VMCP
begin

text \<open>
  Configuration of virtual MCP servers (pkg/vmcp/credential.go, sharing.go, configurationstatus.go,
  legacy.go, drift.go and the configuration half of serverinstance.go): the flat credential keys,
  component identities across updates, fixed and user configuration, what is missing, when a
  component may be shared, retained snapshots and drift. UUIDs are drawn from a supply indexed by a
  counter; the SHA-256 digest of an encoded value is a parameter, as is the URL parser.
\<close>

section \<open>Credential keys\<close>

definition configurationKeyPrefix :: string where "configurationKeyPrefix = ''vmcp.v1.''"

definition ConfigurationKey :: "string \<Rightarrow> string \<Rightarrow> string" where
  "ConfigurationKey componentID key = configurationKeyPrefix @ componentID @ ''.'' @ key"

definition ParseConfigurationKey :: "string \<Rightarrow> string \<times> string \<times> bool" where
  "ParseConfigurationKey key =
    (case CutPrefix key configurationKeyPrefix of
       None \<Rightarrow> ([], [], False)
     | Some remainder \<Rightarrow>
         (case Cut remainder (CHR ''.'') of
            None \<Rightarrow> (remainder, [], False)
          | Some (componentID, configurationKey) \<Rightarrow>
              (componentID, configurationKey, componentID \<noteq> [] \<and> configurationKey \<noteq> [])))"

definition ConfigurationCredentialName :: string where "ConfigurationCredentialName = ''configuration''"

definition StaticConfigurationCredentialName :: "VMCP_obj \<Rightarrow> string" where
  "StaticConfigurationCredentialName vmcp =
    (if vmStaticConfigurationCredentialName vmcp \<noteq> [] then vmStaticConfigurationCredentialName vmcp
     else ConfigurationCredentialName)"

definition StaticConfigurationCredentialContext :: "string \<Rightarrow> string" where
  "StaticConfigurationCredentialContext vmcpID = ''vmcp/'' @ vmcpID"

definition InstanceConfigurationCredentialContext :: "string \<Rightarrow> string" where
  "InstanceConfigurationCredentialContext instanceID = ''vmcp-instance/'' @ instanceID"

section \<open>Component identities\<close>

text \<open>\<open>uuids n\<close> is the result of the \<open>n\<close>th call of \<open>uuid.New\<close>; the loops return the next index.\<close>

fun assign_ids :: "(nat \<Rightarrow> string) \<Rightarrow> nat \<Rightarrow> VMCPComponent list \<Rightarrow> (VMCPComponent list \<times> nat) result" where
  "assign_ids uuids n [] = Inr ([], n)"
| "assign_ids uuids n (c # cs) =
    (if vcID c \<noteq> [] then Inl (Invalid ''component ID is server-assigned and must be omitted'')
     else andThen (assign_ids uuids (Suc n) cs) (\<lambda>(cs', n'). Inr (c\<lparr>vcID := uuids n\<rparr> # cs', n')))"

definition InitializeComponentIDs :: "(nat \<Rightarrow> string) \<Rightarrow> nat \<Rightarrow> VMCPManifest \<Rightarrow> (VMCPManifest \<times> nat) result" where
  "InitializeComponentIDs uuids n manifest =
    andThen (assign_ids uuids n (vmComponents manifest)) (\<lambda>(cs, n'). Inr (manifest\<lparr>vmComponents := cs\<rparr>, n'))"

definition existing_ids :: "VMCPComponent list \<Rightarrow> string list" where
  "existing_ids cs = filter (\<lambda>i. i \<noteq> []) (map vcID cs)"

definition existing_by_name :: "VMCPComponent list \<Rightarrow> (string \<times> string) list" where
  "existing_by_name cs = fold (\<lambda>c m. if vcID c \<noteq> [] then AList.update (vcName c) (vcID c) m else m) cs []"

definition pick_id ::
  "(nat \<Rightarrow> string) \<Rightarrow> string list \<Rightarrow> (string \<times> string) list \<Rightarrow> nat \<Rightarrow> VMCPComponent \<Rightarrow> (string \<times> nat) result" where
  "pick_id uuids byID byName n c =
    (if vcID c = [] then
       (let existingID = (case map_of byName (vcName c) of Some i \<Rightarrow> i | None \<Rightarrow> [])
        in if existingID \<noteq> [] then Inr (existingID, n) else Inr (uuids n, Suc n))
     else if vcID c \<notin> set byID then Inl (Invalid (''component has unknown ID '' @ vcID c))
     else Inr (vcID c, n))"

fun reconcile_ids ::
  "(nat \<Rightarrow> string) \<Rightarrow> string list \<Rightarrow> (string \<times> string) list \<Rightarrow> nat \<Rightarrow> VMCPComponent list \<Rightarrow> (VMCPComponent list \<times> nat) result" where
  "reconcile_ids uuids byID byName n [] = Inr ([], n)"
| "reconcile_ids uuids byID byName n (c # cs) =
    andThen (pick_id uuids byID byName n c) (\<lambda>(i, m).
    andThen (reconcile_ids uuids byID byName m cs) (\<lambda>(cs', n'). Inr (c\<lparr>vcID := i\<rparr> # cs', n')))"

definition ReconcileComponentIDs ::
  "(nat \<Rightarrow> string) \<Rightarrow> nat \<Rightarrow> VMCPManifest \<Rightarrow> VMCPManifest \<Rightarrow> (VMCPManifest \<times> nat) result" where
  "ReconcileComponentIDs uuids n existing desired =
    andThen (reconcile_ids uuids (existing_ids (vmComponents existing)) (existing_by_name (vmComponents existing)) n (vmComponents desired))
      (\<lambda>(cs, n'). Inr (desired\<lparr>vmComponents := cs\<rparr>, n'))"

section \<open>Fixed and user configuration\<close>

definition lookup_or_empty :: "(string \<times> string) list \<Rightarrow> string \<Rightarrow> string" where
  "lookup_or_empty m k = (case map_of m k of Some v \<Rightarrow> v | None \<Rightarrow> [])"

definition extract_policy ::
  "(string \<times> string) list \<Rightarrow> string \<Rightarrow> VMCPConfigurationPolicy \<Rightarrow> (string \<times> string) list \<Rightarrow> (string \<times> string) list" where
  "extract_policy existingConfig componentID policy configuration =
    (if cpPolicy policy = PolicyFixed \<and> cpSecretBinding policy = None then
       (let key = ConfigurationKey componentID (cpKey policy);
            val = (if cpValue policy \<noteq> [] then cpValue policy else lookup_or_empty existingConfig key)
        in if val \<noteq> [] then AList.update key val configuration else configuration)
     else configuration)"

definition ExtractStaticConfiguration ::
  "VMCPManifest \<Rightarrow> (string \<times> string) list \<Rightarrow> (string \<times> string) list \<times> VMCPManifest" where
  "ExtractStaticConfiguration manifest existingConfig =
    (fold (\<lambda>c conf. fold (extract_policy existingConfig (vcID c)) (vcConfiguration c) conf) (vmComponents manifest) [],
     manifest\<lparr>vmComponents := map (\<lambda>c. c\<lparr>vcConfiguration := map (\<lambda>p. p\<lparr>cpValue := []\<rparr>) (vcConfiguration c)\<rparr>) (vmComponents manifest)\<rparr>)"

text \<open>\<open>parseURL\<close> is \<open>url.Parse\<close> with the scheme and \<open>Hostname()\<close> of the result; \<open>None\<close> is a parse error.\<close>

definition ValidateURLHostname :: "(string \<Rightarrow> (string \<times> string) option) \<Rightarrow> string \<Rightarrow> string \<Rightarrow> unit result" where
  "ValidateURLHostname parseURL u hostname =
    (if u = [] \<or> hostname = [] then Inl (Invalid ''url and hostname are required'')
     else case parseURL u of
       None \<Rightarrow> Inl (Invalid ''invalid url'')
     | Some (scheme, urlHostname) \<Rightarrow>
         if scheme \<noteq> ''https'' \<and> scheme \<noteq> ''http'' then Inl (Invalid ''URL scheme must be either https or http'')
         else if urlHostname = [] then Inl (Invalid ''url hostname is required'')
         else if \<not> HasPrefix hostname ''*.'' \<and> urlHostname \<noteq> hostname
         then Inl (Invalid ''URL hostname does not match required hostname'')
         else if \<not> HasSuffix urlHostname (TrimPrefix hostname ''*'')
         then Inl (Invalid ''URL hostname does not match required hostname'')
         else Inr ())"

text \<open>A remote component whose URL each connection supplies.\<close>

definition hostname_constrained :: "VMCPComponent \<Rightarrow> string option" where
  "hostname_constrained c =
    (case emRemoteConfig (snManifest (vcCatalogEntry c)) of
       Some remote \<Rightarrow> if FixedURL remote = [] \<and> Hostname remote \<noteq> [] then Some (Hostname remote) else None
     | None \<Rightarrow> None)"

definition policy_map :: "VMCPComponent \<Rightarrow> (string \<times> VMCPConfigurationPolicyType) list" where
  "policy_map c = fold (\<lambda>p. AList.update (cpKey p) (cpPolicy p)) (vcConfiguration c) []"

type_synonym user_configuration = "(string \<times> (string \<times> string) list) list"

definition check_user_url ::
  "(string \<Rightarrow> (string \<times> string) option) \<Rightarrow> user_configuration \<Rightarrow> VMCPComponent \<Rightarrow> unit result" where
  "check_user_url parseURL configuration c =
    (case hostname_constrained c of
       None \<Rightarrow> Inr ()
     | Some host \<Rightarrow>
         (let values = (case map_of configuration (vcID c) of Some vs \<Rightarrow> vs | None \<Rightarrow> []);
              userURL = TrimSpace (lookup_or_empty values ''__url'')
          in if userURL \<noteq> [] then ValidateURLHostname parseURL userURL host else Inr ()))"

fun encode_values ::
  "string \<Rightarrow> (string \<times> VMCPConfigurationPolicyType) list \<Rightarrow> (string \<times> string) list \<Rightarrow> (string \<times> string) list
   \<Rightarrow> (string \<times> string) list result" where
  "encode_values componentID policies [] res = Inr res"
| "encode_values componentID policies ((key, value) # vs) res =
    (if map_of policies key \<noteq> Some PolicyUserAllowed then Inl (Invalid ''configuration is not user-allowed'')
     else let v = TrimSpace value
          in encode_values componentID policies vs (if v \<noteq> [] then AList.update (ConfigurationKey componentID key) v res else res))"

fun encode_components ::
  "(string \<times> (string \<times> VMCPConfigurationPolicyType) list) list \<Rightarrow> user_configuration \<Rightarrow> (string \<times> string) list
   \<Rightarrow> (string \<times> string) list result" where
  "encode_components components [] res = Inr res"
| "encode_components components ((componentID, values) # rest) res =
    (case map_of components componentID of
       None \<Rightarrow> Inl (Invalid (''unknown component ID '' @ componentID))
     | Some policies \<Rightarrow> andThen (encode_values componentID policies values res) (\<lambda>res'. encode_components components rest res'))"

definition ValidateAndEncodeUserConfiguration ::
  "(string \<Rightarrow> (string \<times> string) option) \<Rightarrow> VMCPManifest \<Rightarrow> user_configuration \<Rightarrow> (string \<times> string) list result" where
  "ValidateAndEncodeUserConfiguration parseURL manifest configuration =
    andThen (validate_all (check_user_url parseURL configuration) (vmComponents manifest)) (\<lambda>_.
      encode_components (fold (\<lambda>c. AList.update (vcID c) (policy_map c)) (vmComponents manifest) []) configuration [])"

section \<open>Sharing and missing configuration\<close>

definition IsMultiUser :: "VMCPComponent \<Rightarrow> bool" where
  "IsMultiUser component =
    (if vcForceSingleUser component then False
     else if hostname_constrained component \<noteq> None then False
     else list_all (\<lambda>policy. cpPolicy policy = PolicyUserAllowed \<longrightarrow>
            (case find (\<lambda>config. cfKey config = cpKey policy) (emConfig (snManifest (vcCatalogEntry component))) of
               None \<Rightarrow> False
             | Some config \<Rightarrow> cfUsage config = Header)) (vcConfiguration component))"

definition ApplyFixedSecretBindings :: "VMCPComponent \<Rightarrow> MCPConfig list \<Rightarrow> MCPConfig list" where
  "ApplyFixedSecretBindings component config =
    fold (\<lambda>policy conf.
      if cpPolicy policy \<noteq> PolicyFixed \<or> cpSecretBinding policy = None then conf
      else map (\<lambda>c. if cfKey c = cpKey policy then c\<lparr>cfSecretBinding := cpSecretBinding policy\<rparr> else c) conf)
      (vcConfiguration component) config"

definition ComponentConfig :: "VMCPComponent \<Rightarrow> MCPConfig list" where
  "ComponentConfig component =
    ApplyFixedSecretBindings component
      (map (\<lambda>c. c\<lparr>cfUserAllowed := list_ex (\<lambda>p. cpKey p = cfKey c \<and> cpPolicy p = PolicyUserAllowed) (vcConfiguration component)\<rparr>)
        (emConfig (snManifest (vcCatalogEntry component))))"

definition policy_or_unset :: "(string \<times> VMCPConfigurationPolicyType) list \<Rightarrow> string \<Rightarrow> VMCPConfigurationPolicyType" where
  "policy_or_unset m k = (case map_of m k of Some p \<Rightarrow> p | None \<Rightarrow> PolicyUnset)"

definition is_missing :: "VMCPComponent \<Rightarrow> (string \<times> string) list \<Rightarrow> bool \<Rightarrow> MCPConfig \<Rightarrow> bool" where
  "is_missing component values userInputs item =
    (if \<not> cfRequired item \<or> cfStatic item \<or> cfSecretBinding item \<noteq> None then False
     else let policy = policy_or_unset (policy_map component) (cfKey item)
          in if (policy = PolicyUserAllowed) \<noteq> userInputs then False
             else (policy \<noteq> PolicyFixed \<and> policy \<noteq> PolicyUserAllowed)
                  \<or> lookup_or_empty values (ConfigurationKey (vcID component) (cfKey item)) = [])"

definition MissingRequiredConfiguration :: "VMCPComponent \<Rightarrow> (string \<times> string) list \<Rightarrow> bool \<Rightarrow> string list" where
  "MissingRequiredConfiguration component values userInputs =
    remdups_adj (sort (map (\<lambda>item. ConfigurationKey (vcID component) (cfKey item))
      (filter (is_missing component values userInputs) (ComponentConfig component))))"

definition ConnectionConfiguration :: "VMCPComponent \<Rightarrow> MCPConfig list" where
  "ConnectionConfiguration component = filter cfUserAllowed (ComponentConfig component)"

section \<open>Digests, retained snapshots and drift\<close>

text \<open>What \<open>utils.Digest\<close> is applied to; \<open>digest\<close> is the SHA-256 of the JSON encoding.\<close>

datatype digestible =
    DSnapshot MCPServerCatalogEntrySnapshot
  | DComponent VMCPComponent string
  | DComponents "VMCPComponent list" string
  | DMap "string \<rightharpoonup> string"
  | DConfig "MCPConfig list" string

text \<open>\<open>MarshalJSON\<close> of a snapshot drops the tool preview, wherever the snapshot is encoded.\<close>

definition MarshalJSON :: "MCPServerCatalogEntrySnapshot \<Rightarrow> MCPServerCatalogEntrySnapshot" where
  "MarshalJSON s = s\<lparr>snManifest := (snManifest s)\<lparr>emToolPreview := []\<rparr>\<rparr>"

definition encode_component :: "VMCPComponent \<Rightarrow> VMCPComponent" where
  "encode_component c = c\<lparr>vcCatalogEntry := MarshalJSON (vcCatalogEntry c)\<rparr>"

definition digestWithoutCopy :: "(digestible \<Rightarrow> string) \<Rightarrow> MCPServerCatalogEntrySnapshot \<Rightarrow> string" where
  "digestWithoutCopy digest s =
    digest (DSnapshot (MarshalJSON (s\<lparr>snManifest := (snManifest s)\<lparr>emMetadata := [], emShortDescription := [],
      emDescription := [], emIcon := [], emUpgradeNote := []\<rparr>\<rparr>)))"

definition SourceDigest :: "(digestible \<Rightarrow> string) \<Rightarrow> MCPServerCatalogEntrySnapshot \<Rightarrow> string" where
  "SourceDigest digest s =
    digestWithoutCopy digest (s\<lparr>snManifest := (snManifest s)\<lparr>emMinObotVersion := [], emMaxObotVersion := [],
      emRepoURL := [], emEntryKey := [], emToolPreview := []\<rparr>\<rparr>)"

definition LegacySourceDigests :: "(digestible \<Rightarrow> string) \<Rightarrow> MCPServerCatalogEntrySnapshot \<Rightarrow> string list" where
  "LegacySourceDigests digest s = [digestWithoutCopy digest s, digest (DSnapshot (MarshalJSON s))]"

definition NeedsUpdate :: "(digestible \<Rightarrow> string) \<Rightarrow> VMCPComponent \<Rightarrow> MCPServerCatalogEntrySnapshot \<Rightarrow> bool" where
  "NeedsUpdate digest component current =
    (if vcSourceDigest component = SourceDigest digest current then False
     else if vcSourceDigest component = SourceDigest digest (vcCatalogEntry component) then True
     else vcSourceDigest component \<notin> set (LegacySourceDigests digest current))"

definition SetStaticConfigurationHashes ::
  "(digestible \<Rightarrow> string) \<Rightarrow> (string \<times> string) list \<Rightarrow> VMCP_obj \<Rightarrow> VMCP_obj" where
  "SetStaticConfigurationHashes digest configuration vmcp =
    vmcp\<lparr>vmStaticConfigurationHash := digest (DMap (map_of configuration)),
         vmComponentStaticConfigurationHashes :=
           fold (\<lambda>c. AList.update (vcID c) (digest (DMap (\<lambda>k.
               if \<exists>p\<in>set (vcConfiguration c). cpPolicy p = PolicyFixed \<and> cpKey p = k
               then map_of configuration (ConfigurationKey (vcID c) k) else None))))
             (vmComponents (vmManifest vmcp)) []\<rparr>"

definition VersionStaticConfiguration ::
  "(digestible \<Rightarrow> string) \<Rightarrow> (string \<times> string) list \<Rightarrow> VMCP_obj \<Rightarrow> VMCP_obj" where
  "VersionStaticConfiguration digest configuration vmcp =
    (let vmcp' = SetStaticConfigurationHashes digest configuration vmcp
     in vmcp'\<lparr>vmStaticConfigurationCredentialName := ConfigurationCredentialName @ ''-'' @ vmStaticConfigurationHash vmcp'\<rparr>)"

definition ConfigurationCheckHash :: "(digestible \<Rightarrow> string) \<Rightarrow> VMCPComponent list \<Rightarrow> string \<Rightarrow> string" where
  "ConfigurationCheckHash digest enabledComponents configurationSyncHash =
    digest (DComponents (map encode_component enabledComponents) configurationSyncHash)"

definition ConnectionConfigurationHash :: "(digestible \<Rightarrow> string) \<Rightarrow> MCPConfig list \<Rightarrow> VMCPInstance \<Rightarrow> string" where
  "ConnectionConfigurationHash digest config inst = digest (DConfig config (viUserConfigurationHash inst))"

definition LegacyComponent ::
  "(digestible \<Rightarrow> string) \<Rightarrow> VMCP_obj \<Rightarrow> VMCPInstance \<Rightarrow> VMCPComponent \<Rightarrow> VMCPComponent option" where
  "LegacyComponent digest vmcp inst component =
    (let d = digest (DComponent (encode_component component) (lookup_or_empty (vmComponentStaticConfigurationHashes vmcp) (vcID component)))
     in find (\<lambda>legacy. vcID legacy = vcID component \<and> vcSourceDigest legacy = d) (viLegacyComponents inst))"

definition withoutConnectionConfiguration :: "MCPServerCatalogEntrySnapshot \<Rightarrow> bool \<Rightarrow> MCPServerCatalogEntrySnapshot" where
  "withoutConnectionConfiguration s withoutRevision =
    s\<lparr>snManifest := (snManifest s)\<lparr>
        emConfig := map (\<lambda>c. c\<lparr>cfValue := [], cfUserAllowed := False\<rparr>) (emConfig (snManifest s)),
        emRemoteConfig := map_option (\<lambda>r. if Hostname r \<noteq> [] \<or> URLTemplate r \<noteq> [] then r\<lparr>FixedURL := []\<rparr> else r)
                            (emRemoteConfig (snManifest s)),
        emStaticConfigurationRevision := (if withoutRevision then [] else emStaticConfigurationRevision (snManifest s))\<rparr>\<rparr>"

definition LegacyComponentNeedsUpdate :: "(digestible \<Rightarrow> string) \<Rightarrow> VMCPComponent \<Rightarrow> VMCPComponent \<Rightarrow> bool" where
  "LegacyComponentNeedsUpdate digest legacy component =
    (SourceDigest digest (withoutConnectionConfiguration (vcCatalogEntry legacy) True) \<noteq>
     SourceDigest digest (withoutConnectionConfiguration (vcCatalogEntry component) True))"

definition LegacySnapshot :: "VMCPComponent \<Rightarrow> VMCPComponent \<Rightarrow> MCPServerCatalogEntrySnapshot" where
  "LegacySnapshot legacy component =
    (let s = withoutConnectionConfiguration (vcCatalogEntry legacy) False
     in s\<lparr>snManifest := (snManifest s)\<lparr>emConfig := map (\<lambda>field.
          case find (\<lambda>current. cfKey current = cfKey field) (emConfig (snManifest (vcCatalogEntry component))) of
            Some current \<Rightarrow> field\<lparr>cfUserAllowed := cfUserAllowed current\<rparr>
          | None \<Rightarrow> field) (emConfig (snManifest s))\<rparr>\<rparr>)"

text \<open>The inputs a hostname-constrained component gains for its connection's URL.\<close>

definition add_url_input :: "VMCPComponent \<Rightarrow> VMCPComponent" where
  "add_url_input c =
    (case hostname_constrained c of
       None \<Rightarrow> c
     | Some host \<Rightarrow>
         (let m = snManifest (vcCatalogEntry c);
              m' = (if list_ex (\<lambda>f. cfKey f = ''__url'') (emConfig m) then m
                    else m\<lparr>emConfig := emConfig m @ [\<lparr>cfUserAllowed = False, cfName = ''Server URL'',
                           cfDescription = ''URL must have hostname '' @ host, cfKey = ''__url'', cfValue = [], cfStatic = False, cfSensitive = False,
                           cfRequired = True, cfPrefix = [], cfOptions = [], cfSecretBinding = None, cfUsage = Interpolated\<rparr>]\<rparr>);
              c' = c\<lparr>vcCatalogEntry := (vcCatalogEntry c)\<lparr>snManifest := m'\<rparr>\<rparr>
          in if list_ex (\<lambda>p. cpKey p = ''__url'') (vcConfiguration c') then c'
             else c'\<lparr>vcConfiguration := vcConfiguration c' @
                    [\<lparr>cpKey = ''__url'', cpPolicy = PolicyUserAllowed, cpValue = [], cpSecretBinding = None\<rparr>]\<rparr>))"

definition ComponentsForInstance :: "(digestible \<Rightarrow> string) \<Rightarrow> VMCP_obj \<Rightarrow> VMCPInstance \<Rightarrow> VMCPComponent list" where
  "ComponentsForInstance digest vmcp inst =
    filter (\<lambda>c. vcID c \<notin> set (viLegacyDisabledComponents inst))
      (map (\<lambda>c. add_url_input (case LegacyComponent digest vmcp inst c of Some legacy \<Rightarrow> legacy | None \<Rightarrow> c))
        (vmComponents (vmManifest vmcp)))"

section \<open>Properties of keys and identities\<close>

text \<open>
  A configuration key is parsed back into the component and the key it was built from, for every
  component ID that validation admits; keys with periods included. So two inputs of
  different components never share a credential key.
\<close>

theorem configuration_key_roundtrip:
  assumes "CHR ''.'' \<notin> set componentID"
  shows "ParseConfigurationKey (ConfigurationKey componentID key) = (componentID, key, componentID \<noteq> [] \<and> key \<noteq> [])
    \<and> (\<forall>componentID' key'. CHR ''.'' \<notin> set componentID' \<longrightarrow>
         (ConfigurationKey componentID key = ConfigurationKey componentID' key') = (componentID = componentID' \<and> key = key'))"
proof -
  have parse: "ParseConfigurationKey (ConfigurationKey c k) = (c, k, c \<noteq> [] \<and> k \<noteq> [])" if "CHR ''.'' \<notin> set c" for c k
    using Cut_append [OF that, of k] by (simp add: ParseConfigurationKey_def ConfigurationKey_def)
  then show ?thesis using assms by (metis prod.inject)
qed

theorem configuration_key_roundtrip_witness:
  "ParseConfigurationKey (ConfigurationKey ''c1'' ''oauth.token'') = (''c1'', ''oauth.token'', True)"
  using configuration_key_roundtrip [of "''c1''" "''oauth.token''"] by simp

lemma ConfigurationKey_inject:
  assumes "CHR ''.'' \<notin> set c" and "CHR ''.'' \<notin> set c'"
  shows "ConfigurationKey c k = ConfigurationKey c' k' \<longleftrightarrow> c = c' \<and> k = k'"
proof
  assume "ConfigurationKey c k = ConfigurationKey c' k'"
  then have "Cut (c @ CHR ''.'' # k) (CHR ''.'') = Cut (c' @ CHR ''.'' # k') (CHR ''.'')" by (simp add: ConfigurationKey_def)
  then show "c = c' \<and> k = k'" unfolding Cut_append [OF assms(1)] Cut_append [OF assms(2)] by simp
qed simp

lemma existing_by_name_range:
  assumes "\<And>n i. map_of m n = Some i \<Longrightarrow> i \<noteq> [] \<and> i \<in> A"
  shows "map_of (fold (\<lambda>c m. if vcID c \<noteq> [] then AList.update (vcName c) (vcID c) m else m) cs m) n = Some i
    \<Longrightarrow> i \<noteq> [] \<and> (i \<in> A \<or> i \<in> vcID ` set cs)"
  using assms
proof (induction cs arbitrary: m A)
  case (Cons c cs)
  show ?case
  proof (cases "vcID c = []")
    case True
    with Cons show ?thesis by auto
  next
    case False
    have "i \<noteq> [] \<and> (i \<in> insert (vcID c) A \<or> i \<in> vcID ` set cs)"
    proof (rule Cons.IH [of "AList.update (vcName c) (vcID c) m"])
      show "map_of (fold (\<lambda>c m. if vcID c \<noteq> [] then AList.update (vcName c) (vcID c) m else m) cs
          (AList.update (vcName c) (vcID c) m)) n = Some i"
        using Cons.prems(1) False by simp
      show "i' \<noteq> [] \<and> i' \<in> insert (vcID c) A" if "map_of (AList.update (vcName c) (vcID c) m) n' = Some i'" for n' i'
        using that False Cons.prems(2) by (auto simp: update_conv' split: if_splits)
    qed
    then show ?thesis by auto
  qed
qed auto

lemma pick_id_Inr:
  assumes "pick_id uuids byID byName n c = Inr (i, m)"
    and "\<And>name i. map_of byName name = Some i \<Longrightarrow> i \<noteq> [] \<and> i \<in> A" and "set byID \<subseteq> A"
  shows "(m = n \<or> m = Suc n) \<and> (i \<in> A \<or> (i = uuids n \<and> m = Suc n)) \<and> (vcID c \<noteq> [] \<longrightarrow> i = vcID c)"
  using assms by (auto simp: pick_id_def Let_def split: if_splits option.splits)

lemma reconcile_ids_mono: "reconcile_ids uuids byID byName n cs = Inr (ds, n') \<Longrightarrow> n \<le> n'"
proof (induction cs arbitrary: n ds n')
  case (Cons c cs)
  then obtain i m es where p: "pick_id uuids byID byName n c = Inr (i, m)" "reconcile_ids uuids byID byName m cs = Inr (es, n')"
    by (auto simp: andThen_eq_Inr)
  from p(1) have "n \<le> m" by (auto simp: pick_id_def Let_def split: if_splits)
  with Cons.IH [OF p(2)] show ?case by simp
qed simp

lemma reconcile_ids_Inr:
  assumes "reconcile_ids uuids byID byName n cs = Inr (cs', n')"
    and "\<And>name i. map_of byName name = Some i \<Longrightarrow> i \<noteq> [] \<and> i \<in> A" and "set byID \<subseteq> A"
  shows "length cs' = length cs \<and> map vcName cs' = map vcName cs
    \<and> (\<forall>j < length cs. (vcID (cs ! j) \<noteq> [] \<longrightarrow> cs' ! j = cs ! j)
        \<and> (vcID (cs' ! j) \<in> A \<or> (\<exists>k\<ge>n. k < n' \<and> vcID (cs' ! j) = uuids k)))"
  using assms(1)
proof (induction cs arbitrary: n cs' n')
  case (Cons c cs)
  obtain i m ds where step: "cs' = c\<lparr>vcID := i\<rparr> # ds" "reconcile_ids uuids byID byName m cs = Inr (ds, n')"
      "m = n \<or> m = Suc n" "i \<in> A \<or> (i = uuids n \<and> m = Suc n)" "vcID c \<noteq> [] \<Longrightarrow> i = vcID c"
  proof -
    from Cons.prems obtain i m ds where s: "pick_id uuids byID byName n c = Inr (i, m)"
        "reconcile_ids uuids byID byName m cs = Inr (ds, n')" "cs' = c\<lparr>vcID := i\<rparr> # ds"
      by (auto simp: andThen_eq_Inr)
    from pick_id_Inr [OF s(1) assms(2,3)] s show thesis by (intro that [of i ds m]) auto
  qed
  note IH = Cons.IH [OF step(2)]
  have mono: "m \<le> n'" using reconcile_ids_mono [OF step(2)] .
  have same: "c\<lparr>vcID := vcID c\<rparr> = c" by simp
  show ?case
  proof (intro conjI allI impI)
    fix j assume j: "j < length (c # cs)"
    show "vcID ((c # cs) ! j) \<noteq> [] \<Longrightarrow> cs' ! j = (c # cs) ! j"
      using IH j step(1,5) same by (cases j) auto
    show "vcID (cs' ! j) \<in> A \<or> (\<exists>k\<ge>n. k < n' \<and> vcID (cs' ! j) = uuids k)"
    proof (cases j)
      case 0
      then show ?thesis using step(1,4) mono by auto
    next
      case (Suc j')
      with IH j have "vcID (ds ! j') \<in> A \<or> (\<exists>k\<ge>m. k < n' \<and> vcID (ds ! j') = uuids k)" by auto
      moreover have "n \<le> m" using step(3) by auto
      ultimately have "vcID (ds ! j') \<in> A \<or> (\<exists>k\<ge>n. k < n' \<and> vcID (ds ! j') = uuids k)"
        by (meson le_trans)
      then show ?thesis using Suc step(1) by simp
    qed
  qed (use IH step(1) in auto)
qed simp

text \<open>
  An accepted update of a vMCP keeps component identities apart. When the IDs are reconciled and
  the result is validated, all IDs are set and distinct, components keep their order and names,
  a component sent with an ID is unchanged, and every ID is one of the vMCP's or a new UUID. The
  hypothesis is that UUIDs are not empty.
\<close>

theorem reconciled_ids_distinct:
  assumes "ReconcileComponentIDs uuids n existing desired = Inr (m, n')" and "VMCPManifest_Validate m = Inr ()"
    and "\<forall>k. uuids k \<noteq> []"
  shows "distinct (map vcID (vmComponents m)) \<and> [] \<notin> vcID ` set (vmComponents m)
    \<and> map vcName (vmComponents m) = map vcName (vmComponents desired)
    \<and> (\<forall>j < length (vmComponents desired). vcID (vmComponents desired ! j) \<noteq> [] \<longrightarrow> vmComponents m ! j = vmComponents desired ! j)
    \<and> vcID ` set (vmComponents m) \<subseteq> vcID ` set (vmComponents existing) \<union> {uuids k | k. n \<le> k \<and> k < n'}"
proof -
  let ?A = "{i \<in> vcID ` set (vmComponents existing). i \<noteq> []}"
  from assms(1) obtain cs where cs: "m = desired\<lparr>vmComponents := cs\<rparr>"
      "reconcile_ids uuids (existing_ids (vmComponents existing)) (existing_by_name (vmComponents existing)) n (vmComponents desired) = Inr (cs, n')"
    by (auto simp: ReconcileComponentIDs_def andThen_eq_Inr)
  have r: "length cs = length (vmComponents desired) \<and> map vcName cs = map vcName (vmComponents desired)
    \<and> (\<forall>j < length (vmComponents desired). (vcID (vmComponents desired ! j) \<noteq> [] \<longrightarrow> cs ! j = vmComponents desired ! j)
        \<and> (vcID (cs ! j) \<in> ?A \<or> (\<exists>k\<ge>n. k < n' \<and> vcID (cs ! j) = uuids k)))"
  proof (rule reconcile_ids_Inr [OF cs(2)])
    show "i \<noteq> [] \<and> i \<in> ?A" if "map_of (existing_by_name (vmComponents existing)) name = Some i" for name i
      using existing_by_name_range [of "[]" "{}" "vmComponents existing" name i] that by (auto simp: existing_by_name_def)
    show "set (existing_ids (vmComponents existing)) \<subseteq> ?A" by (auto simp: existing_ids_def)
  qed
  have ids: "vcID c \<noteq> [] \<and> (vcID c \<in> ?A \<or> vcID c \<in> {uuids k | k. n \<le> k \<and> k < n'})" if "c \<in> set cs" for c
  proof -
    from that r obtain j where "j < length (vmComponents desired)" "c = cs ! j" by (metis in_set_conv_nth)
    with r have "vcID c \<in> ?A \<or> (\<exists>k\<ge>n. k < n' \<and> vcID c = uuids k)" by blast
    with assms(3) show ?thesis by (metis (mono_tags, lifting) mem_Collect_eq)
  qed
  have "distinct (filter (\<lambda>i. i \<noteq> []) (map vcID cs))"
    using assms(2) cs(1) validate_components_Inr [of "[]" "[]" cs]
    by (auto simp: VMCPManifest_Validate_def andThen_eq_Inr split: if_splits)
  moreover have "filter (\<lambda>i. i \<noteq> []) (map vcID cs) = map vcID cs" using ids by (auto intro: filter_True)
  moreover have "[] \<notin> vcID ` set cs" using ids by (metis imageE)
  ultimately show ?thesis using r ids cs(1) by auto
qed

theorem reconciled_ids_distinct_witness:
  "distinct (map vcID (vmComponents (vmManifest (example_vmcp [] []))))"
proof -
  let ?m = "vmManifest (example_vmcp [] [])"
  have "ReconcileComponentIDs (\<lambda>k. ''u'' @ replicate k (CHR ''u'')) 0 ?m ?m = Inr (?m, 0)"
    by (simp add: ReconcileComponentIDs_def pick_id_def existing_ids_def example_vmcp_def example_component_def)
  moreover have "VMCPManifest_Validate ?m = Inr ()"
    by (simp add: VMCPManifest_Validate_def example_vmcp_def example_component_def example_snapshot_def profiles_of_def)
  ultimately show ?thesis using reconciled_ids_distinct by fastforce
qed

section \<open>Properties of the configuration\<close>

text \<open>Two folds of map updates: the keys and values they add.\<close>

lemma encode_values_Inr:
  assumes "encode_values i ps vs res = Inr res'" and "map_of res' k = Some v"
  shows "map_of res k = Some v \<or>
    (\<exists>key. k = ConfigurationKey i key \<and> map_of ps key = Some PolicyUserAllowed \<and> v \<noteq> [] \<and> (\<exists>w. (key, w) \<in> set vs \<and> v = TrimSpace w))"
  using assms
proof (induction i ps vs res rule: encode_values.induct)
  case (2 i ps key val vs res)
  let ?r = "if TrimSpace val \<noteq> [] then AList.update (ConfigurationKey i key) (TrimSpace val) res else res"
  from 2(2) have user: "map_of ps key = Some PolicyUserAllowed" and rest: "encode_values i ps vs ?r = Inr res'"
    by (auto simp: Let_def split: if_splits)
  have IH: "map_of ?r k = Some v \<or> (\<exists>key. k = ConfigurationKey i key \<and> map_of ps key = Some PolicyUserAllowed \<and> v \<noteq> []
      \<and> (\<exists>w. (key, w) \<in> set vs \<and> v = TrimSpace w))"
    by (rule 2(1)) (use user rest 2(3) in auto)
  have "map_of ?r k = Some v \<Longrightarrow> map_of res k = Some v \<or> (k = ConfigurationKey i key \<and> v \<noteq> [] \<and> v = TrimSpace val)"
    by (auto simp: update_conv' split: if_splits)
  with IH user show ?case by (metis list.set_intros(1) list.set_intros(2))
qed simp

lemma encode_components_Inr:
  assumes "encode_components cs conf res = Inr res'" and "map_of res' k = Some v"
  shows "map_of res k = Some v \<or>
    (\<exists>i key ps vs w. k = ConfigurationKey i key \<and> map_of cs i = Some ps \<and> map_of ps key = Some PolicyUserAllowed \<and> v \<noteq> []
       \<and> (i, vs) \<in> set conf \<and> (key, w) \<in> set vs \<and> v = TrimSpace w)"
  using assms
proof (induction cs conf res rule: encode_components.induct)
  case (2 cs i vals rest res)
  then obtain ps r where ps: "map_of cs i = Some ps" "encode_values i ps vals res = Inr r" "encode_components cs rest r = Inr res'"
    by (auto simp: andThen_eq_Inr split: option.splits)
  from 2(1) [OF ps(1) ps(3) 2(3)] encode_values_Inr [OF ps(2), of k v] ps(1) show ?case
    by (metis list.set_intros(1) list.set_intros(2))
qed simp

lemma fold_update_Some:
  "map_of (fold (\<lambda>x. AList.update (f x) (g x)) xs m) k = Some v \<Longrightarrow> map_of m k = Some v \<or> (\<exists>x\<in>set xs. f x = k \<and> g x = v)"
  by (induction xs arbitrary: m) (fastforce simp: update_conv' split: if_splits)+

text \<open>
  Only user-allowed inputs reach the credential of a connection. Every entry of an accepted
  user configuration has the key of a component of the manifest and of one of its inputs whose
  policy is user-allowed, and its value is what the user sent for that input, trimmed and not empty.
\<close>

theorem user_configuration_allowed:
  assumes "ValidateAndEncodeUserConfiguration parseURL manifest configuration = Inr res" and "map_of res k = Some v"
  shows "\<exists>c\<in>set (vmComponents manifest). \<exists>p\<in>set (vcConfiguration c). \<exists>vs w.
     k = ConfigurationKey (vcID c) (cpKey p) \<and> cpPolicy p = PolicyUserAllowed
     \<and> (vcID c, vs) \<in> set configuration \<and> (cpKey p, w) \<in> set vs \<and> v = TrimSpace w \<and> v \<noteq> []"
proof -
  let ?cs = "fold (\<lambda>c. AList.update (vcID c) (policy_map c)) (vmComponents manifest) []"
  from assms(1) have "encode_components ?cs configuration [] = Inr res"
    by (auto simp: ValidateAndEncodeUserConfiguration_def andThen_eq_Inr)
  from encode_components_Inr [OF this assms(2)] obtain i key ps vs w where
    e: "k = ConfigurationKey i key" "map_of ?cs i = Some ps" "map_of ps key = Some PolicyUserAllowed" "v \<noteq> []"
      "(i, vs) \<in> set configuration" "(key, w) \<in> set vs" "v = TrimSpace w" by auto
  from fold_update_Some [OF e(2)] obtain c where c: "c \<in> set (vmComponents manifest)" "vcID c = i" "policy_map c = ps" by auto
  from fold_update_Some [of cpKey cpPolicy "vcConfiguration c" "[]" key] c(3) e(3) obtain p where
    "p \<in> set (vcConfiguration c)" "cpKey p = key" "cpPolicy p = PolicyUserAllowed" by (auto simp: policy_map_def)
  with e c show ?thesis by blast
qed

definition example_user_component :: VMCPComponent where
  "example_user_component = (example_component ''c1'' ''one'')\<lparr>vcConfiguration :=
     [\<lparr>cpKey = ''token'', cpPolicy = PolicyUserAllowed, cpValue = [], cpSecretBinding = None\<rparr>]\<rparr>"

theorem user_configuration_allowed_witness:
  "\<exists>c\<in>set [example_user_component]. \<exists>p\<in>set (vcConfiguration c). \<exists>vs w.
     ConfigurationKey ''c1'' ''token'' = ConfigurationKey (vcID c) (cpKey p) \<and> cpPolicy p = PolicyUserAllowed
     \<and> (vcID c, vs) \<in> set [(''c1'', [(''token'', '' secret '')])] \<and> (cpKey p, w) \<in> set vs \<and> ''secret'' = TrimSpace w \<and> ''secret'' \<noteq> []"
proof -
  let ?m = "\<lparr>vmDisplayName = ''V'', vmToolSearch = False, vmComponents = [example_user_component], vmProfiles = None\<rparr>"
  have "ValidateAndEncodeUserConfiguration (\<lambda>_. None) ?m [(''c1'', [(''token'', '' secret '')])] = Inr [(ConfigurationKey ''c1'' ''token'', ''secret'')]"
    by (simp add: ValidateAndEncodeUserConfiguration_def check_user_url_def hostname_constrained_def example_user_component_def
        example_component_def example_snapshot_def policy_map_def Let_def TrimSpace_def is_space_def)
  from user_configuration_allowed [OF this, of "ConfigurationKey ''c1'' ''token''" "''secret''"] show ?thesis by simp
qed

lemma map_of_fold_update:
  assumes "inj_on f {x \<in> set xs. P x}"
  shows "map_of (fold (\<lambda>x m. if P x then AList.update (f x) (g x) m else m) xs m) k = Some v \<longleftrightarrow>
    (\<exists>x\<in>set xs. P x \<and> f x = k \<and> g x = v) \<or> ((\<forall>x\<in>set xs. P x \<longrightarrow> f x \<noteq> k) \<and> map_of m k = Some v)"
  using assms
proof (induction xs arbitrary: m)
  case (Cons x xs)
  let ?m = "if P x then AList.update (f x) (g x) m else m"
  have inj: "inj_on f {x \<in> set xs. P x}" using Cons.prems by (auto simp: inj_on_def)
  have m: "map_of ?m k = (if P x \<and> f x = k then Some (g x) else map_of m k)" by (simp add: update_conv')
  have same: "y = x" if "y \<in> set xs" "P y" "P x" "f y = f x" for y
    using Cons.prems that by (auto simp: inj_on_def)
  show ?case
    unfolding fold_simps Cons.IH [OF inj] m using same by (cases "P x \<and> f x = k") (simp_all, metis+)
qed simp

text \<open>The value a fixed policy supplies: its own, or else the one stored before.\<close>

definition fixed_value :: "(string \<times> string) list \<Rightarrow> string \<Rightarrow> VMCPConfigurationPolicy \<Rightarrow> string" where
  "fixed_value existingConfig i p =
    (if cpValue p \<noteq> [] then cpValue p else lookup_or_empty existingConfig (ConfigurationKey i (cpKey p)))"

definition supplies :: "(string \<times> string) list \<Rightarrow> string \<times> VMCPConfigurationPolicy \<Rightarrow> bool" where
  "supplies existingConfig = (\<lambda>(i, p). cpPolicy p = PolicyFixed \<and> cpSecretBinding p = None \<and> fixed_value existingConfig i p \<noteq> [])"

definition policy_pairs :: "VMCPManifest \<Rightarrow> (string \<times> VMCPConfigurationPolicy) list" where
  "policy_pairs m = concat (map (\<lambda>c. map (Pair (vcID c)) (vcConfiguration c)) (vmComponents m))"

lemma extract_fold:
  "fst (ExtractStaticConfiguration m ex) =
    fold (\<lambda>x conf. if supplies ex x then AList.update (ConfigurationKey (fst x) (cpKey (snd x))) (fixed_value ex (fst x) (snd x)) conf else conf)
      (policy_pairs m) []"
proof -
  have step: "extract_policy ex i = (\<lambda>p conf. if supplies ex (i, p)
      then AList.update (ConfigurationKey i (cpKey p)) (fixed_value ex i p) conf else conf)" for i
    by (auto simp: fun_eq_iff extract_policy_def supplies_def fixed_value_def Let_def)
  have "fold (\<lambda>c conf. fold (extract_policy ex (vcID c)) (vcConfiguration c) conf) cs conf =
    fold (\<lambda>x conf. if supplies ex x then AList.update (ConfigurationKey (fst x) (cpKey (snd x))) (fixed_value ex (fst x) (snd x)) conf else conf)
      (concat (map (\<lambda>c. map (Pair (vcID c)) (vcConfiguration c)) cs)) conf" for cs :: "VMCPComponent list" and conf
    by (induction cs arbitrary: conf) (simp_all add: step fold_map comp_def cong: if_cong)
  then show ?thesis by (simp add: ExtractStaticConfiguration_def policy_pairs_def)
qed

lemma policy_keys_inj:
  assumes "distinct (map vcID (vmComponents m))" and "\<forall>c\<in>set (vmComponents m). CHR ''.'' \<notin> set (vcID c) \<and> distinct (map cpKey (vcConfiguration c))"
  shows "inj_on (\<lambda>x. ConfigurationKey (fst x) (cpKey (snd x))) {x \<in> set (policy_pairs m). P x}"
proof (rule inj_onI, clarsimp)
  fix i p j q
  assume ip: "(i, p) \<in> set (policy_pairs m)" and jq: "(j, q) \<in> set (policy_pairs m)"
    and eq: "ConfigurationKey i (cpKey p) = ConfigurationKey j (cpKey q)"
  from ip obtain c where c: "c \<in> set (vmComponents m)" "vcID c = i" "p \<in> set (vcConfiguration c)" by (auto simp: policy_pairs_def)
  from jq obtain d where d: "d \<in> set (vmComponents m)" "vcID d = j" "q \<in> set (vcConfiguration d)" by (auto simp: policy_pairs_def)
  have "i = j \<and> cpKey p = cpKey q" using ConfigurationKey_inject [of i j] eq c d assms(2) by auto
  moreover from this c d assms(1) have "c = d" by (metis distinct_map inj_onD)
  ultimately show "i = j \<and> p = q" using c d assms(2) by (metis distinct_map inj_onD)
qed

text \<open>
  C36: Extracting the fixed configuration of a manifest with distinct component IDs and input keys.
  No value stays in the manifest. The credential holds exactly the fixed inputs that are not bound
  to a secret and have a value, each under its component's key, with the new value, or
  the one stored before when none is sent; values of other policies and of removed inputs do not linger.
\<close>

theorem static_configuration_extracted:
  assumes "distinct (map vcID (vmComponents m))"
    and "\<forall>c\<in>set (vmComponents m). CHR ''.'' \<notin> set (vcID c) \<and> distinct (map cpKey (vcConfiguration c))"
  shows "(\<forall>c\<in>set (vmComponents (snd (ExtractStaticConfiguration m ex))). \<forall>p\<in>set (vcConfiguration c). cpValue p = [])
    \<and> (map_of (fst (ExtractStaticConfiguration m ex)) k = Some v \<longleftrightarrow>
        (\<exists>c\<in>set (vmComponents m). \<exists>p\<in>set (vcConfiguration c). cpPolicy p = PolicyFixed \<and> cpSecretBinding p = None
           \<and> k = ConfigurationKey (vcID c) (cpKey p) \<and> v = fixed_value ex (vcID c) p \<and> v \<noteq> []))"
proof
  show "\<forall>c\<in>set (vmComponents (snd (ExtractStaticConfiguration m ex))). \<forall>p\<in>set (vcConfiguration c). cpValue p = []"
    by (auto simp: ExtractStaticConfiguration_def)
  show "map_of (fst (ExtractStaticConfiguration m ex)) k = Some v \<longleftrightarrow>
        (\<exists>c\<in>set (vmComponents m). \<exists>p\<in>set (vcConfiguration c). cpPolicy p = PolicyFixed \<and> cpSecretBinding p = None
           \<and> k = ConfigurationKey (vcID c) (cpKey p) \<and> v = fixed_value ex (vcID c) p \<and> v \<noteq> [])"
    unfolding extract_fold map_of_fold_update [OF policy_keys_inj [OF assms]]
    by (auto simp: policy_pairs_def supplies_def)
qed

theorem static_configuration_extracted_witness:
  "map_of (fst (ExtractStaticConfiguration \<lparr>vmDisplayName = ''V'', vmToolSearch = False,
       vmComponents = [(example_component ''c1'' ''one'')\<lparr>vcConfiguration := [\<lparr>cpKey = ''k'', cpPolicy = PolicyFixed, cpValue = ''new'', cpSecretBinding = None\<rparr>]\<rparr>],
       vmProfiles = None\<rparr> []))
     (ConfigurationKey ''c1'' ''k'') = Some ''new''"
proof -
  let ?p = "\<lparr>cpKey = ''k'', cpPolicy = PolicyFixed, cpValue = ''new'', cpSecretBinding = None\<rparr>"
  let ?m = "\<lparr>vmDisplayName = ''V'', vmToolSearch = False, vmComponents = [(example_component ''c1'' ''one'')\<lparr>vcConfiguration := [?p]\<rparr>], vmProfiles = None\<rparr>"
  have d: "distinct (map vcID (vmComponents ?m))" by simp
  have v: "\<forall>c\<in>set (vmComponents ?m). CHR ''.'' \<notin> set (vcID c) \<and> distinct (map cpKey (vcConfiguration c))" by (simp add: example_component_def)
  show ?thesis
    using static_configuration_extracted [OF d v, of "[]" "ConfigurationKey ''c1'' ''k''" "''new''"]
    by (simp add: fixed_value_def example_component_def)
qed

lemma distinct_remdups_adj_sorted: "sorted xs \<Longrightarrow> distinct (remdups_adj (xs :: 'a :: linorder list))"
  by (induction xs rule: remdups_adj.induct) auto

lemma in_MissingRequiredConfiguration:
  "k \<in> set (MissingRequiredConfiguration c vs u) \<longleftrightarrow>
    (\<exists>item\<in>set (ComponentConfig c). is_missing c vs u item \<and> k = ConfigurationKey (vcID c) (cfKey item))"
  by (auto simp: MissingRequiredConfiguration_def)

text \<open>
  The missing inputs of a component, asked for separately for the administrator and for the
  user, are complete and do not overlap: together they are the keys of exactly the required inputs
  that the definition does not supply and that are prohibited or have no value, and no key is
  asked of both. Each list is sorted without repetitions.
\<close>

theorem missing_configuration_partition:
  "set (MissingRequiredConfiguration c vs False) \<union> set (MissingRequiredConfiguration c vs True) =
     {ConfigurationKey (vcID c) (cfKey item) | item. item \<in> set (ComponentConfig c) \<and> cfRequired item \<and> \<not> cfStatic item
        \<and> cfSecretBinding item = None
        \<and> (policy_or_unset (policy_map c) (cfKey item) \<notin> {PolicyFixed, PolicyUserAllowed}
           \<or> lookup_or_empty vs (ConfigurationKey (vcID c) (cfKey item)) = [])}
   \<and> set (MissingRequiredConfiguration c vs False) \<inter> set (MissingRequiredConfiguration c vs True) = {}
   \<and> (\<forall>u. sorted (MissingRequiredConfiguration c vs u) \<and> distinct (MissingRequiredConfiguration c vs u))"
proof -
  have inj: "ConfigurationKey i k = ConfigurationKey i k' \<longleftrightarrow> k = k'" for i k k' by (simp add: ConfigurationKey_def)
  have sd: "sorted (remdups_adj (sort xs)) \<and> distinct (remdups_adj (sort xs))" for xs :: "string list"
    by (simp add: distinct_remdups_adj_sorted)
  have mem: "k \<in> set (MissingRequiredConfiguration c vs False) \<union> set (MissingRequiredConfiguration c vs True) \<longleftrightarrow>
    k \<in> {ConfigurationKey (vcID c) (cfKey item) | item. item \<in> set (ComponentConfig c) \<and> cfRequired item \<and> \<not> cfStatic item
        \<and> cfSecretBinding item = None
        \<and> (policy_or_unset (policy_map c) (cfKey item) \<notin> {PolicyFixed, PolicyUserAllowed}
           \<or> lookup_or_empty vs (ConfigurationKey (vcID c) (cfKey item)) = [])}" for k
    unfolding Un_iff in_MissingRequiredConfiguration by (auto simp: is_missing_def Let_def split: if_splits)
  have disj: "set (MissingRequiredConfiguration c vs False) \<inter> set (MissingRequiredConfiguration c vs True) = {}"
    by (auto simp: in_MissingRequiredConfiguration is_missing_def Let_def inj split: if_splits)
  have "sorted (MissingRequiredConfiguration c vs u) \<and> distinct (MissingRequiredConfiguration c vs u)" for u
    unfolding MissingRequiredConfiguration_def by (rule sd)
  with set_eqI [OF mem] disj show ?thesis by blast
qed

end
