(* ===== verification/System_IDs.thy ===== *)
theory System_IDs
  imports Prelude
begin

text \<open>
  Resource identifiers (pkg/system/ids.go): the kind of a stored object is read off the prefix of its
  name, and the resolution of connection URLs and the authorizer branch on it.
\<close>

definition MCPServerPrefix :: string where "MCPServerPrefix = ''ms1''"
definition MCPServerInstancePrefix :: string where "MCPServerInstancePrefix = ''msi1''"
definition VMCPPrefix :: string where "VMCPPrefix = ''vmcp1''"
definition VMCPInstancePrefix :: string where "VMCPInstancePrefix = ''vmcpi1''"
definition PowerUserWorkspacePrefix :: string where "PowerUserWorkspacePrefix = ''puw1''"
definition SystemMCPServerPrefix :: string where "SystemMCPServerPrefix = ''sms1''"
definition MCPWebhookValidationPrefix :: string where "MCPWebhookValidationPrefix = ''mwv1''"

lemmas id_prefix_defs =
  MCPServerPrefix_def MCPServerInstancePrefix_def VMCPPrefix_def VMCPInstancePrefix_def
  PowerUserWorkspacePrefix_def SystemMCPServerPrefix_def MCPWebhookValidationPrefix_def

definition IsMCPServerID :: "string \<Rightarrow> bool" where "IsMCPServerID i = HasPrefix i MCPServerPrefix"
definition IsMCPServerInstanceID :: "string \<Rightarrow> bool" where "IsMCPServerInstanceID i = HasPrefix i MCPServerInstancePrefix"
definition IsVMCPID :: "string \<Rightarrow> bool" where "IsVMCPID i = HasPrefix i VMCPPrefix"
definition IsVMCPInstanceID :: "string \<Rightarrow> bool" where "IsVMCPInstanceID i = HasPrefix i VMCPInstancePrefix"
definition IsPowerUserWorkspaceID :: "string \<Rightarrow> bool" where "IsPowerUserWorkspaceID i = HasPrefix i PowerUserWorkspacePrefix"
definition IsSystemMCPServerID :: "string \<Rightarrow> bool" where "IsSystemMCPServerID i = HasPrefix i SystemMCPServerPrefix"
definition IsWebhookSystemMCPServerID :: "string \<Rightarrow> bool" where
  "IsWebhookSystemMCPServerID i = HasPrefix i (SystemMCPServerPrefix @ MCPWebhookValidationPrefix)"

lemmas id_kind_defs =
  IsMCPServerID_def IsMCPServerInstanceID_def IsVMCPID_def IsVMCPInstanceID_def IsPowerUserWorkspaceID_def
  IsSystemMCPServerID_def

definition id_kinds :: "string \<Rightarrow> bool list" where
  "id_kinds i = [IsMCPServerID i, IsMCPServerInstanceID i, IsVMCPID i, IsVMCPInstanceID i, IsPowerUserWorkspaceID i, IsSystemMCPServerID i]"

lemma HasPrefix_Cons: "HasPrefix i (c # cs) \<longleftrightarrow> (case i of [] \<Rightarrow> False | x # xs \<Rightarrow> x = c \<and> HasPrefix xs cs)"
  by (simp add: HasPrefix_def split: list.split)

lemma HasPrefix_Nil: "HasPrefix i []"
  by (simp add: HasPrefix_def)

text \<open>
  The kinds of identifiers exclude each other: no identifier passes two of the kind tests, so the
  order in which code asks for the kind of an identifier does not matter.
\<close>

theorem id_kinds_disjoint: "length (filter (\<lambda>b. b) (id_kinds i)) \<le> 1"
  unfolding id_kinds_def id_kind_defs id_prefix_defs HasPrefix_Cons HasPrefix_Nil
  by (simp split: list.split)

end
