(* ===== verification/VMCP_Resolve.thy ===== *)
theory VMCP_Resolve
  imports VMCP_Config System_IDs
begin

text \<open>
  Resolution of virtual MCP servers and their connections (pkg/vmcp/resolve.go, serverinstance.go,
  oauth.go): which vMCP and which connection an identifier of a URL names, which of several
  connections is the canonical one, the component a shared connection stands for, and the OAuth
  credential of a component server. The storage client is a record of parameters.
\<close>

section \<open>Stored servers and the client\<close>

record MCPServer = object_meta +
  srvUserID :: string
  srvMCPCatalogID :: string
  srvMCPServerCatalogEntryName :: string
  srvPowerUserWorkspaceID :: string
  srvCompositeName :: string
  srvVMCPInstanceID :: string
  srvVMCPID :: string
  srvVMCPComponentID :: string
  srvTemplate :: bool
  srvNeedsURL :: bool

record MCPServerInstance = object_meta +
  msiUserID :: string
  msiMCPServerName :: string
  msiMCPCatalogName :: string
  msiMCPServerCatalogEntryName :: string
  msiPowerUserWorkspaceID :: string
  msiCompositeName :: string
  msiTemplate :: bool
  msiVMCPInstanceID :: string
  msiVMCPComponentID :: string

definition IsSingleUser :: "MCPServer \<Rightarrow> bool" where "IsSingleUser s = (srvVMCPInstanceID s \<noteq> [])"
definition server_IsMultiUser :: "MCPServer \<Rightarrow> bool" where "server_IsMultiUser s = (srvVMCPID s \<noteq> [])"

definition IsCatalogServer :: "MCPServer \<Rightarrow> bool" where
  "IsCatalogServer s = (srvVMCPComponentID s = [] \<and> srvMCPCatalogID s \<noteq> [])"

definition IsOwnedBy :: "MCPServer \<Rightarrow> string \<Rightarrow> bool" where
  "IsOwnedBy s userID = (srvUserID s = userID \<and> \<not> IsCatalogServer s)"

definition IsPowerUserWorkspaceServer :: "MCPServer \<Rightarrow> bool" where
  "IsPowerUserWorkspaceServer s = (srvPowerUserWorkspaceID s \<noteq> [])"

text \<open>
  The client: \<open>Get\<close> by namespace and name for each kind, and \<open>List\<close> in a namespace by the values of
  indexed fields.
\<close>

record kube_client =
  getVMCP :: "string \<Rightarrow> string \<Rightarrow> VMCP_obj result"
  getVMCPInstance :: "string \<Rightarrow> string \<Rightarrow> VMCPInstance result"
  getMCPServer :: "string \<Rightarrow> string \<Rightarrow> MCPServer result"
  getMCPServerInstance :: "string \<Rightarrow> string \<Rightarrow> MCPServerInstance result"
  listVMCPs :: "string \<Rightarrow> (string \<times> string) list \<Rightarrow> VMCP_obj list result"
  listVMCPInstances :: "string \<Rightarrow> (string \<times> string) list \<Rightarrow> VMCPInstance list result"

section \<open>Identifiers of URLs\<close>

text \<open>Whether the legacy server or instance an identifier names still exists; it is then authoritative.\<close>

definition legacy_exists :: "kube_client \<Rightarrow> string \<Rightarrow> bool result" where
  "legacy_exists c i =
    (let check = (\<lambda>r. case r of Inr _ \<Rightarrow> Inr True | Inl e \<Rightarrow> if IsNotFound e then Inr False else Inl e)
     in if IsMCPServerID i then check (map_sum id (\<lambda>_. ()) (getMCPServer c DefaultNamespace i))
        else if IsMCPServerInstanceID i then check (map_sum id (\<lambda>_. ()) (getMCPServerInstance c DefaultNamespace i))
        else Inr False)"

definition instance_vmcp :: "kube_client \<Rightarrow> VMCPInstance \<Rightarrow> (VMCP_obj option \<times> VMCPInstance option) result" where
  "instance_vmcp c inst =
    andThen (getVMCP c (Namespace inst) (imVMCPID (viManifest inst))) (\<lambda>vmcp. Inr (Some vmcp, Some inst))"

text \<open>The migrated alias: the first connection with the slug, else the first vMCP with it.\<close>

definition resolve_slug :: "kube_client \<Rightarrow> string \<Rightarrow> VMCPInstance list \<Rightarrow> (VMCP_obj option \<times> VMCPInstance option) result" where
  "resolve_slug c i instances =
    (case instances of
       inst # _ \<Rightarrow> instance_vmcp c inst
     | [] \<Rightarrow> andThen (listVMCPs c DefaultNamespace [(''spec.legacySlug'', i)]) (\<lambda>vmcps.
         case vmcps of [] \<Rightarrow> Inr (None, None) | vmcp # _ \<Rightarrow> Inr (Some vmcp, None)))"

definition ResolveID :: "kube_client \<Rightarrow> string \<Rightarrow> (VMCP_obj option \<times> VMCPInstance option) result" where
  "ResolveID c i =
    (if i = [] then Inr (None, None)
     else if IsVMCPID i then andThen (getVMCP c DefaultNamespace i) (\<lambda>vmcp. Inr (Some vmcp, None))
     else if IsVMCPInstanceID i then andThen (getVMCPInstance c DefaultNamespace i) (instance_vmcp c)
     else if IsSystemMCPServerID i then Inr (None, None)
     else andThen (legacy_exists c i) (\<lambda>exists.
       if exists then Inr (None, None)
       else andThen (if IsMCPServerID i \<or> IsMCPServerInstanceID i
                     then listVMCPInstances c DefaultNamespace [(''spec.legacySlug'', i)] else Inr []) (resolve_slug c i)))"

definition ResolveConnectID :: "kube_client \<Rightarrow> string \<Rightarrow> string \<Rightarrow> (VMCP_obj option \<times> VMCPInstance option) result" where
  "ResolveConnectID c i userID =
    andThen (ResolveID c i) (\<lambda>(vmcp, inst).
      case inst of
        Some x \<Rightarrow> if viUserID x \<noteq> userID then Inl (NotFound ''vmcpinstance'' i) else Inr (vmcp, inst)
      | None \<Rightarrow> Inr (vmcp, inst))"

section \<open>The canonical connection\<close>

definition created_at :: "VMCPInstance \<Rightarrow> int" where
  "created_at inst = (case viLegacyCreatedAt inst of Some t \<Rightarrow> t | None \<Rightarrow> CreationTimestamp inst)"

definition instance_order :: "VMCPInstance \<Rightarrow> int \<times> string \<times> string" where
  "instance_order inst = (created_at inst, viLegacySlug inst, Name inst)"

definition oldestInstance :: "VMCPInstance list \<Rightarrow> VMCPInstance option" where
  "oldestInstance items = (if items = [] then None else Some (hd (sort_key instance_order items)))"

definition FindInstance :: "kube_client \<Rightarrow> string \<Rightarrow> string \<Rightarrow> string \<Rightarrow> VMCPInstance option result" where
  "FindInstance c namespace vmcpID userID =
    andThen (listVMCPInstances c namespace [(''spec.manifest.vmcpID'', vmcpID), (''spec.userID'', userID)])
      (\<lambda>items. Inr (oldestInstance items))"

definition group_instances :: "VMCPInstance list \<Rightarrow> (string \<times> VMCPInstance list) list" where
  "group_instances items =
    fold (\<lambda>inst m. let k = imVMCPID (viManifest inst)
                   in AList.update k ((case map_of m k of Some xs \<Rightarrow> xs | None \<Rightarrow> []) @ [inst]) m) items []"

definition FindInstances :: "kube_client \<Rightarrow> string \<Rightarrow> string \<Rightarrow> (string \<times> VMCPInstance option) list result" where
  "FindInstances c namespace userID =
    andThen (listVMCPInstances c namespace [(''spec.userID'', userID)]) (\<lambda>items.
      Inr (map (\<lambda>(vmcpID, xs). (vmcpID, oldestInstance xs)) (group_instances items)))"

section \<open>Shared connections and OAuth references\<close>

definition ServerInstanceComponent ::
  "(digestible \<Rightarrow> string) \<Rightarrow> kube_client \<Rightarrow> MCPServerInstance \<Rightarrow> MCPServer \<Rightarrow> VMCPComponent result" where
  "ServerInstanceComponent digest c connection server =
    andThen (getVMCPInstance c (Namespace connection) (msiVMCPInstanceID connection)) (\<lambda>inst.
      if viUserID inst \<noteq> msiUserID connection \<or> imVMCPID (viManifest inst) \<noteq> srvVMCPID server
         \<or> srvVMCPInstanceID server \<noteq> [] \<or> msiMCPServerName connection \<noteq> Name server
         \<or> msiVMCPComponentID connection \<noteq> srvVMCPComponentID server
      then Inl (Invalid ''inconsistent vMCP ownership'')
      else andThen (getVMCP c (Namespace inst) (imVMCPID (viManifest inst))) (\<lambda>vmcp.
        case find (\<lambda>x. vcID x = msiVMCPComponentID connection \<and> IsMultiUser x) (ComponentsForInstance digest vmcp inst) of
          Some component \<Rightarrow> Inr component
        | None \<Rightarrow> Inl (Invalid ''shared component no longer exists'')))"

definition MCPOAuthCredentialName :: "string \<Rightarrow> string" where
  "MCPOAuthCredentialName mcpServerName = ''mcp-oauth-'' @ mcpServerName"

definition StaticOAuthCredentialReference :: "MCPServerCatalogEntryManifest \<Rightarrow> string \<Rightarrow> string" where
  "StaticOAuthCredentialReference manifest entryID =
    (if emRuntime manifest = ''remote'' \<and>
        (case emRemoteConfig manifest of Some r \<Rightarrow> StaticOAuthRequired r | None \<Rightarrow> False)
     then MCPOAuthCredentialName entryID else [])"

definition ComponentOAuthCredentialReference :: "VMCPComponent \<Rightarrow> string" where
  "ComponentOAuthCredentialReference component =
    (if vcOAuthCredentialID component \<noteq> [] then vcOAuthCredentialID component
     else StaticOAuthCredentialReference (snManifest (vcCatalogEntry component)) (vcMCPServerCatalogEntryID component))"

definition ServerOAuthCredentialReference :: "kube_client \<Rightarrow> MCPServer \<Rightarrow> (string \<times> string) result" where
  "ServerOAuthCredentialReference c server =
    andThen (if srvVMCPInstanceID server \<noteq> []
             then andThen (getVMCPInstance c (Namespace server) (srvVMCPInstanceID server)) (\<lambda>inst. Inr (imVMCPID (viManifest inst)))
             else Inr (srvVMCPID server)) (\<lambda>vmcpID.
      if vmcpID = [] then
        (if srvMCPServerCatalogEntryName server \<noteq> []
         then Inr (MCPOAuthCredentialName (srvMCPServerCatalogEntryName server), srvMCPServerCatalogEntryName server)
         else Inr ([], []))
      else andThen (getVMCP c (Namespace server) vmcpID) (\<lambda>vmcp.
        case find (\<lambda>x. vcID x = srvVMCPComponentID server) (vmComponents (vmManifest vmcp)) of
          Some component \<Rightarrow> Inr (ComponentOAuthCredentialReference component, vcMCPServerCatalogEntryID component)
        | None \<Rightarrow> Inl (Invalid ''VMCP has no such component'')))"

section \<open>Properties\<close>

lemma instance_vmcp_Inr:
  "instance_vmcp c x = Inr (v, i) \<longleftrightarrow> (\<exists>vmcp. v = Some vmcp \<and> i = Some x \<and> getVMCP c (Namespace x) (imVMCPID (viManifest x)) = Inr vmcp)"
  by (auto simp: instance_vmcp_def andThen_eq_Inr)

lemma resolve_slug_instance:
  assumes "resolve_slug c i xs = Inr (v, Some inst)"
  shows "\<exists>vmcp. v = Some vmcp \<and> getVMCP c (Namespace inst) (imVMCPID (viManifest inst)) = Inr vmcp"
proof (cases xs)
  case Nil
  with assms obtain ys where "(case ys of [] \<Rightarrow> Inr (None, None) | vmcp # _ \<Rightarrow> Inr (Some vmcp, None)) = (Inr (v, Some inst) :: _ result)"
    by (auto simp: resolve_slug_def andThen_eq_Inr)
  then show ?thesis by (cases ys) auto
qed (use assms in \<open>auto simp: resolve_slug_def instance_vmcp_Inr\<close>)

lemma ResolveID_instance:
  assumes "ResolveID c i = Inr (v, Some inst)"
  shows "\<exists>vmcp. v = Some vmcp \<and> getVMCP c (Namespace inst) (imVMCPID (viManifest inst)) = Inr vmcp"
  using assms
  by (auto simp: ResolveID_def andThen_eq_Inr instance_vmcp_Inr split: if_splits dest: resolve_slug_instance)

text \<open>
  C37: a connection URL never reaches another user's connection. A resolved connection belongs to the
  user and comes with the vMCP it is an instance of; another user's connection is reported as not
  found; and a legacy server that still exists is left to the legacy model.
\<close>

theorem connect_id_own_instance:
  "(ResolveConnectID c i userID = Inr (vmcp, Some inst) \<longrightarrow>
      viUserID inst = userID \<and> (\<exists>v. vmcp = Some v \<and> getVMCP c (Namespace inst) (imVMCPID (viManifest inst)) = Inr v))
   \<and> (ResolveID c i = Inr (vmcp, Some inst) \<and> viUserID inst \<noteq> userID \<longrightarrow>
        ResolveConnectID c i userID = Inl (NotFound ''vmcpinstance'' i))
   \<and> (i \<noteq> [] \<and> IsMCPServerID i \<and> getMCPServer c DefaultNamespace i = Inr server \<longrightarrow> ResolveConnectID c i userID = Inr (None, None))"
proof -
  have a: "viUserID inst = userID \<and> (\<exists>v. vmcp = Some v \<and> getVMCP c (Namespace inst) (imVMCPID (viManifest inst)) = Inr v)"
    if "ResolveConnectID c i userID = Inr (vmcp, Some inst)"
  proof -
    from that have "ResolveID c i = Inr (vmcp, Some inst) \<and> viUserID inst = userID"
      by (auto simp: ResolveConnectID_def andThen_eq_Inr split: option.splits if_splits)
    then show ?thesis using ResolveID_instance by blast
  qed
  have b: "ResolveConnectID c i userID = Inl (NotFound ''vmcpinstance'' i)"
    if "ResolveID c i = Inr (vmcp, Some inst)" "viUserID inst \<noteq> userID"
    using that by (simp add: ResolveConnectID_def)
  have other: "\<not> IsVMCPID i \<and> \<not> IsVMCPInstanceID i \<and> \<not> IsSystemMCPServerID i" if "IsMCPServerID i"
    using that by (auto simp: id_kind_defs id_prefix_defs HasPrefix_iff)
  have d: "ResolveConnectID c i userID = Inr (None, None)"
    if "i \<noteq> []" "IsMCPServerID i" "getMCPServer c DefaultNamespace i = Inr server"
    using that other by (simp add: ResolveConnectID_def ResolveID_def legacy_exists_def)
  show ?thesis using a b d by blast
qed

definition example_instance :: "string \<Rightarrow> string \<Rightarrow> int \<Rightarrow> VMCPInstance" where
  "example_instance name user created = \<lparr>Name = name, Namespace = ''default'', DeletionTimestamp = None, CreationTimestamp = created,
     viManifest = \<lparr>imVMCPID = ''vmcp1x'', imComponentSet = None\<rparr>, viUserID = user, viLegacySlug = [], viLegacyCreatedAt = None,
     viLegacyComponents = [], viLegacyDisabledComponents = [], viUserConfigurationHash = []\<rparr>"

text \<open>A client over lists of stored vMCPs and instances.\<close>

definition instance_field :: "string \<Rightarrow> VMCPInstance \<Rightarrow> string" where
  "instance_field f inst = (if f = ''spec.legacySlug'' then viLegacySlug inst else if f = ''spec.userID'' then viUserID inst
     else if f = ''spec.manifest.vmcpID'' then imVMCPID (viManifest inst) else [])"

definition vmcp_field :: "string \<Rightarrow> VMCP_obj \<Rightarrow> string" where
  "vmcp_field f vmcp = (if f = ''spec.legacySlug'' then vmLegacySlug vmcp else if f = ''spec.userID'' then vmUserID vmcp else [])"

definition get_named :: "string \<Rightarrow> ('a object_meta_scheme) list \<Rightarrow> string \<Rightarrow> string \<Rightarrow> ('a object_meta_scheme) result" where
  "get_named kind store ns n = (case find (\<lambda>x. Namespace x = ns \<and> Name x = n) store of Some x \<Rightarrow> Inr x | None \<Rightarrow> Inl (NotFound kind n))"

definition list_client :: "VMCP_obj list \<Rightarrow> VMCPInstance list \<Rightarrow> MCPServer list \<Rightarrow> MCPServerInstance list \<Rightarrow> kube_client" where
  "list_client vmcps insts servers sinsts =
    \<lparr>getVMCP = get_named ''vmcp'' vmcps, getVMCPInstance = get_named ''vmcpinstance'' insts,
     getMCPServer = get_named ''mcpserver'' servers, getMCPServerInstance = get_named ''mcpserverinstance'' sinsts,
     listVMCPs = (\<lambda>ns fs. Inr (filter (\<lambda>x. Namespace x = ns \<and> (\<forall>(f, v)\<in>set fs. vmcp_field f x = v)) vmcps)),
     listVMCPInstances = (\<lambda>ns fs. Inr (filter (\<lambda>x. Namespace x = ns \<and> (\<forall>(f, v)\<in>set fs. instance_field f x = v)) insts))\<rparr>"

theorem connect_id_own_instance_witness:
  "ResolveConnectID (list_client [example_vmcp [] []] [example_instance ''vmcpi1a'' ''7'' 1] [] []) ''vmcpi1a'' ''8''
     = Inl (NotFound ''vmcpinstance'' ''vmcpi1a'')"
proof -
  let ?c = "list_client [example_vmcp [] []] [example_instance ''vmcpi1a'' ''7'' 1] [] []"
  have "ResolveID ?c ''vmcpi1a'' = Inr (Some (example_vmcp [] []), Some (example_instance ''vmcpi1a'' ''7'' 1))"
    by (simp add: ResolveID_def instance_vmcp_def list_client_def get_named_def example_instance_def example_vmcp_def
        id_kind_defs id_prefix_defs HasPrefix_def DefaultNamespace_def)
  with connect_id_own_instance [of ?c "''vmcpi1a''" "''8''" "Some (example_vmcp [] [])" "example_instance ''vmcpi1a'' ''7'' 1"]
  show ?thesis by (simp add: example_instance_def)
qed

text \<open>The order of connections: the first of a list is the least of its set when names identify connections.\<close>

lemma sort_key_hd_least: "xs \<noteq> [] \<Longrightarrow> hd (sort_key f xs) \<in> set xs \<and> (\<forall>x\<in>set xs. f (hd (sort_key f xs)) \<le> f x)"
proof -
  assume "xs \<noteq> []"
  then obtain y ys where y: "sort_key f xs = y # ys" by (metis list.exhaust length_0_conv length_sort)
  have "sorted (map f (y # ys))" using sorted_sort_key [of f xs] y by simp
  moreover have "set (y # ys) = set xs" using set_sort [of f xs] y by simp
  ultimately show ?thesis using y by auto
qed

lemma oldestInstance_Some:
  assumes "xs \<noteq> []"
  shows "\<exists>m. oldestInstance xs = Some m \<and> m \<in> set xs \<and> (\<forall>x\<in>set xs. instance_order m \<le> instance_order x)"
  using sort_key_hd_least [OF assms, of instance_order] assms by (auto simp: oldestInstance_def)

lemma oldestInstance_cong:
  assumes "set xs = set ys" and "inj_on Name (set ys)"
  shows "oldestInstance xs = oldestInstance ys"
proof (cases "xs = []")
  case False
  with assms(1) have "ys \<noteq> []" by auto
  from oldestInstance_Some [OF False] oldestInstance_Some [OF this] obtain m n where
    mn: "oldestInstance xs = Some m" "m \<in> set xs" "\<forall>x\<in>set xs. instance_order m \<le> instance_order x"
      "oldestInstance ys = Some n" "n \<in> set ys" "\<forall>x\<in>set ys. instance_order n \<le> instance_order x" by auto
  have "instance_order m \<le> instance_order n" "instance_order n \<le> instance_order m" using mn assms(1) by blast+
  then have "instance_order m = instance_order n" by simp
  then have "Name m = Name n" by (simp add: instance_order_def)
  with mn assms show ?thesis by (metis inj_onD)
qed (use assms(1) in simp)

lemma group_instances_lookup:
  "map_of (group_instances items) k =
    (if filter (\<lambda>x. imVMCPID (viManifest x) = k) items = [] then None else Some (filter (\<lambda>x. imVMCPID (viManifest x) = k) items))"
proof (induction items rule: rev_induct)
  case (snoc x xs)
  have "group_instances (xs @ [x]) = (let k = imVMCPID (viManifest x); m = group_instances xs
      in AList.update k ((case map_of m k of Some ys \<Rightarrow> ys | None \<Rightarrow> []) @ [x]) m)"
    by (simp add: group_instances_def Let_def)
  then show ?case
    by (cases "imVMCPID (viManifest x) = k") (simp_all add: update_conv' Let_def snoc.IH)
qed (simp add: group_instances_def)

text \<open>What the client promises on listing connections by indexed fields.\<close>

definition instance_list_ok :: "kube_client \<Rightarrow> VMCPInstance list \<Rightarrow> bool" where
  "instance_list_ok c store \<longleftrightarrow> (\<forall>ns fs. \<exists>xs. listVMCPInstances c ns fs = Inr xs \<and>
     set xs = {x \<in> set store. Namespace x = ns \<and> (\<forall>(f, v)\<in>set fs. instance_field f x = v)})"

lemma instance_list_okD:
  "instance_list_ok c store \<Longrightarrow> \<exists>xs. listVMCPInstances c ns fs = Inr xs \<and>
     set xs = {x \<in> set store. Namespace x = ns \<and> (\<forall>(f, v)\<in>set fs. instance_field f x = v)}"
  by (simp add: instance_list_ok_def)

lemma list_client_ok: "instance_list_ok (list_client vmcps insts servers sinsts) insts"
  by (simp add: instance_list_ok_def list_client_def)

lemma map_of_oldest:
  "map_of (map (\<lambda>(k, xs). (k, oldestInstance xs)) m) k = map_option oldestInstance (map_of m k)"
  by (induction m) auto

text \<open>
  Listing all of a user's connections picks, for every vMCP, the same canonical connection that
  looking up the vMCP alone picks: the oldest, by the creation time kept from before a migration.
  The client may list in any order; connection names are unique in a namespace.
\<close>

theorem find_instances_agree:
  assumes "instance_list_ok c store" and "inj_on Name {x \<in> set store. Namespace x = namespace}"
  shows "\<exists>m. FindInstances c namespace userID = Inr m \<and>
    (\<forall>vmcpID. FindInstance c namespace vmcpID userID = Inr (case map_of m vmcpID of Some r \<Rightarrow> r | None \<Rightarrow> None))
    \<and> (\<forall>vmcpID inst. map_of m vmcpID = Some (Some inst) \<longrightarrow> viUserID inst = userID \<and> imVMCPID (viManifest inst) = vmcpID
         \<and> (\<forall>x\<in>set store. Namespace x = namespace \<and> viUserID x = userID \<and> imVMCPID (viManifest x) = vmcpID
              \<longrightarrow> created_at inst \<le> created_at x))"
proof -
  obtain items where items: "listVMCPInstances c namespace [(''spec.userID'', userID)] = Inr items"
      "set items = {x \<in> set store. Namespace x = namespace \<and> viUserID x = userID}"
    using instance_list_okD [OF assms(1), of namespace "[(''spec.userID'', userID)]"] by (auto simp: instance_field_def)
  define m where "m = map (\<lambda>(k, xs). (k, oldestInstance xs)) (group_instances items)"
  let ?of = "\<lambda>k. filter (\<lambda>x. imVMCPID (viManifest x) = k) items"
  have look: "(case map_of m k of Some r \<Rightarrow> r | None \<Rightarrow> None) = oldestInstance (?of k)" for k
    unfolding m_def map_of_oldest group_instances_lookup by (simp add: oldestInstance_def)
  have one: "FindInstance c namespace k userID = Inr (oldestInstance (?of k))" for k
  proof -
    obtain xs where xs: "listVMCPInstances c namespace [(''spec.manifest.vmcpID'', k), (''spec.userID'', userID)] = Inr xs"
        "set xs = {x \<in> set store. Namespace x = namespace \<and> imVMCPID (viManifest x) = k \<and> viUserID x = userID}"
      using instance_list_okD [OF assms(1), of namespace "[(''spec.manifest.vmcpID'', k), (''spec.userID'', userID)]"]
      by (auto simp: instance_field_def)
    have "inj_on Name (set (?of k))" using assms(2) items(2) by (auto simp: inj_on_def)
    then have "oldestInstance xs = oldestInstance (?of k)"
      by (intro oldestInstance_cong) (use xs(2) items(2) in auto)
    with xs(1) show ?thesis by (simp add: FindInstance_def)
  qed
  have least: "viUserID i = userID \<and> imVMCPID (viManifest i) = k \<and> (\<forall>x\<in>set store. Namespace x = namespace \<and> viUserID x = userID
      \<and> imVMCPID (viManifest x) = k \<longrightarrow> created_at i \<le> created_at x)" if "map_of m k = Some (Some i)" for k i
  proof -
    have old: "oldestInstance (?of k) = Some i" using look [of k] that by simp
    then have "?of k \<noteq> []" by (auto simp: oldestInstance_def)
    from oldestInstance_Some [OF this] old have i: "i \<in> set (?of k)" "\<forall>x\<in>set (?of k). instance_order i \<le> instance_order x" by auto
    have le: "created_at i \<le> created_at x" if "x \<in> set (?of k)" for x
      using i(2) that by (auto simp: instance_order_def less_eq_prod_def)
    show ?thesis using i(1) le items(2) by auto
  qed
  have "FindInstances c namespace userID = Inr m" using items(1) by (simp add: FindInstances_def m_def)
  with look one least show ?thesis by auto
qed

theorem find_instances_agree_witness:
  "FindInstance (list_client [] [example_instance ''vmcpi1a'' ''7'' 5, example_instance ''vmcpi1b'' ''7'' 3] [] []) ''default'' ''vmcp1x'' ''7''
     = Inr (Some (example_instance ''vmcpi1b'' ''7'' 3))
   \<and> (\<exists>m. FindInstances (list_client [] [example_instance ''vmcpi1a'' ''7'' 5, example_instance ''vmcpi1b'' ''7'' 3] [] []) ''default'' ''7'' = Inr m
        \<and> map_of m ''vmcp1x'' = Some (Some (example_instance ''vmcpi1b'' ''7'' 3)))"
proof -
  let ?s = "[example_instance ''vmcpi1a'' ''7'' 5, example_instance ''vmcpi1b'' ''7'' 3]"
  let ?c = "list_client [] ?s [] []"
  have ok: "instance_list_ok ?c ?s" by (rule list_client_ok)
  have inj: "inj_on Name {x \<in> set ?s. Namespace x = ''default''}" by (auto simp: inj_on_def example_instance_def)
  have f: "FindInstance ?c ''default'' ''vmcp1x'' ''7'' = Inr (Some (example_instance ''vmcpi1b'' ''7'' 3))"
    by (simp add: FindInstance_def list_client_def instance_field_def example_instance_def oldestInstance_def instance_order_def
        created_at_def less_eq_prod_def)
  from find_instances_agree [OF ok inj, of "''7''"] obtain m where m: "FindInstances ?c ''default'' ''7'' = Inr m"
      "FindInstance ?c ''default'' ''vmcp1x'' ''7'' = Inr (case map_of m ''vmcp1x'' of Some r \<Rightarrow> r | None \<Rightarrow> None)" by blast
  then have "map_of m ''vmcp1x'' = Some (Some (example_instance ''vmcpi1b'' ''7'' 3))"
    unfolding f by (cases "map_of m ''vmcp1x''") simp_all
  with f m(1) show ?thesis by blast
qed

text \<open>
  A component that a shared connection resolves to is a component of the connection's own vMCP
  as its instance sees it, may be shared by users, and was reached through consistent
  records: the instance, the connection and the server name the same user, vMCP, server and component.
\<close>

theorem shared_component_consistent:
  assumes "ServerInstanceComponent digest c connection server = Inr component"
  shows "\<exists>inst vmcp. getVMCPInstance c (Namespace connection) (msiVMCPInstanceID connection) = Inr inst
    \<and> getVMCP c (Namespace inst) (srvVMCPID server) = Inr vmcp
    \<and> viUserID inst = msiUserID connection \<and> imVMCPID (viManifest inst) = srvVMCPID server \<and> srvVMCPInstanceID server = []
    \<and> msiMCPServerName connection = Name server \<and> vcID component = srvVMCPComponentID server
    \<and> component \<in> set (ComponentsForInstance digest vmcp inst) \<and> IsMultiUser component
    \<and> vcID component \<notin> set (viLegacyDisabledComponents inst)"
proof -
  have find: "find P xs = Some x \<Longrightarrow> x \<in> set xs \<and> P x" for P and xs :: "VMCPComponent list" and x
    by (induction xs) (auto split: if_splits)
  from assms obtain inst vmcp where "getVMCPInstance c (Namespace connection) (msiVMCPInstanceID connection) = Inr inst"
      "getVMCP c (Namespace inst) (imVMCPID (viManifest inst)) = Inr vmcp"
      "viUserID inst = msiUserID connection" "imVMCPID (viManifest inst) = srvVMCPID server" "srvVMCPInstanceID server = []"
      "msiMCPServerName connection = Name server" "msiVMCPComponentID connection = srvVMCPComponentID server"
      "find (\<lambda>x. vcID x = msiVMCPComponentID connection \<and> IsMultiUser x) (ComponentsForInstance digest vmcp inst) = Some component"
    by (auto simp: ServerInstanceComponent_def andThen_eq_Inr split: if_splits option.splits)
  with find [of _ "ComponentsForInstance digest vmcp inst" component] show ?thesis
    by (fastforce simp: ComponentsForInstance_def)
qed

definition example_server :: MCPServer where
  "example_server = \<lparr>Name = ''ms1s'', Namespace = ''default'', DeletionTimestamp = None, CreationTimestamp = 0, srvUserID = [],
     srvMCPCatalogID = [], srvMCPServerCatalogEntryName = [], srvPowerUserWorkspaceID = [], srvCompositeName = [],
     srvVMCPInstanceID = [], srvVMCPID = ''vmcp1x'', srvVMCPComponentID = ''c1'', srvTemplate = False, srvNeedsURL = False\<rparr>"

definition example_connection :: MCPServerInstance where
  "example_connection = \<lparr>Name = ''msi1c'', Namespace = ''default'', DeletionTimestamp = None, CreationTimestamp = 0, msiUserID = ''7'',
     msiMCPServerName = ''ms1s'', msiMCPCatalogName = [], msiMCPServerCatalogEntryName = [], msiPowerUserWorkspaceID = [],
     msiCompositeName = [], msiTemplate = False, msiVMCPInstanceID = ''vmcpi1a'', msiVMCPComponentID = ''c1''\<rparr>"

theorem shared_component_consistent_witness:
  "\<exists>inst vmcp. getVMCPInstance (list_client [example_vmcp [] []] [example_instance ''vmcpi1a'' ''7'' 1] [] []) ''default'' ''vmcpi1a'' = Inr inst
    \<and> viUserID inst = ''7'' \<and> example_component ''c1'' ''one'' \<in> set (ComponentsForInstance (\<lambda>_. []) vmcp inst)"
proof -
  let ?c = "list_client [example_vmcp [] []] [example_instance ''vmcpi1a'' ''7'' 1] [] []"
  have "ServerInstanceComponent (\<lambda>_. []) ?c example_connection example_server = Inr (example_component ''c1'' ''one'')"
    by (simp add: ServerInstanceComponent_def list_client_def get_named_def example_connection_def example_server_def
        example_instance_def example_vmcp_def ComponentsForInstance_def LegacyComponent_def add_url_input_def
        hostname_constrained_def example_component_def example_snapshot_def IsMultiUser_def Let_def)
  from shared_component_consistent [OF this] show ?thesis
    by (auto simp: example_connection_def)
qed

end
