(* ===== verification/Authz_Access.thy ===== *)
theory Authz_Access
  imports Roles Access_Control_Rule Skill_Access_Rule VMCP_Resolve
begin

text \<open>
  Who may see, connect to and manage virtual MCP servers and the servers behind them
  (pkg/api/authz/vmcp.go, mcpid.go, mcpservercatalogentry.go). The storage client, the rule indexer
  and the digest are parameters. Pointers that a function updates for its caller (the connection and
  the resources of a request) are passed in and returned.
\<close>

section \<open>Objects and clients\<close>

record MCPServerCatalogEntry = object_meta +
  ceMCPCatalogName :: string
  cePowerUserWorkspaceID :: string

record SystemMCPServer = object_meta +
  smEnabled :: "bool option"

record OAuthAuthRequest = object_meta +
  oarUserID :: nat
  oarMCPID :: string

record OAuthClient = object_meta +
  ocClientSecretHash :: string
  ocRegistrationTokenHash :: string

record authz_client =
  kube :: kube_client
  getPowerUserWorkspace :: "string \<Rightarrow> string \<Rightarrow> PowerUserWorkspace result"
  getMCPServerCatalogEntry :: "string \<Rightarrow> string \<Rightarrow> MCPServerCatalogEntry result"
  getSystemMCPServer :: "string \<Rightarrow> string \<Rightarrow> SystemMCPServer result"
  getSkill :: "string \<Rightarrow> string \<Rightarrow> Skill result"
  getOAuthAuthRequest :: "string \<Rightarrow> string \<Rightarrow> OAuthAuthRequest result"
  getOAuthClient :: "string \<Rightarrow> string \<Rightarrow> OAuthClient result"

text \<open>The access control rule helper: its rule indexer and its workspace lookup.\<close>

record acr_helper =
  acrIndexer :: "AccessControlRule indexer"
  acrGetWorkspace :: "string \<Rightarrow> string \<Rightarrow> PowerUserWorkspace result"

text \<open>\<open>Resources\<close>: the identifiers of a request's URL and the objects found to be authorized.\<close>

record ResourcesAuthorized =
  azMCPServer :: "MCPServer option"
  azMCPServerInstance :: "MCPServerInstance option"
  azMCPServerCatalogEntry :: "MCPServerCatalogEntry option"
  azVMCP :: "VMCP_obj option"
  azVMCPInstance :: "VMCPInstance option"
  azPowerUserWorkspace :: "PowerUserWorkspace option"
  azSkill :: "Skill option"

record Resources =
  rsMCPServerID :: string
  rsMCPServerInstanceID :: string
  rsMCPServerCatalogEntryID :: string
  rsVMCPComponentMCPID :: string
  rsVMCPID :: string
  rsVMCPInstanceID :: string
  rsMCPID :: string
  rsWorkspaceID :: string
  rsSkillID :: string
  rsDeviceScanID :: string
  rsOAuthAuthRequestID :: string
  rsAuthorizated :: ResourcesAuthorized

definition authorize_vmcp :: "VMCP_obj option \<Rightarrow> VMCPInstance option \<Rightarrow> Resources \<Rightarrow> Resources" where
  "authorize_vmcp vmcp instance r =
    r\<lparr>rsAuthorizated := (rsAuthorizated r)\<lparr>azVMCP := vmcp, azVMCPInstance := instance\<rparr>\<rparr>"

section \<open>Decimal numbers\<close>

text \<open>\<open>strconv.ParseUint\<close> and \<open>FormatUint\<close> in base 10 at 64 bits.\<close>

definition digit :: "char \<Rightarrow> nat option" where
  "digit c = (let n = of_char c :: nat in if 48 \<le> n \<and> n \<le> 57 then Some (n - 48) else None)"

fun parse_digits :: "nat \<Rightarrow> string \<Rightarrow> nat option" where
  "parse_digits acc [] = Some acc"
| "parse_digits acc (c # s) = (case digit c of None \<Rightarrow> None | Some d \<Rightarrow> parse_digits (10 * acc + d) s)"

definition ParseUint :: "string \<Rightarrow> nat result" where
  "ParseUint s =
    (case (if s = [] then None else parse_digits 0 s) of
       None \<Rightarrow> Inl (Invalid ''invalid syntax'')
     | Some n \<Rightarrow> if n < 2 ^ 64 then Inr n else Inl (Invalid ''value out of range''))"

fun FormatUint :: "nat \<Rightarrow> string" where
  "FormatUint n = (if n < 10 then [char_of (48 + n)] else FormatUint (n div 10) @ [char_of (48 + n mod 10)])"

declare FormatUint.simps [simp del]

section \<open>Catalog entries\<close>

definition UserCanReadCatalogEntry :: "user_info \<Rightarrow> MCPServerCatalogEntry \<Rightarrow> acr_helper \<Rightarrow> bool result" where
  "UserCanReadCatalogEntry u entry helper =
    (if ceMCPCatalogName entry \<noteq> []
     then UserHasAccessToMCPServerCatalogEntryInCatalog (acrIndexer helper) u (Name entry) (ceMCPCatalogName entry)
     else if cePowerUserWorkspaceID entry \<noteq> []
     then UserHasAccessToMCPServerCatalogEntryInWorkspace (acrIndexer helper) (acrGetWorkspace helper) u (Name entry)
            (cePowerUserWorkspaceID entry)
     else Inr False)"

text \<open>The error texts carry the fixed part of the source's messages.\<close>

definition CheckVMCPComponentAccess ::
  "user_info \<Rightarrow> string \<Rightarrow> MCPServerCatalogEntry \<Rightarrow> acr_helper \<Rightarrow> (nat \<Rightarrow> user_info result) \<Rightarrow> unit result" where
  "CheckVMCPComponentAccess u ownerID entry helper userInfo =
    (if ownerID = [] then Inr ()
     else andThen (if ownerID \<noteq> GetUID u then andThen (ParseUint ownerID) userInfo else Inr u) (\<lambda>owner.
       andThen (UserCanReadCatalogEntry owner entry helper) (\<lambda>allowed.
         if allowed then Inr () else Inl (Forbidden ''access denied to catalog entry''))))"

section \<open>Virtual MCP servers\<close>

definition IsVMCPAdministrator :: "user_info \<Rightarrow> bool" where
  "IsVMCPAdministrator u = (GroupAdmin \<in> set (GetGroups u))"

definition userMatchesVMCPProfile :: "user_info \<Rightarrow> VMCPProfile list \<Rightarrow> bool" where
  "userMatchesVMCPProfile u profiles = (length (MatchingProfiles u profiles) > 0)"

definition UserCanReadVMCP :: "user_info \<Rightarrow> VMCP_obj \<Rightarrow> bool" where
  "UserCanReadVMCP u vmcp =
    (if vmUserID vmcp \<noteq> [] then vmUserID vmcp = GetUID u
     else userMatchesVMCPProfile u (profiles_of (vmManifest vmcp)))"

definition UserCanConnectVMCP :: "user_info \<Rightarrow> VMCP_obj \<Rightarrow> bool" where
  "UserCanConnectVMCP u vmcp = (length (vmComponents (vmManifest vmcp)) > 0 \<and> UserCanReadVMCP u vmcp)"

definition UserCanManageVMCP :: "user_info \<Rightarrow> VMCP_obj \<Rightarrow> bool" where
  "UserCanManageVMCP u vmcp = (IsVMCPAdministrator u \<or> vmUserID vmcp \<noteq> [] \<and> vmUserID vmcp = GetUID u)"

definition UserCanReadVMCPInstance :: "user_info \<Rightarrow> VMCPInstance \<Rightarrow> VMCP_obj \<Rightarrow> bool" where
  "UserCanReadVMCPInstance u instance vmcp =
    (IsVMCPAdministrator u \<or> viUserID instance = GetUID u \<and> UserCanReadVMCP u vmcp)"

definition ValidateVMCPToolSelection :: "user_info \<Rightarrow> VMCP_obj \<Rightarrow> component_map option \<Rightarrow> unit result" where
  "ValidateVMCPToolSelection u vmcp selection =
    (case ValidateComponents (vmManifest vmcp) selection of
       Inl _ \<Rightarrow> Inl (BadRequest ''invalid tool selection'')
     | Inr _ \<Rightarrow>
         if vmUserID vmcp \<noteq> [] \<and> vmUserID vmcp = GetUID u then Inr ()
         else let grant = AllowedTools u (profiles_of (vmManifest vmcp)) None;
                  refs = (case ComponentToolReferences selection of None \<Rightarrow> [] | Some rs \<Rightarrow> rs)
              in validate_all (\<lambda>tool.
                   if vmUserID vmcp \<noteq> [] \<or> \<not> ToolGranted grant tool
                   then Inl (BadRequest ''tool is not granted by the VMCP profiles'') else Inr ()) refs)"

section \<open>Connections\<close>

record mcpConnection =
  cnID :: string
  cnVMCP :: "VMCP_obj option"
  cnInstance :: "VMCPInstance option"

definition resolveMCPConnection :: "authz_client \<Rightarrow> string \<Rightarrow> string \<Rightarrow> mcpConnection result" where
  "resolveMCPConnection client i userID =
    andThen (ResolveConnectID (kube client) i userID) (\<lambda>(vmcp, instance).
      Inr \<lparr>cnID = i, cnVMCP = vmcp, cnInstance = instance\<rparr>)"

text \<open>A request that carries the signed, explicitly scoped token of an aggregate.\<close>

definition aggregate_token :: "user_info \<Rightarrow> string \<Rightarrow> bool" where
  "aggregate_token u mcpID = (GroupCompositeMCP \<in> set (GetGroups u) \<and> mcpID \<in> set (GetExtra u ''authorized_mcp_ids''))"

text \<open>The branch of \<open>checkMCPIDAccess\<close> for a resolved vMCP. It may look up and record the connection.\<close>

definition access_vmcp ::
  "authz_client \<Rightarrow> user_info \<Rightarrow> mcpConnection \<Rightarrow> VMCP_obj \<Rightarrow> Resources option \<Rightarrow>
   (bool \<times> mcpConnection \<times> Resources option) result" where
  "access_vmcp client u cn vmcp resources =
    (if \<not> UserCanConnectVMCP u vmcp then Inr (False, cn, resources)
     else case resources of
       None \<Rightarrow> Inr (True, cn, None)
     | Some r \<Rightarrow>
         if cnInstance cn = None \<and> rsVMCPComponentMCPID r \<noteq> []
         then andThen (FindInstance (kube client) (Namespace vmcp) (Name vmcp) (GetUID u)) (\<lambda>instance.
                case instance of
                  None \<Rightarrow> Inr (False, cn, Some r)
                | Some _ \<Rightarrow> Inr (True, cn\<lparr>cnInstance := instance\<rparr>, Some (authorize_vmcp (Some vmcp) instance r)))
         else Inr (True, cn, Some (authorize_vmcp (Some vmcp) (cnInstance cn) r)))"

text \<open>The branch for a server instance.\<close>

definition access_server_instance :: "(digestible \<Rightarrow> string) \<Rightarrow> authz_client \<Rightarrow> user_info \<Rightarrow> string \<Rightarrow> bool result" where
  "access_server_instance digest client u mcpID =
    andThen (getMCPServerInstance (kube client) DefaultNamespace mcpID) (\<lambda>msi.
      if msiUserID msi \<noteq> GetUID u then Inr False
      else andThen (getMCPServer (kube client) (Namespace msi) (msiMCPServerName msi)) (\<lambda>server.
        if msiVMCPInstanceID msi \<noteq> []
        then (if \<not> aggregate_token u mcpID then Inr False
              else andThen (ServerInstanceComponent digest (kube client) msi server) (\<lambda>_.
                andThen (getVMCP (kube client) (Namespace server) (srvVMCPID server)) (\<lambda>vmcp.
                  Inr (UserCanConnectVMCP u vmcp))))
        else Inr (srvVMCPID server = [] \<and> srvVMCPInstanceID server = [])))"

text \<open>
  The branch for a server: shared components are refused, components of a connection need the
  aggregate's token, and the remaining servers follow the access control rules or their owner.
\<close>

definition access_server :: "authz_client \<Rightarrow> acr_helper \<Rightarrow> user_info \<Rightarrow> string \<Rightarrow> bool result" where
  "access_server client helper u mcpID =
    andThen (getMCPServer (kube client) DefaultNamespace mcpID) (\<lambda>server.
      if srvVMCPID server \<noteq> [] then Inr False
      else if srvVMCPInstanceID server \<noteq> [] \<and> \<not> aggregate_token u mcpID then Inr False
      else if srvVMCPInstanceID server \<noteq> []
      then andThen (getVMCPInstance (kube client) (Namespace server) (srvVMCPInstanceID server)) (\<lambda>instance.
             if viUserID instance \<noteq> GetUID u \<or> srvUserID server \<noteq> GetUID u then Inr False
             else if imVMCPID (viManifest instance) \<noteq> []
             then andThen (getVMCP (kube client) (Namespace server) (imVMCPID (viManifest instance))) (\<lambda>vmcp.
                    Inr (UserCanConnectVMCP u vmcp
                         \<and> list_ex (\<lambda>c. vcID c = srvVMCPComponentID server) (vmComponents (vmManifest vmcp))))
             else if IsCatalogServer server
             then UserHasAccessToMCPServerInCatalog (acrIndexer helper) u mcpID (srvMCPCatalogID server)
             else if IsPowerUserWorkspaceServer server
             then UserHasAccessToMCPServerInWorkspace (acrIndexer helper) u mcpID (srvPowerUserWorkspaceID server) (srvUserID server)
             else Inr (IsOwnedBy server (GetUID u)))
      else if IsCatalogServer server
      then UserHasAccessToMCPServerInCatalog (acrIndexer helper) u mcpID (srvMCPCatalogID server)
      else if IsPowerUserWorkspaceServer server
      then UserHasAccessToMCPServerInWorkspace (acrIndexer helper) u mcpID (srvPowerUserWorkspaceID server) (srvUserID server)
      else Inr (IsOwnedBy server (GetUID u)))"

definition access_system_server :: "authz_client \<Rightarrow> string \<Rightarrow> bool result" where
  "access_system_server client mcpID =
    andThen (getSystemMCPServer client DefaultNamespace mcpID) (\<lambda>s.
      Inr (case smEnabled s of None \<Rightarrow> True | Some b \<Rightarrow> b))"

definition checkMCPIDAccess ::
  "(digestible \<Rightarrow> string) \<Rightarrow> authz_client \<Rightarrow> acr_helper \<Rightarrow> user_info \<Rightarrow> mcpConnection \<Rightarrow> Resources option \<Rightarrow>
   (bool \<times> mcpConnection \<times> Resources option) result" where
  "checkMCPIDAccess digest client helper u cn resources =
    (case cnVMCP cn of
       Some vmcp \<Rightarrow> access_vmcp client u cn vmcp resources
     | None \<Rightarrow>
         andThen (if IsMCPServerInstanceID (cnID cn) then access_server_instance digest client u (cnID cn)
                  else if IsMCPServerID (cnID cn) then access_server client helper u (cnID cn)
                  else if IsSystemMCPServerID (cnID cn) then access_system_server client (cnID cn)
                  else Inr False) (\<lambda>ok. Inr (ok, cn, resources)))"

definition CheckMCPIDAccess :: "(digestible \<Rightarrow> string) \<Rightarrow> authz_client \<Rightarrow> acr_helper \<Rightarrow> user_info \<Rightarrow> string \<Rightarrow> bool result" where
  "CheckMCPIDAccess digest client helper u mcpID =
    andThen (resolveMCPConnection client mcpID (GetUID u)) (\<lambda>cn.
      andThen (checkMCPIDAccess digest client helper u cn None) (\<lambda>(ok, _, _). Inr ok))"

section \<open>Scopes of keys and tokens\<close>

definition vmcpScopeMatches :: "string list \<Rightarrow> VMCP_obj \<Rightarrow> VMCPInstance option \<Rightarrow> bool" where
  "vmcpScopeMatches scopes vmcp instance =
    (Name vmcp \<in> set scopes \<or> vmLegacySlug vmcp \<noteq> [] \<and> vmLegacySlug vmcp \<in> set scopes
     \<or> (case instance of
          None \<Rightarrow> False
        | Some i \<Rightarrow> Name i \<in> set scopes \<or> viLegacySlug i \<noteq> [] \<and> viLegacySlug i \<in> set scopes))"

text \<open>The scope check of a server, which the scope check of a server instance falls through to.\<close>

definition scope_of_server :: "authz_client \<Rightarrow> string list \<Rightarrow> string \<Rightarrow> string \<Rightarrow> bool result" where
  "scope_of_server client scopes userID mcpID =
    andThen (getMCPServer (kube client) DefaultNamespace mcpID) (\<lambda>server.
      if srvVMCPInstanceID server \<noteq> []
      then andThen (getVMCPInstance (kube client) (Namespace server) (srvVMCPInstanceID server)) (\<lambda>instance.
             if viUserID instance \<noteq> userID \<or> srvUserID server \<noteq> userID then Inr False
             else andThen (getVMCP (kube client) (Namespace instance) (imVMCPID (viManifest instance))) (\<lambda>vmcp.
               Inr (vmcpScopeMatches scopes vmcp (Some instance))))
      else Inr (Name server \<in> set scopes
                \<or> srvVMCPID server \<noteq> [] \<and> srvVMCPID server \<in> set scopes
                \<or> srvCompositeName server \<noteq> [] \<and> srvCompositeName server \<in> set scopes))"

definition scope_of_server_instance :: "authz_client \<Rightarrow> string list \<Rightarrow> string \<Rightarrow> string \<Rightarrow> bool result" where
  "scope_of_server_instance client scopes userID mcpID =
    andThen (getMCPServerInstance (kube client) DefaultNamespace mcpID) (\<lambda>msi.
      if msiCompositeName msi \<noteq> [] then Inr (msiCompositeName msi \<in> set scopes)
      else scope_of_server client scopes userID (msiMCPServerName msi))"

definition scope_of_vmcp ::
  "authz_client \<Rightarrow> string list \<Rightarrow> string \<Rightarrow> VMCP_obj \<Rightarrow> VMCPInstance option \<Rightarrow> Resources option \<Rightarrow> (bool \<times> Resources option) result" where
  "scope_of_vmcp client scopes userID vmcp instance resources =
    (if vmcpScopeMatches scopes vmcp instance
     then Inr (True, map_option (authorize_vmcp (Some vmcp) instance) resources)
     else andThen (case instance of
                     Some i \<Rightarrow> Inr (Some i)
                   | None \<Rightarrow> FindInstance (kube client) (Namespace vmcp) (Name vmcp) userID) (\<lambda>found.
       if vmcpScopeMatches scopes vmcp found
       then Inr (True, map_option (authorize_vmcp (Some vmcp) found) resources)
       else Inr (False, resources)))"

definition mcpIDIsAuthorized ::
  "authz_client \<Rightarrow> string list \<Rightarrow> string \<Rightarrow> mcpConnection \<Rightarrow> Resources option \<Rightarrow> (bool \<times> Resources option) result" where
  "mcpIDIsAuthorized client scopes userID cn resources =
    (let mcpID = cnID cn
     in if cnVMCP cn = None \<and> \<not> IsMCPServerID mcpID \<and> \<not> IsMCPServerInstanceID mcpID \<and> \<not> IsSystemMCPServerID mcpID
        then Inr (False, resources)
        else if ''*'' \<in> set scopes \<or> mcpID \<in> set scopes then Inr (True, resources)
        else case cnVMCP cn of
               Some vmcp \<Rightarrow> scope_of_vmcp client scopes userID vmcp (cnInstance cn) resources
             | None \<Rightarrow>
                 andThen (if IsMCPServerInstanceID mcpID then scope_of_server_instance client scopes userID mcpID
                          else if IsMCPServerID mcpID then scope_of_server client scopes userID mcpID
                          else Inr False) (\<lambda>ok. Inr (ok, resources)))"

definition MCPIDIsAuthorized :: "authz_client \<Rightarrow> string list \<Rightarrow> string \<Rightarrow> string \<Rightarrow> bool result" where
  "MCPIDIsAuthorized client scopes userID mcpID =
    andThen (resolveMCPConnection client mcpID userID) (\<lambda>cn.
      andThen (mcpIDIsAuthorized client scopes userID cn None) (\<lambda>(ok, _). Inr ok))"

definition userCanConnectToResolvedMCP ::
  "(digestible \<Rightarrow> string) \<Rightarrow> authz_client \<Rightarrow> acr_helper \<Rightarrow> user_info \<Rightarrow> mcpConnection \<Rightarrow> Resources option \<Rightarrow>
   (bool \<times> Resources option) result" where
  "userCanConnectToResolvedMCP digest client helper u cn resources =
    andThen (checkMCPIDAccess digest client helper u cn resources) (\<lambda>(ok, cn', resources').
      if \<not> ok then Inr (False, resources')
      else if GetExtra u ''authorized_mcp_ids'' \<noteq> []
      then mcpIDIsAuthorized client (GetExtra u ''authorized_mcp_ids'') (GetUID u) cn' resources'
      else Inr (True, resources'))"

definition userCanConnectToMCP ::
  "(digestible \<Rightarrow> string) \<Rightarrow> authz_client \<Rightarrow> acr_helper \<Rightarrow> user_info \<Rightarrow> string \<Rightarrow> Resources option \<Rightarrow>
   (bool \<times> Resources option) result" where
  "userCanConnectToMCP digest client helper u mcpID resources =
    andThen (resolveMCPConnection client mcpID (GetUID u)) (\<lambda>cn.
      userCanConnectToResolvedMCP digest client helper u cn resources)"

definition UserCanConnectToMCP :: "(digestible \<Rightarrow> string) \<Rightarrow> authz_client \<Rightarrow> acr_helper \<Rightarrow> user_info \<Rightarrow> string \<Rightarrow> bool result" where
  "UserCanConnectToMCP digest client helper u mcpID =
    andThen (userCanConnectToMCP digest client helper u mcpID None) (\<lambda>(ok, _). Inr ok)"

section \<open>Lemmas\<close>

named_theorems authz_defs \<open>definitions of the connection checks\<close>

declare resolveMCPConnection_def [authz_defs] checkMCPIDAccess_def [authz_defs] CheckMCPIDAccess_def [authz_defs]
  access_vmcp_def [authz_defs]

lemma prefix_nonempty: "IsVMCPID i \<or> IsMCPServerID i \<or> IsMCPServerInstanceID i \<or> IsVMCPInstanceID i \<Longrightarrow> i \<noteq> []"
  by (auto simp: IsVMCPID_def IsMCPServerID_def IsMCPServerInstanceID_def IsVMCPInstanceID_def HasPrefix_def
      VMCPPrefix_def MCPServerPrefix_def MCPServerInstancePrefix_def VMCPInstancePrefix_def)

lemma userMatchesVMCPProfile_iff:
  "userMatchesVMCPProfile u profiles \<longleftrightarrow> (\<exists>p\<in>set profiles. \<exists>s\<in>set (vpSubjects p). covers s u)"
  by (auto simp: userMatchesVMCPProfile_def MatchingProfiles_def filter_empty_conv vmcp_profile.matches_iff)

lemma server_id_not_other:
  "IsMCPServerID i \<Longrightarrow> \<not> IsVMCPID i \<and> \<not> IsVMCPInstanceID i \<and> \<not> IsSystemMCPServerID i \<and> \<not> IsMCPServerInstanceID i"
  "IsMCPServerInstanceID i \<Longrightarrow> \<not> IsVMCPID i \<and> \<not> IsVMCPInstanceID i \<and> \<not> IsSystemMCPServerID i \<and> \<not> IsMCPServerID i"
  by (auto simp: IsVMCPID_def IsMCPServerID_def IsMCPServerInstanceID_def IsVMCPInstanceID_def IsSystemMCPServerID_def
      VMCPPrefix_def MCPServerPrefix_def MCPServerInstancePrefix_def VMCPInstancePrefix_def SystemMCPServerPrefix_def HasPrefix_iff)

text \<open>A server or server instance that exists is not an alias of a vMCP.\<close>

lemma resolve_existing_server:
  assumes "IsMCPServerID i" and "getMCPServer c DefaultNamespace i = Inr server"
  shows "ResolveConnectID c i userID = Inr (None, None)"
  using assms server_id_not_other(1) [of i] prefix_nonempty [of i]
  by (simp add: ResolveConnectID_def ResolveID_def legacy_exists_def)

lemma resolve_existing_instance:
  assumes "IsMCPServerInstanceID i" and "getMCPServerInstance c DefaultNamespace i = Inr msi"
  shows "ResolveConnectID c i userID = Inr (None, None)"
  using assms server_id_not_other(2) [of i] prefix_nonempty [of i]
  by (simp add: ResolveConnectID_def ResolveID_def legacy_exists_def)

section \<open>Example objects\<close>

definition example_client :: "VMCP_obj list \<Rightarrow> VMCPInstance list \<Rightarrow> MCPServer list \<Rightarrow> MCPServerInstance list \<Rightarrow> authz_client" where
  "example_client vmcps insts servers sinsts =
    \<lparr>kube = list_client vmcps insts servers sinsts,
     getPowerUserWorkspace = get_named ''poweruserworkspace'' [], getMCPServerCatalogEntry = get_named ''mcpservercatalogentry'' [],
     getSystemMCPServer = get_named ''systemmcpserver'' [], getSkill = get_named ''skill'' [],
     getOAuthAuthRequest = get_named ''oauthauthrequest'' [], getOAuthClient = get_named ''oauthclient'' []\<rparr>"

definition example_helper :: acr_helper where
  "example_helper = \<lparr>acrIndexer = (\<lambda>_ _. Inr []), acrGetWorkspace = get_named ''poweruserworkspace'' []\<rparr>"

text \<open>A user with groups and a scope, and the server of a component of that user's connection.\<close>

definition scoped_user :: "string list \<Rightarrow> string list \<Rightarrow> user_info" where
  "scoped_user gs scope = \<lparr>GetName = ''alice'', GetUID = ''7'', GetGroups = gs, GetExtra = (\<lambda>k. if k = ''authorized_mcp_ids'' then scope else [])\<rparr>"

definition component_server :: MCPServer where
  "component_server = example_server\<lparr>srvUserID := ''7'', srvVMCPID := [], srvVMCPInstanceID := ''vmcpi1a''\<rparr>"

lemmas example_defs = example_client_def example_helper_def scoped_user_def component_server_def example_server_def
  list_client_def get_named_def example_vmcp_def example_component_def example_instance_def id_kind_defs id_prefix_defs
  HasPrefix_def DefaultNamespace_def

section \<open>Properties\<close>

text \<open>
  Connecting to a vMCP by its identifier. It fails only when the lookup fails; otherwise the
  answer is that the vMCP has a component and either is the user's own or, when nobody owns it, has
  a profile with a subject that covers the user. No role, and no catalog access, plays a part.
\<close>

theorem vmcp_connect_spec:
  assumes "IsVMCPID i"
  shows "CheckMCPIDAccess digest client helper u i =
    (case getVMCP (kube client) DefaultNamespace i of
       Inl e \<Rightarrow> Inl e
     | Inr v \<Rightarrow> Inr (vmComponents (vmManifest v) \<noteq> []
         \<and> (if vmUserID v \<noteq> [] then vmUserID v = GetUID u
            else (\<exists>p\<in>set (profiles_of (vmManifest v)). \<exists>s\<in>set (vpSubjects p). covers s u))))"
  using assms prefix_nonempty [of i]
  by (simp add: authz_defs ResolveConnectID_def ResolveID_def UserCanConnectVMCP_def UserCanReadVMCP_def
      userMatchesVMCPProfile_iff split: sum.split)

theorem vmcp_connect_spec_witness:
  "CheckMCPIDAccess (\<lambda>_. []) (example_client [example_vmcp [] ''7''] [] [] []) example_helper (scoped_user [] []) ''vmcp1x'' = Inr True"
  by (subst vmcp_connect_spec) (simp_all add: example_defs)

text \<open>
  C15: component servers are reached only through their aggregate. A request for the server of a
  component is refused when the server is shared, and is otherwise allowed only with an aggregate's
  token scoped to that server, for the user who owns both the server and the connection it serves; a
  request for a shared component's server instance is allowed only with such a token and for its user.
\<close>

theorem component_needs_aggregate:
  "(IsMCPServerID i \<and> getMCPServer (kube client) DefaultNamespace i = Inr server
      \<and> (srvVMCPID server \<noteq> [] \<or> srvVMCPInstanceID server \<noteq> [])
      \<and> CheckMCPIDAccess digest client helper u i = Inr True \<longrightarrow>
      srvVMCPID server = [] \<and> aggregate_token u i \<and> srvUserID server = GetUID u
      \<and> (\<exists>inst. getVMCPInstance (kube client) (Namespace server) (srvVMCPInstanceID server) = Inr inst \<and> viUserID inst = GetUID u))
   \<and> (IsMCPServerInstanceID i \<and> getMCPServerInstance (kube client) DefaultNamespace i = Inr msi \<and> msiVMCPInstanceID msi \<noteq> []
      \<and> CheckMCPIDAccess digest client helper u i = Inr True \<longrightarrow>
      aggregate_token u i \<and> msiUserID msi = GetUID u)"
proof (rule conjI; intro impI; elim conjE)
  assume i: "IsMCPServerID i" and s: "getMCPServer (kube client) DefaultNamespace i = Inr server"
    and "srvVMCPID server \<noteq> [] \<or> srvVMCPInstanceID server \<noteq> []"
    and "CheckMCPIDAccess digest client helper u i = Inr True"
  then show "srvVMCPID server = [] \<and> aggregate_token u i \<and> srvUserID server = GetUID u
      \<and> (\<exists>inst. getVMCPInstance (kube client) (Namespace server) (srvVMCPInstanceID server) = Inr inst \<and> viUserID inst = GetUID u)"
    using server_id_not_other(1) [OF i]
    by (auto simp: authz_defs resolve_existing_server [OF i s] access_server_def andThen_eq_Inr split: if_splits)
next
  assume i: "IsMCPServerInstanceID i" and m: "getMCPServerInstance (kube client) DefaultNamespace i = Inr msi"
    and "msiVMCPInstanceID msi \<noteq> []" and "CheckMCPIDAccess digest client helper u i = Inr True"
  then show "aggregate_token u i \<and> msiUserID msi = GetUID u"
    by (auto simp: authz_defs resolve_existing_instance [OF i m] access_server_instance_def andThen_eq_Inr split: if_splits)
qed

theorem component_needs_aggregate_witness:
  "aggregate_token (scoped_user [GroupCompositeMCP] [''ms1s'']) ''ms1s'' \<and> srvUserID component_server = ''7''"
proof -
  let ?c = "example_client [example_vmcp [] ''7''] [example_instance ''vmcpi1a'' ''7'' 1] [component_server] []"
    and ?u = "scoped_user [GroupCompositeMCP] [''ms1s'']"
  have "getMCPServer (kube ?c) DefaultNamespace ''ms1s'' = Inr component_server" and "IsMCPServerID ''ms1s''"
    by (simp_all add: example_defs)
  moreover have "CheckMCPIDAccess (\<lambda>_. []) ?c example_helper ?u ''ms1s'' = Inr True"
    by (simp add: authz_defs ResolveConnectID_def ResolveID_def legacy_exists_def access_server_def aggregate_token_def
        UserCanConnectVMCP_def UserCanReadVMCP_def example_defs)
  moreover have "srvVMCPInstanceID component_server \<noteq> []" by (simp add: component_server_def)
  ultimately show ?thesis
    using component_needs_aggregate [of "''ms1s''" ?c component_server "\<lambda>_. []" example_helper ?u] by (auto simp: scoped_user_def)
qed

text \<open>
  An accepted tool selection is effective. When the selection of a user is accepted on a vMCP, the
  user owns the vMCP, or every tool the selection includes is one that the profiles grant, so that the
  grant of the connection includes it; on another user's vMCP only a selection of no tool is accepted.
\<close>

theorem accepted_selection_effective:
  assumes "ValidateVMCPToolSelection u vmcp (Some selection) = Inr ()"
    and "\<not> (vmUserID vmcp \<noteq> [] \<and> vmUserID vmcp = GetUID u)" and "set_includes selection t"
  shows "vmUserID vmcp = [] \<and> ToolGranted (AllowedTools u (profiles_of (vmManifest vmcp)) (Some selection)) t"
proof -
  have all: "vmUserID vmcp = [] \<and> ToolGranted (AllowedTools u (profiles_of (vmManifest vmcp)) None) r"
    if "r \<in> set (concat (map component_refs selection))" for r
    using assms(1,2) that
    by (auto simp: ValidateVMCPToolSelection_def ComponentToolReferences_def validate_all_Inr simp del: set_concat
        split: sum.splits if_splits)
  from assms(3) have "ToolGranted (Some (concat (map component_refs selection))) t" by (simp only: refs_grant_iff)
  then have "vmUserID vmcp = [] \<and> ToolGranted (AllowedTools u (profiles_of (vmManifest vmcp)) None) t"
    using all [of t] all [of "\<lparr>ComponentID = ComponentID t, trName = ''*''\<rparr>"]
    by (auto simp: ToolGranted_def simp del: set_concat split: option.splits)
  with assms(3) show ?thesis by (simp add: AllowedTools_unselected AllowedTools_selected)
qed

theorem accepted_selection_effective_witness:
  "ToolGranted (AllowedTools vmcp_user [example_profile (Some [(''c1'', \<lparr>csAllowedTools = Some [''search'']\<rparr>)])]
     (Some [(''c1'', \<lparr>csAllowedTools = Some [''search'']\<rparr>)])) \<lparr>ComponentID = ''c1'', trName = ''search''\<rparr>"
proof -
  let ?p = "example_profile (Some [(''c1'', \<lparr>csAllowedTools = Some [''search'']\<rparr>)])"
    and ?s = "[(''c1'', \<lparr>csAllowedTools = Some [''search'']\<rparr>)]"
  have "ToolGranted (AllowedTools vmcp_user [?p] None) \<lparr>ComponentID = ''c1'', trName = ''search''\<rparr>"
    by (simp add: AllowedTools_unselected profiles_grant_def example_profile_def covers_def subject_matches_def set_includes_def)
  then have "ValidateVMCPToolSelection vmcp_user (example_vmcp [?p] []) (Some ?s) = Inr ()"
    by (simp add: ValidateVMCPToolSelection_def ValidateComponents_def ValidateToolReference_def VMCPToolReference_Validate_def
        ComponentToolReferences_def component_refs_def example_vmcp_def example_component_def profiles_of_def Let_def)
  from accepted_selection_effective [OF this, of "\<lparr>ComponentID = ''c1'', trName = ''search''\<rparr>"] show ?thesis
    by (simp add: example_vmcp_def profiles_of_def set_includes_def)
qed

section \<open>Scopes\<close>

text \<open>
  The specification of a scope entry: the names by which an entry of a key's scope may stand for the
  target of a request. They are the identifier itself, the name and migrated alias of its vMCP and of
  the user's connection to it, and for the server of a component or composite those of its aggregate.
\<close>

definition vmcp_named :: "VMCP_obj \<Rightarrow> VMCPInstance option \<Rightarrow> string \<Rightarrow> bool" where
  "vmcp_named v inst n \<longleftrightarrow> n = Name v \<or> n \<noteq> [] \<and> n = vmLegacySlug v
     \<or> (\<exists>x. inst = Some x \<and> (n = Name x \<or> n \<noteq> [] \<and> n = viLegacySlug x))"

inductive server_named :: "authz_client \<Rightarrow> string \<Rightarrow> string \<Rightarrow> string \<Rightarrow> bool" for client userID where
  own_name: "getMCPServer (kube client) DefaultNamespace i = Inr s \<Longrightarrow> srvVMCPInstanceID s = [] \<Longrightarrow>
     server_named client userID i (Name s)"
| aggregate: "getMCPServer (kube client) DefaultNamespace i = Inr s \<Longrightarrow> srvVMCPInstanceID s = [] \<Longrightarrow>
     n \<noteq> [] \<Longrightarrow> n = srvVMCPID s \<or> n = srvCompositeName s \<Longrightarrow> server_named client userID i n"
| connection: "getMCPServer (kube client) DefaultNamespace i = Inr s \<Longrightarrow> srvUserID s = userID \<Longrightarrow>
     getVMCPInstance (kube client) (Namespace s) (srvVMCPInstanceID s) = Inr x \<Longrightarrow> viUserID x = userID \<Longrightarrow>
     getVMCP (kube client) (Namespace x) (imVMCPID (viManifest x)) = Inr v \<Longrightarrow> vmcp_named v (Some x) n \<Longrightarrow>
     server_named client userID i n"

inductive denotes :: "authz_client \<Rightarrow> string \<Rightarrow> string \<Rightarrow> string \<Rightarrow> bool" for client userID where
  itself: "denotes client userID i i"
| vmcp: "ResolveConnectID (kube client) i userID = Inr (Some v, inst) \<Longrightarrow> vmcp_named v inst n \<Longrightarrow> denotes client userID i n"
| canonical: "ResolveConnectID (kube client) i userID = Inr (Some v, None) \<Longrightarrow>
     FindInstance (kube client) (Namespace v) (Name v) userID = Inr inst \<Longrightarrow> vmcp_named v inst n \<Longrightarrow> denotes client userID i n"
| server: "server_named client userID i n \<Longrightarrow> denotes client userID i n"
| composite: "getMCPServerInstance (kube client) DefaultNamespace i = Inr m \<Longrightarrow> n = msiCompositeName m \<Longrightarrow> denotes client userID i n"
| server_of: "getMCPServerInstance (kube client) DefaultNamespace i = Inr m \<Longrightarrow>
     server_named client userID (msiMCPServerName m) n \<Longrightarrow> denotes client userID i n"

lemma vmcpScopeMatches_iff: "vmcpScopeMatches scopes v inst \<longleftrightarrow> (\<exists>n\<in>set scopes. vmcp_named v inst n)"
  by (auto simp: vmcpScopeMatches_def vmcp_named_def split: option.splits)

lemma scope_of_server_named:
  "scope_of_server client scopes userID i = Inr True \<Longrightarrow> \<exists>n\<in>set scopes. server_named client userID i n"
  by (auto simp: scope_of_server_def andThen_eq_Inr vmcpScopeMatches_iff split: if_splits intro: server_named.intros)

lemma scope_of_server_mono:
  "set s \<subseteq> set s' \<Longrightarrow> scope_of_server client s userID i = Inr True \<Longrightarrow> scope_of_server client s' userID i = Inr True"
  by (auto simp: scope_of_server_def andThen_def vmcpScopeMatches_iff split: if_splits sum.splits)

lemma scope_of_vmcp_named:
  assumes "scope_of_vmcp client scopes userID v inst resources = Inr (True, r)"
  shows "\<exists>n\<in>set scopes. vmcp_named v inst n
    \<or> inst = None \<and> (\<exists>x. FindInstance (kube client) (Namespace v) (Name v) userID = Inr x \<and> vmcp_named v x n)"
  using assms by (auto simp: scope_of_vmcp_def andThen_eq_Inr vmcpScopeMatches_iff split: if_splits option.splits)

lemma scope_of_vmcp_mono:
  assumes "set s \<subseteq> set s'" and "scope_of_vmcp client s userID v inst None = Inr (True, r)"
  shows "\<exists>r'. scope_of_vmcp client s' userID v inst None = Inr (True, r')"
  using assms by (auto simp: scope_of_vmcp_def andThen_eq_Inr vmcpScopeMatches_iff split: if_splits option.splits)

lemma MCPIDIsAuthorized_True:
  "MCPIDIsAuthorized client scopes userID i = Inr True \<longleftrightarrow>
    (\<exists>v inst r. ResolveConnectID (kube client) i userID = Inr (v, inst)
      \<and> mcpIDIsAuthorized client scopes userID \<lparr>cnID = i, cnVMCP = v, cnInstance = inst\<rparr> None = Inr (True, r))"
  by (auto simp: MCPIDIsAuthorized_def resolveMCPConnection_def andThen_eq_Inr)

lemma scope_denotes:
  assumes "MCPIDIsAuthorized client scopes userID i = Inr True" and "''*'' \<notin> set scopes"
  shows "\<exists>n\<in>set scopes. denotes client userID i n"
proof -
  from assms(1) obtain v inst r where res: "ResolveConnectID (kube client) i userID = Inr (v, inst)"
    and ok: "mcpIDIsAuthorized client scopes userID \<lparr>cnID = i, cnVMCP = v, cnInstance = inst\<rparr> None = Inr (True, r)"
    by (auto simp: MCPIDIsAuthorized_True)
  show ?thesis
  proof (cases "i \<in> set scopes")
    case True
    then show ?thesis using denotes.itself by blast
  next
    case notin: False
    show ?thesis
    proof (cases v)
      case (Some w)
      with ok assms(2) notin have "scope_of_vmcp client scopes userID w inst None = Inr (True, r)"
        by (simp add: mcpIDIsAuthorized_def)
      from scope_of_vmcp_named [OF this] res Some show ?thesis
        by (auto intro: denotes.vmcp denotes.canonical)
    next
      case None
      with ok assms(2) notin show ?thesis
        by (auto simp: mcpIDIsAuthorized_def andThen_eq_Inr scope_of_server_instance_def split: if_splits
            dest!: scope_of_server_named) (blast intro: denotes.intros)+
    qed
  qed
qed

lemma scope_mono:
  assumes "MCPIDIsAuthorized client s userID i = Inr True" and "set s \<subseteq> set s'"
  shows "MCPIDIsAuthorized client s' userID i = Inr True"
proof -
  from assms(1) obtain v inst r where res: "ResolveConnectID (kube client) i userID = Inr (v, inst)"
    and ok: "mcpIDIsAuthorized client s userID \<lparr>cnID = i, cnVMCP = v, cnInstance = inst\<rparr> None = Inr (True, r)"
    by (auto simp: MCPIDIsAuthorized_True)
  have "\<exists>r'. mcpIDIsAuthorized client s' userID \<lparr>cnID = i, cnVMCP = v, cnInstance = inst\<rparr> None = Inr (True, r')"
  proof (cases v)
    case (Some w)
    with ok assms(2) show ?thesis
      using scope_of_vmcp_mono [OF assms(2), of client userID w inst r]
      by (auto simp: mcpIDIsAuthorized_def Let_def split: if_splits)
  next
    case None
    with ok assms(2) show ?thesis
      using scope_of_server_mono [OF assms(2), of client userID]
      by (auto simp: mcpIDIsAuthorized_def Let_def andThen_eq_Inr scope_of_server_instance_def split: if_splits)
  qed
  with res show ?thesis by (auto simp: MCPIDIsAuthorized_True)
qed

lemma UserCanConnectToMCP_split:
  "UserCanConnectToMCP digest client helper u i = Inr True \<longleftrightarrow>
     CheckMCPIDAccess digest client helper u i = Inr True
   \<and> (GetExtra u ''authorized_mcp_ids'' = [] \<or> MCPIDIsAuthorized client (GetExtra u ''authorized_mcp_ids'') (GetUID u) i = Inr True)"
proof -
  have same: "cn' = cn \<and> r = None" if "checkMCPIDAccess digest client helper u cn None = Inr (ok, cn', r)" for cn cn' ok r
    using that by (auto simp: checkMCPIDAccess_def access_vmcp_def andThen_eq_Inr split: option.splits if_splits)
  note defs = UserCanConnectToMCP_def userCanConnectToMCP_def userCanConnectToResolvedMCP_def CheckMCPIDAccess_def
    MCPIDIsAuthorized_def
  show ?thesis
  proof (cases "resolveMCPConnection client i (GetUID u)")
    case (Inr cn)
    show ?thesis
    proof (cases "checkMCPIDAccess digest client helper u cn None")
      case check: (Inr x)
      then obtain ok where "x = (ok, cn, None)" using same by (cases x) auto
      with Inr check show ?thesis
        by (cases "mcpIDIsAuthorized client (GetExtra u ''authorized_mcp_ids'') (GetUID u) cn None")
           (auto simp: defs split: prod.splits)
    qed (simp add: defs Inr)
  qed (simp add: defs)
qed

text \<open>
  C14: the scope of a key or token only narrows access. A user may connect exactly when the access check
  allows it and the scope, if there is one, covers the target; a scope without the wildcard covers a
  target only if one of its entries denotes the target; and a larger scope covers what a smaller does.
\<close>

theorem scoped_token_confined:
  "(UserCanConnectToMCP digest client helper u i = Inr True \<longleftrightarrow>
      CheckMCPIDAccess digest client helper u i = Inr True
      \<and> (GetExtra u ''authorized_mcp_ids'' = []
         \<or> MCPIDIsAuthorized client (GetExtra u ''authorized_mcp_ids'') (GetUID u) i = Inr True))
   \<and> (MCPIDIsAuthorized client scopes userID i = Inr True \<and> ''*'' \<notin> set scopes \<longrightarrow> (\<exists>n\<in>set scopes. denotes client userID i n))
   \<and> (MCPIDIsAuthorized client scopes userID i = Inr True \<and> set scopes \<subseteq> set scopes' \<longrightarrow>
        MCPIDIsAuthorized client scopes' userID i = Inr True)"
  using UserCanConnectToMCP_split scope_denotes scope_mono by blast

theorem scoped_token_confined_witness:
  "UserCanConnectToMCP (\<lambda>_. []) (example_client [example_vmcp [] ''7''] [] [] []) example_helper (scoped_user [] [''vmcp1x'']) ''vmcp1x'' = Inr True"
proof -
  let ?c = "example_client [example_vmcp [] ''7''] [] [] []" and ?u = "scoped_user [] [''vmcp1x'']"
  have "CheckMCPIDAccess (\<lambda>_. []) ?c example_helper ?u ''vmcp1x'' = Inr True"
    and "MCPIDIsAuthorized ?c [''vmcp1x''] ''7'' ''vmcp1x'' = Inr True"
    by (simp_all add: authz_defs ResolveConnectID_def ResolveID_def MCPIDIsAuthorized_def mcpIDIsAuthorized_def
        UserCanConnectVMCP_def UserCanReadVMCP_def example_defs)
  with scoped_token_confined [of "\<lambda>_. []" ?c example_helper ?u "''vmcp1x''"] show ?thesis by (simp add: scoped_user_def)
qed

end
