(* ===== verification/Paths.thy ===== *)
theory Paths
  imports Prelude
begin

text \<open>
  Paths as the Go standard library treats them: percent escapes, segments and \<open>path.Clean\<close>. The request
  router, the redirects and the policy engine build on it.
\<close>

section \<open>Escapes\<close>

text \<open>Percent decoding, as \<open>url.PathUnescape\<close> does it; the router keeps a segment that does not decode.\<close>

definition hex_digit :: "char \<Rightarrow> nat option" where
  "hex_digit c =
    (let n = of_char c :: nat
     in if 48 \<le> n \<and> n \<le> 57 then Some (n - 48)
        else if 97 \<le> n \<and> n \<le> 102 then Some (n - 87)
        else if 65 \<le> n \<and> n \<le> 70 then Some (n - 55)
        else None)"

fun unescape :: "string \<Rightarrow> string option" where
  "unescape [] = Some []"
| "unescape (c # s) =
    (if c = CHR 0x25
     then (case s of
             a # b # r \<Rightarrow>
               (case (hex_digit a, hex_digit b) of
                  (Some x, Some y) \<Rightarrow> map_option (\<lambda>t. char_of (16 * x + y) # t) (unescape r)
                | _ \<Rightarrow> None)
           | _ \<Rightarrow> None)
     else map_option (\<lambda>t. c # t) (unescape s))"

definition pathUnescape :: "string \<Rightarrow> string" where
  "pathUnescape s = (case unescape s of None \<Rightarrow> s | Some t \<Rightarrow> t)"

text \<open>\<open>url.QueryEscape\<close>: unreserved characters stay, a blank is a plus sign, the rest is escaped.\<close>

definition unreserved :: "char \<Rightarrow> bool" where
  "unreserved c =
    (let n = of_char c :: nat
     in (48 \<le> n \<and> n \<le> 57) \<or> (65 \<le> n \<and> n \<le> 90) \<or> (97 \<le> n \<and> n \<le> 122) \<or> c \<in> set ''-_.~'')"

definition upper_hex :: "nat \<Rightarrow> char" where "upper_hex n = ''0123456789ABCDEF'' ! n"

definition QueryEscape :: "string \<Rightarrow> string" where
  "QueryEscape s =
    concat (map (\<lambda>c. if unreserved c then [c] else if c = CHR '' '' then ''+''
                    else [CHR 0x25, upper_hex (of_char c div 16), upper_hex (of_char c mod 16)]) s)"

section \<open>Segments\<close>

definition slash :: char where "slash = CHR ''/''"

abbreviation split_slash :: "string \<Rightarrow> string list" where "split_slash \<equiv> Split slash"

text \<open>\<open>path.Clean\<close> on a rooted path: empty and \<open>.\<close> elements vanish, \<open>..\<close> removes the element before it.\<close>

definition clean_step :: "string \<Rightarrow> string list \<Rightarrow> string list" where
  "clean_step s acc = (if s = [] \<or> s = ''.'' then acc else if s = ''..'' then butlast acc else acc @ [s])"

definition path_Clean :: "string \<Rightarrow> string" where
  "path_Clean p =
    (let segs = fold clean_step (split_slash p) []
     in if segs = [] then ''/'' else concat (map (\<lambda>s. slash # s) segs))"

lemma split_slash_no_slash: "s \<in> set (split_slash p) \<Longrightarrow> slash \<notin> set s"
  using Split_pieces by blast

definition plain_element :: "string \<Rightarrow> bool" where
  "plain_element s \<longleftrightarrow> s \<noteq> [] \<and> slash \<notin> set s"

lemma clean_elements:
  "list_all (\<lambda>s. slash \<notin> set s) xs \<Longrightarrow> list_all plain_element acc \<Longrightarrow> list_all plain_element (fold clean_step xs acc)"
proof (induction xs arbitrary: acc)
  case (Cons x xs)
  have "list_all plain_element (clean_step x acc)"
    using Cons.prems by (simp add: clean_step_def list_all_iff plain_element_def in_set_butlastD)
  with Cons show ?case by simp
qed simp

lemma split_slash_unfold:
  "split_slash p = takeWhile (\<lambda>c. c \<noteq> slash) p #
     (case dropWhile (\<lambda>c. c \<noteq> slash) p of [] \<Rightarrow> [] | _ # q \<Rightarrow> split_slash q)"
  by (induction p) auto

end
