(* ===== verification/Serve_Mux.thy ===== *)
theory Serve_Mux
  imports Paths
begin

text \<open>
  The request router of Go's standard library (net/http ServeMux), which the authorizer uses to
  match requests against its tables of patterns (pkg/api/authz/pathmatcher.go and the rules of
  authz.go): parsing of patterns, cleaning of paths, the search with its precedence of literals over
  wildcards over trailing slashes, redirects, and the \<open>pathMatcher\<close> built on it. The main result is
  that the search finds a pattern exactly when one of the registered patterns matches.
\<close>

section \<open>Cleaning a request path\<close>

definition cleanPath :: "string \<Rightarrow> string" where
  "cleanPath p =
    (if p = [] then ''/''
     else let p' = (if hd p \<noteq> slash then slash # p else p);
              np = path_Clean p'
          in if last p' = slash \<and> np \<noteq> ''/'' then np @ ''/'' else np)"

section \<open>Patterns\<close>

text \<open>
  A segment is a literal, a named wildcard, or a wildcard for the rest of the path, which a trailing
  slash gives without a name; \<open>{$}\<close> is the literal slash.
\<close>

datatype segment = Lit string | Wild string | Multi string

record pattern =
  patStr :: string
  patMethod :: string
  patSegments :: "segment list"

definition wild_segment :: "string \<Rightarrow> segment" where
  "wild_segment s =
    (let name = butlast (tl s)
     in if name = ''$'' then Lit ''/''
        else case CutSuffix name ''...'' of Some n \<Rightarrow> Multi n | None \<Rightarrow> Wild name)"

fun parse_segments :: "string list \<Rightarrow> segment list" where
  "parse_segments [] = []"
| "parse_segments (s # ss) =
    (if s = [] \<and> ss = [] then [Multi []]
     else (if CHR ''{'' \<in> set s then wild_segment s else Lit (pathUnescape s)) # parse_segments ss)"

text \<open>
  \<open>parsePattern\<close>: an optional method, white space, and a path. A pattern that names a host is not
  parsed here (none of the program's does); the result \<open>None\<close> is a pattern that does not register.
\<close>

definition is_blank :: "char \<Rightarrow> bool" where "is_blank c = (c = CHR '' '' \<or> c = CHR 0x09)"

definition parsePattern :: "string \<Rightarrow> pattern option" where
  "parsePattern s =
    (let m = takeWhile (\<lambda>c. \<not> is_blank c) s;
         found = (length m < length s);
         rest = (if found then dropWhile is_blank (drop (length m) s) else s);
         method = (if found then m else [])
     in if rest = [] \<or> hd rest \<noteq> slash then None
        else if method \<noteq> [] \<and> method \<noteq> ''CONNECT'' \<and> rest \<noteq> cleanPath rest then None
        else Some \<lparr>patStr = s, patMethod = method, patSegments = parse_segments (split_slash (tl rest))\<rparr>)"

section \<open>The search\<close>

text \<open>
  A node of the routing tree is the list of the patterns registered below it, each with the segments
  that are still to be matched; an empty list is a node that does not exist.
\<close>

type_synonym node = "(segment list \<times> pattern) list"

fun literal_child :: "string \<Rightarrow> node \<Rightarrow> node" where
  "literal_child s [] = []"
| "literal_child s ((Lit l # r, p) # n) = (if l = s then (r, p) # literal_child s n else literal_child s n)"
| "literal_child s (_ # n) = literal_child s n"

fun wild_child :: "node \<Rightarrow> node" where
  "wild_child [] = []"
| "wild_child ((Wild x # r, p) # n) = (r, p) # wild_child n"
| "wild_child (_ # n) = wild_child n"

fun leaf :: "node \<Rightarrow> pattern option" where
  "leaf [] = None"
| "leaf (([], p) # n) = Some p"
| "leaf (_ # n) = leaf n"

fun multi_child :: "node \<Rightarrow> (string \<times> pattern) option" where
  "multi_child [] = None"
| "multi_child (([Multi x], p) # n) = Some (x, p)"
| "multi_child (_ # n) = multi_child n"

definition findChild :: "string \<Rightarrow> node \<Rightarrow> node" where
  "findChild key n = (if key = [] then wild_child n else literal_child key n)"

definition firstSegment :: "string \<Rightarrow> string \<times> string" where
  "firstSegment path =
    (if path = ''/'' then (''/'', [])
     else (pathUnescape (takeWhile (\<lambda>c. c \<noteq> slash) (tl path)), dropWhile (\<lambda>c. c \<noteq> slash) (tl path)))"

lemma firstSegment_shorter: "path \<noteq> [] \<Longrightarrow> firstSegment path = (seg, rest) \<Longrightarrow> length rest < length path"
proof -
  assume "path \<noteq> []" and "firstSegment path = (seg, rest)"
  moreover have "length (dropWhile (\<lambda>c. c \<noteq> slash) (tl path)) \<le> length (tl path)"
    by (rule length_dropWhile_le)
  ultimately show ?thesis by (cases path) (auto simp: firstSegment_def split: if_splits)
qed

function matchPath :: "node \<Rightarrow> string \<Rightarrow> string list \<Rightarrow> (pattern \<times> string list) option" where
  "matchPath n path matches =
    (if n = [] then None
     else if path = [] then map_option (\<lambda>p. (p, matches)) (leaf n)
     else let (seg, rest) = firstSegment path
          in case matchPath (findChild seg n) rest matches of
               Some m \<Rightarrow> Some m
             | None \<Rightarrow>
                 (case (if seg \<noteq> ''/'' then matchPath (wild_child n) rest (matches @ [seg]) else None) of
                    Some m \<Rightarrow> Some m
                  | None \<Rightarrow>
                      (case multi_child n of
                         None \<Rightarrow> None
                       | Some (x, p) \<Rightarrow> Some (p, if x = [] then matches else matches @ [pathUnescape (tl path)]))))"
  by pat_completeness auto
termination
  by (relation "measure (\<lambda>(n, path, matches). length path)") (auto simp: firstSegment_shorter [OF _ sym])

declare matchPath.simps [simp del]

definition by_method :: "pattern list \<Rightarrow> string \<Rightarrow> node" where
  "by_method ps m = map (\<lambda>p. (patSegments p, p)) (filter (\<lambda>p. patMethod p = m) ps)"

definition matchMethodAndPath :: "pattern list \<Rightarrow> string \<Rightarrow> string \<Rightarrow> (pattern \<times> string list) option" where
  "matchMethodAndPath ps method path =
    (case matchPath (by_method ps method) path [] of
       Some m \<Rightarrow> Some m
     | None \<Rightarrow>
         (case (if method = ''HEAD'' then matchPath (by_method ps ''GET'') path [] else None) of
            Some m \<Rightarrow> Some m
          | None \<Rightarrow> matchPath (by_method ps []) path []))"

definition exactMatch :: "(pattern \<times> string list) option \<Rightarrow> string \<Rightarrow> bool" where
  "exactMatch n path =
    (case n of
       None \<Rightarrow> False
     | Some (p, _) \<Rightarrow>
         (case last (patSegments p) of
            Multi _ \<Rightarrow> (path \<noteq> [] \<longrightarrow> last path = slash)
                        \<and> length (patSegments p) = length (filter (\<lambda>c. c = slash) path)
          | _ \<Rightarrow> True))"

text \<open>Whether the request is answered with a redirect to the same path with a trailing slash.\<close>

definition slash_redirect :: "pattern list \<Rightarrow> string \<Rightarrow> string \<Rightarrow> bool" where
  "slash_redirect ps method path =
    (\<not> exactMatch (matchMethodAndPath ps method path) path \<and> \<not> HasSuffix path ''/''
     \<and> exactMatch (matchMethodAndPath ps method (path @ ''/'')) (path @ ''/''))"

section \<open>Handlers and path matchers\<close>

record Request =
  Method :: string
  URL_Path :: string
  EscapedPath :: string
  Pattern :: string
  Authorization :: string

text \<open>
  \<open>findHandler\<close>: the registered handler of a pattern, a redirect reported under a pattern, or the
  handlers of unmatched requests, which are reported with an empty pattern.
\<close>

datatype found = Handled pattern "string list" | Redirected | Unmatched

definition findHandler :: "pattern list \<Rightarrow> Request \<Rightarrow> found" where
  "findHandler ps r =
    (let escaped = EscapedPath r;
         path = (if Method r = ''CONNECT'' then escaped else cleanPath escaped)
     in if slash_redirect ps (Method r) path then Redirected
        else case matchMethodAndPath ps (Method r) path of
               None \<Rightarrow> Unmatched
             | Some (p, ms) \<Rightarrow> if path \<noteq> escaped then Redirected else Handled p ms)"

text \<open>\<open>Handler\<close> as the rules use it: is the reported pattern non-empty?\<close>

definition Handler_pattern :: "pattern list \<Rightarrow> Request \<Rightarrow> bool" where
  "Handler_pattern ps r = (findHandler ps r \<noteq> Unmatched)"

definition register :: "string list \<Rightarrow> pattern list" where
  "register paths = List.map_filter parsePattern paths"

text \<open>\<open>Request.PathValue\<close> after the match: the value of the wildcard of that name, or the empty string.\<close>

fun wild_names :: "segment list \<Rightarrow> string list" where
  "wild_names [] = []"
| "wild_names (Lit _ # ss) = wild_names ss"
| "wild_names (Wild x # ss) = x # wild_names ss"
| "wild_names (Multi x # ss) = (if x = [] then wild_names ss else x # wild_names ss)"

definition PathValue :: "pattern \<Rightarrow> string list \<Rightarrow> string \<Rightarrow> string" where
  "PathValue p ms name = (case map_of (zip (wild_names (patSegments p)) ms) name of Some v \<Rightarrow> v | None \<Rightarrow> [])"

text \<open>
  \<open>pathMatcher.Match\<close>. On a redirect it calls the redirect handler with a nil response writer, which
  panics; the fake handler of a registered pattern ignores the writer.
\<close>

datatype match_result = NoMatch | Matched "string \<Rightarrow> string" | MatchPanics

definition newPathMatcher :: "string list \<Rightarrow> pattern list" where "newPathMatcher paths = register paths"

definition Match :: "pattern list option \<Rightarrow> Request \<Rightarrow> match_result" where
  "Match m r =
    (case m of
       None \<Rightarrow> NoMatch
     | Some ps \<Rightarrow>
         (case findHandler ps r of
            Unmatched \<Rightarrow> NoMatch
          | Redirected \<Rightarrow> MatchPanics
          | Handled p ms \<Rightarrow> Matched (PathValue p ms)))"

section \<open>What a pattern matches\<close>

text \<open>
  The specification: the values a single pattern binds on a path, with no tree and no precedence.
\<close>

fun bindings :: "segment list \<Rightarrow> string \<Rightarrow> string list option" where
  "bindings [] path = (if path = [] then Some [] else None)"
| "bindings (Lit s # ss) path =
    (if path \<noteq> [] \<and> fst (firstSegment path) = s then bindings ss (snd (firstSegment path)) else None)"
| "bindings (Wild x # ss) path =
    (if path \<noteq> [] \<and> fst (firstSegment path) \<noteq> ''/''
     then map_option (\<lambda>bs. fst (firstSegment path) # bs) (bindings ss (snd (firstSegment path))) else None)"
| "bindings (Multi x # ss) path =
    (if path \<noteq> [] \<and> ss = [] then Some (if x = [] then [] else [pathUnescape (tl path)]) else None)"

definition method_fits :: "pattern \<Rightarrow> string \<Rightarrow> bool" where
  "method_fits p method = (patMethod p = [] \<or> patMethod p = method \<or> method = ''HEAD'' \<and> patMethod p = ''GET'')"

fun single_slashes :: "string \<Rightarrow> bool" where
  "single_slashes (a # b # s) = (\<not> (a = slash \<and> b = slash) \<and> single_slashes (b # s))"
| "single_slashes s = True"

lemma single_slashes_tl: "single_slashes s \<Longrightarrow> single_slashes (tl s)"
  by (cases s rule: single_slashes.cases) auto

lemma single_slashes_drop: "single_slashes s \<Longrightarrow> single_slashes (dropWhile P s)"
  by (induction s rule: single_slashes.induct) auto

lemma single_slashes_rest: "single_slashes path \<Longrightarrow> single_slashes (snd (firstSegment path))"
  by (simp add: firstSegment_def single_slashes_drop single_slashes_tl)

lemma unescape_Nil: "unescape s = Some [] \<Longrightarrow> s = []"
  by (cases s) (auto split: if_splits list.splits option.splits)

lemma pathUnescape_Nil [simp]: "pathUnescape s = [] \<longleftrightarrow> s = []"
  using unescape_Nil by (auto simp: pathUnescape_def split: option.splits)

lemma segment_nonempty:
  assumes "single_slashes path" and "path \<noteq> []" and "hd path = slash" and "path \<noteq> ''/''"
  shows "fst (firstSegment path) \<noteq> []"
proof -
  obtain b s where "path = slash # b # s"
    using assms(2-4) by (cases path rule: single_slashes.cases) (auto simp: slash_def)
  with assms(1) show ?thesis by (simp add: firstSegment_def)
qed

lemma rest_rooted: "snd (firstSegment path) \<noteq> [] \<Longrightarrow> hd (snd (firstSegment path)) = slash"
  using hd_dropWhile [of "\<lambda>c. c \<noteq> slash" "tl path"] by (auto simp: firstSegment_def split: if_splits)

text \<open>What the children of a node hold.\<close>

lemma in_literal_child: "(ss, p) \<in> set (literal_child s n) \<longleftrightarrow> (Lit s # ss, p) \<in> set n"
  by (induction s n rule: literal_child.induct) auto

lemma in_wild_child: "(ss, p) \<in> set (wild_child n) \<longleftrightarrow> (\<exists>x. (Wild x # ss, p) \<in> set n)"
  by (induction n rule: wild_child.induct) auto

lemma multi_child_None: "multi_child n = None \<longleftrightarrow> (\<forall>x p. ([Multi x], p) \<notin> set n)"
  by (induction n rule: multi_child.induct) auto

lemma multi_child_Some: "multi_child n = Some (x, p) \<Longrightarrow> ([Multi x], p) \<in> set n"
  by (induction n rule: multi_child.induct) auto

lemma leaf_None: "leaf n = None \<longleftrightarrow> (\<forall>p. ([], p) \<notin> set n)"
  by (induction n rule: leaf.induct) auto

lemma leaf_Some: "leaf n = Some p \<Longrightarrow> ([], p) \<in> set n"
  by (induction n rule: leaf.induct) auto

lemma bindings_None_split:
  assumes "path \<noteq> []"
  shows "(\<forall>(ss, p)\<in>set n. bindings ss path = None) \<longleftrightarrow>
     (\<forall>(ss, p)\<in>set (literal_child (fst (firstSegment path)) n). bindings ss (snd (firstSegment path)) = None)
   \<and> (fst (firstSegment path) \<noteq> ''/'' \<longrightarrow> (\<forall>(ss, p)\<in>set (wild_child n). bindings ss (snd (firstSegment path)) = None))
   \<and> multi_child n = None" (is "?all = (?lit \<and> ?wild \<and> ?multi)")
proof
  assume ?all
  have "bindings ss (snd (firstSegment path)) = None"
    if "(ss, p) \<in> set (literal_child (fst (firstSegment path)) n)" for ss p
    using that \<open>?all\<close> assms by (fastforce simp: in_literal_child)
  moreover have "bindings ss (snd (firstSegment path)) = None"
    if "fst (firstSegment path) \<noteq> ''/''" "(ss, p) \<in> set (wild_child n)" for ss p
    using that \<open>?all\<close> assms by (fastforce simp: in_wild_child)
  moreover have ?multi using \<open>?all\<close> assms by (fastforce simp: multi_child_None)
  ultimately show "?lit \<and> ?wild \<and> ?multi" by blast
next
  assume *: "?lit \<and> ?wild \<and> ?multi"
  have "bindings ss path = None" if "(ss, p) \<in> set n" for ss p
  proof (cases ss)
    case (Cons s r)
    show ?thesis
    proof (cases s)
      case (Lit l)
      with that Cons have "(r, p) \<in> set (literal_child l n)" by (simp add: in_literal_child)
      with * Lit Cons show ?thesis by auto
    next
      case (Wild x)
      with that Cons have "(r, p) \<in> set (wild_child n)" by (auto simp: in_wild_child)
      with * Wild Cons show ?thesis by auto
    next
      case (Multi x)
      with that Cons * show ?thesis by (auto simp: multi_child_None)
    qed
  qed (use assms in simp)
  then show ?all by blast
qed

lemma bindings_empty: "bindings ss [] = (if ss = [] then Some [] else None)"
  by (induction ss "[] :: string" rule: bindings.induct) auto

lemma matchPath_leaf:
  "(matchPath n [] ms = None \<longleftrightarrow> (\<forall>(ss, p)\<in>set n. bindings ss [] = None))
    \<and> (\<forall>p out. matchPath n [] ms = Some (p, out) \<longrightarrow>
          (\<exists>ss bs. (ss, p) \<in> set n \<and> bindings ss [] = Some bs \<and> out = ms @ bs))"
proof (cases "n = []")
  case False
  have "leaf n = None \<longleftrightarrow> (\<forall>(ss, p)\<in>set n. bindings ss [] = None)"
    by (auto simp: leaf_None bindings_empty split: if_splits)
  with False show ?thesis
    by (auto simp: matchPath.simps [of n "[]" ms] bindings_empty dest!: leaf_Some)
qed (simp add: matchPath.simps)

text \<open>The search over a node, against the specification of the single patterns.\<close>

lemma matchPath_exact:
  assumes "single_slashes path" and "path \<noteq> [] \<Longrightarrow> hd path = slash"
  shows "(matchPath n path ms = None \<longleftrightarrow> (\<forall>(ss, p)\<in>set n. bindings ss path = None))
    \<and> (\<forall>p out. matchPath n path ms = Some (p, out) \<longrightarrow>
          (\<exists>ss bs. (ss, p) \<in> set n \<and> bindings ss path = Some bs \<and> out = ms @ bs))"
  using assms
proof (induction n path ms rule: matchPath.induct)
  case (1 n path ms)
  consider "n = []" | "path = []" | "n \<noteq> []" "path \<noteq> []" by blast
  then show ?case
  proof cases
    case 3
    obtain seg rest where fs: "firstSegment path = (seg, rest)" by fastforce
    have "seg \<noteq> []"
      using segment_nonempty [of path] 1(3-) 3 fs by (cases "path = ''/''") (auto simp: firstSegment_def)
    then have child: "findChild seg n = literal_child seg n" by (simp add: findChild_def)
    have ss: "single_slashes rest" "rest \<noteq> [] \<Longrightarrow> hd rest = slash"
      using single_slashes_rest [of path] rest_rooted [of path] 1(3) fs by auto
    note lit = 1(1) [OF 3 fs [symmetric] refl ss, unfolded child]
    note step = matchPath.simps [of n path ms] bindings_None_split [OF 3(2), of n]
    show ?thesis
    proof (cases "matchPath (literal_child seg n) rest ms")
      case (Some m)
      then obtain p out ssb bs where "m = (p, out)" "(ssb, p) \<in> set (literal_child seg n)"
        "bindings ssb rest = Some bs" "out = ms @ bs"
        using lit by (cases m) blast
      with Some 3 fs child lit show ?thesis
        by (simp add: step) (fastforce simp: in_literal_child)
    next
      case litNone: None
      show ?thesis
      proof (cases "if seg \<noteq> ''/'' then matchPath (wild_child n) rest (ms @ [seg]) else None")
        case (Some m)
        then have "seg \<noteq> ''/''" by (auto split: if_splits)
        note wild = 1(2) [OF 3 fs [symmetric] refl litNone [folded child] this ss]
        obtain p out ssb bs where "m = (p, out)" "(ssb, p) \<in> set (wild_child n)"
          "bindings ssb rest = Some bs" "out = ms @ [seg] @ bs"
          using wild Some \<open>seg \<noteq> ''/''\<close> by (cases m) fastforce
        with Some 3 fs child litNone \<open>seg \<noteq> ''/''\<close> wild show ?thesis
          by (simp add: step) (fastforce simp: in_wild_child)
      next
        case None
        have wild: "seg \<noteq> ''/'' \<longrightarrow> (\<forall>(ss, p)\<in>set (wild_child n). bindings ss rest = None)"
          using 1(2) [OF 3 fs [symmetric] refl litNone [folded child] _ ss] None by auto
        show ?thesis
          using None 3 fs child litNone lit wild
          by (cases "multi_child n") (auto simp: step dest!: multi_child_Some intro!: exI [of _ "[Multi _]"])
      qed
    qed
  qed (use matchPath_leaf in \<open>auto simp: matchPath.simps\<close>)
qed

lemma in_by_method: "(ss, p) \<in> set (by_method ps m) \<longleftrightarrow> p \<in> set ps \<and> patMethod p = m \<and> ss = patSegments p"
  by (auto simp: by_method_def)

lemma matchMethod_exact:
  assumes "single_slashes path" and "path \<noteq> [] \<Longrightarrow> hd path = slash"
  shows "matchPath (by_method ps m) path [] = None \<longleftrightarrow>
      (\<forall>p\<in>set ps. patMethod p = m \<longrightarrow> bindings (patSegments p) path = None)"
    and "matchPath (by_method ps m) path [] = Some (p, out) \<Longrightarrow>
      p \<in> set ps \<and> patMethod p = m \<and> bindings (patSegments p) path = Some out"
  using matchPath_exact [OF assms, of "by_method ps m" "[]"] by (fastforce simp: in_by_method)+

section \<open>Clean paths\<close>

lemma single_slashes_append:
  "slash \<notin> set s \<Longrightarrow> single_slashes t \<Longrightarrow> single_slashes (s @ t)"
  by (induction s rule: single_slashes.induct) (auto, (cases t; simp)?)

lemma single_slashes_elements:
  "list_all plain_element segs \<Longrightarrow> t = [] \<or> t = [slash] \<Longrightarrow>
    single_slashes (concat (map (\<lambda>s. slash # s) segs) @ t)"
proof (induction segs)
  case (Cons s segs)
  let ?r = "concat (map (\<lambda>s. slash # s) segs) @ t"
  obtain a s' where "s = a # s'" using Cons.prems by (cases s) (auto simp: plain_element_def)
  moreover have "single_slashes (s @ ?r)"
    by (rule single_slashes_append) (use Cons in \<open>simp_all add: plain_element_def\<close>)
  ultimately show ?case using Cons.prems by (simp add: plain_element_def, metis)
qed auto

lemma cleanPath_single_slashes: "single_slashes (cleanPath p) \<and> cleanPath p \<noteq> [] \<and> hd (cleanPath p) = slash"
proof -
  define segs where "segs = (\<lambda>q. fold clean_step (split_slash q) [])"
  have "list_all plain_element (segs q)" for q
    unfolding segs_def by (rule clean_elements) (auto simp: list_all_iff dest: split_slash_no_slash)
  from single_slashes_elements [OF this] have
    "single_slashes (concat (map (\<lambda>s. slash # s) (segs q)) @ t)" if "t = [] \<or> t = [slash]" for q t
    using that by blast
  from this [of "[]"] this [of "[slash]"] show ?thesis
    by (auto simp: cleanPath_def path_Clean_def segs_def Let_def slash_def hd_append neq_Nil_conv hd_concat)
qed

section \<open>Decoded segments\<close>

text \<open>The percent-decoded segments of a path after its first character, which is a slash, and how they fit a pattern without a trailing slash.\<close>

definition path_elements :: "string \<Rightarrow> string list" where
  "path_elements path = map pathUnescape (split_slash (tl path))"

fun fits :: "segment \<Rightarrow> string \<Rightarrow> bool" where
  "fits (Lit l) d = (l = d)"
| "fits (Wild x) d = True"
| "fits (Multi x) d = False"

fun plain_segment :: "segment \<Rightarrow> bool" where
  "plain_segment (Lit l) = (l \<noteq> ''/'')"
| "plain_segment (Wild x) = True"
| "plain_segment (Multi x) = False"

lemma path_elements_unfold:
  assumes "path \<noteq> []" and "path \<noteq> ''/''"
  shows "path_elements path = fst (firstSegment path) # (if snd (firstSegment path) = [] then [] else path_elements (snd (firstSegment path)))"
proof -
  obtain c p where p: "path = c # p" using assms(1) by (cases path) auto
  let ?w = "takeWhile (\<lambda>c. c \<noteq> slash) p" and ?d = "dropWhile (\<lambda>c. c \<noteq> slash) p"
  have fs: "firstSegment path = (pathUnescape ?w, ?d)" using p assms(2) by (auto simp: firstSegment_def)
  have elems: "path_elements path = map pathUnescape (split_slash p)" by (simp add: path_elements_def p)
  show ?thesis
  proof (cases ?d)
    case Nil
    then have "split_slash p = [?w]" by (subst split_slash_unfold) (simp only: list.case)
    with Nil show ?thesis by (simp add: fs elems)
  next
    case (Cons c q)
    moreover have "split_slash p = ?w # split_slash q" using Cons by (subst split_slash_unfold) (simp only: list.case)
    ultimately show ?thesis by (simp add: fs elems) (simp add: path_elements_def)
  qed
qed

text \<open>A node that matches, on any path, holds a pattern whose segments fit the elements of the path one by one.\<close>

lemma matchPath_fits:
  assumes "matchPath n path ms = Some (p, out)"
  shows "\<exists>ss. (ss, p) \<in> set n \<and> (list_all plain_segment ss \<longrightarrow> (if path = [] then ss = [] else list_all2 fits ss (path_elements path)))"
  using assms
proof (induction n path ms arbitrary: out rule: matchPath.induct)
  case (1 n path ms)
  consider "n = []" | "n \<noteq> []" "path = []" | "n \<noteq> []" "path \<noteq> []" by blast
  then show ?case
  proof cases
    case 3
    obtain seg rest where fs: "firstSegment path = (seg, rest)" by fastforce
    have slash: "path = ''/'' \<longleftrightarrow> seg = ''/'' \<and> rest = [] \<and> path = ''/''" using fs by (auto simp: firstSegment_def)
    have here: "list_all2 fits (s # ss) (path_elements path)"
      if "fits s seg" "if rest = [] then ss = [] else list_all2 fits ss (path_elements rest)" "path \<noteq> ''/''" for s ss
      using path_elements_unfold[OF 3(2) that(3)] that(1,2) fs by (auto split: if_splits)
    consider (child) "matchPath (findChild seg n) rest ms = Some (p, out)"
      | (wild) "matchPath (findChild seg n) rest ms = None" "seg \<noteq> ''/''" "matchPath (wild_child n) rest (ms @ [seg]) = Some (p, out)"
      | (multi) x where "multi_child n = Some (x, p)"
      using "1.prems" 3 fs by (auto simp: matchPath.simps[of n path] split: option.splits if_splits)
    then show ?thesis
    proof cases
      case child
      from "1.IH"(1)[OF 3 fs[symmetric] refl child] obtain ss where ss: "(ss, p) \<in> set (findChild seg n)"
        "list_all plain_segment ss \<longrightarrow> (if rest = [] then ss = [] else list_all2 fits ss (path_elements rest))" by blast
      then obtain s where s: "(s # ss, p) \<in> set n" "fits s seg" "s = Lit seg \<or> seg = []"
        by (auto simp: findChild_def in_literal_child in_wild_child split: if_splits)
      have "list_all plain_segment (s # ss) \<Longrightarrow> path \<noteq> ''/''" using s(3) slash by auto
      with s ss(2) here[of s ss] 3(2) show ?thesis by (intro exI[of _ "s # ss"]) auto
    next
      case wild
      from "1.IH"(2)[OF 3 fs[symmetric] refl wild] obtain ss where ss: "(ss, p) \<in> set (wild_child n)"
        "list_all plain_segment ss \<longrightarrow> (if rest = [] then ss = [] else list_all2 fits ss (path_elements rest))" by blast
      then obtain x where x: "(Wild x # ss, p) \<in> set n" by (auto simp: in_wild_child)
      have "path \<noteq> ''/''" using wild(2) slash by auto
      with x ss(2) here[of "Wild x" ss] 3(2) show ?thesis by (intro exI[of _ "Wild x # ss"]) auto
    next
      case multi
      then show ?thesis by (intro exI[of _ "[Multi x]"]) (auto dest: multi_child_Some)
    qed
  next
    case 2
    with "1.prems" show ?thesis by (auto simp: matchPath.simps[of n "[]"] dest!: leaf_Some)
  qed (use "1.prems" in \<open>simp add: matchPath.simps[of "[]"]\<close>)
qed

text \<open>What a match says of the path of a request.\<close>

lemma Match_fits:
  assumes "Match (Some ps) req = Matched vars"
    and "\<forall>p\<in>set ps. patSegments p \<noteq> [] \<and> list_all plain_segment (patSegments p)"
  shows "\<exists>p\<in>set ps. method_fits p (Method req) \<and> list_all2 fits (patSegments p) (path_elements (EscapedPath req))"
proof -
  from assms(1) obtain p ms where "matchMethodAndPath ps (Method req) (EscapedPath req) = Some (p, ms)"
    by (auto simp: Match_def findHandler_def Let_def split: found.splits option.splits if_splits prod.splits)
  then obtain m where "matchPath (by_method ps m) (EscapedPath req) [] = Some (p, ms)" "m = [] \<or> m = Method req \<or> m = ''GET'' \<and> Method req = ''HEAD''"
    by (auto simp: matchMethodAndPath_def split: option.splits if_splits)
  with matchPath_fits[OF this(1)] assms(2) show ?thesis by (fastforce simp: in_by_method method_fits_def split: if_splits)
qed

section \<open>Properties\<close>

lemma search_exact:
  assumes "single_slashes path" "path \<noteq> []" "hd path = slash"
  shows "matchMethodAndPath ps method path = None \<longleftrightarrow>
      (\<forall>p\<in>set ps. method_fits p method \<longrightarrow> bindings (patSegments p) path = None)"
    "matchMethodAndPath ps method path = Some (p, ms) \<Longrightarrow> p \<in> set ps \<and> method_fits p method \<and> bindings (patSegments p) path = Some ms"
proof -
  note exact = matchMethod_exact[OF assms(1,3)]
  show "matchMethodAndPath ps method path = None \<longleftrightarrow>
      (\<forall>p\<in>set ps. method_fits p method \<longrightarrow> bindings (patSegments p) path = None)"
    by (auto simp: matchMethodAndPath_def exact(1) method_fits_def split: option.splits if_splits dest!: exact(2))
  show "p \<in> set ps \<and> method_fits p method \<and> bindings (patSegments p) path = Some ms"
    if "matchMethodAndPath ps method path = Some (p, ms)"
    using that by (auto simp: matchMethodAndPath_def method_fits_def split: option.splits if_splits dest!: exact(2))
qed

lemma single_slashes_snoc: "single_slashes s \<Longrightarrow> s = [] \<or> last s \<noteq> slash \<Longrightarrow> single_slashes (s @ [slash])"
  by (induction s rule: single_slashes.induct) auto

text \<open>
  C29: The path matcher of the authorizer agrees with its patterns, for every request that is not a \<open>CONNECT\<close>. When it matches, the
  path of the request is clean and a registered pattern that admits the method matches it, with the path values
  that this pattern binds. When it does not match, no registered pattern that admits the method matches the cleaned path. It
  panics only on a redirect: the path is not clean, or a pattern matches it with a slash added.
\<close>

theorem path_matcher_exact:
  assumes "Method req \<noteq> ''CONNECT''"
  shows "case Match (Some (newPathMatcher paths)) req of
      Matched vars \<Rightarrow> cleanPath (EscapedPath req) = EscapedPath req
        \<and> (\<exists>p\<in>set (newPathMatcher paths). \<exists>ms. method_fits p (Method req) \<and> bindings (patSegments p) (EscapedPath req) = Some ms \<and> vars = PathValue p ms)
    | NoMatch \<Rightarrow> \<forall>p\<in>set (newPathMatcher paths). method_fits p (Method req) \<longrightarrow> bindings (patSegments p) (cleanPath (EscapedPath req)) = None
    | MatchPanics \<Rightarrow> cleanPath (EscapedPath req) \<noteq> EscapedPath req
        \<or> (\<exists>p\<in>set (newPathMatcher paths). method_fits p (Method req) \<and> bindings (patSegments p) (EscapedPath req @ ''/'') \<noteq> None)"
proof -
  let ?ps = "newPathMatcher paths" and ?m = "Method req" and ?e = "EscapedPath req"
  let ?path = "cleanPath ?e"
  have clean: "single_slashes ?path" "?path \<noteq> []" "hd ?path = slash" using cleanPath_single_slashes[of ?e] by simp_all
  note exact = search_exact[OF clean]
  have added: "\<exists>p\<in>set ?ps. method_fits p ?m \<and> bindings (patSegments p) (?path @ ''/'') \<noteq> None" if redirect: "slash_redirect ?ps ?m ?path"
  proof -
    have "single_slashes (?path @ ''/'')"
      using single_slashes_snoc[OF clean(1)] redirect by (auto simp: slash_redirect_def HasSuffix_iff slash_def) (metis append_butlast_last_id)
    then have more: "single_slashes (?path @ ''/'')" "?path @ ''/'' \<noteq> []" "hd (?path @ ''/'') = slash" using clean by simp_all
    obtain p ms where "matchMethodAndPath ?ps ?m (?path @ ''/'') = Some (p, ms)"
      using redirect by (cases "matchMethodAndPath ?ps ?m (?path @ ''/'')") (auto simp: slash_redirect_def exactMatch_def)
    with search_exact(2)[OF more] show ?thesis by fastforce
  qed
  show ?thesis
    using assms added exact(2)[of ?ps ?m]
    by (auto simp: Match_def findHandler_def Let_def exact(1) split: found.splits option.splits if_splits)
qed

theorem path_matcher_exact_witness:
  "\<exists>vars. Match (Some (newPathMatcher [''GET /a/{x}''])) \<lparr>Method = ''HEAD'', URL_Path = ''/a/b'', EscapedPath = ''/a/b'', Pattern = [], Authorization = []\<rparr> = Matched vars
    \<and> vars ''x'' = ''b''"
proof -
  let ?req = "\<lparr>Method = ''HEAD'', URL_Path = ''/a/b'', EscapedPath = ''/a/b'', Pattern = [], Authorization = []\<rparr>"
  have ps: "newPathMatcher [''GET /a/{x}''] = [\<lparr>patStr = ''GET /a/{x}'', patMethod = ''GET'', patSegments = [Lit ''a'', Wild ''x'']\<rparr>]" by code_simp
  have "findHandler (newPathMatcher [''GET /a/{x}'']) ?req = Handled (hd (newPathMatcher [''GET /a/{x}''])) [''b'']" by code_simp
  then obtain vars where m: "Match (Some (newPathMatcher [''GET /a/{x}''])) ?req = Matched vars" by (simp add: Match_def)
  have b: "bindings [Lit ''a'', Wild ''x''] ''/a/b'' = Some [''b'']" by code_simp
  from path_matcher_exact[of ?req "[''GET /a/{x}'']"] m b have "vars = PathValue (hd (newPathMatcher [''GET /a/{x}''])) [''b'']" by (simp add: ps)
  with m show ?thesis by (simp add: ps PathValue_def)
qed

end
