(* ===== verification/Authz_Checks.thy ===== *)
theory Authz_Checks
  imports Authz_Access Serve_Mux
begin

text \<open>
  The checks of the resources a request names (pkg/api/authz: resources.go and one file per kind of
  resource). Each check passes when the URL does not name its resource, may record the object it has
  authorized, and ends the evaluation with an error or a refusal otherwise.
\<close>

section \<open>The authorizer and its users\<close>

text \<open>
  The rules and patterns are registered patterns by group. The clients, the gateway's scan lookup (the
  submitter of a scan), the rule helpers, the bcrypt comparison and the digest are parameters.
\<close>

record Authorizer =
  auRules :: "(string \<times> pattern list) list"
  auCache :: authz_client
  auUncached :: authz_client
  auGetDeviceScan :: "nat \<Rightarrow> string result"
  auApiResources :: "(string \<times> pattern list) list"
  auACR :: acr_helper
  auSkills :: "SkillAccessRule indexer"
  auBcrypt :: "string \<Rightarrow> string \<Rightarrow> bool"
  auDigest :: "digestible \<Rightarrow> string"

record User =
  Info :: user_info
  IsAdmin :: bool
  IsAuditor :: bool
  IsOwner :: bool

definition newUser :: "user_info \<Rightarrow> User" where
  "newUser user =
    fold (\<lambda>group u.
        if group = GroupAdmin then u\<lparr>IsAdmin := True\<rparr>
        else if group = GroupAuditor then u\<lparr>IsAuditor := True\<rparr>
        else if group = GroupOwner then u\<lparr>IsOwner := True\<rparr>
        else u)
      (GetGroups user) \<lparr>Info = user, IsAdmin = False, IsAuditor = False, IsOwner = False\<rparr>"

definition IsClaudeEnvironment :: "user_info option \<Rightarrow> bool" where
  "IsClaudeEnvironment u = (case u of None \<Rightarrow> False | Some i \<Rightarrow> GroupClaudeEnvironment \<in> set (GetGroups i))"

text \<open>\<open>Authorizer.get\<close>: the cache first, and the store itself when the cache does not have the object.\<close>

definition az_get :: "(authz_client \<Rightarrow> string \<Rightarrow> string \<Rightarrow> 'o result) \<Rightarrow> Authorizer \<Rightarrow> string \<Rightarrow> string \<Rightarrow> 'o result" where
  "az_get f a namespace name =
    (case f (auCache a) namespace name of
       Inr x \<Rightarrow> Inr x
     | Inl e \<Rightarrow> if IsNotFound e then f (auUncached a) namespace name else Inl e)"

section \<open>Checks\<close>

type_synonym check = "Resources \<Rightarrow> (bool \<times> Resources) result"

definition checkUser :: "User \<Rightarrow> string \<Rightarrow> bool" where
  "checkUser u userID = (userID = [] \<or> userID = GetUID (Info u) \<or> IsAdmin u)"

definition checkPowerUserWorkspace :: "Authorizer \<Rightarrow> Request \<Rightarrow> User \<Rightarrow> check" where
  "checkPowerUserWorkspace a req u r =
    (if rsWorkspaceID r = [] then Inr (True, r)
     else andThen (az_get getPowerUserWorkspace a DefaultNamespace (rsWorkspaceID r)) (\<lambda>workspace.
       if puwUserID workspace = GetUID (Info u)
       then Inr (True, r\<lparr>rsAuthorizated := (rsAuthorizated r)\<lparr>azPowerUserWorkspace := Some workspace\<rparr>\<rparr>)
       else Inr (False, r)))"

definition authorize_server :: "MCPServer \<Rightarrow> Resources \<Rightarrow> Resources" where
  "authorize_server s r = r\<lparr>rsAuthorizated := (rsAuthorizated r)\<lparr>azMCPServer := Some s\<rparr>\<rparr>"

definition checkMCPServer :: "Authorizer \<Rightarrow> Request \<Rightarrow> User \<Rightarrow> check" where
  "checkMCPServer a req u r =
    (if rsMCPServerID r = [] then Inr (True, r)
     else andThen (az_get (\<lambda>c. getMCPServer (kube c)) a DefaultNamespace (rsMCPServerID r)) (\<lambda>server.
       if IsOwnedBy server (GetUID (Info u)) then Inr (True, authorize_server server r)
       else if IsCatalogServer server
       then andThen (UserHasAccessToMCPServerInCatalog (acrIndexer (auACR a)) (Info u) (Name server) (srvMCPCatalogID server)) (\<lambda>ok.
              Inr (if ok then (True, authorize_server server r) else (False, r)))
       else if IsPowerUserWorkspaceServer server
       then andThen (UserHasAccessToMCPServerInWorkspace (acrIndexer (auACR a)) (Info u) (Name server)
                       (srvPowerUserWorkspaceID server) (srvUserID server)) (\<lambda>ok.
              Inr (if ok then (True, authorize_server server r) else (False, r)))
       else case azPowerUserWorkspace (rsAuthorizated r) of
              None \<Rightarrow> Inr (False, r)
            | Some workspace \<Rightarrow>
                if srvMCPServerCatalogEntryName server \<noteq> []
                then andThen (az_get getMCPServerCatalogEntry a DefaultNamespace (srvMCPServerCatalogEntryName server)) (\<lambda>entry.
                       Inr (if cePowerUserWorkspaceID entry \<noteq> Name workspace then (False, r)
                            else (True, authorize_server server r)))
                else if srvPowerUserWorkspaceID server = Name workspace then Inr (True, authorize_server server r)
                else Inr (False, r)))"

definition checkMCPServerInstance :: "Authorizer \<Rightarrow> Request \<Rightarrow> User \<Rightarrow> check" where
  "checkMCPServerInstance a req u r =
    (if rsMCPServerInstanceID r = [] then Inr (True, r)
     else andThen (az_get (\<lambda>c. getMCPServerInstance (kube c)) a DefaultNamespace (rsMCPServerInstanceID r)) (\<lambda>msi.
       Inr (msiUserID msi = GetUID (Info u), r)))"

definition isVMCPComponentOAuthPath :: "string \<Rightarrow> string \<Rightarrow> bool" where
  "isVMCPComponentOAuthPath path vmcpID =
    (case CutPrefix path (''/api/vmcps/'' @ vmcpID @ ''/components/'') of
       None \<Rightarrow> False
     | Some rest \<Rightarrow>
         (case CutSuffix rest ''/oauth'' of
            None \<Rightarrow> False
          | Some componentID \<Rightarrow> componentID \<noteq> [] \<and> slash \<notin> set componentID))"

text \<open>Reading, launching and the user's own OAuth actions consume a vMCP; every other request manages it.\<close>

definition consumes_vmcp :: "Request \<Rightarrow> string \<Rightarrow> bool" where
  "consumes_vmcp req vmcpID =
    (let path = URL_Path req; base = ''/api/vmcps/'' @ vmcpID
     in Method req = ''GET''
        \<or> Method req = ''POST'' \<and> (path = base @ ''/launch'' \<or> path = base @ ''/check-oauth'')
        \<or> Method req = ''DELETE'' \<and> (path = base @ ''/oauth'' \<or> isVMCPComponentOAuthPath path vmcpID))"

definition checkVMCP :: "Authorizer \<Rightarrow> Request \<Rightarrow> User \<Rightarrow> check" where
  "checkVMCP a req u r =
    (if rsVMCPID r = [] then Inr (True, r)
     else andThen (az_get (\<lambda>c. getVMCP (kube c)) a DefaultNamespace (rsVMCPID r)) (\<lambda>vmcp.
       if (if consumes_vmcp req (rsVMCPID r) then UserCanReadVMCP (Info u) vmcp else UserCanManageVMCP (Info u) vmcp)
       then Inr (True, r\<lparr>rsAuthorizated := (rsAuthorizated r)\<lparr>azVMCP := Some vmcp\<rparr>\<rparr>)
       else Inr (False, r)))"

text \<open>A call that updates the resources through a pointer, in the form of a check.\<close>

definition with_resources :: "(bool \<times> Resources option) result \<Rightarrow> Resources \<Rightarrow> (bool \<times> Resources) result" where
  "with_resources res r = andThen res (\<lambda>(ok, r'). Inr (ok, case r' of Some x \<Rightarrow> x | None \<Rightarrow> r))"

definition authorize_instance :: "VMCPInstance \<Rightarrow> Resources \<Rightarrow> Resources" where
  "authorize_instance x r = r\<lparr>rsAuthorizated := (rsAuthorizated r)\<lparr>azVMCPInstance := Some x\<rparr>\<rparr>"

definition checkVMCPInstance :: "Authorizer \<Rightarrow> Request \<Rightarrow> User \<Rightarrow> check" where
  "checkVMCPInstance a req u r =
    (if rsVMCPInstanceID r = [] then Inr (True, r)
     else andThen (az_get (\<lambda>c. getVMCPInstance (kube c)) a DefaultNamespace (rsVMCPInstanceID r)) (\<lambda>instance.
       if Method req = ''POST'' \<and> URL_Path req = ''/api/vmcp-instances/'' @ rsVMCPInstanceID r @ ''/tester/chat''
       then with_resources
              (userCanConnectToMCP (auDigest a) (auUncached a) (auACR a) (Info u) (rsVMCPInstanceID r) (Some r)) r
       else if IsVMCPAdministrator (Info u) then Inr (True, authorize_instance instance r)
       else if viUserID instance \<noteq> GetUID (Info u) then Inr (False, r)
       else andThen (az_get (\<lambda>c. getVMCP (kube c)) a DefaultNamespace (imVMCPID (viManifest instance))) (\<lambda>vmcp.
         if \<not> UserCanReadVMCPInstance (Info u) instance vmcp then Inr (False, r)
         else Inr (True, authorize_instance instance r))))"

definition checkCatalogEntry :: "Authorizer \<Rightarrow> Request \<Rightarrow> User \<Rightarrow> check" where
  "checkCatalogEntry a req u r =
    (if rsMCPServerCatalogEntryID r = [] then Inr (True, r)
     else andThen (az_get getMCPServerCatalogEntry a DefaultNamespace (rsMCPServerCatalogEntryID r)) (\<lambda>entry.
       andThen (UserCanReadCatalogEntry (Info u) entry (auACR a)) (\<lambda>ok. Inr (ok, r))))"

text \<open>
  The guard of the connect endpoints: an identifier that is not a vMCP's is let through to the access
  check only for system servers, or for a component with an aggregate's token.
\<close>

definition connect_guard :: "Authorizer \<Rightarrow> Request \<Rightarrow> User \<Rightarrow> mcpConnection \<Rightarrow> bool result" where
  "connect_guard a req u cn =
    (let i = cnID cn
     in if (HasPrefix (URL_Path req) ''/mcp-connect/'' \<or> HasPrefix (URL_Path req) ''/mcp-connect-composite/'')
           \<and> cnVMCP cn = None \<and> \<not> IsSystemMCPServerID i
        then if \<not> IsMCPServerID i \<and> \<not> IsMCPServerInstanceID i then Inr False
             else if \<not> aggregate_token (Info u) i then Inr False
             else if IsMCPServerID i
             then andThen (az_get (\<lambda>c. getMCPServer (kube c)) a DefaultNamespace i) (\<lambda>server.
                    Inr (\<not> (srvVMCPID server = [] \<and> srvVMCPInstanceID server = [])))
             else andThen (az_get (\<lambda>c. getMCPServerInstance (kube c)) a DefaultNamespace i) (\<lambda>msi.
                    Inr (msiVMCPInstanceID msi \<noteq> []))
        else Inr True)"

definition checkMCPID :: "Authorizer \<Rightarrow> Request \<Rightarrow> User \<Rightarrow> check" where
  "checkMCPID a req u r =
    (if rsMCPID r = [] \<or> GetName (Info u) = ''anonymous'' \<and> HasPrefix (URL_Path req) ''/mcp-connect'' then Inr (True, r)
     else andThen (resolveMCPConnection (auUncached a) (rsMCPID r) (GetUID (Info u))) (\<lambda>cn.
       andThen (connect_guard a req u cn) (\<lambda>ok.
         if \<not> ok then Inr (False, r)
         else with_resources (userCanConnectToResolvedMCP (auDigest a) (auUncached a) (auACR a) (Info u) cn (Some r)) r)))"

definition component_of :: "Authorizer \<Rightarrow> User \<Rightarrow> VMCP_obj \<Rightarrow> VMCPInstance \<Rightarrow> MCPServer \<Rightarrow> bool" where
  "component_of a u vmcp instance component =
    list_ex (\<lambda>candidate.
        vcID candidate = srvVMCPComponentID component
        \<and> (if IsMultiUser candidate then srvVMCPID component = Name vmcp \<and> srvVMCPInstanceID component = []
           else srvVMCPInstanceID component = Name instance \<and> srvUserID component = GetUID (Info u)))
      (ComponentsForInstance (auDigest a) vmcp instance)"

definition checkVMCPComponent :: "Authorizer \<Rightarrow> Request \<Rightarrow> User \<Rightarrow> check" where
  "checkVMCPComponent a req u r =
    (if rsVMCPComponentMCPID r = [] then Inr (True, r)
     else case (azVMCP (rsAuthorizated r), azVMCPInstance (rsAuthorizated r)) of
            (Some vmcp, Some instance) \<Rightarrow>
              andThen (az_get (\<lambda>c. getMCPServer (kube c)) a DefaultNamespace (rsVMCPComponentMCPID r)) (\<lambda>component.
                Inr (component_of a u vmcp instance component, r))
          | _ \<Rightarrow> Inr (False, r))"

definition checkSkill :: "Authorizer \<Rightarrow> Request \<Rightarrow> User \<Rightarrow> check" where
  "checkSkill a req u r =
    (if rsSkillID r = [] \<or> IsAdmin u \<or> IsAuditor u then Inr (True, r)
     else andThen (az_get getSkill a DefaultNamespace (rsSkillID r)) (\<lambda>skill.
       andThen (UserHasAccessToSkill (auSkills a) (Some (Info u)) (Some skill)) (\<lambda>ok. Inr (ok, r))))"

definition checkDeviceScan :: "Authorizer \<Rightarrow> Request \<Rightarrow> User \<Rightarrow> check" where
  "checkDeviceScan a req u r =
    (if rsDeviceScanID r = [] \<or> IsAdmin u \<or> IsAuditor u then Inr (True, r)
     else andThen (ParseUint (rsDeviceScanID r)) (\<lambda>i.
       andThen (auGetDeviceScan a i) (\<lambda>submittedBy. Inr (submittedBy = GetUID (Info u), r))))"

definition checkOAuthAuthRequest :: "Authorizer \<Rightarrow> Request \<Rightarrow> User \<Rightarrow> check" where
  "checkOAuthAuthRequest a req u r =
    (if rsOAuthAuthRequestID r = [] then Inr (True, r)
     else andThen (az_get getOAuthAuthRequest a DefaultNamespace (rsOAuthAuthRequestID r)) (\<lambda>request.
       if oarUserID request \<noteq> 0 \<and> FormatUint (oarUserID request) \<noteq> GetUID (Info u) then Inr (False, r)
       else andThen (CheckMCPIDAccess (auDigest a) (auUncached a) (auACR a) (Info u) (oarMCPID request)) (\<lambda>ok. Inr (ok, r))))"

section \<open>Evaluation\<close>

text \<open>The checks run in order; the first error or refusal ends the evaluation.\<close>

fun run_checks :: "check list \<Rightarrow> Resources \<Rightarrow> bool result" where
  "run_checks [] r = Inr True"
| "run_checks (c # cs) r = andThen (c r) (\<lambda>(ok, r'). if ok then run_checks cs r' else Inr False)"

definition no_authorized :: ResourcesAuthorized where
  "no_authorized = \<lparr>azMCPServer = None, azMCPServerInstance = None, azMCPServerCatalogEntry = None, azVMCP = None,
     azVMCPInstance = None, azPowerUserWorkspace = None, azSkill = None\<rparr>"

definition named_resources :: "(string \<Rightarrow> string) \<Rightarrow> Resources" where
  "named_resources vars =
    \<lparr>rsMCPServerID = vars ''mcpserver_id'', rsMCPServerInstanceID = vars ''mcp_server_instance_id'',
     rsMCPServerCatalogEntryID = vars ''entry_id'', rsVMCPComponentMCPID = vars ''component_mcp_id'',
     rsVMCPID = vars ''vmcp_id'', rsVMCPInstanceID = vars ''vmcp_instance_id'', rsMCPID = vars ''mcp_id'',
     rsWorkspaceID = vars ''workspace_id'', rsSkillID = vars ''skill_id'', rsDeviceScanID = vars ''scan_id'',
     rsOAuthAuthRequestID = vars ''oauth_request_id'', rsAuthorizated = no_authorized\<rparr>"

definition evaluateResources :: "Authorizer \<Rightarrow> Request \<Rightarrow> (string \<Rightarrow> string) \<Rightarrow> User \<Rightarrow> bool result" where
  "evaluateResources a req vars u =
    (if \<not> checkUser u (vars ''user_id'') then Inr False
     else run_checks
            [checkPowerUserWorkspace a req u, checkMCPServer a req u, checkMCPServerInstance a req u, checkVMCP a req u,
             checkVMCPInstance a req u, checkCatalogEntry a req u, checkMCPID a req u, checkVMCPComponent a req u,
             checkSkill a req u, checkDeviceScan a req u, checkOAuthAuthRequest a req u]
            (named_resources vars))"

section \<open>The contract of a check\<close>

text \<open>Checks change nothing but the record of authorized objects.\<close>

definition same_ids :: "Resources \<Rightarrow> Resources \<Rightarrow> bool" where
  "same_ids r r' \<longleftrightarrow> (\<exists>x. r' = r\<lparr>rsAuthorizated := x\<rparr>)"

lemma same_ids_refl [simp]: "same_ids r r"
  unfolding same_ids_def by (rule exI [of _ "rsAuthorizated r"]) simp

lemma same_ids_update [simp]: "same_ids r (r\<lparr>rsAuthorizated := x\<rparr>)"
  unfolding same_ids_def by blast

lemma same_ids_trans: "same_ids r r' \<Longrightarrow> same_ids r' r'' \<Longrightarrow> same_ids r r''"
  by (auto simp: same_ids_def)

text \<open>
  A check is passed by a request that does not name its resource; it keeps the identifiers and the
  promises on recorded objects; and a request that names a resource passes only if the user is granted it.
\<close>

locale resource_check =
  fixes check :: check and ident :: "Resources \<Rightarrow> string" and ok :: "Resources \<Rightarrow> bool" and grants :: "string \<Rightarrow> bool"
  assumes ident_fixed: "ident (r\<lparr>rsAuthorizated := x\<rparr>) = ident r"
    and absent: "ident r = [] \<Longrightarrow> check r = Inr (True, r)"
    and kept: "ok r \<Longrightarrow> check r = Inr (True, r') \<Longrightarrow> same_ids r r'"
    and ok_kept: "ok r \<Longrightarrow> check r = Inr (True, r') \<Longrightarrow> ok r'"
    and sound: "ok r \<Longrightarrow> check r = Inr (True, r') \<Longrightarrow> ident r \<noteq> [] \<Longrightarrow> grants (ident r)"
begin

lemma skipped: "ident r = [] \<Longrightarrow> run_checks (check # cs) r = run_checks cs r"
  by (simp add: absent)

lemma passed:
  assumes "run_checks (check # cs) r = Inr True" and "ok r"
  shows "(ident r \<noteq> [] \<longrightarrow> grants (ident r)) \<and> (\<exists>r'. same_ids r r' \<and> ok r' \<and> run_checks cs r' = Inr True)"
proof -
  from assms(1) obtain r' where "check r = Inr (True, r')" and "run_checks cs r' = Inr True"
    by (auto simp: andThen_eq_Inr split: if_splits)
  then show ?thesis using assms(2) kept ok_kept sound by blast
qed

end

section \<open>What each check grants\<close>

definition workspace_granted :: "Authorizer \<Rightarrow> User \<Rightarrow> string \<Rightarrow> bool" where
  "workspace_granted a u i \<longleftrightarrow>
    (\<exists>w. az_get getPowerUserWorkspace a DefaultNamespace i = Inr w \<and> puwUserID w = GetUID (Info u))"

text \<open>
  A server of the user, a server that the rules grant, or a server of the user's workspace that the request names: directly, or
  through its catalog entry.
\<close>

definition server_granted :: "Authorizer \<Rightarrow> User \<Rightarrow> string \<Rightarrow> string \<Rightarrow> bool" where
  "server_granted a u workspaceID i \<longleftrightarrow>
    (\<exists>s. az_get (\<lambda>c. getMCPServer (kube c)) a DefaultNamespace i = Inr s \<and>
      (IsOwnedBy s (GetUID (Info u))
       \<or> IsCatalogServer s \<and> UserHasAccessToMCPServerInCatalog (acrIndexer (auACR a)) (Info u) (Name s) (srvMCPCatalogID s) = Inr True
       \<or> \<not> IsCatalogServer s \<and> IsPowerUserWorkspaceServer s \<and> UserHasAccessToMCPServerInWorkspace (acrIndexer (auACR a)) (Info u) (Name s)
           (srvPowerUserWorkspaceID s) (srvUserID s) = Inr True
       \<or> \<not> IsCatalogServer s \<and> \<not> IsPowerUserWorkspaceServer s \<and> workspaceID \<noteq> []
         \<and> (\<exists>w. az_get getPowerUserWorkspace a DefaultNamespace workspaceID = Inr w \<and> puwUserID w = GetUID (Info u)
            \<and> (if srvMCPServerCatalogEntryName s \<noteq> []
               then \<exists>e. az_get getMCPServerCatalogEntry a DefaultNamespace (srvMCPServerCatalogEntryName s) = Inr e
                      \<and> cePowerUserWorkspaceID e = Name w
               else srvPowerUserWorkspaceID s = Name w))))"

definition server_instance_granted :: "Authorizer \<Rightarrow> User \<Rightarrow> string \<Rightarrow> bool" where
  "server_instance_granted a u i \<longleftrightarrow>
    (\<exists>m. az_get (\<lambda>c. getMCPServerInstance (kube c)) a DefaultNamespace i = Inr m \<and> msiUserID m = GetUID (Info u))"

definition vmcp_allowed :: "Authorizer \<Rightarrow> Request \<Rightarrow> User \<Rightarrow> string \<Rightarrow> VMCP_obj \<Rightarrow> bool" where
  "vmcp_allowed a req u i v \<longleftrightarrow> az_get (\<lambda>c. getVMCP (kube c)) a DefaultNamespace i = Inr v
     \<and> (if consumes_vmcp req i then UserCanReadVMCP (Info u) v else UserCanManageVMCP (Info u) v)"

definition vmcp_granted :: "Authorizer \<Rightarrow> Request \<Rightarrow> User \<Rightarrow> string \<Rightarrow> bool" where
  "vmcp_granted a req u i \<longleftrightarrow> (\<exists>v. vmcp_allowed a req u i v)"

definition instance_allowed :: "Authorizer \<Rightarrow> User \<Rightarrow> string \<Rightarrow> VMCPInstance \<Rightarrow> bool" where
  "instance_allowed a u i x \<longleftrightarrow> az_get (\<lambda>c. getVMCPInstance (kube c)) a DefaultNamespace i = Inr x
     \<and> (IsVMCPAdministrator (Info u)
        \<or> viUserID x = GetUID (Info u) \<and>
          (\<exists>v. az_get (\<lambda>c. getVMCP (kube c)) a DefaultNamespace (imVMCPID (viManifest x)) = Inr v \<and> UserCanReadVMCP (Info u) v))"

definition instance_granted :: "Authorizer \<Rightarrow> User \<Rightarrow> string \<Rightarrow> bool" where
  "instance_granted a u i \<longleftrightarrow>
     UserCanConnectToMCP (auDigest a) (auUncached a) (auACR a) (Info u) i = Inr True \<or> (\<exists>x. instance_allowed a u i x)"

definition entry_granted :: "Authorizer \<Rightarrow> User \<Rightarrow> string \<Rightarrow> bool" where
  "entry_granted a u i \<longleftrightarrow>
    (\<exists>e. az_get getMCPServerCatalogEntry a DefaultNamespace i = Inr e \<and> UserCanReadCatalogEntry (Info u) e (auACR a) = Inr True)"

text \<open>Anonymous requests pass on the connect endpoints, whose handler answers them with a challenge.\<close>

definition connection_granted :: "Authorizer \<Rightarrow> Request \<Rightarrow> User \<Rightarrow> string \<Rightarrow> bool" where
  "connection_granted a req u i \<longleftrightarrow>
     GetName (Info u) = ''anonymous'' \<and> HasPrefix (URL_Path req) ''/mcp-connect''
   \<or> UserCanConnectToMCP (auDigest a) (auUncached a) (auACR a) (Info u) i = Inr True"

text \<open>
  The vMCP and the instance that a component is compared with: the stored ones that the request names, or those of a connection that
  the request names and that the user may connect to.
\<close>

definition named_connection :: "Authorizer \<Rightarrow> User \<Rightarrow> Resources \<Rightarrow> mcpConnection \<Rightarrow> VMCP_obj \<Rightarrow> bool" where
  "named_connection a u named cn v \<longleftrightarrow>
    (\<exists>i\<in>{rsVMCPInstanceID named, rsMCPID named}. i \<noteq> [] \<and> resolveMCPConnection (auUncached a) i (GetUID (Info u)) = Inr cn)
    \<and> cnVMCP cn = Some v \<and> UserCanConnectVMCP (Info u) v"

definition recorded_vmcp :: "Authorizer \<Rightarrow> Request \<Rightarrow> User \<Rightarrow> Resources \<Rightarrow> VMCP_obj \<Rightarrow> bool" where
  "recorded_vmcp a req u named v \<longleftrightarrow>
     rsVMCPID named \<noteq> [] \<and> vmcp_allowed a req u (rsVMCPID named) v \<or> (\<exists>cn. named_connection a u named cn v)"

definition recorded_instance :: "Authorizer \<Rightarrow> User \<Rightarrow> Resources \<Rightarrow> VMCPInstance \<Rightarrow> bool" where
  "recorded_instance a u named x \<longleftrightarrow>
     rsVMCPInstanceID named \<noteq> [] \<and> instance_allowed a u (rsVMCPInstanceID named) x
   \<or> (\<exists>cn v. named_connection a u named cn v
        \<and> (cnInstance cn = Some x
           \<or> cnInstance cn = None \<and> FindInstance (kube (auUncached a)) (Namespace v) (Name v) (GetUID (Info u)) = Inr (Some x)))"

definition component_granted :: "Authorizer \<Rightarrow> Request \<Rightarrow> User \<Rightarrow> Resources \<Rightarrow> string \<Rightarrow> bool" where
  "component_granted a req u named i \<longleftrightarrow>
    (\<exists>s v x. az_get (\<lambda>c. getMCPServer (kube c)) a DefaultNamespace i = Inr s
       \<and> recorded_vmcp a req u named v \<and> recorded_instance a u named x \<and> component_of a u v x s)"

definition skill_granted :: "Authorizer \<Rightarrow> User \<Rightarrow> string \<Rightarrow> bool" where
  "skill_granted a u i \<longleftrightarrow> IsAdmin u \<or> IsAuditor u
     \<or> (\<exists>s. az_get getSkill a DefaultNamespace i = Inr s \<and> UserHasAccessToSkill (auSkills a) (Some (Info u)) (Some s) = Inr True)"

definition scan_granted :: "Authorizer \<Rightarrow> User \<Rightarrow> string \<Rightarrow> bool" where
  "scan_granted a u i \<longleftrightarrow> IsAdmin u \<or> IsAuditor u
     \<or> (\<exists>n. ParseUint i = Inr n \<and> auGetDeviceScan a n = Inr (GetUID (Info u)))"

definition request_granted :: "Authorizer \<Rightarrow> User \<Rightarrow> string \<Rightarrow> bool" where
  "request_granted a u i \<longleftrightarrow>
    (\<exists>q. az_get getOAuthAuthRequest a DefaultNamespace i = Inr q
       \<and> (oarUserID q = 0 \<or> FormatUint (oarUserID q) = GetUID (Info u))
       \<and> CheckMCPIDAccess (auDigest a) (auUncached a) (auACR a) (Info u) (oarMCPID q) = Inr True)"

text \<open>What the recorded objects promise to later checks of a request that names the given resources.\<close>

definition resources_ok :: "Authorizer \<Rightarrow> Request \<Rightarrow> User \<Rightarrow> Resources \<Rightarrow> Resources \<Rightarrow> bool" where
  "resources_ok a req u named r \<longleftrightarrow> same_ids named r
   \<and> (\<forall>w. azPowerUserWorkspace (rsAuthorizated r) = Some w \<longrightarrow> rsWorkspaceID named \<noteq> []
        \<and> az_get getPowerUserWorkspace a DefaultNamespace (rsWorkspaceID named) = Inr w \<and> puwUserID w = GetUID (Info u))
   \<and> (\<forall>v. azVMCP (rsAuthorizated r) = Some v \<longrightarrow> recorded_vmcp a req u named v)
   \<and> (\<forall>x. azVMCPInstance (rsAuthorizated r) = Some x \<longrightarrow> recorded_instance a u named x)"

lemma same_ids_fields:
  "same_ids r r' \<Longrightarrow> rsMCPServerID r' = rsMCPServerID r \<and> rsMCPServerInstanceID r' = rsMCPServerInstanceID r
     \<and> rsMCPServerCatalogEntryID r' = rsMCPServerCatalogEntryID r \<and> rsVMCPComponentMCPID r' = rsVMCPComponentMCPID r
     \<and> rsVMCPID r' = rsVMCPID r \<and> rsVMCPInstanceID r' = rsVMCPInstanceID r \<and> rsMCPID r' = rsMCPID r \<and> rsWorkspaceID r' = rsWorkspaceID r"
  by (auto simp: same_ids_def)

lemma resources_ok_fields:
  assumes "resources_ok a req u named r"
  shows "rsWorkspaceID r = rsWorkspaceID named" "rsVMCPID r = rsVMCPID named" "rsVMCPInstanceID r = rsVMCPInstanceID named"
    "rsMCPID r = rsMCPID named"
  using assms same_ids_fields[of named r] by (simp_all add: resources_ok_def)

lemma resources_ok_record:
  assumes "resources_ok a req u named r"
  shows "resources_ok a req u named (authorize_server s r)"
    "recorded_instance a u named x \<Longrightarrow> resources_ok a req u named (authorize_instance x r)"
    "recorded_vmcp a req u named v \<Longrightarrow> pred_option (recorded_instance a u named) y \<Longrightarrow>
      resources_ok a req u named (authorize_vmcp (Some v) y r)"
  using assms
  by (auto simp: resources_ok_def authorize_server_def authorize_instance_def authorize_vmcp_def pred_option_def intro: same_ids_trans)

lemma same_ids_authorize [simp]:
  "same_ids r (authorize_server s r)" "same_ids r (authorize_instance x r)" "same_ids r (authorize_vmcp v y r)"
  by (simp_all add: authorize_server_def authorize_instance_def authorize_vmcp_def)

interpretation workspace: resource_check "checkPowerUserWorkspace a req u" rsWorkspaceID "resources_ok a req u named" "workspace_granted a u"
  for a req u named
  by unfold_locales
     (auto simp: checkPowerUserWorkspace_def workspace_granted_def resources_ok_def andThen_eq_Inr split: if_splits
       intro: same_ids_trans dest: same_ids_fields)

interpretation server_instance: resource_check "checkMCPServerInstance a req u" rsMCPServerInstanceID "resources_ok a req u named"
    "server_instance_granted a u"
  for a req u named
  by unfold_locales (auto simp: checkMCPServerInstance_def server_instance_granted_def andThen_eq_Inr split: if_splits)

interpretation vmcp: resource_check "checkVMCP a req u" rsVMCPID "resources_ok a req u named" "vmcp_granted a req u"
  for a req u named
  by unfold_locales
     (auto simp: checkVMCP_def vmcp_granted_def vmcp_allowed_def recorded_vmcp_def resources_ok_def andThen_eq_Inr split: if_splits
       intro: same_ids_trans dest: same_ids_fields)

interpretation entry: resource_check "checkCatalogEntry a req u" rsMCPServerCatalogEntryID "resources_ok a req u named" "entry_granted a u"
  for a req u named
  by unfold_locales (auto simp: checkCatalogEntry_def entry_granted_def andThen_eq_Inr split: if_splits)

interpretation vmcp_component: resource_check "checkVMCPComponent a req u" rsVMCPComponentMCPID "resources_ok a req u named"
    "component_granted a req u named"
  for a req u named
  by unfold_locales
     (auto simp: checkVMCPComponent_def component_granted_def resources_ok_def andThen_eq_Inr split: if_splits option.splits)

interpretation skill: resource_check "checkSkill a req u" rsSkillID "resources_ok a req u named" "skill_granted a u"
  for a req u named
  by unfold_locales (auto simp: checkSkill_def skill_granted_def andThen_eq_Inr split: if_splits)

interpretation scan: resource_check "checkDeviceScan a req u" rsDeviceScanID "resources_ok a req u named" "scan_granted a u"
  for a req u named
  by unfold_locales (auto simp: checkDeviceScan_def scan_granted_def andThen_eq_Inr split: if_splits)

interpretation oauth_request: resource_check "checkOAuthAuthRequest a req u" rsOAuthAuthRequestID "resources_ok a req u named" "request_granted a u"
  for a req u named
  by unfold_locales (auto simp: checkOAuthAuthRequest_def request_granted_def andThen_eq_Inr split: if_splits)

interpretation server: resource_check "checkMCPServer a req u" rsMCPServerID "resources_ok a req u named" "server_granted a u (rsWorkspaceID named)"
  for a req u named
proof
  fix r r'
  assume ok: "resources_ok a req u named r" and check: "checkMCPServer a req u r = Inr (True, r')"
  from check have r': "r' = r \<or> (\<exists>s. r' = authorize_server s r)"
    by (auto simp: checkMCPServer_def andThen_eq_Inr split: if_splits option.splits)
  then show "same_ids r r'" "resources_ok a req u named r'" using ok resources_ok_record(1) by auto
  show "server_granted a u (rsWorkspaceID named) (rsMCPServerID r)" if "rsMCPServerID r \<noteq> []"
    using check that ok
    by (auto simp: checkMCPServer_def server_granted_def resources_ok_def andThen_eq_Inr split: if_splits option.splits)
qed (auto simp: checkMCPServer_def)

text \<open>
  The connection checks: with the resources of a request they decide as they do without, except that a
  component route also needs a connection, and they record a vMCP only if the user may connect to it, with the
  instance of the connection.
\<close>

definition connection_recordable :: "Authorizer \<Rightarrow> Request \<Rightarrow> User \<Rightarrow> Resources \<Rightarrow> mcpConnection \<Rightarrow> bool" where
  "connection_recordable a req u named cn \<longleftrightarrow>
    (\<forall>v. cnVMCP cn = Some v \<longrightarrow> recorded_vmcp a req u named v
      \<and> (\<forall>x. cnInstance cn = Some x \<or> cnInstance cn = None \<and> FindInstance (kube (auUncached a)) (Namespace v) (Name v) (GetUID (Info u)) = Inr (Some x)
           \<longrightarrow> recorded_instance a u named x))"

lemma access_keeps:
  assumes "checkMCPIDAccess digest (auUncached a) helper (Info u) cn (Some r) = Inr (True, cn', r')" and "resources_ok a req u named r"
    and "i \<in> {rsVMCPInstanceID named, rsMCPID named}" "i \<noteq> []" "resolveMCPConnection (auUncached a) i (GetUID (Info u)) = Inr cn"
  shows "\<exists>x. r' = Some x \<and> same_ids r x \<and> resources_ok a req u named x \<and> cnID cn' = cnID cn \<and> cnVMCP cn' = cnVMCP cn
    \<and> connection_recordable a req u named cn'
    \<and> checkMCPIDAccess digest (auUncached a) helper (Info u) cn None = Inr (True, cn, None)
    \<and> (cnInstance cn' = cnInstance cn \<or>
       (\<exists>v. cnVMCP cn = Some v \<and> cnInstance cn = None \<and> FindInstance (kube (auUncached a)) (Namespace v) (Name v) (GetUID (Info u)) = Inr (cnInstance cn')))"
proof (cases "cnVMCP cn")
  case None
  with assms(1,2) show ?thesis
    by (auto simp: checkMCPIDAccess_def connection_recordable_def andThen_eq_Inr split: if_splits)
next
  case (Some v)
  with assms(1) have "UserCanConnectVMCP (Info u) v" by (auto simp: checkMCPIDAccess_def access_vmcp_def split: if_splits)
  then have "named_connection a u named cn v" using assms(3-5) Some by (auto simp: named_connection_def)
  then have recorded: "recorded_vmcp a req u named v" "cnInstance cn = Some x \<Longrightarrow> recorded_instance a u named x"
    "cnInstance cn = None \<Longrightarrow> FindInstance (kube (auUncached a)) (Namespace v) (Name v) (GetUID (Info u)) = Inr (Some x) \<Longrightarrow> recorded_instance a u named x"
    for x by (auto simp: recorded_vmcp_def recorded_instance_def)
  with Some assms(1) resources_ok_record(3)[OF assms(2)] show ?thesis
    by (auto simp: checkMCPIDAccess_def access_vmcp_def connection_recordable_def andThen_eq_Inr pred_option_def split: option.splits if_splits)
qed

lemma scope_keeps:
  assumes "mcpIDIsAuthorized (auUncached a) scopes (GetUID (Info u)) cn (Some r) = Inr (True, r')" and "resources_ok a req u named r"
    and "connection_recordable a req u named cn"
  shows "\<exists>x. r' = Some x \<and> same_ids r x \<and> resources_ok a req u named x"
proof (cases "cnVMCP cn")
  case None
  with assms(1,2) show ?thesis by (auto simp: mcpIDIsAuthorized_def Let_def andThen_eq_Inr split: if_splits)
next
  case (Some v)
  with assms(1,3) resources_ok_record(3)[OF assms(2), of v] show ?thesis
    by (cases "cnInstance cn")
       (auto simp: mcpIDIsAuthorized_def scope_of_vmcp_def connection_recordable_def assms(2) Let_def andThen_eq_Inr pred_option_def split: if_splits)
qed

lemma scope_of_vmcp_same:
  assumes "scope_of_vmcp client scopes userID v inst' resources = Inr (True, r')"
    and "inst' = inst \<or> inst = None \<and> FindInstance (kube client) (Namespace v) (Name v) userID = Inr inst'"
  shows "\<exists>x. scope_of_vmcp client scopes userID v inst resources' = Inr (True, x)"
  using assms by (cases inst) (auto simp: scope_of_vmcp_def andThen_def split: option.splits if_splits sum.splits)

lemma scope_same:
  assumes ok: "mcpIDIsAuthorized client scopes userID cn' resources = Inr (True, r')"
    and same: "cnID cn' = cnID cn" "cnVMCP cn' = cnVMCP cn"
    and inst: "cnInstance cn' = cnInstance cn \<or>
       (\<exists>v. cnVMCP cn = Some v \<and> cnInstance cn = None \<and> FindInstance (kube client) (Namespace v) (Name v) userID = Inr (cnInstance cn'))"
  shows "\<exists>x. mcpIDIsAuthorized client scopes userID cn resources' = Inr (True, x)"
proof (cases "cnVMCP cn")
  case None
  with ok same show ?thesis
    by (auto simp: mcpIDIsAuthorized_def Let_def andThen_eq_Inr split: if_splits)
next
  case (Some v)
  with ok same inst scope_of_vmcp_same [of client scopes userID v "cnInstance cn'" resources r' "cnInstance cn" resources']
  show ?thesis by (auto simp: mcpIDIsAuthorized_def Let_def split: if_splits)
qed

lemma connect_keeps:
  assumes "userCanConnectToResolvedMCP digest (auUncached a) helper (Info u) cn (Some r) = Inr (True, r')" and "resources_ok a req u named r"
    and named: "i \<in> {rsVMCPInstanceID named, rsMCPID named}" "i \<noteq> []" "resolveMCPConnection (auUncached a) i (GetUID (Info u)) = Inr cn"
  shows "\<exists>x. r' = Some x \<and> same_ids r x \<and> resources_ok a req u named x"
    and "\<exists>y. userCanConnectToResolvedMCP digest (auUncached a) helper (Info u) cn None = Inr (True, y)"
proof -
  let ?ids = "GetExtra (Info u) ''authorized_mcp_ids''"
  from assms(1) obtain cn' r1 where access: "checkMCPIDAccess digest (auUncached a) helper (Info u) cn (Some r) = Inr (True, cn', r1)"
    and rest: "if ?ids \<noteq> [] then mcpIDIsAuthorized (auUncached a) ?ids (GetUID (Info u)) cn' r1 = Inr (True, r') else r' = r1"
    by (auto simp: userCanConnectToResolvedMCP_def andThen_eq_Inr split: if_splits)
  from access_keeps [OF access assms(2) named] obtain x where x: "r1 = Some x" "same_ids r x" "resources_ok a req u named x"
    and cn': "cnID cn' = cnID cn" "cnVMCP cn' = cnVMCP cn" and recordable: "connection_recordable a req u named cn'"
    and none: "checkMCPIDAccess digest (auUncached a) helper (Info u) cn None = Inr (True, cn, None)"
    and inst: "cnInstance cn' = cnInstance cn \<or> (\<exists>v. cnVMCP cn = Some v \<and> cnInstance cn = None
        \<and> FindInstance (kube (auUncached a)) (Namespace v) (Name v) (GetUID (Info u)) = Inr (cnInstance cn'))"
    by blast
  show "\<exists>x. r' = Some x \<and> same_ids r x \<and> resources_ok a req u named x"
  proof (cases "?ids = []")
    case False
    with rest x(1) scope_keeps [OF _ x(3) recordable, of ?ids r'] same_ids_trans [OF x(2)] show ?thesis by auto
  qed (use rest x in auto)
  show "\<exists>y. userCanConnectToResolvedMCP digest (auUncached a) helper (Info u) cn None = Inr (True, y)"
    using rest x(1) none scope_same [OF _ cn' inst, of ?ids "Some x" r' None] by (auto simp: userCanConnectToResolvedMCP_def split: if_splits)
qed

lemma connect_granted:
  assumes "resolveMCPConnection (auUncached a) i (GetUID (Info u)) = Inr cn"
    and "userCanConnectToResolvedMCP digest (auUncached a) helper (Info u) cn (Some r) = Inr (True, r')" and "resources_ok a req u named r"
    and "i \<in> {rsVMCPInstanceID named, rsMCPID named}" "i \<noteq> []"
  shows "UserCanConnectToMCP digest (auUncached a) helper (Info u) i = Inr True"
  using connect_keeps(2) [OF assms(2,3,4,5,1)] assms(1) by (auto simp: UserCanConnectToMCP_def userCanConnectToMCP_def)

lemma with_resources_True: "with_resources res r = Inr (True, r') \<longleftrightarrow> (\<exists>x. res = Inr (True, x) \<and> r' = (case x of Some y \<Rightarrow> y | None \<Rightarrow> r))"
  by (auto simp: with_resources_def andThen_eq_Inr)

interpretation connection: resource_check "checkMCPID a req u" rsMCPID "resources_ok a req u named" "connection_granted a req u"
  for a req u named
proof
  fix r :: Resources and x
  show "rsMCPID (r\<lparr>rsAuthorizated := x\<rparr>) = rsMCPID r" by simp
next
  fix r
  show "rsMCPID r = [] \<Longrightarrow> checkMCPID a req u r = Inr (True, r)" by (simp add: checkMCPID_def)
next
  fix r r'
  assume ok: "checkMCPID a req u r = Inr (True, r')"
  consider "r' = r" "rsMCPID r = [] \<or> GetName (Info u) = ''anonymous'' \<and> HasPrefix (URL_Path req) ''/mcp-connect''"
    | cn x where "rsMCPID r \<noteq> []" "resolveMCPConnection (auUncached a) (rsMCPID r) (GetUID (Info u)) = Inr cn"
      "userCanConnectToResolvedMCP (auDigest a) (auUncached a) (auACR a) (Info u) cn (Some r) = Inr (True, x)"
      "r' = (case x of Some y \<Rightarrow> y | None \<Rightarrow> r)"
    using ok by (auto simp: checkMCPID_def andThen_eq_Inr with_resources_True split: if_splits)
  note cases = this
  show "same_ids r r'" if "resources_ok a req u named r"
    using cases that resources_ok_fields(4)[OF that] by cases (auto dest!: connect_keeps(1)[where i = "rsMCPID r"])
  show "resources_ok a req u named r'" if "resources_ok a req u named r"
    using cases that resources_ok_fields(4)[OF that] by cases (auto dest!: connect_keeps(1)[where i = "rsMCPID r"])
  show "connection_granted a req u (rsMCPID r)" if "resources_ok a req u named r" "rsMCPID r \<noteq> []"
    using cases that resources_ok_fields(4)[OF that(1)] by cases (auto simp: connection_granted_def dest: connect_granted)
qed

lemma instance_check_cases:
  assumes "checkVMCPInstance a req u r = Inr (True, r')" and "rsVMCPInstanceID r \<noteq> []"
  obtains (tester) cn x where "resolveMCPConnection (auUncached a) (rsVMCPInstanceID r) (GetUID (Info u)) = Inr cn"
      "userCanConnectToResolvedMCP (auDigest a) (auUncached a) (auACR a) (Info u) cn (Some r) = Inr (True, x)"
      "r' = (case x of Some y \<Rightarrow> y | None \<Rightarrow> r)"
  | (granted) x where "r' = authorize_instance x r" "instance_allowed a u (rsVMCPInstanceID r) x"
  using assms
  by (auto simp: checkVMCPInstance_def instance_allowed_def UserCanReadVMCPInstance_def userCanConnectToMCP_def andThen_eq_Inr
      with_resources_True split: if_splits)

interpretation vmcp_instance: resource_check "checkVMCPInstance a req u" rsVMCPInstanceID "resources_ok a req u named" "instance_granted a u"
  for a req u named
proof
  fix r :: Resources and x
  show "rsVMCPInstanceID (r\<lparr>rsAuthorizated := x\<rparr>) = rsVMCPInstanceID r" by simp
next
  fix r r'
  show absent: "rsVMCPInstanceID r = [] \<Longrightarrow> checkVMCPInstance a req u r = Inr (True, r)" by (simp add: checkVMCPInstance_def)
  assume ok: "resources_ok a req u named r" and check: "checkVMCPInstance a req u r = Inr (True, r')"
  have "same_ids r r' \<and> resources_ok a req u named r' \<and> (rsVMCPInstanceID r \<noteq> [] \<longrightarrow> instance_granted a u (rsVMCPInstanceID r))"
  proof (cases "rsVMCPInstanceID r = []")
    case True
    with check ok show ?thesis by (simp add: absent)
  next
    case False
    with check show ?thesis
    proof (cases rule: instance_check_cases)
      case (tester cn x)
      have named: "rsVMCPInstanceID r \<in> {rsVMCPInstanceID named, rsMCPID named}" using resources_ok_fields(3)[OF ok] by simp
      show ?thesis
        using connect_keeps(1) [OF tester(2) ok named False tester(1)] connect_granted [OF tester(1,2) ok named False] tester(3)
        by (auto simp: instance_granted_def)
    next
      case (granted x)
      have "recorded_instance a u named x" using granted(2) False resources_ok_fields(3)[OF ok] by (simp add: recorded_instance_def)
      with granted ok resources_ok_record(2)[OF ok] show ?thesis by (auto simp: instance_granted_def)
    qed
  qed
  then show "same_ids r r'" and "resources_ok a req u named r'"
    and "rsVMCPInstanceID r \<noteq> [] \<Longrightarrow> instance_granted a u (rsVMCPInstanceID r)" by blast+
qed

section \<open>Properties\<close>

lemma resources_ok_start: "resources_ok a req u (named_resources vars) (named_resources vars)"
  by (simp add: resources_ok_def named_resources_def no_authorized_def)

text \<open>A sequence of checks that each keep the contract grants every resource the request names.\<close>

lemma run_checks_sound:
  assumes "\<forall>(c, i, g)\<in>set specs. resource_check c i ok g" and "ok r" and "run_checks (map fst specs) r = Inr True"
  shows "\<forall>(c, i, g)\<in>set specs. i r \<noteq> [] \<longrightarrow> g (i r)"
  using assms
proof (induction specs arbitrary: r)
  case (Cons s specs)
  obtain c i g where s: "s = (c, i, g)" by (cases s)
  with Cons.prems(1) have check: "resource_check c i ok g" by simp
  from resource_check.passed [OF check, of "map fst specs" r] Cons.prems(2,3) s obtain r' where
    here: "i r \<noteq> [] \<longrightarrow> g (i r)" and "same_ids r r'" and "ok r'" and "run_checks (map fst specs) r' = Inr True" by auto
  with Cons.IH [of r'] Cons.prems(1) have there: "\<forall>(c, i, g)\<in>set specs. i r' \<noteq> [] \<longrightarrow> g (i r')" by simp
  have "i' r \<noteq> [] \<longrightarrow> g' (i' r)" if "(c', i', g') \<in> set specs" for c' i' g'
  proof -
    obtain x where "r' = r\<lparr>rsAuthorizated := x\<rparr>" using \<open>same_ids r r'\<close> by (auto simp: same_ids_def)
    moreover have "resource_check c' i' ok g'" using that Cons.prems(1) by auto
    ultimately have "i' r' = i' r" by (simp add: resource_check.ident_fixed)
    with there that show ?thesis by fastforce
  qed
  with here s show ?case by auto
qed simp

definition check_specs :: "Authorizer \<Rightarrow> Request \<Rightarrow> User \<Rightarrow> Resources \<Rightarrow> (check \<times> (Resources \<Rightarrow> string) \<times> (string \<Rightarrow> bool)) list" where
  "check_specs a req u named =
    [(checkPowerUserWorkspace a req u, rsWorkspaceID, workspace_granted a u),
     (checkMCPServer a req u, rsMCPServerID, server_granted a u (rsWorkspaceID named)),
     (checkMCPServerInstance a req u, rsMCPServerInstanceID, server_instance_granted a u),
     (checkVMCP a req u, rsVMCPID, vmcp_granted a req u),
     (checkVMCPInstance a req u, rsVMCPInstanceID, instance_granted a u),
     (checkCatalogEntry a req u, rsMCPServerCatalogEntryID, entry_granted a u),
     (checkMCPID a req u, rsMCPID, connection_granted a req u),
     (checkVMCPComponent a req u, rsVMCPComponentMCPID, component_granted a req u named),
     (checkSkill a req u, rsSkillID, skill_granted a u),
     (checkDeviceScan a req u, rsDeviceScanID, scan_granted a u),
     (checkOAuthAuthRequest a req u, rsOAuthAuthRequestID, request_granted a u)]"

lemma check_specs_ok: "\<forall>(c, i, g)\<in>set (check_specs a req u named). resource_check c i (resources_ok a req u named) g"
  by (simp add: check_specs_def workspace.resource_check_axioms server.resource_check_axioms
      server_instance.resource_check_axioms vmcp.resource_check_axioms vmcp_instance.resource_check_axioms
      entry.resource_check_axioms connection.resource_check_axioms vmcp_component.resource_check_axioms
      skill.resource_check_axioms scan.resource_check_axioms oauth_request.resource_check_axioms)

lemma evaluated_granted:
  assumes "evaluateResources a req vars u = Inr True"
  shows "checkUser u (vars ''user_id'')"
    and "\<forall>(c, i, g)\<in>set (check_specs a req u (named_resources vars)). i (named_resources vars) \<noteq> [] \<longrightarrow> g (i (named_resources vars))"
proof -
  have "evaluateResources a req vars u =
    (if \<not> checkUser u (vars ''user_id'') then Inr False else run_checks (map fst (check_specs a req u (named_resources vars))) (named_resources vars))"
    by (simp add: evaluateResources_def check_specs_def del: run_checks.simps)
  with assms show "checkUser u (vars ''user_id'')"
    and "\<forall>(c, i, g)\<in>set (check_specs a req u (named_resources vars)). i (named_resources vars) \<noteq> [] \<longrightarrow> g (i (named_resources vars))"
    using run_checks_sound [OF check_specs_ok resources_ok_start] by (auto split: if_splits)
qed

text \<open>An authorizer over example objects: a workspace and a personal vMCP of the user.\<close>

definition example_workspace :: PowerUserWorkspace where
  "example_workspace = \<lparr>Name = ''puw1x'', Namespace = ''default'', DeletionTimestamp = None, CreationTimestamp = 0, puwUserID = ''7''\<rparr>"

definition example_authorizer :: Authorizer where
  "example_authorizer =
    (let client = (example_client [example_vmcp [] ''7''] [] [] [])\<lparr>getPowerUserWorkspace := get_named ''poweruserworkspace'' [example_workspace]\<rparr>
     in \<lparr>auRules = [], auCache = client, auUncached = client, auGetDeviceScan = (\<lambda>_. Inl (Unavailable ''none'')), auApiResources = [],
         auACR = example_helper, auSkills = (\<lambda>_ _. Inr []), auBcrypt = (\<lambda>_ _. False), auDigest = (\<lambda>_. [])\<rparr>)"

definition example_request :: "string \<Rightarrow> string \<Rightarrow> Request" where
  "example_request method path = \<lparr>Method = method, URL_Path = path, EscapedPath = path, Pattern = ''/'', Authorization = []\<rparr>"

definition plain_user :: "string list \<Rightarrow> User" where
  "plain_user gs = \<lparr>Info = scoped_user gs [], IsAdmin = False, IsAuditor = False, IsOwner = False\<rparr>"

lemmas check_defs = evaluateResources_def named_resources_def checkUser_def checkPowerUserWorkspace_def checkMCPServer_def
  checkMCPServerInstance_def checkVMCP_def checkVMCPInstance_def checkCatalogEntry_def checkMCPID_def checkVMCPComponent_def
  checkSkill_def checkDeviceScan_def checkOAuthAuthRequest_def az_get_def

text \<open>
  C5: a request that passes the evaluation of its resources names only resources of the user. The
  named user is the user (or the user is an administrator), the stored workspace is the user's; the server is the user's own,
  or granted by a rule of its catalog or workspace, or belongs to the workspace that the request names, which is the user's; the
  catalog entry is granted by a rule; the server instance is the user's. A skill is granted by a rule and a device scan is the user's, unless the user
  is an administrator or auditor.
\<close>

theorem evaluated_catalog_resources:
  assumes "evaluateResources a req vars u = Inr True"
  shows "checkUser u (vars ''user_id'')
    \<and> (vars ''workspace_id'' \<noteq> [] \<longrightarrow> workspace_granted a u (vars ''workspace_id''))
    \<and> (vars ''mcpserver_id'' \<noteq> [] \<longrightarrow> server_granted a u (vars ''workspace_id'') (vars ''mcpserver_id''))
    \<and> (vars ''mcp_server_instance_id'' \<noteq> [] \<longrightarrow> server_instance_granted a u (vars ''mcp_server_instance_id''))
    \<and> (vars ''entry_id'' \<noteq> [] \<longrightarrow> entry_granted a u (vars ''entry_id''))
    \<and> (vars ''skill_id'' \<noteq> [] \<longrightarrow> skill_granted a u (vars ''skill_id''))
    \<and> (vars ''scan_id'' \<noteq> [] \<longrightarrow> scan_granted a u (vars ''scan_id''))"
  using evaluated_granted [OF assms] by (simp add: check_specs_def named_resources_def)

text \<open>A stored server of the user, and one of somebody else.\<close>

definition server_authorizer :: "string \<Rightarrow> Authorizer" where
  "server_authorizer owner =
    (let client = example_client [] [] [example_server\<lparr>srvUserID := owner, srvVMCPID := [], srvMCPCatalogID := []\<rparr>] []
     in example_authorizer\<lparr>auCache := client, auUncached := client\<rparr>)"

theorem evaluated_catalog_resources_witness:
  "workspace_granted example_authorizer (plain_user []) ''puw1x''
   \<and> server_granted (server_authorizer ''7'') (plain_user []) [] ''ms1s'' \<and> \<not> server_granted (server_authorizer ''8'') (plain_user []) [] ''ms1s''"
proof -
  have other: "\<not> server_granted (server_authorizer ''8'') (plain_user []) [] ''ms1s''"
    by (simp add: server_granted_def az_get_def server_authorizer_def example_authorizer_def plain_user_def example_defs
        IsOwnedBy_def IsCatalogServer_def IsPowerUserWorkspaceServer_def Let_def)
  let ?named = "\<lambda>x. if x = ''mcpserver_id'' then ''ms1s'' else []"
  have "evaluateResources (server_authorizer ''7'') (example_request ''GET'' ''/api/mcp-servers/ms1s'') ?named (plain_user []) = Inr True"
    by (simp add: check_defs server_authorizer_def example_authorizer_def plain_user_def example_defs IsOwnedBy_def IsCatalogServer_def authorize_server_def Let_def)
  from evaluated_catalog_resources [OF this] have own: "server_granted (server_authorizer ''7'') (plain_user []) [] ''ms1s''" by simp
  let ?vars = "\<lambda>x. if x = ''workspace_id'' then ''puw1x'' else []"
  have "evaluateResources example_authorizer (example_request ''GET'' ''/api/workspaces/puw1x'') ?vars (plain_user []) = Inr True"
    by (simp add: check_defs example_authorizer_def plain_user_def example_workspace_def example_defs Let_def)
  from evaluated_catalog_resources [OF this] own other show ?thesis by simp
qed

text \<open>
  C6: the same for virtual MCP servers and connections. The user may read the named vMCP, and may manage it
  unless the request only consumes it; may read or connect to the named instance; may connect to the
  named MCP. The named component server is a component of the vMCP and the instance that the request names, or of those of a connection that the
  request names and the user may connect to: shared by that vMCP, or the user's own in that instance. An
  OAuth request is the user's and for an MCP the user has access to.
\<close>

theorem evaluated_vmcp_resources:
  assumes "evaluateResources a req vars u = Inr True"
  shows "(vars ''vmcp_id'' \<noteq> [] \<longrightarrow> vmcp_granted a req u (vars ''vmcp_id''))
    \<and> (vars ''vmcp_instance_id'' \<noteq> [] \<longrightarrow> instance_granted a u (vars ''vmcp_instance_id''))
    \<and> (vars ''mcp_id'' \<noteq> [] \<longrightarrow> connection_granted a req u (vars ''mcp_id''))
    \<and> (vars ''component_mcp_id'' \<noteq> [] \<longrightarrow> component_granted a req u (named_resources vars) (vars ''component_mcp_id''))
    \<and> (vars ''oauth_request_id'' \<noteq> [] \<longrightarrow> request_granted a u (vars ''oauth_request_id''))"
  using evaluated_granted [OF assms] by (simp add: check_specs_def named_resources_def)

theorem evaluated_vmcp_resources_witness:
  "vmcp_granted example_authorizer (example_request ''DELETE'' ''/api/vmcps/vmcp1x'') (plain_user []) ''vmcp1x''"
proof -
  let ?vars = "\<lambda>x. if x = ''vmcp_id'' then ''vmcp1x'' else []"
  have "evaluateResources example_authorizer (example_request ''DELETE'' ''/api/vmcps/vmcp1x'') ?vars (plain_user []) = Inr True"
    by (simp add: check_defs example_authorizer_def plain_user_def example_request_def consumes_vmcp_def isVMCPComponentOAuthPath_def
        CutPrefix_def UserCanReadVMCP_def UserCanManageVMCP_def example_defs Let_def)
  from evaluated_vmcp_resources [OF this] show ?thesis by simp
qed

end
