(* ===== verification/Authz_Rules.thy ===== *)
theory Authz_Rules
  imports Roles Serve_Mux
begin

text \<open>
  The tables of the authorizer (pkg/api/authz/authz.go and resources.go): the patterns each group may
  reach outright, and the patterns whose wildcards name resources that are checked one by one. The
  entries are the strings of the source. A Go map from groups to patterns is a list of pairs, one for
  each key, as its iteration order does not matter to a decision.
\<close>

section \<open>Groups of the authorizer\<close>

definition MetricsGroup :: string where "MetricsGroup = ''metrics''"
definition UnauthenticatedGroup :: string where "UnauthenticatedGroup = ''unauthenticated''"
definition anyGroup :: string where "anyGroup = ''*''"
definition scimPathPrefix :: string where "scimPathPrefix = ''/scim/v2/''"

section \<open>Internal credentials\<close>

definition tunnelResources :: "string list" where
  "tunnelResources = [''GET /tunnel/connect'']"

definition tunnelBridgeResources :: "string list" where
  "tunnelBridgeResources = [''/tunnel/bridge/{target}'', ''GET /tunnel/composite/register/{key}'']"

definition tunnelPeerResources :: "string list" where
  "tunnelPeerResources = [''GET /tunnel/peer'']"

section \<open>Rules by group\<close>

definition adminAndOwnerRules :: "string list" where
  "adminAndOwnerRules =
    [''/api/claude-organizations/'',
     ''/api/claude-environments'',
     ''/api/claude-environments/'',
     ''POST /api/openapi-import'',
     ''/api/model-proxy'',
     ''/api/model-proxy/'',
     ''/api/mcp-tunnels'',
     ''/api/mcp-tunnels/'',
     ''/api/mcp-catalogs'',
     ''/api/mcp-catalogs/'',
     ''GET /api/mcp-server-binding-secrets'',
     ''/api/mcp-servers'',
     ''/api/mcp-servers/'',
     ''/api/vmcps'',
     ''/api/vmcps/'',
     ''/api/vmcp-instances'',
     ''/api/vmcp-instances/'',
     ''/api/all-mcps'',
     ''/api/all-mcps/'',
     ''/api/workspaces'',
     ''/api/workspaces/'',
     ''/api/mcp-webhook-validations'',
     ''/api/mcp-webhook-validations/'',
     ''/api/system-mcp-servers'',
     ''/api/system-mcp-servers/'',
     ''/api/system-mcp-catalogs'',
     ''/api/system-mcp-catalogs/'',
     ''GET /api/mcp-audit-logs'',
     ''GET /api/mcp-audit-logs/'',
     ''GET /api/egress-audit-logs'',
     ''GET /api/egress-audit-logs/'',
     ''GET /api/llm-audit-logs'',
     ''GET /api/llm-audit-logs/'',
     ''GET /api/llm-audit-logs/filter-options/'',
     ''GET /api/mcp-stats'',
     ''GET /api/mcp-stats/'',
     ''GET /debug/pprof/'',
     ''GET /debug/triggers'',
     ''GET /debug/metrics'',
     ''PUT /api/license'',
     ''POST /api/license'',
     ''POST /api/license/community'',
     ''DELETE /api/license'',
     ''POST /api/auth-providers/{id}/configure'',
     ''POST /api/auth-providers/{id}/deconfigure'',
     ''POST /api/auth-providers/{id}/reveal'',
     ''GET /api/auth-providers/{id}/residual-group-data'',
     ''GET /api/scim-connections'',
     ''GET /api/scim-connections/'',
     ''/api/local-auth/users'',
     ''/api/local-auth/users/'',
     ''/api/model-providers'',
     ''/api/model-providers/'',
     ''/api/llm-gateway/'',
     ''GET /api/bookstrap'',
     ''/api/models'',
     ''/api/models/'',
     ''/api/model-access-policies'',
     ''/api/model-access-policies/'',
     ''DELETE /api/devices/scans/{scan_id}'',
     ''/api/devices/scan-stats'',
     ''/api/devices/mcp-servers/'',
     ''/api/devices/skills'',
     ''/api/devices/skills/'',
     ''/api/devices/clients'',
     ''/api/devices/clients/'',
     ''/api/mdm/configurations'',
     ''/api/mdm/configurations/'',
     ''GET /api/enforcement-decisions'',
     ''GET /api/enforcement-decisions/'',
     ''/api/mdm/asset-source'',
     ''/api/mdm/asset-source/'',
     ''GET /api/mdm/assets'',
     ''/api/available-models'',
     ''/api/available-models/'',
     ''/api/default-model-aliases'',
     ''/api/default-model-aliases/'',
     ''/api/users'',
     ''POST /api/users/{user_id}/enable'',
     ''GET /api/groups'',
     ''/api/group-role-assignments'',
     ''/api/group-role-assignments/'',
     ''POST /api/encrypt-all-users'',
     ''GET /api/active-users'',
     ''GET /api/token-usage'',
     ''GET /api/total-token-usage'',
     ''GET /api/token-usage-stats'',
     ''GET /api/tokens'',
     ''DELETE /api/tokens/{id}'',
     ''/api/oauth-apps'',
     ''/api/oauth-apps/'',
     ''/api/user-default-role-settings'',
     ''/api/setup/'',
     ''/api/k8s-settings'',
     ''/api/image-pull-secrets'',
     ''/api/image-pull-secrets/'',
     ''/api/git-credentials'',
     ''/api/git-credentials/'',
     ''/api/mcp-capacity'',
     ''/api/audit-log-exports'',
     ''/api/audit-log-exports/'',
     ''/api/scheduled-audit-log-exports'',
     ''/api/scheduled-audit-log-exports/'',
     ''/api/storage-credentials'',
     ''/api/storage-credentials/'',
     ''/api/oauth-clients'',
     ''/api/oauth-clients/'',
     ''/api/skill-repositories'',
     ''/api/skill-repositories/'',
     ''/api/skill-access-rules'',
     ''/api/skill-access-rules/'',
     ''GET /api/eula'',
     ''PUT /api/eula'',
     ''/api/product-telemetry-consent'',
     ''PUT /api/app-preferences'',
     ''PUT /api/app-notification'',
     ''POST /api/image/upload'',
     ''GET /api/admin-api-keys'',
     ''GET /api/admin-api-keys/{id}'',
     ''DELETE /api/admin-api-keys/{id}'',
     ''POST /api/claude-sessions/{session_id}/suspend'']"

definition ownerRules :: "string list" where
  "ownerRules =
    [''POST /api/auth-providers/{id}/stage'',
     ''DELETE /api/auth-providers/{id}/stage'',
     ''POST /api/auth-providers/{id}/verify'',
     ''POST /api/auth-providers/{id}/activate'',
     ''POST /api/scim-connections'',
     ''POST /api/scim-connections/{id}/enforce'',
     ''POST /api/scim-connections/{id}/delete-unreferenced-groups'',
     ''POST /api/scim-connections/{id}/rotate-token'',
     ''POST /api/scim-connections/{id}/revoke-current-token'',
     ''POST /api/scim-connections/{id}/revoke-previous-token'']"

definition static_GroupAuditor :: "string list" where
  "static_GroupAuditor =
    [''GET /api/llm-gateway/'',
     ''GET /api/model-proxy'',
     ''GET /api/model-proxy/usage'',
     ''GET /api/admin-api-keys'',
     ''GET /api/admin-api-keys/{id}'',
     ''GET /api/mcp-audit-logs'',
     ''GET /api/mcp-audit-logs/'',
     ''GET /api/egress-audit-logs'',
     ''GET /api/egress-audit-logs/'',
     ''GET /api/llm-audit-logs'',
     ''GET /api/llm-audit-logs/'',
     ''GET /api/llm-audit-logs/filter-options/'',
     ''GET /api/mcp-stats'',
     ''GET /api/mcp-stats/'',
     ''GET /api/mcp-capacity'',
     ''GET /api/users'',
     ''GET /api/users/'',
     ''GET /api/groups'',
     ''GET /api/groups/'',
     ''GET /api/group-role-assignments'',
     ''GET /api/group-role-assignments/'',
     ''GET /api/mcp-catalogs/'',
     ''GET /api/system-mcp-catalogs'',
     ''GET /api/system-mcp-catalogs/'',
     ''GET /api/mcp-webhook-validations'',
     ''GET /api/mcp-webhook-validations/'',
     ''GET /api/mcp-servers/'',
     ''GET /api/model-access-policies'',
     ''GET /api/model-access-policies/'',
     ''GET /api/user-default-role-settings'',
     ''GET /api/k8s-settings'',
     ''GET /api/image-pull-secrets/capability'',
     ''GET /api/image-pull-secrets'',
     ''GET /api/image-pull-secrets/'',
     ''GET /api/git-credentials'',
     ''GET /api/git-credentials/'',
     ''POST /api/auth-providers/{id}/reveal'',
     ''GET /api/scim-connections'',
     ''GET /api/scim-connections/'',
     ''GET /api/local-auth/users'',
     ''GET /api/local-auth/users/'',
     ''GET /api/workspaces/'',
     ''GET /api/vmcps'',
     ''GET /api/vmcps/'',
     ''GET /api/vmcp-instances'',
     ''GET /api/vmcp-instances/'',
     ''/api/audit-log-exports'',
     ''/api/audit-log-exports/'',
     ''/api/scheduled-audit-log-exports'',
     ''/api/scheduled-audit-log-exports/'',
     ''/api/storage-credentials'',
     ''/api/storage-credentials/'',
     ''GET /api/skill-repositories'',
     ''GET /api/skill-repositories/'',
     ''GET /api/skill-access-rules'',
     ''GET /api/skill-access-rules/'',
     ''GET /api/enforcement-decisions'',
     ''GET /api/enforcement-decisions/'',
     ''GET /api/devices/scan-stats'',
     ''GET /api/devices/mcp-servers/'',
     ''GET /api/devices/skills'',
     ''GET /api/devices/skills/'',
     ''GET /api/devices/clients'',
     ''GET /api/devices/clients/'',
     ''GET /api/mdm/configurations'',
     ''GET /api/mdm/configurations/'',
     ''GET /api/mdm/asset-source'',
     ''GET /api/mdm/assets'',
     ''GET /api/token-usage'',
     ''GET /api/total-token-usage'',
     ''GET /api/token-usage-stats'']"

definition static_anyGroup :: "string list" where
  "static_anyGroup =
    [''POST /api/claude-runners/spawn'',
     ''POST /api/claude-runners/{instance}/credentials'',
     ''POST /api/claude-runners/{instance}/finished'',
     ''POST /api/claude-runners/{instance}/status'',
     ''/oauth2/'',
     ''GET /api/token-request/{id}'',
     ''POST /api/token-request'',
     ''GET /api/token-request/{id}/{namespace}/{name}'',
     ''GET /api/oauth/start/{id}/{namespace}/{name}'',
     ''GET /api/bootstrap'',
     ''POST /api/bootstrap/login'',
     ''POST /api/bootstrap/logout'',
     ''POST /api/local-auth/activate'',
     ''GET /api/app-oauth/authorize/{id}'',
     ''GET /api/app-oauth/refresh/{id}'',
     ''GET /api/app-oauth/callback/{id}'',
     ''GET /api/app-oauth/get-token/{id}'',
     ''GET /api/app-oauth/get-token'',
     ''GET /api/healthz'',
     ''GET /api/app-preferences'',
     ''GET /api/auth-providers'',
     ''GET /api/auth-providers/{id}'',
     ''GET  /.well-known/'',
     ''POST /oauth/register/{mcp_id}'',
     ''POST /oauth/register'',
     ''GET  /oauth/authorize/{mcp_id}'',
     ''GET  /oauth/authorize'',
     ''POST /oauth/token/{mcp_id}'',
     ''POST /oauth/token'',
     ''GET  /oauth/jwks.json'',
     ''GET  /oauth/client-metadata.json'',
     ''GET  /oauth/mcp/login/{state}'',
     ''GET /api/image/{image_id}'',
     ''POST /api/api-keys/auth'']"

definition static_GroupAPI :: "string list" where
  "static_GroupAPI =
    [''GET /api/claude-sessions'',
     ''GET /api/claude-sessions/{session_id}'',
     ''DELETE /api/claude-sessions/{session_id}'',
     ''GET /api/claude-environments'',
     ''PUT /api/claude-environments/{environment}/agent'',
     ''DELETE /api/claude-environments/{environment}/agent'',
     ''POST /api/token-request/verify'',
     ''GET /api/llm-gateway/settings'',
     ''POST /api/local-agent-audit-logs'',
     ''GET /api/models'',
     ''GET /api/model-providers'',
     ''GET /api/users'',
     ''GET /api/groups'',
     ''GET /api/app-notification'',
     ''GET /api/all-mcps/entries'',
     ''GET /api/all-mcps/servers'',
     ''GET /api/mcp-audit-logs'',
     ''GET /api/mcp-audit-logs/filter-options/{filter}'',
     ''GET /api/mcp-audit-logs/detail/{audit_log_id}'',
     ''GET /api/mcp-audit-logs/{mcp_id}'',
     ''GET /api/mcp-stats'',
     ''GET /api/mcp-stats/{mcp_id}'',
     ''POST /api/api-keys'',
     ''GET /api/api-keys'',
     ''GET /api/api-keys/{id}'',
     ''DELETE /api/api-keys/{id}'',
     ''GET /api/users'',
     ''GET /api/users/{user_id}'',
     ''GET /api/default-model-aliases'',
     ''/api/oauth/redirect/{namespace}/{name}'',
     ''DELETE /api/me'',
     ''PATCH /api/me'',
     ''POST /api/logout-all'',
     ''GET /api/version'',
     ''GET /api/default-k8s-settings'',
     ''GET /api/license'',
     ''GET /api/setup/oauth-complete'',
     ''GET /api/tunnels'']"

definition static_GroupPowerUserPlus :: "string list" where
  "static_GroupPowerUserPlus =
    [''GET /api/groups'']"

definition static_GroupPowerUser :: "string list" where
  "static_GroupPowerUser =
    [''GET /api/mcp-audit-logs'',
     ''GET /api/mcp-audit-logs/filter-options/{filter}'',
     ''GET /api/mcp-audit-logs/{mcp_id}'',
     ''GET /api/mcp-stats'',
     ''GET /api/mcp-stats/{mcp_id}'']"

definition static_GroupAuthenticated :: "string list" where
  "static_GroupAuthenticated =
    [''GET /oauth/userinfo'',
     ''GET /api/me'',
     ''POST /api/local-auth/change-password'']"

definition static_GroupSkills :: "string list" where
  "static_GroupSkills =
    [''GET /api/skills'']"

definition static_GroupLLM :: "string list" where
  "static_GroupLLM =
    [''/api/llm-proxy/'']"

definition static_GroupDeviceScans :: "string list" where
  "static_GroupDeviceScans =
    [''POST /api/devices/scans'',
     ''GET /api/devices/scans'',
     ''POST /api/local-agent-audit-logs'',
     ''POST /api/enforcement/decisions'']"

definition static_GroupDeviceEnroll :: "string list" where
  "static_GroupDeviceEnroll =
    [''POST /api/mdm/enroll'']"

definition static_MetricsGroup :: "string list" where
  "static_MetricsGroup =
    [''/debug/metrics'',
     ''GET /api/llm-gateway/metrics'']"

definition devMode_anyGroup :: "string list" where
  "devMode_anyGroup =
    [''/node_modules/'',
     ''/@fs/'',
     ''/.svelte-kit/'',
     ''/@vite/'',
     ''/@id/'',
     ''/src/'']"

definition staticRules :: "(string \<times> string list) list" where
  "staticRules =
    [(GroupAdmin, adminAndOwnerRules),
     (GroupOwner, adminAndOwnerRules @ ownerRules),
     (GroupAuditor, static_GroupAuditor),
     (anyGroup, static_anyGroup),
     (GroupAPI, static_GroupAPI),
     (GroupPowerUserPlus, static_GroupPowerUserPlus),
     (GroupPowerUser, static_GroupPowerUser),
     (GroupAuthenticated, static_GroupAuthenticated),
     (GroupSkills, static_GroupSkills),
     (GroupLLM, static_GroupLLM),
     (GroupDeviceScans, static_GroupDeviceScans),
     (GroupDeviceEnroll, static_GroupDeviceEnroll),
     (MetricsGroup, static_MetricsGroup)]"

definition devModeRules :: "(string \<times> string list) list" where
  "devModeRules = [(anyGroup, devMode_anyGroup)]"

section \<open>Resource patterns by group\<close>

definition api_GroupAPI :: "string list" where
  "api_GroupAPI =
    [''GET    /api/all-mcps/servers/{mcpserver_id}'',
     ''GET    /api/all-mcps/servers/{mcpserver_id}/tools'',
     ''GET    /api/all-mcps/servers/{mcpserver_id}/resources'',
     ''GET    /api/all-mcps/servers/{mcpserver_id}/resources/{resource_uri}'',
     ''GET    /api/all-mcps/servers/{mcpserver_id}/prompts'',
     ''GET    /api/all-mcps/servers/{mcpserver_id}/prompts/{prompt_name}'',
     ''GET    /api/all-mcps/entries/{entry_id}'',
     ''GET    /oauth/callback/{oauth_request_id}'',
     ''GET    /oauth/callback/{oauth_request_id}/{mcp_id}'',
     ''GET    /oauth/mcp/callback'',
     ''GET    /oauth/consent/{oauth_auth_request}'',
     ''POST   /oauth/consent/{oauth_auth_request}/approve'',
     ''POST   /oauth/consent/{oauth_auth_request}/cancel'',
     ''GET    /oauth/complete/{oauth_auth_request}'',
     ''GET    /api/oauth/vmcp/{mcp_id}'',
     ''GET    /api/oauth/vmcp/{mcp_id}/components/{component_mcp_id}'',
     ''GET    /api/mcp-stats/{mcp_id}'',
     ''GET    /api/mcp-audit-logs/{mcp_id}'',
     ''GET    /api/mcp-server-instances'',
     ''GET    /api/mcp-server-instances/{mcp_server_instance_id}'',
     ''GET    /api/vmcps'',
     ''POST   /api/vmcps'',
     ''GET    /api/vmcps/{vmcp_id}'',
     ''POST   /api/vmcps/{vmcp_id}/launch'',
     ''POST   /api/vmcps/{vmcp_id}/check-oauth'',
     ''GET    /api/vmcps/{vmcp_id}/oauth-url'',
     ''DELETE /api/vmcps/{vmcp_id}/oauth'',
     ''GET    /api/vmcps/{vmcp_id}/oauth-status'',
     ''DELETE /api/vmcps/{vmcp_id}/components/{component_id}/oauth'',
     ''GET    /api/vmcps/{vmcp_id}/tools'',
     ''GET    /api/vmcps/{vmcp_id}/resources'',
     ''GET    /api/vmcps/{vmcp_id}/resources/{resource_uri}'',
     ''GET    /api/vmcps/{vmcp_id}/prompts'',
     ''GET    /api/vmcps/{vmcp_id}/prompts/{prompt_name}'',
     ''PUT    /api/vmcps/{vmcp_id}'',
     ''POST   /api/vmcps/{vmcp_id}/trigger-update'',
     ''POST   /api/vmcps/{vmcp_id}/reveal'',
     ''POST   /api/vmcps/{vmcp_id}/deconfigure'',
     ''DELETE /api/vmcps/{vmcp_id}'',
     ''POST   /api/vmcps/{vmcp_id}/components/{component_id}/generate-tool-previews'',
     ''POST   /api/vmcps/{vmcp_id}/components/{component_id}/generate-tool-previews/oauth-url'',
     ''GET    /api/vmcp-instances'',
     ''POST   /api/vmcp-instances'',
     ''GET    /api/vmcp-instances/{vmcp_instance_id}'',
     ''POST   /api/vmcp-instances/{vmcp_instance_id}/tester/chat'',
     ''PUT    /api/vmcp-instances/{vmcp_instance_id}'',
     ''DELETE /api/vmcp-instances/{vmcp_instance_id}'',
     ''POST   /api/vmcp-instances/{vmcp_instance_id}/configure'',
     ''POST   /api/vmcp-instances/{vmcp_instance_id}/reveal'',
     ''POST   /api/vmcp-instances/{vmcp_instance_id}/deconfigure'',
     ''GET    /api/mcp-servers'',
     ''GET    /api/mcp-servers/{mcpserver_id}'',
     ''GET    /api/mcp-servers/{mcpserver_id}/oauth-url'',
     ''GET    /api/mcp-servers/{mcpserver_id}/logs'',
     ''POST   /api/mcp-servers/{mcpserver_id}/restart'',
     ''GET    /api/users/{user_id}'',
     ''DELETE /api/users/{user_id}'',
     ''PATCH  /api/users/{user_id}'',
     ''GET    /api/users/{user_id}/activities'',
     ''GET    /api/users/{user_id}/token-usage'',
     ''GET    /api/users/{user_id}/total-token-usage'',
     ''GET    /api/workspaces'']"

definition api_GroupPowerUser :: "string list" where
  "api_GroupPowerUser =
    [''GET    /api/workspaces/{workspace_id}'',
     ''GET    /api/workspaces/{workspace_id}/entries'',
     ''POST   /api/workspaces/{workspace_id}/entries'',
     ''DELETE /api/workspaces/{workspace_id}/entries/{entry_id}'',
     ''GET    /api/workspaces/{workspace_id}/entries/{entry_id}'',
     ''PUT    /api/workspaces/{workspace_id}/entries/{entry_id}'',
     ''POST   /api/workspaces/{workspace_id}/entries/{entry_id}/reveal'',
     ''GET    /api/workspaces/{workspace_id}/entries/{entry_id}/servers'',
     ''GET    /api/workspaces/{workspace_id}/entries/{entry_id}/servers/{mcpserver_id}'',
     ''POST   /api/workspaces/{workspace_id}/entries/{entry_id}/generate-tool-previews'',
     ''POST   /api/workspaces/{workspace_id}/entries/{entry_id}/generate-tool-previews/oauth-url'',
     ''GET    /api/workspaces/{workspace_id}/entries/{entry_id}/servers/{mcpserver_id}/details'',
     ''GET    /api/workspaces/{workspace_id}/entries/{entry_id}/servers/{mcpserver_id}/logs'',
     ''POST   /api/workspaces/{workspace_id}/entries/{entry_id}/servers/{mcpserver_id}/restart'',
     ''GET    /api/workspaces/{workspace_id}/entries/{entry_id}/oauth-credentials'',
     ''POST   /api/workspaces/{workspace_id}/entries/{entry_id}/oauth-credentials'',
     ''DELETE /api/workspaces/{workspace_id}/entries/{entry_id}/oauth-credentials'']"

definition api_GroupPowerUserPlus :: "string list" where
  "api_GroupPowerUserPlus =
    [''GET    /api/workspaces/{workspace_id}/servers'',
     ''GET    /api/workspaces/{workspace_id}/servers/{mcp_server_id}'',
     ''GET    /api/workspaces/{workspace_id}/servers/{mcp_server_id}/oauth-url'',
     ''GET    /api/workspaces/{workspace_id}/servers/{mcp_server_id}/instances'',
     ''GET    /api/workspaces/{workspace_id}/servers/{mcp_server_id}/details'',
     ''GET    /api/workspaces/{workspace_id}/servers/{mcp_server_id}/logs'',
     ''POST   /api/workspaces/{workspace_id}/servers/{mcp_server_id}/restart'',
     ''GET    /api/workspaces/{workspace_id}/access-control-rules'',
     ''POST   /api/workspaces/{workspace_id}/access-control-rules'',
     ''DELETE /api/workspaces/{workspace_id}/access-control-rules/{access_control_rule_id}'',
     ''GET    /api/workspaces/{workspace_id}/access-control-rules/{access_control_rule_id}'',
     ''PUT    /api/workspaces/{workspace_id}/access-control-rules/{access_control_rule_id}'']"

definition api_GroupMCP :: "string list" where
  "api_GroupMCP =
    [''GET    /mcp-connect/{mcp_id}'',
     ''POST   /mcp-connect/{mcp_id}'',
     ''DELETE /mcp-connect/{mcp_id}'',
     ''GET    /mcp-connect/{mcp_id}/'',
     ''POST   /mcp-connect/{mcp_id}/'',
     ''DELETE /mcp-connect/{mcp_id}/'']"

definition api_GroupClaudeEnvironment :: "string list" where
  "api_GroupClaudeEnvironment =
    [''GET    /api/oauth/vmcp/{mcp_id}'']"

definition api_GroupCompositeMCP :: "string list" where
  "api_GroupCompositeMCP =
    [''GET    /mcp-connect-composite/{mcp_id}'',
     ''POST   /mcp-connect-composite/{mcp_id}'',
     ''DELETE /mcp-connect-composite/{mcp_id}'']"

definition api_GroupSkills :: "string list" where
  "api_GroupSkills =
    [''GET /api/skills/{skill_id}'',
     ''GET /api/skills/{skill_id}/download'',
     ''GET /api/skills/{skill_id}/preview'']"

definition api_GroupDeviceScans :: "string list" where
  "api_GroupDeviceScans =
    [''GET    /api/devices/scans/{scan_id}'']"

definition api_UnauthenticatedGroup :: "string list" where
  "api_UnauthenticatedGroup =
    [''/mcp-connect/'']"

definition apiResources :: "(string \<times> string list) list" where
  "apiResources =
    [(GroupAPI, api_GroupAPI),
     (GroupPowerUser, api_GroupPowerUser),
     (GroupPowerUserPlus, api_GroupPowerUserPlus),
     (GroupMCP, api_GroupMCP),
     (GroupClaudeEnvironment, api_GroupClaudeEnvironment),
     (GroupCompositeMCP, api_GroupCompositeMCP),
     (GroupSkills, api_GroupSkills),
     (GroupDeviceScans, api_GroupDeviceScans),
     (UnauthenticatedGroup, api_UnauthenticatedGroup)]"

end
