(* ===== verification/Base64.thy ===== *)
theory Base64
  imports Prelude
begin

text \<open>
  The parts of Go's \<open>encoding/base64\<close> that the sources use: \<open>StdEncoding\<close>, with padding, for stored
  ciphertexts and for basic authentication, and \<open>RawURLEncoding\<close>, without padding, for tokens. Bytes are
  characters. The decoders skip line breaks and accept any trailing bits, as the Go decoders do that
  are not strict; the strict decoder of \<open>RawStdEncoding\<close> is for stored password hashes.
\<close>

section \<open>Alphabets\<close>

definition alphabet_value :: "char \<Rightarrow> char \<Rightarrow> char \<Rightarrow> nat option" where
  "alphabet_value c62 c63 c =
    (let n = of_char c :: nat
     in if 65 \<le> n \<and> n \<le> 90 then Some (n - 65)
        else if 97 \<le> n \<and> n \<le> 122 then Some (n - 71)
        else if 48 \<le> n \<and> n \<le> 57 then Some (n + 4)
        else if c = c62 then Some 62
        else if c = c63 then Some 63
        else None)"

definition alphabet_char :: "char \<Rightarrow> char \<Rightarrow> nat \<Rightarrow> char" where
  "alphabet_char c62 c63 n =
    (if n < 26 then char_of (n + 65) else if n < 52 then char_of (n + 71) else if n < 62 then char_of (n - 4)
     else if n = 62 then c62 else c63)"

definition base64_value :: "char \<Rightarrow> nat option" where
  "base64_value = alphabet_value (CHR ''+'') (CHR ''/'')"

definition base64_char :: "nat \<Rightarrow> char" where
  "base64_char = alphabet_char (CHR ''+'') (CHR ''/'')"

definition base64url_value :: "char \<Rightarrow> nat option" where
  "base64url_value = alphabet_value (CHR ''-'') (CHR ''_'')"

definition base64url_char :: "nat \<Rightarrow> char" where
  "base64url_char = alphabet_char (CHR ''-'') (CHR ''_'')"

section \<open>Encoding and decoding\<close>

definition byte :: "char \<Rightarrow> nat" where "byte c = of_char c"

fun encode_groups :: "(nat \<Rightarrow> char) \<Rightarrow> string \<Rightarrow> string \<Rightarrow> string" where
  "encode_groups chr pad [] = []"
| "encode_groups chr pad [a] = [chr (byte a div 4), chr (byte a mod 4 * 16)] @ pad @ pad"
| "encode_groups chr pad [a, b] =
    [chr (byte a div 4), chr (byte a mod 4 * 16 + byte b div 16), chr (byte b mod 16 * 4)] @ pad"
| "encode_groups chr pad (a # b # c # rest) =
    [chr (byte a div 4), chr (byte a mod 4 * 16 + byte b div 16), chr (byte b mod 16 * 4 + byte c div 64),
     chr (byte c mod 64)] @ encode_groups chr pad rest"

definition first_byte :: "nat \<Rightarrow> nat \<Rightarrow> char" where "first_byte x y = char_of (x * 4 + y div 16)"
definition second_byte :: "nat \<Rightarrow> nat \<Rightarrow> char" where "second_byte y z = char_of (y mod 16 * 16 + z div 4)"
definition third_byte :: "nat \<Rightarrow> nat \<Rightarrow> char" where "third_byte z w = char_of (z mod 4 * 64 + w)"

text \<open>The last group may be short: with padding where the encoding has it, without otherwise.\<close>

definition last_group :: "(char \<Rightarrow> nat option) \<Rightarrow> char list \<Rightarrow> string option" where
  "last_group val cs =
    (case map val cs of
       [Some x, Some y] \<Rightarrow> Some [first_byte x y]
     | [Some x, Some y, Some z] \<Rightarrow> Some [first_byte x y, second_byte y z]
     | _ \<Rightarrow> None)"

definition full_group :: "(char \<Rightarrow> nat option) \<Rightarrow> char list \<Rightarrow> string option" where
  "full_group val cs =
    (case map val cs of
       [Some x, Some y, Some z, Some w] \<Rightarrow> Some [first_byte x y, second_byte y z, third_byte z w]
     | _ \<Rightarrow> None)"

fun decode_padded :: "(char \<Rightarrow> nat option) \<Rightarrow> string \<Rightarrow> string option" where
  "decode_padded val [] = Some []"
| "decode_padded val (a # b # c # d # rest) =
    (if d = CHR ''='' \<and> rest = [] then last_group val (if c = CHR ''='' then [a, b] else [a, b, c])
     else case full_group val [a, b, c, d] of
            None \<Rightarrow> None
          | Some bytes \<Rightarrow> map_option (\<lambda>t. bytes @ t) (decode_padded val rest))"
| "decode_padded val _ = None"

fun decode_raw :: "(char \<Rightarrow> nat option) \<Rightarrow> string \<Rightarrow> string option" where
  "decode_raw val [] = Some []"
| "decode_raw val (a # b # c # d # rest) =
    (case full_group val [a, b, c, d] of
       None \<Rightarrow> None
     | Some bytes \<Rightarrow> map_option (\<lambda>t. bytes @ t) (decode_raw val rest))"
| "decode_raw val cs = last_group val cs"

text \<open>The strict decoder refuses trailing bits that are not zero.\<close>

fun strict_end :: "(char \<Rightarrow> nat option) \<Rightarrow> string \<Rightarrow> bool" where
  "strict_end val [x, y] = (case val y of None \<Rightarrow> True | Some n \<Rightarrow> n mod 16 = 0)"
| "strict_end val [x, y, z] = (case val z of None \<Rightarrow> True | Some n \<Rightarrow> n mod 4 = 0)"
| "strict_end val (x # y # z # w # rest) = strict_end val rest"
| "strict_end val _ = True"

definition decode_raw_strict :: "(char \<Rightarrow> nat option) \<Rightarrow> string \<Rightarrow> string option" where
  "decode_raw_strict val s = (if strict_end val s then decode_raw val s else None)"

definition without_breaks :: "string \<Rightarrow> string" where
  "without_breaks = filter (\<lambda>c. c \<noteq> CHR 0x0A \<and> c \<noteq> CHR 0x0D)"

definition StdEncoding_EncodeToString :: "string \<Rightarrow> string" where
  "StdEncoding_EncodeToString = encode_groups base64_char ''=''"

definition StdEncoding_DecodeString :: "string \<Rightarrow> string option" where
  "StdEncoding_DecodeString s = decode_padded base64_value (without_breaks s)"

definition RawURLEncoding_EncodeToString :: "string \<Rightarrow> string" where
  "RawURLEncoding_EncodeToString = encode_groups base64url_char []"

definition RawURLEncoding_DecodeString :: "string \<Rightarrow> string option" where
  "RawURLEncoding_DecodeString s = decode_raw base64url_value (without_breaks s)"

definition RawStdEncoding_EncodeToString :: "string \<Rightarrow> string" where
  "RawStdEncoding_EncodeToString = encode_groups base64_char []"

definition RawStdEncoding_Strict_DecodeString :: "string \<Rightarrow> string option" where
  "RawStdEncoding_Strict_DecodeString s = decode_raw_strict base64_value (without_breaks s)"

section \<open>Round trips\<close>

text \<open>What the proofs need of an alphabet.\<close>

locale base64_alphabet =
  fixes chr :: "nat \<Rightarrow> char" and val :: "char \<Rightarrow> nat option"
  assumes val_chr: "n < 64 \<Longrightarrow> val (chr n) = Some n"
    and not_special: "n < 64 \<Longrightarrow> chr n \<notin> {CHR ''='', CHR 0x0A, CHR 0x0D, CHR ''.'', CHR ''$''}"
begin

lemma chr_chars: "n < 64 \<Longrightarrow> chr n \<noteq> CHR ''=''" "n < 64 \<Longrightarrow> chr n \<noteq> CHR 0x0A" "n < 64 \<Longrightarrow> chr n \<noteq> CHR 0x0D"
  "n < 64 \<Longrightarrow> chr n \<noteq> CHR ''.''" "n < 64 \<Longrightarrow> chr n \<noteq> CHR ''$''"
  using not_special by auto

end

lemma byte_less: "byte c < 256"
  using nat_of_char_less_256 by (simp add: byte_def)

lemma byte_parts: "byte c div 4 < 64" "byte c div 16 < 16" "byte c div 64 < 4"
  using byte_less[of c] by auto

lemma sextets:
  "byte a div 4 < 64" "byte a mod 4 * 16 < 64" "byte a mod 4 * 16 + byte b div 16 < 64"
  "byte b mod 16 * 4 < 64" "byte b mod 16 * 4 + byte c div 64 < 64" "byte c mod 64 < 64"
proof -
  have "byte a mod 4 < 4" "byte b mod 16 < 16" by simp_all
  with byte_parts[of a] byte_parts[of b] byte_parts[of c] show
    "byte a div 4 < 64" "byte a mod 4 * 16 < 64" "byte a mod 4 * 16 + byte b div 16 < 64"
    "byte b mod 16 * 4 < 64" "byte b mod 16 * 4 + byte c div 64 < 64" by linarith+
qed simp

lemma packed: "r < k \<Longrightarrow> (m * k + r) div k = m" "r < k \<Longrightarrow> (m * k + r) mod k = (r :: nat)"
  by auto

lemma bytes_of_sextets:
  "first_byte (byte a div 4) (byte a mod 4 * 16) = a"
  "first_byte (byte a div 4) (byte a mod 4 * 16 + byte b div 16) = a"
  "second_byte (byte a mod 4 * 16 + byte b div 16) (byte b mod 16 * 4) = b"
  "second_byte (byte a mod 4 * 16 + byte b div 16) (byte b mod 16 * 4 + byte c div 64) = b"
  "third_byte (byte b mod 16 * 4 + byte c div 64) (byte c mod 64) = c"
  by (simp_all only: first_byte_def second_byte_def third_byte_def packed byte_parts div_mult_mod_eq
        nonzero_mult_div_cancel_right numeral_neq_zero simp_thms)
     (simp_all add: byte_def)

lemma groups_induct [case_names Nil one two three]:
  assumes "P []" "\<And>a. P [a]" "\<And>a b. P [a, b]" "\<And>a b c rest. P rest \<Longrightarrow> P (a # b # c # rest)"
  shows "P (s :: string)"
  by (induction "\<lambda>n. char_of (n :: nat) :: char" "[] :: string" s rule: encode_groups.induct) (use assms in simp_all)

context base64_alphabet
begin

lemma encode_chars:
  "c \<in> set (encode_groups chr pad s) \<Longrightarrow> c \<in> set pad \<or> (\<exists>n<64. c = chr n)"
  by (induction s rule: groups_induct) (auto intro: sextets)

lemma encode_no_breaks:
  assumes "set pad \<subseteq> {CHR ''=''}"
  shows "without_breaks (encode_groups chr pad s) = encode_groups chr pad s"
  unfolding without_breaks_def
proof (rule filter_True, rule ballI)
  fix c assume "c \<in> set (encode_groups chr pad s)"
  with encode_chars[of c pad s] assms chr_chars show "c \<noteq> CHR 0x0A \<and> c \<noteq> CHR 0x0D" by auto
qed

lemma encode_no_dot: "CHR ''.'' \<notin> set (encode_groups chr [] s)"
  using encode_chars[of "CHR ''.''" "[]" s] chr_chars(4) by (metis empty_iff list.set(1))

lemma encode_no_dollar: "CHR ''$'' \<notin> set (encode_groups chr [] s)"
  using encode_chars[of "CHR ''$''" "[]" s] chr_chars(5) by (metis empty_iff list.set(1))

lemma strict_end_encode: "strict_end val (encode_groups chr [] s)"
  by (induction s rule: groups_induct) (simp_all add: val_chr sextets)

lemma decode_padded_encode: "decode_padded val (encode_groups chr ''='' s) = Some s"
  by (induction s rule: groups_induct)
     (simp_all add: last_group_def full_group_def val_chr sextets chr_chars bytes_of_sextets)

lemma decode_raw_encode: "decode_raw val (encode_groups chr [] s) = Some s"
  by (induction s rule: groups_induct)
     (simp_all add: last_group_def full_group_def val_chr sextets bytes_of_sextets)

end

lemma char_of_noteq: "m < 256 \<Longrightarrow> m \<noteq> of_char c \<Longrightarrow> char_of (m :: nat) \<noteq> c"
  by (metis mod_less of_char_of)

lemma alphabet_letters:
  assumes "n < 62"
  shows "alphabet_value c62 c63 (alphabet_char c62 c63 n) = Some n"
    "alphabet_char c62 c63 n \<notin> {CHR ''='', CHR 0x0A, CHR 0x0D, CHR ''.'', CHR ''$''}"
  using assms by (auto simp: alphabet_value_def alphabet_char_def Let_def char_of_noteq)

lemma alphabet_specials:
  assumes "c62 \<in> {CHR ''+'', CHR ''-''}" "c63 \<in> {CHR ''/'', CHR ''_''}" "n \<in> {62, 63}"
  shows "alphabet_value c62 c63 (alphabet_char c62 c63 n) = Some n"
    "alphabet_char c62 c63 n \<notin> {CHR ''='', CHR 0x0A, CHR 0x0D, CHR ''.'', CHR ''$''}"
  using assms by (auto simp: alphabet_value_def alphabet_char_def)

lemma alphabet_ok:
  assumes "c62 \<in> {CHR ''+'', CHR ''-''}" "c63 \<in> {CHR ''/'', CHR ''_''}"
  shows "base64_alphabet (alphabet_char c62 c63) (alphabet_value c62 c63)"
proof
  fix n :: nat assume "n < 64"
  then have n: "n < 62 \<or> n \<in> {62, 63}" by auto
  then show "alphabet_value c62 c63 (alphabet_char c62 c63 n) = Some n"
    using alphabet_letters(1)[of n] alphabet_specials(1)[OF assms, of n] by blast
  from n show "alphabet_char c62 c63 n \<notin> {CHR ''='', CHR 0x0A, CHR 0x0D, CHR ''.'', CHR ''$''}"
    using alphabet_letters(2)[of n] alphabet_specials(2)[OF assms, of n] by metis
qed

interpretation std: base64_alphabet base64_char base64_value
  unfolding base64_char_def base64_value_def by (rule alphabet_ok) simp_all

interpretation url: base64_alphabet base64url_char base64url_value
  unfolding base64url_char_def base64url_value_def by (rule alphabet_ok) simp_all

lemma RawStdEncoding_roundtrip [simp]: "RawStdEncoding_Strict_DecodeString (RawStdEncoding_EncodeToString s) = Some s"
  by (simp add: RawStdEncoding_Strict_DecodeString_def RawStdEncoding_EncodeToString_def decode_raw_strict_def
      std.encode_no_breaks std.decode_raw_encode std.strict_end_encode)

lemma RawStdEncoding_no_dollar: "CHR ''$'' \<notin> set (RawStdEncoding_EncodeToString s)"
  by (simp add: RawStdEncoding_EncodeToString_def std.encode_no_dollar)

lemma StdEncoding_roundtrip [simp]: "StdEncoding_DecodeString (StdEncoding_EncodeToString s) = Some s"
  by (simp add: StdEncoding_DecodeString_def StdEncoding_EncodeToString_def std.encode_no_breaks std.decode_padded_encode)

lemma RawURLEncoding_roundtrip [simp]: "RawURLEncoding_DecodeString (RawURLEncoding_EncodeToString s) = Some s"
  by (simp add: RawURLEncoding_DecodeString_def RawURLEncoding_EncodeToString_def url.encode_no_breaks url.decode_raw_encode)

lemma RawURLEncoding_no_dot: "CHR ''.'' \<notin> set (RawURLEncoding_EncodeToString s)"
  by (simp add: RawURLEncoding_EncodeToString_def url.encode_no_dot)

end
