(* ===== verification/Authz.thy ===== *)
theory Authz
  imports Authz_Checks Authz_Rules Base64
begin

text \<open>
  The authorizer of the HTTP API (pkg/api/authz/authz.go, resources.go, ui.go, oauthclient.go): the
  isolation of machine credentials, the rules of the groups, the resource patterns of the groups, the
  OAuth client endpoints and the user interface, in the order the code tries them.
\<close>

section \<open>Rules\<close>

text \<open>The patterns of a group are registered once each.\<close>

definition unseen_urls :: "string list \<Rightarrow> string list" where
  "unseen_urls urls = fold (\<lambda>url seen. if url \<in> set seen then seen else seen @ [url]) urls []"

definition rulesFromStatic :: "(string \<times> string list) list \<Rightarrow> (string \<times> pattern list) list" where
  "rulesFromStatic static = map (\<lambda>(group, urls). (group, register (unseen_urls urls))) static"

definition defaultRules :: "bool \<Rightarrow> bool \<Rightarrow> (string \<times> pattern list) list" where
  "defaultRules devMode registryNoAuth =
    (let registry = register [''GET /v0.1'', ''GET /v0.1/'']
     in rulesFromStatic staticRules
        @ [(if registryNoAuth then anyGroup else GroupBasic, registry), (if registryNoAuth then anyGroup else GroupMCP, registry)]
        @ (if devMode then map (\<lambda>(group, urls). (group, register urls)) devModeRules else []))"

definition NewAuthorizer ::
  "(nat \<Rightarrow> string result) \<Rightarrow> authz_client \<Rightarrow> authz_client \<Rightarrow> bool \<Rightarrow> acr_helper \<Rightarrow> SkillAccessRule indexer \<Rightarrow> bool \<Rightarrow>
   (string \<Rightarrow> string \<Rightarrow> bool) \<Rightarrow> (digestible \<Rightarrow> string) \<Rightarrow> Authorizer" where
  "NewAuthorizer getDeviceScan cache uncached devMode acrHelper skillHelper registryNoAuth bcrypt digest =
    \<lparr>auRules = defaultRules devMode registryNoAuth, auCache = cache, auUncached = uncached, auGetDeviceScan = getDeviceScan,
     auApiResources = map (\<lambda>(group, resources). (group, newPathMatcher resources)) apiResources,
     auACR = acrHelper, auSkills = skillHelper, auBcrypt = bcrypt, auDigest = digest\<rparr>"

section \<open>The user interface\<close>

definition checkUI :: "Request \<Rightarrow> User \<Rightarrow> bool" where
  "checkUI req user =
    (if Pattern req \<noteq> ''/'' \<or> (Method req \<noteq> ''GET'' \<and> Method req \<noteq> ''HEAD'') then False
     else if HasPrefix (URL_Path req) ''/admin/assets/'' then True
     else if URL_Path req = ''/admin'' \<or> URL_Path req = ''/admin/'' then True
     else case CutPrefix (URL_Path req) ''/admin/'' of
            Some rest \<Rightarrow> if rest \<noteq> [] then IsAdmin user \<or> IsAuditor user else True
          | None \<Rightarrow> True)"

section \<open>OAuth clients\<close>

text \<open>The split is the source's \<open>SplitN(decoded, ":", 2)\<close>, followed by a test for three parts.\<close>

definition oauthClientBasicAuth :: "Authorizer \<Rightarrow> Request \<Rightarrow> bool" where
  "oauthClientBasicAuth a r =
    (if URL_Path r \<noteq> ''/oauth/token'' then False
     else case CutPrefix (Authorization r) ''Basic '' of
            None \<Rightarrow> False
          | Some client \<Rightarrow>
              (case StdEncoding_DecodeString client of
                 None \<Rightarrow> False
               | Some decoded \<Rightarrow>
                   (let parts = SplitN2 decoded (CHR '':'')
                    in if length parts \<noteq> 3 then False
                       else (case az_get getOAuthClient a (parts ! 0) (parts ! 1) of
                               Inl _ \<Rightarrow> False
                             | Inr oauthClient \<Rightarrow> auBcrypt a (ocClientSecretHash oauthClient) (parts ! 2)))))"

definition checkOAuthClient :: "Authorizer \<Rightarrow> Request \<Rightarrow> bool" where
  "checkOAuthClient a r =
    (case CutPrefix (URL_Path r) ''/oauth/register/'' of
       None \<Rightarrow> oauthClientBasicAuth a r
     | Some key \<Rightarrow>
         (case Cut key (CHR '':'') of
            None \<Rightarrow> False
          | Some (namespace, name) \<Rightarrow>
              (case az_get getOAuthClient a namespace name of
                 Inl _ \<Rightarrow> False
               | Inr oauthClient \<Rightarrow> auBcrypt a (ocRegistrationTokenHash oauthClient) (TrimPrefix (Authorization r) ''Bearer ''))))"

section \<open>The decision\<close>

text \<open>A decision, or the panic of a path matcher.\<close>

datatype verdict = Decided bool | Panicked

definition matched :: "match_result \<Rightarrow> verdict" where
  "matched m = (case m of NoMatch \<Rightarrow> Decided False | Matched _ \<Rightarrow> Decided True | MatchPanics \<Rightarrow> Panicked)"

fun authorize_groups :: "Authorizer \<Rightarrow> Request \<Rightarrow> User \<Rightarrow> string list \<Rightarrow> verdict" where
  "authorize_groups a req user [] = Decided False"
| "authorize_groups a req user (g # gs) =
    (case Match (map_of (auApiResources a) g) req of
       NoMatch \<Rightarrow> authorize_groups a req user gs
     | MatchPanics \<Rightarrow> Panicked
     | Matched vars \<Rightarrow>
         (case evaluateResources a req vars user of
            Inr True \<Rightarrow> Decided True
          | _ \<Rightarrow> authorize_groups a req user gs))"

definition authorizeAPIResources :: "Authorizer \<Rightarrow> Request \<Rightarrow> User \<Rightarrow> verdict" where
  "authorizeAPIResources a req user = authorize_groups a req user (GetGroups (Info user))"

definition rules_allow :: "Authorizer \<Rightarrow> Request \<Rightarrow> User \<Rightarrow> bool" where
  "rules_allow a req user =
    list_ex (\<lambda>(group, mux). (group = anyGroup \<or> group \<in> set (GetGroups (Info user))) \<and> Handler_pattern mux req) (auRules a)"

definition Authorize :: "Authorizer \<Rightarrow> Request \<Rightarrow> user_info \<Rightarrow> verdict" where
  "Authorize a req userInfo =
    (let isSCIM = (URL_Path req = TrimSuffix scimPathPrefix ''/'' \<or> HasPrefix (URL_Path req) scimPathPrefix);
         groups = GetGroups userInfo
     in if GroupSCIM \<in> set groups then Decided (isSCIM \<and> GetUID userInfo \<noteq> [])
        else if isSCIM then Decided False
        else if GroupTunnel \<in> set groups
        then (if Method req \<noteq> ''GET'' then Decided False else matched (Match (Some (newPathMatcher tunnelResources)) req))
        else if GroupTunnelPeer \<in> set groups
        then (if Method req \<noteq> ''GET'' then Decided False else matched (Match (Some (newPathMatcher tunnelPeerResources)) req))
        else if GroupTunnelBridge \<in> set groups then matched (Match (Some (newPathMatcher tunnelBridgeResources)) req)
        else let user = newUser userInfo
             in if rules_allow a req user then Decided True
                else case authorizeAPIResources a req user of
                       Panicked \<Rightarrow> Panicked
                     | Decided True \<Rightarrow> Decided True
                     | Decided False \<Rightarrow> Decided (checkOAuthClient a req \<or> checkUI req user))"

section \<open>Lemmas\<close>

lemma scim_prefix: "TrimSuffix scimPathPrefix ''/'' = ''/scim/v2''"
  by (simp add: TrimSuffix_def CutSuffix_def HasSuffix_def scimPathPrefix_def)

lemma oauthClientBasicAuth_refuses: "\<not> oauthClientBasicAuth a r"
proof -
  have "length (SplitN2 s c) \<noteq> 3" for s c by (simp add: SplitN2_def split: option.split)
  then show ?thesis by (simp add: oauthClientBasicAuth_def Let_def split: option.splits)
qed

lemma authorize_groups_True:
  "authorize_groups a req user gs = Decided True \<Longrightarrow>
    \<exists>g\<in>set gs. \<exists>vars. Match (map_of (auApiResources a) g) req = Matched vars \<and> evaluateResources a req vars user = Inr True"
  by (induction a req user gs rule: authorize_groups.induct)
     (auto split: match_result.splits sum.splits bool.splits)

lemma newUser_fields:
  "Info (newUser u) = u" "IsAdmin (newUser u) \<longleftrightarrow> GroupAdmin \<in> set (GetGroups u)"
  "IsAuditor (newUser u) \<longleftrightarrow> GroupAuditor \<in> set (GetGroups u)" "IsOwner (newUser u) \<longleftrightarrow> GroupOwner \<in> set (GetGroups u)"
proof -
  let ?step = "\<lambda>g u. if g = GroupAdmin then u\<lparr>IsAdmin := True\<rparr> else if g = GroupAuditor then u\<lparr>IsAuditor := True\<rparr>
     else if g = GroupOwner then u\<lparr>IsOwner := True\<rparr> else u"
  have "Info (fold ?step gs v) = Info v \<and> IsAdmin (fold ?step gs v) = (IsAdmin v \<or> GroupAdmin \<in> set gs)
    \<and> IsAuditor (fold ?step gs v) = (IsAuditor v \<or> GroupAuditor \<in> set gs)
    \<and> IsOwner (fold ?step gs v) = (IsOwner v \<or> GroupOwner \<in> set gs)" for gs and v :: User
    by (induction gs arbitrary: v) (auto simp: GroupAdmin_def GroupAuditor_def GroupOwner_def)
  then show "Info (newUser u) = u" "IsAdmin (newUser u) \<longleftrightarrow> GroupAdmin \<in> set (GetGroups u)"
    "IsAuditor (newUser u) \<longleftrightarrow> GroupAuditor \<in> set (GetGroups u)" "IsOwner (newUser u) \<longleftrightarrow> GroupOwner \<in> set (GetGroups u)"
    by (simp_all add: newUser_def)
qed

lemma checkOAuthClient_True:
  assumes "checkOAuthClient a req"
  shows "\<exists>ns n c. URL_Path req = ''/oauth/register/'' @ ns @ '':'' @ n \<and> az_get getOAuthClient a ns n = Inr c
    \<and> auBcrypt a (ocRegistrationTokenHash c) (TrimPrefix (Authorization req) ''Bearer '')"
proof -
  from assms obtain key where key: "CutPrefix (URL_Path req) ''/oauth/register/'' = Some key"
    by (auto simp: checkOAuthClient_def oauthClientBasicAuth_refuses split: option.splits)
  with assms obtain ns n where "Cut key (CHR '':'') = Some (ns, n)"
    by (auto simp: checkOAuthClient_def split: option.splits)
  moreover with assms key obtain c where "az_get getOAuthClient a ns n = Inr c"
    "auBcrypt a (ocRegistrationTokenHash c) (TrimPrefix (Authorization req) ''Bearer '')"
    by (auto simp: checkOAuthClient_def split: sum.splits)
  moreover have "URL_Path req = ''/oauth/register/'' @ key" using key by (simp only: CutPrefix_Some)
  ultimately show ?thesis by (intro exI [of _ ns] exI [of _ n] exI [of _ c]) (auto dest: Cut_SomeD)
qed

text \<open>The paths of the SCIM endpoint.\<close>

definition scim_path :: "string \<Rightarrow> bool" where
  "scim_path p \<longleftrightarrow> p = ''/scim/v2'' \<or> (\<exists>rest. p = ''/scim/v2/'' @ rest)"

section \<open>Properties\<close>

text \<open>
  C1: the SCIM endpoint and the SCIM principal are isolated from everything else. A request on a SCIM path is
  authorized exactly for a principal of the SCIM group with an identity, and such a principal is
  authorized on no other path.
\<close>

theorem scim_isolation:
  "(scim_path (URL_Path req) \<longrightarrow> Authorize a req u = Decided (GroupSCIM \<in> set (GetGroups u) \<and> GetUID u \<noteq> []))
    \<and> (\<not> scim_path (URL_Path req) \<and> GroupSCIM \<in> set (GetGroups u) \<longrightarrow> Authorize a req u = Decided False)"
proof -
  have "HasPrefix (URL_Path req) scimPathPrefix \<longleftrightarrow> (\<exists>rest. URL_Path req = ''/scim/v2/'' @ rest)"
    by (simp add: HasPrefix_iff scimPathPrefix_def)
  then show ?thesis unfolding scim_path_def by (auto simp: Authorize_def Let_def scim_prefix)
qed

theorem scim_isolation_witness:
  "Authorize example_authorizer (example_request ''GET'' ''/scim/v2/Users'') (scoped_user [GroupSCIM] []) = Decided True"
proof -
  have "scim_path (URL_Path (example_request ''GET'' ''/scim/v2/Users''))" by (simp add: scim_path_def example_request_def)
  with scim_isolation [of "example_request ''GET'' ''/scim/v2/Users''" example_authorizer "scoped_user [GroupSCIM] []"]
  show ?thesis by (simp add: scoped_user_def)
qed

text \<open>
  C3: what authorizes an ordinary principal. When a principal without machine credentials is authorized,
  a rule of one of its groups (or of all) matches the request; or a resource pattern of one of its
  groups matches and every resource the request names was evaluated without an error and granted; or
  the request manages an OAuth client and carries that client's registration token; or it is a read of
  the user interface, under \<open>/admin/\<close> only for administrators and auditors. In particular no
  evaluation error, no backend route without a rule and no basic authentication of a client authorizes.
\<close>

theorem authorized_only_by:
  assumes "Authorize a req u = Decided True"
    and "set (GetGroups u) \<inter> {GroupSCIM, GroupTunnel, GroupTunnelPeer, GroupTunnelBridge} = {}"
  shows "(\<exists>(g, mux)\<in>set (auRules a). (g = anyGroup \<or> g \<in> set (GetGroups u)) \<and> findHandler mux req \<noteq> Unmatched)
    \<or> (\<exists>g\<in>set (GetGroups u). \<exists>vars. Match (map_of (auApiResources a) g) req = Matched vars
          \<and> evaluateResources a req vars (newUser u) = Inr True)
    \<or> (\<exists>ns n c. URL_Path req = ''/oauth/register/'' @ ns @ '':'' @ n \<and> az_get getOAuthClient a ns n = Inr c
          \<and> auBcrypt a (ocRegistrationTokenHash c) (TrimPrefix (Authorization req) ''Bearer ''))
    \<or> (Pattern req = ''/'' \<and> Method req \<in> {''GET'', ''HEAD''}
        \<and> (HasPrefix (URL_Path req) ''/admin/'' \<longrightarrow> URL_Path req = ''/admin/'' \<or> HasPrefix (URL_Path req) ''/admin/assets/''
             \<or> GroupAdmin \<in> set (GetGroups u) \<or> GroupAuditor \<in> set (GetGroups u)))" (is "?rules \<or> ?res \<or> ?client \<or> ?ui")
proof -
  from assms consider "rules_allow a req (newUser u)" | "authorizeAPIResources a req (newUser u) = Decided True"
    | "checkOAuthClient a req" | "checkUI req (newUser u)"
    by (auto simp: Authorize_def Let_def split: if_splits verdict.splits bool.splits)
  then show ?thesis
  proof cases
    case 1
    then show ?thesis by (auto simp: rules_allow_def list_ex_iff Handler_pattern_def newUser_fields)
  next
    case 2
    then show ?thesis using authorize_groups_True by (fastforce simp: authorizeAPIResources_def newUser_fields)
  next
    case 3
    then have ?client by (rule checkOAuthClient_True)
    then show ?thesis by blast
  next
    case 4
    then have ?ui by (auto simp: checkUI_def newUser_fields CutPrefix_def HasPrefix_iff split: if_splits option.splits)
    then show ?thesis by blast
  qed
qed

theorem authorized_only_by_witness:
  "Pattern (example_request ''GET'' ''/admin/users'') = ''/''
   \<and> Authorize example_authorizer (example_request ''GET'' ''/admin/users'') (scoped_user [GroupAuditor] []) = Decided True"
proof -
  let ?req = "example_request ''GET'' ''/admin/users''" and ?u = "scoped_user [GroupAuditor] []"
  have groups: "set (GetGroups ?u) \<inter> {GroupSCIM, GroupTunnel, GroupTunnelPeer, GroupTunnelBridge} = {}"
    by (simp add: scoped_user_def GroupAuditor_def GroupSCIM_def GroupTunnel_def GroupTunnelPeer_def GroupTunnelBridge_def)
  have ok: "Authorize example_authorizer ?req ?u = Decided True"
    using groups
    by (simp add: Authorize_def Let_def scim_prefix)
       (simp add: rules_allow_def authorizeAPIResources_def Match_def checkUI_def newUser_fields
        example_authorizer_def example_request_def scoped_user_def scimPathPrefix_def HasPrefix_def CutPrefix_def Let_def)
  from authorized_only_by [OF ok groups] ok show ?thesis by (simp add: example_request_def)
qed

text \<open>The patterns of the machine credentials, parsed.\<close>

lemma tunnel_patterns:
  "newPathMatcher tunnelResources =
    [\<lparr>patStr = ''GET /tunnel/connect'', patMethod = ''GET'', patSegments = [Lit ''tunnel'', Lit ''connect'']\<rparr>]"
  "newPathMatcher tunnelPeerResources =
    [\<lparr>patStr = ''GET /tunnel/peer'', patMethod = ''GET'', patSegments = [Lit ''tunnel'', Lit ''peer'']\<rparr>]"
  "newPathMatcher tunnelBridgeResources =
    [\<lparr>patStr = ''/tunnel/bridge/{target}'', patMethod = [], patSegments = [Lit ''tunnel'', Lit ''bridge'', Wild ''target'']\<rparr>,
     \<lparr>patStr = ''GET /tunnel/composite/register/{key}'', patMethod = ''GET'',
      patSegments = [Lit ''tunnel'', Lit ''composite'', Lit ''register'', Wild ''key'']\<rparr>]"
  by code_simp+

text \<open>
  C2: the credentials of tunnels, peers and bridges are confined to their own endpoints, whatever other
  groups they carry and whatever the method: a tunnel is authorized only to read \<open>/tunnel/connect\<close>, a peer only to read \<open>/tunnel/peer\<close>, and a
  bridge only for \<open>/tunnel/bridge/{target}\<close>, with any method, and to read \<open>/tunnel/composite/register/{key}\<close>. A principal that also is in the SCIM
  group is authorized on the SCIM paths instead, and nowhere else.
\<close>

theorem internal_credentials_confined:
  assumes "Authorize a req u = Decided True"
  shows "if GroupSCIM \<in> set (GetGroups u) then scim_path (URL_Path req)
    else if GroupTunnel \<in> set (GetGroups u)
    then Method req = ''GET'' \<and> path_elements (EscapedPath req) = [''tunnel'', ''connect'']
    else if GroupTunnelPeer \<in> set (GetGroups u)
    then Method req = ''GET'' \<and> path_elements (EscapedPath req) = [''tunnel'', ''peer'']
    else if GroupTunnelBridge \<in> set (GetGroups u)
    then (\<exists>t. path_elements (EscapedPath req) = [''tunnel'', ''bridge'', t])
      \<or> (\<exists>k. Method req \<in> {''GET'', ''HEAD''} \<and> path_elements (EscapedPath req) = [''tunnel'', ''composite'', ''register'', k])
    else True"
proof -
  have matched: "\<exists>p\<in>set (newPathMatcher rs). method_fits p (Method req) \<and> list_all2 fits (patSegments p) (path_elements (EscapedPath req))"
    if "matched (Match (Some (newPathMatcher rs)) req) = Decided True"
      "\<forall>p\<in>set (newPathMatcher rs). patSegments p \<noteq> [] \<and> list_all plain_segment (patSegments p)" for rs
    using that Match_fits by (auto simp: matched_def split: match_result.splits)
  have scim: "URL_Path req = ''/scim/v2'' \<or> HasPrefix (URL_Path req) scimPathPrefix \<Longrightarrow> scim_path (URL_Path req)"
    by (auto simp: scim_path_def HasPrefix_iff scimPathPrefix_def)
  note decide = assms [unfolded Authorize_def Let_def scim_prefix]
  consider (scim) "GroupSCIM \<in> set (GetGroups u)" | (tunnel) "GroupSCIM \<notin> set (GetGroups u)" "GroupTunnel \<in> set (GetGroups u)"
    | (peer) "GroupSCIM \<notin> set (GetGroups u)" "GroupTunnel \<notin> set (GetGroups u)" "GroupTunnelPeer \<in> set (GetGroups u)"
    | (bridge) "GroupSCIM \<notin> set (GetGroups u)" "GroupTunnel \<notin> set (GetGroups u)" "GroupTunnelPeer \<notin> set (GetGroups u)"
      "GroupTunnelBridge \<in> set (GetGroups u)"
    | (other) "GroupSCIM \<notin> set (GetGroups u)" "GroupTunnel \<notin> set (GetGroups u)" "GroupTunnelPeer \<notin> set (GetGroups u)"
      "GroupTunnelBridge \<notin> set (GetGroups u)" by blast
  then show ?thesis
  proof cases
    case scim
    with decide \<open>_ \<Longrightarrow> scim_path (URL_Path req)\<close> show ?thesis by (auto split: if_splits)
  next
    case tunnel
    with decide matched [of tunnelResources] show ?thesis by (auto simp: tunnel_patterns list_all2_Cons1 split: if_splits)
  next
    case peer
    with decide matched [of tunnelPeerResources] show ?thesis by (auto simp: tunnel_patterns list_all2_Cons1 split: if_splits)
  next
    case bridge
    with decide matched [of tunnelBridgeResources] show ?thesis
      by (auto simp: tunnel_patterns list_all2_Cons1 method_fits_def split: if_splits)
  qed simp
qed

text \<open>A tunnel connects and a bridge reaches its target with \<open>CONNECT\<close>; neither reads the list of users, also as an administrator.\<close>

theorem internal_credentials_confined_witness:
  "Authorize example_authorizer (example_request ''GET'' ''/tunnel/connect'') (scoped_user [GroupTunnel] []) = Decided True
   \<and> path_elements (EscapedPath (example_request ''GET'' ''/tunnel/connect'')) = [''tunnel'', ''connect'']
   \<and> Authorize example_authorizer (example_request ''CONNECT'' ''/tunnel/bridge/x'') (scoped_user [GroupTunnelBridge] []) = Decided True
   \<and> Authorize example_authorizer (example_request ''GET'' ''/api/users'') (scoped_user [GroupAdmin, GroupTunnel] []) \<noteq> Decided True
   \<and> Authorize example_authorizer (example_request ''GET'' ''/api/users'') (scoped_user [GroupAdmin, GroupTunnelBridge] []) \<noteq> Decided True"
proof -
  have groups: "GroupSCIM \<noteq> GroupTunnel" "GroupSCIM \<noteq> GroupAdmin" "GroupTunnelBridge \<noteq> GroupSCIM" "GroupTunnelBridge \<noteq> GroupTunnel"
    "GroupTunnelBridge \<noteq> GroupTunnelPeer" "GroupAdmin \<noteq> GroupTunnel" "GroupAdmin \<noteq> GroupTunnelPeer" "GroupAdmin \<noteq> GroupTunnelBridge" by code_simp+
  have "findHandler (newPathMatcher tunnelResources) (example_request ''GET'' ''/tunnel/connect'') = Handled (hd (newPathMatcher tunnelResources)) []"
    "findHandler (newPathMatcher tunnelBridgeResources) (example_request ''CONNECT'' ''/tunnel/bridge/x'')
      = Handled (hd (newPathMatcher tunnelBridgeResources)) [''x'']" by code_simp+
  then have ok: "Authorize example_authorizer (example_request ''GET'' ''/tunnel/connect'') (scoped_user [GroupTunnel] []) = Decided True"
    "Authorize example_authorizer (example_request ''CONNECT'' ''/tunnel/bridge/x'') (scoped_user [GroupTunnelBridge] []) = Decided True"
    by (simp_all add: Authorize_def Let_def scim_prefix Match_def matched_def scoped_user_def groups groups [symmetric])
       (simp_all add: example_request_def scimPathPrefix_def HasPrefix_def)
  have elements: "path_elements (EscapedPath (example_request ''GET'' ''/api/users'')) = [''api'', ''users'']" by code_simp
  have "Authorize example_authorizer (example_request ''GET'' ''/api/users'') (scoped_user [GroupAdmin, g] []) \<noteq> Decided True" if "g \<in> {GroupTunnel, GroupTunnelBridge}" for g
    using internal_credentials_confined [of example_authorizer "example_request ''GET'' ''/api/users''" "scoped_user [GroupAdmin, g] []"] that groups elements
    by (auto simp: scoped_user_def)
  with ok internal_credentials_confined [OF ok(1)] groups show ?thesis by (simp add: scoped_user_def)
qed

text \<open>
  An unauthenticated request for \<open>/mcp-connect\<close>, without a trailing slash, makes the authorization of
  resources panic instead of deciding: the pattern \<open>/mcp-connect/\<close> answers it with a redirect, which the
  path matcher runs without a response writer.
\<close>

theorem connect_root_panics:
  "authorizeAPIResources (NewAuthorizer getDeviceScan cache uncached devMode acrHelper skillHelper registryNoAuth bcrypt digest)
     \<lparr>Method = ''GET'', URL_Path = ''/mcp-connect'', EscapedPath = ''/mcp-connect'', Pattern = ''/'', Authorization = []\<rparr>
     (newUser \<lparr>GetName = ''anonymous'', GetUID = ''anonymous'', GetGroups = [UnauthenticatedGroup], GetExtra = (\<lambda>_. [])\<rparr>) = Panicked"
proof -
  have "findHandler (newPathMatcher api_UnauthenticatedGroup)
     \<lparr>Method = ''GET'', URL_Path = ''/mcp-connect'', EscapedPath = ''/mcp-connect'', Pattern = ''/'', Authorization = []\<rparr> = Redirected"
    by code_simp
  then show ?thesis
    by (simp add: authorizeAPIResources_def Match_def newUser_fields NewAuthorizer_def apiResources_def UnauthenticatedGroup_def
        GroupAPI_def GroupPowerUser_def GroupPowerUserPlus_def GroupMCP_def GroupClaudeEnvironment_def GroupCompositeMCP_def
        GroupSkills_def GroupDeviceScans_def)
qed

end
