(* ===== verification/Login_Throttle.thy ===== *)
theory Login_Throttle
  imports Prelude
begin

text \<open>
  The login throttle of the built-in password provider (pkg/localauth/throttle.go): a count of recent
  failures for each email, with the time of the first. Times are integers in nanoseconds, and the
  current time, which the source reads from the clock, is an argument of every operation. The mutex
  makes every operation atomic, but a login (pkg/localauth/provider.go) takes it twice: it asks whether the email is
  blocked, checks the password without the lock, and then records the failure or the success. A run
  is an interleaving of these steps of any number of logins.
\<close>

section \<open>State and operations\<close>

definition maxFailedAttempts :: int where "maxFailedAttempts = 10"
definition failureWindow :: int where "failureWindow = 15 * 60 * 1000000000"

record failureCount =
  fcCount :: int
  fcFirst :: int

type_synonym throttle = "string \<rightharpoonup> failureCount"

definition newThrottle :: throttle where "newThrottle = Map.empty"

definition elapsed :: "int \<Rightarrow> failureCount \<Rightarrow> bool" where
  "elapsed now f = (now - fcFirst f > failureWindow)"

definition blocked :: "int \<Rightarrow> string \<Rightarrow> throttle \<Rightarrow> bool \<times> throttle" where
  "blocked now email t =
    (case t email of
       None \<Rightarrow> (False, t)
     | Some f \<Rightarrow> if elapsed now f then (False, t(email := None)) else (fcCount f \<ge> maxFailedAttempts, t))"

definition failed :: "int \<Rightarrow> string \<Rightarrow> throttle \<Rightarrow> throttle" where
  "failed now email t =
    (case t email of
       None \<Rightarrow> t(email \<mapsto> \<lparr>fcCount = 1, fcFirst = now\<rparr>)
     | Some f \<Rightarrow> if elapsed now f then t(email \<mapsto> \<lparr>fcCount = 1, fcFirst = now\<rparr>)
                 else t(email \<mapsto> f\<lparr>fcCount := fcCount f + 1\<rparr>))"

definition succeeded :: "string \<Rightarrow> throttle \<Rightarrow> throttle" where
  "succeeded email t = t(email := None)"

definition sweep :: "int \<Rightarrow> throttle \<Rightarrow> throttle" where
  "sweep now t = (\<lambda>email. case t email of None \<Rightarrow> None | Some f \<Rightarrow> if elapsed now f then None else Some f)"

section \<open>Runs\<close>

text \<open>
  What logins and the sweeper do to the throttle. A login asks first, and is in flight when it is not blocked; a login in
  flight ends with a wrong password, which it records, with a success, or in another way (an error of the
  database, or a domain that is not allowed), which it does not record.
\<close>

datatype throttle_event = Ask string | Fail string | Succeed string | Leave string | Sweep

text \<open>
  The state of a run, as seen for one email: the throttle, the emails of the logins in flight, the most logins
  that have been in flight for the email at once, and for each wrong password of the email the start
  of the window it was counted in and the time when it was recorded.
\<close>

record throttle_run =
  trThrottle :: throttle
  trFlying :: "string list"
  trPeak :: nat
  trLog :: "(int \<times> int) list"

definition ask :: "string \<Rightarrow> int \<Rightarrow> string \<Rightarrow> throttle_run \<Rightarrow> throttle_run" where
  "ask email now x st =
    (case blocked now x (trThrottle st) of (b, t) \<Rightarrow>
       if b then st\<lparr>trThrottle := t\<rparr>
       else st\<lparr>trThrottle := t, trFlying := x # trFlying st, trPeak := max (trPeak st) (count_list (x # trFlying st) email)\<rparr>)"

definition fail :: "string \<Rightarrow> int \<Rightarrow> string \<Rightarrow> throttle_run \<Rightarrow> throttle_run" where
  "fail email now x st =
    (if x \<in> set (trFlying st)
     then let t = failed now x (trThrottle st)
          in st\<lparr>trThrottle := t, trFlying := remove1 x (trFlying st),
                trLog := (if x = email then (fcFirst (the (t email)), now) # trLog st else trLog st)\<rparr>
     else st)"

definition throttle_step :: "string \<Rightarrow> int \<times> throttle_event \<Rightarrow> throttle_run \<Rightarrow> throttle_run" where
  "throttle_step email ev st =
    (case ev of (now, e) \<Rightarrow>
      (case e of
         Ask x \<Rightarrow> ask email now x st
       | Fail x \<Rightarrow> fail email now x st
       | Succeed x \<Rightarrow> if x \<in> set (trFlying st) then st\<lparr>trThrottle := succeeded x (trThrottle st), trFlying := remove1 x (trFlying st)\<rparr> else st
       | Leave x \<Rightarrow> st\<lparr>trFlying := remove1 x (trFlying st)\<rparr>
       | Sweep \<Rightarrow> st\<lparr>trThrottle := sweep now (trThrottle st)\<rparr>))"

definition start_run :: throttle_run where
  "start_run = \<lparr>trThrottle = newThrottle, trFlying = [], trPeak = 0, trLog = []\<rparr>"

definition run_events :: "string \<Rightarrow> (int \<times> throttle_event) list \<Rightarrow> throttle_run" where
  "run_events email events = fold (throttle_step email) events start_run"

definition wrong_guesses :: "string \<Rightarrow> (int \<times> throttle_event) list \<Rightarrow> int list" where
  "wrong_guesses email events = map snd (trLog (run_events email events))"

text \<open>The most logins for the email that are in flight at once.\<close>

definition concurrent_logins :: "string \<Rightarrow> (int \<times> throttle_event) list \<Rightarrow> nat" where
  "concurrent_logins email events = trPeak (run_events email events)"

section \<open>The windows of a run\<close>

definition in_window :: "int \<Rightarrow> (int \<times> int) list \<Rightarrow> int" where
  "in_window s log = int (length (filter (\<lambda>e. fst e = s) log))"

lemma in_window_Cons [simp]: "in_window s (e # log) = in_window s log + (if fst e = s then 1 else 0)"
  by (simp add: in_window_def)

lemma in_window_fresh: "(\<And>e. e \<in> set log \<Longrightarrow> fst e \<noteq> s) \<Longrightarrow> in_window s log = 0"
  by (auto simp: in_window_def filter_empty_conv)

text \<open>
  The invariant of a run: the logged guesses fall in windows of bounded length and bounded population
  that start more than a window apart, and the entry of the email, if there is one, is the last of them. Once
  the limit is reached, what is recorded and what is still in flight stay within the bound together.
\<close>

definition guess_limit :: "nat \<Rightarrow> int" where
  "guess_limit peak = maxFailedAttempts + int peak - 1"

definition log_ok :: "nat \<Rightarrow> int \<Rightarrow> (int \<times> int) list \<Rightarrow> bool" where
  "log_ok peak now log =
    ((\<forall>e\<in>set log. fst e \<le> snd e \<and> snd e \<le> fst e + failureWindow \<and> fst e \<le> now)
     \<and> (\<forall>e\<in>set log. \<forall>d\<in>set log. fst e < fst d \<longrightarrow> fst e + failureWindow < fst d)
     \<and> (\<forall>e\<in>set log. in_window (fst e) log \<le> guess_limit peak))"

definition entry_ok :: "nat \<Rightarrow> nat \<Rightarrow> int \<Rightarrow> failureCount option \<Rightarrow> (int \<times> int) list \<Rightarrow> bool" where
  "entry_ok flying peak now entry log =
    (case entry of
       None \<Rightarrow> (\<forall>e\<in>set log. fst e + failureWindow < now)
     | Some f \<Rightarrow> fcFirst f \<le> now \<and> in_window (fcFirst f) log \<le> fcCount f
         \<and> (maxFailedAttempts \<le> fcCount f \<longrightarrow> fcCount f + int flying \<le> guess_limit peak)
         \<and> (\<forall>e\<in>set log. fst e = fcFirst f \<or> fst e + failureWindow < fcFirst f))"

definition run_ok :: "string \<Rightarrow> int \<Rightarrow> throttle_run \<Rightarrow> bool" where
  "run_ok email now st =
    (let flying = count_list (trFlying st) email
     in flying \<le> trPeak st \<and> log_ok (trPeak st) now (trLog st) \<and> entry_ok flying (trPeak st) now (trThrottle st email) (trLog st))"

lemma run_ok_later: "run_ok email now st \<Longrightarrow> now \<le> now' \<Longrightarrow> run_ok email now' st"
  by (fastforce simp: run_ok_def log_ok_def entry_ok_def Let_def split: option.splits)

lemma failureWindow_pos [simp]: "0 \<le> failureWindow" "0 < failureWindow"
  by (simp_all add: failureWindow_def)

lemma expired_entry_ok: "entry_ok flying peak now (Some f) log \<Longrightarrow> elapsed now f \<Longrightarrow> entry_ok flying' peak' now None log"
  using failureWindow_pos by (fastforce simp: entry_ok_def elapsed_def)

lemma log_ok_peak: "log_ok peak now log \<Longrightarrow> peak \<le> peak' \<Longrightarrow> log_ok peak' now log"
  by (fastforce simp: log_ok_def guess_limit_def)

lemma new_window:
  assumes "log_ok peak now log" "entry_ok flying peak now None log" "0 < peak"
  shows "log_ok peak now ((now, now) # log)" "entry_ok flying' peak now (Some \<lparr>fcCount = 1, fcFirst = now\<rparr>) ((now, now) # log)"
proof -
  have far: "fst e + failureWindow < now" if "e \<in> set log" for e
    using assms(2) that by (simp add: entry_ok_def)
  have fresh: "in_window now log = 0"
  proof (rule in_window_fresh)
    fix e assume "e \<in> set log"
    from far[OF this] show "fst e \<noteq> now" using failureWindow_pos(2) by linarith
  qed
  show "log_ok peak now ((now, now) # log)"
    using assms(1,3) far fresh by (fastforce simp: log_ok_def guess_limit_def maxFailedAttempts_def)
  show "entry_ok flying' peak now (Some \<lparr>fcCount = 1, fcFirst = now\<rparr>) ((now, now) # log)"
    using far fresh by (simp add: entry_ok_def maxFailedAttempts_def)
qed

lemma same_window:
  assumes log: "log_ok peak now log" and entry: "entry_ok (Suc flying) peak now (Some f) log"
    and "\<not> elapsed now f" "Suc flying \<le> peak"
  shows "log_ok peak now ((fcFirst f, now) # log)"
    "entry_ok flying peak now (Some (f\<lparr>fcCount := fcCount f + 1\<rparr>)) ((fcFirst f, now) # log)"
proof -
  have start: "fcFirst f \<le> now" "now \<le> fcFirst f + failureWindow" "in_window (fcFirst f) log \<le> fcCount f"
    "fcCount f + 1 \<le> guess_limit peak" "maxFailedAttempts \<le> fcCount f + 1 \<longrightarrow> fcCount f + 1 + int flying \<le> guess_limit peak"
    using assms by (auto simp: entry_ok_def elapsed_def guess_limit_def)
  have older: "fst e = fcFirst f \<or> fst e + failureWindow < fcFirst f" if "e \<in> set log" for e
    using entry that by (simp add: entry_ok_def)
  have "\<not> fcFirst f < fst e" if "e \<in> set log" for e
    using older[OF that] failureWindow_pos by linarith
  moreover have "fst e < fcFirst f \<longrightarrow> fst e + failureWindow < fcFirst f" if "e \<in> set log" for e
    using older[OF that] by auto
  ultimately show "log_ok peak now ((fcFirst f, now) # log)"
    using log start by (auto simp: log_ok_def)
  show "entry_ok flying peak now (Some (f\<lparr>fcCount := fcCount f + 1\<rparr>)) ((fcFirst f, now) # log)"
    using start older by (auto simp: entry_ok_def)
qed

text \<open>Fewer logins in flight, or other emails, or an entry that is dropped when it has elapsed, keep the invariant.\<close>

lemma run_ok_fewer:
  assumes "run_ok email now st" "count_list (trFlying st') email \<le> count_list (trFlying st) email" "trPeak st' = trPeak st"
    "trLog st' = trLog st" "trThrottle st' email = trThrottle st email
      \<or> trThrottle st' email = None \<and> (\<exists>f. trThrottle st email = Some f \<and> elapsed now f)"
  shows "run_ok email now st'"
proof -
  have "entry_ok (count_list (trFlying st') email) (trPeak st) now (trThrottle st email) (trLog st)"
    using assms(1,2) by (fastforce simp: run_ok_def entry_ok_def Let_def split: option.splits)
  with assms show ?thesis by (auto simp: run_ok_def Let_def dest: expired_entry_ok)
qed

lemma count_remove1: "count_list (remove1 x xs) y = (if x = y then count_list xs y - 1 else count_list xs y)"
  by (induction xs) (auto, (metis Suc_pred count_list_0_iff not_gr0)?)

lemma other_entry:
  "x \<noteq> email \<Longrightarrow> snd (blocked now x t) email = t email" "x \<noteq> email \<Longrightarrow> failed now x t email = t email"
  by (auto simp: blocked_def failed_def split: option.splits)

lemma blocked_cases:
  assumes "blocked now x t = (b, t')"
  shows "t' x = t x \<and> (b \<longleftrightarrow> (\<exists>f. t x = Some f \<and> \<not> elapsed now f \<and> maxFailedAttempts \<le> fcCount f)) \<and> (\<forall>f. t x = Some f \<longrightarrow> \<not> elapsed now f)
    \<or> t' x = None \<and> \<not> b \<and> (\<exists>f. t x = Some f \<and> elapsed now f)"
  using assms by (auto simp: blocked_def split: option.splits if_splits)

lemma ask_ok:
  assumes "run_ok email now st"
  shows "run_ok email now (ask email now x st)"
proof -
  obtain b t where b: "blocked now x (trThrottle st) = (b, t)" by fastforce
  show ?thesis
  proof (cases "x = email \<and> \<not> b")
    case False
    have "t email = trThrottle st email \<or> t email = None \<and> (\<exists>f. trThrottle st email = Some f \<and> elapsed now f)"
      using blocked_cases[OF b] other_entry(1)[of x email now "trThrottle st"] b by (cases "x = email") auto
    moreover have "b \<or> count_list (x # trFlying st) email = count_list (trFlying st) email" using False by auto
    moreover have "count_list (trFlying st) email \<le> trPeak st" using assms by (simp add: run_ok_def Let_def)
    ultimately show ?thesis using b by (intro run_ok_fewer[OF assms]) (auto simp: ask_def split: if_splits)
  next
    case True
    let ?n = "count_list (trFlying st) email"
    have ok: "?n \<le> trPeak st" "log_ok (trPeak st) now (trLog st)" "entry_ok ?n (trPeak st) now (trThrottle st email) (trLog st)"
      using assms by (simp_all add: run_ok_def Let_def)
    have "entry_ok (Suc ?n) (max (trPeak st) (Suc ?n)) now (t email) (trLog st)"
    proof (cases "t email = None \<and> trThrottle st email \<noteq> None")
      case True
      with ok(3) blocked_cases[OF b] \<open>x = email \<and> \<not> b\<close> show ?thesis by (auto dest: expired_entry_ok)
    next
      case False
      with ok(3) blocked_cases[OF b] \<open>x = email \<and> \<not> b\<close> show ?thesis by (auto simp: entry_ok_def split: option.splits)
    qed
    with True b ok(1) log_ok_peak[OF ok(2)] show ?thesis by (simp add: ask_def run_ok_def)
  qed
qed

lemma fail_ok:
  assumes "run_ok email now st"
  shows "run_ok email now (fail email now x st)"
proof (cases "x = email \<and> x \<in> set (trFlying st)")
  case False
  then show ?thesis
    using other_entry(2)[of x email now "trThrottle st"] assms
    by (auto intro!: run_ok_fewer[OF assms] simp: fail_def count_remove1 Let_def)
next
  case True
  then obtain n where n: "count_list (trFlying st) email = Suc n" by (metis count_list_0_iff not0_implies_Suc)
  have ok: "Suc n \<le> trPeak st" "log_ok (trPeak st) now (trLog st)" "entry_ok (Suc n) (trPeak st) now (trThrottle st email) (trLog st)"
    using assms by (simp_all add: run_ok_def Let_def n)
  have "log_ok (trPeak st) now ((fcFirst (the (failed now email (trThrottle st) email)), now) # trLog st)
    \<and> entry_ok n (trPeak st) now (failed now email (trThrottle st) email) ((fcFirst (the (failed now email (trThrottle st) email)), now) # trLog st)"
  proof (cases "trThrottle st email")
    case None
    with ok show ?thesis using new_window[OF ok(2)] by (simp add: failed_def)
  next
    case (Some f)
    show ?thesis
    proof (cases "elapsed now f")
      case True
      with Some ok show ?thesis using new_window[OF ok(2) expired_entry_ok[OF ok(3)[unfolded Some] True]] by (simp add: failed_def)
    next
      case False
      with Some ok show ?thesis using same_window[OF ok(2) ok(3)[unfolded Some] False ok(1)] by (simp add: failed_def)
    qed
  qed
  moreover have "email \<in> set (trFlying st)" using True by blast
  ultimately show ?thesis using True n ok(1) by (simp add: fail_def run_ok_def Let_def count_remove1)
qed

lemma throttle_step_ok:
  assumes "run_ok email now st" "e \<noteq> Succeed email"
  shows "run_ok email now (throttle_step email (now, e) st)"
proof (cases e)
  case Sweep
  then show ?thesis
    by (auto intro!: run_ok_fewer[OF assms(1)] simp: throttle_step_def sweep_def split: option.splits if_splits)
qed (use assms in \<open>auto intro!: ask_ok fail_ok run_ok_fewer[OF assms(1)] simp: throttle_step_def succeeded_def count_remove1\<close>)

lemma throttle_fold_ok:
  assumes "run_ok email now st" "sorted (map fst events)" "\<forall>ev\<in>set events. now \<le> fst ev \<and> snd ev \<noteq> Succeed email"
  shows "\<exists>end. run_ok email end (fold (throttle_step email) events st)"
  using assms
proof (induction events arbitrary: now st)
  case Nil
  then show ?case by auto
next
  case (Cons ev events)
  obtain later e where ev: "ev = (later, e)" by force
  have "run_ok email later st" using run_ok_later[OF Cons.prems(1), of later] Cons.prems(3) ev by simp
  then have "run_ok email later (throttle_step email ev st)"
    unfolding ev by (rule throttle_step_ok) (use Cons.prems(3) ev in simp)
  from Cons.IH[OF this] Cons.prems show ?case by (simp add: ev)
qed

lemma run_ok_start: "run_ok email now start_run"
  by (simp add: run_ok_def log_ok_def entry_ok_def newThrottle_def start_run_def)

lemma run_log_ok:
  assumes "sorted (map fst events)" "\<forall>ev\<in>set events. snd ev \<noteq> Succeed email"
  shows "\<exists>end. log_ok (trPeak (run_events email events)) end (trLog (run_events email events))"
proof (cases events)
  case Nil
  then show ?thesis by (simp add: run_events_def start_run_def log_ok_def)
next
  case (Cons ev es)
  then have "\<forall>ev'\<in>set events. fst ev \<le> fst ev' \<and> snd ev' \<noteq> Succeed email"
    using assms by auto
  with throttle_fold_ok[OF run_ok_start assms(1)] show ?thesis
    unfolding run_events_def run_ok_def Let_def by blast
qed

section \<open>Guesses are bounded\<close>

text \<open>Of a set of starts more than a window apart, an interval of two windows holds at most two.\<close>

lemma two_starts:
  assumes "log_ok peak now log" "\<forall>e\<in>set xs. e \<in> set log \<and> a - failureWindow \<le> fst e \<and> fst e \<le> a + failureWindow"
  shows "\<exists>s s'. (\<forall>e\<in>set xs. fst e = s \<or> fst e = s')
                \<and> in_window s log \<le> guess_limit peak \<and> in_window s' log \<le> guess_limit peak"
proof (cases "xs = []")
  case True
  moreover have "in_window (now + 1) log = 0"
    using assms(1) by (intro in_window_fresh) (fastforce simp: log_ok_def)
  ultimately show ?thesis by (intro exI[of _ "now + 1"]) (simp add: guess_limit_def maxFailedAttempts_def)
next
  case False
  define m where "m = Min (fst ` set xs)"
  have m_le: "m \<le> fst e" if "e \<in> set xs" for e
    using that by (simp add: m_def)
  have "m \<in> fst ` set xs" using False by (simp add: m_def)
  then obtain e0 where e0: "e0 \<in> set xs" "fst e0 = m" by blast
  have bound: "in_window (fst e) log \<le> guess_limit peak" if "e \<in> set xs" for e
    using assms that by (simp add: log_ok_def)
  have far: "fst d + failureWindow < fst e" if "d \<in> set xs" "e \<in> set xs" "fst d < fst e" for d e
    using assms that by (auto simp: log_ok_def)
  have same: "fst d = fst e" if "d \<in> set xs" "e \<in> set xs" "fst d \<noteq> m" "fst e \<noteq> m" for d e
  proof (rule ccontr)
    assume "fst d \<noteq> fst e"
    moreover have "m + failureWindow < fst d" "m + failureWindow < fst e"
      using far[OF e0(1) that(1)] far[OF e0(1) that(2)] m_le[OF that(1)] m_le[OF that(2)] that(3,4) e0(2)
      by linarith+
    moreover have "a - failureWindow \<le> m" "fst d \<le> a + failureWindow" "fst e \<le> a + failureWindow"
      using assms(2) that e0 by force+
    ultimately show False using far[of d e] far[of e d] that by linarith
  qed
  show ?thesis
  proof (cases "\<exists>e\<in>set xs. fst e \<noteq> m")
    case True
    then obtain e where e: "e \<in> set xs" "fst e \<noteq> m" by blast
    have "\<forall>d\<in>set xs. fst d = m \<or> fst d = fst e" using same[OF _ e(1) _ e(2)] by blast
    with bound[OF e(1)] bound[OF e0(1)] e0(2) show ?thesis by blast
  next
    case False
    with bound[OF e0(1)] e0 show ?thesis by auto
  qed
qed

lemma length_two_windows:
  assumes "\<forall>e\<in>set (filter P log). fst e = s \<or> fst e = s'"
  shows "int (length (filter P log)) \<le> in_window s log + in_window s' log"
proof -
  have "length (filter P log) = length (filter P (filter (\<lambda>e. fst e = s \<or> fst e = s') log))"
    using assms by (intro arg_cong[of _ _ length]) (auto intro!: filter_cong)
  also have "\<dots> \<le> length (filter (\<lambda>e. fst e = s \<or> fst e = s') log)" by (rule length_filter_le)
  also have "\<dots> \<le> length (filter (\<lambda>e. fst e = s) log) + length (filter (\<lambda>e. fst e = s') log)"
    by (induction log) auto
  finally show ?thesis by (simp add: in_window_def)
qed

text \<open>
  C10: The throttle bounds guessing also when logins run concurrently. However the steps of logins and sweeps interleave, in the
  order of the clock, and as long as no login of the email succeeds, no stretch of time as long as the failure window has more wrong passwords of
  an email than twice the allowed number, plus for each half the logins that may be in flight at once
  beyond the first: a login that has asked before the limit is reached still gets its guess.
\<close>

theorem guesses_bounded:
  assumes "sorted (map fst events)" "\<forall>ev\<in>set events. snd ev \<noteq> Succeed email"
  shows "int (length (filter (\<lambda>x. a \<le> x \<and> x \<le> a + failureWindow) (wrong_guesses email events)))
    \<le> 2 * (maxFailedAttempts + int (concurrent_logins email events) - 1)"
proof -
  let ?log = "trLog (run_events email events)" and ?limit = "guess_limit (concurrent_logins email events)"
  let ?P = "\<lambda>e. a \<le> snd e \<and> snd e \<le> a + failureWindow"
  obtain now where ok: "log_ok (concurrent_logins email events) now ?log"
    using run_log_ok[OF assms] unfolding concurrent_logins_def by blast
  have "\<forall>e\<in>set (filter ?P ?log). e \<in> set ?log \<and> a - failureWindow \<le> fst e \<and> fst e \<le> a + failureWindow"
    using ok by (auto simp: log_ok_def)
  from two_starts[OF ok this] obtain s s' where
    "int (length (filter ?P ?log)) \<le> in_window s ?log + in_window s' ?log"
    "in_window s ?log \<le> ?limit" "in_window s' ?log \<le> ?limit"
    using length_two_windows[of ?P ?log] by blast
  then show ?thesis by (simp add: wrong_guesses_def filter_map o_def guess_limit_def)
qed

text \<open>Two concurrent logins at the limit: both ask before either has failed, so eleven guesses are recorded in one window.\<close>

definition race_events :: "(int \<times> throttle_event) list" where
  "race_events = concat (map (\<lambda>i. [(i, Ask ''a''), (i, Fail ''a'')]) [1..9]) @ [(10, Ask ''a''), (11, Ask ''a''), (12, Fail ''a''), (13, Fail ''a''), (14, Ask ''a'')]"

theorem guesses_bounded_witness:
  "length (wrong_guesses ''a'' race_events) = 11 \<and> concurrent_logins ''a'' race_events = 2
   \<and> int (length (filter (\<lambda>x. 0 \<le> x \<and> x \<le> 0 + failureWindow) (wrong_guesses ''a'' race_events)))
      \<le> 2 * (maxFailedAttempts + int (concurrent_logins ''a'' race_events) - 1)"
proof -
  have "length (wrong_guesses ''a'' race_events) = 11" "concurrent_logins ''a'' race_events = 2"
    "sorted (map fst race_events)" "\<forall>ev\<in>set race_events. snd ev \<noteq> Succeed ''a''" by code_simp+
  with guesses_bounded[of race_events "''a''" 0] show ?thesis by simp
qed

section \<open>Lockouts end\<close>

text \<open>What holds of a locked email until its window ends: \<open>n\<close> bounds the failures on record and the logins in flight.\<close>

definition locked :: "string \<Rightarrow> int \<Rightarrow> nat \<Rightarrow> throttle_run \<Rightarrow> bool" where
  "locked email first n st =
    ((\<exists>f. trThrottle st email = Some f \<and> fcFirst f = first \<and> maxFailedAttempts \<le> fcCount f)
     \<and> length (trLog st) + count_list (trFlying st) email \<le> n)"

lemma locked_ask:
  assumes "locked email first n st" "now \<le> first + failureWindow"
  shows "locked email first n (ask email now x st)"
proof (cases "x = email")
  case True
  with assms show ?thesis by (auto simp: locked_def ask_def blocked_def elapsed_def)
next
  case False
  with assms(1) other_entry(1)[OF False, of now "trThrottle st"] show ?thesis
    by (auto simp: locked_def ask_def split: prod.splits)
qed

lemma locked_fail:
  assumes "locked email first n st" "now \<le> first + failureWindow"
  shows "locked email first n (fail email now x st)"
proof (cases "x = email")
  case True
  have "0 < count_list (trFlying st) email" if "email \<in> set (trFlying st)" using that by (metis count_list_0_iff not_gr0)
  with True assms show ?thesis by (auto simp: locked_def fail_def failed_def elapsed_def count_remove1 Let_def)
next
  case False
  with assms(1) other_entry(2)[OF False, of now "trThrottle st"] show ?thesis
    by (auto simp: locked_def fail_def count_remove1 Let_def)
qed

lemma locked_step:
  assumes "locked email first n st" "now \<le> first + failureWindow" "e \<noteq> Succeed email"
  shows "locked email first n (throttle_step email (now, e) st)"
  using assms locked_ask[OF assms(1,2)] locked_fail[OF assms(1,2)]
  by (cases e) (auto simp: throttle_step_def locked_def succeeded_def sweep_def elapsed_def count_remove1)

lemma locked_run:
  assumes "locked email first n st" "\<forall>ev\<in>set events. fst ev \<le> first + failureWindow \<and> snd ev \<noteq> Succeed email"
  shows "locked email first n (fold (throttle_step email) events st)"
  using assms
proof (induction events arbitrary: st)
  case (Cons ev events)
  then show ?case using locked_step[of email first n st "fst ev" "snd ev"] by simp
qed simp

text \<open>
  C35: A locked-out email stays locked until the window of its first failure ends and no longer: whatever
  wrong logins, on this email or others, and whatever sweeps happen before that, no login of the email is let through
  to the check of its password, so that the wrong passwords recorded meanwhile are of logins that were in flight before, the
  end does not move, and the first login after the end is let through.
\<close>

theorem lockout_ends_on_time:
  assumes "trThrottle st email = Some f" "fst (blocked now email (trThrottle st))"
    "\<forall>ev\<in>set events. fst ev \<le> fcFirst f + failureWindow \<and> snd ev \<noteq> Succeed email"
  shows "now \<le> fcFirst f + failureWindow
    \<and> length (trLog (fold (throttle_step email) events st)) + count_list (trFlying (fold (throttle_step email) events st)) email
        \<le> length (trLog st) + count_list (trFlying st) email
    \<and> (\<forall>later. fst (blocked later email (trThrottle (fold (throttle_step email) events st)))
                 \<longleftrightarrow> later \<le> fcFirst f + failureWindow)"
proof -
  let ?n = "length (trLog st) + count_list (trFlying st) email"
  have f: "\<not> elapsed now f" "maxFailedAttempts \<le> fcCount f"
    using assms(1,2) by (auto simp: blocked_def split: if_splits)
  then have "locked email (fcFirst f) ?n st" using assms(1) by (simp add: locked_def)
  from locked_run[OF this assms(3)] f show ?thesis
    by (auto simp: locked_def blocked_def elapsed_def split: if_splits)
qed

definition locked_out :: throttle_run where
  "locked_out = \<lparr>trThrottle = [''a'' \<mapsto> \<lparr>fcCount = 10, fcFirst = 0\<rparr>], trFlying = [''a''], trPeak = 2, trLog = []\<rparr>"

theorem lockout_ends_on_time_witness:
  "fst (blocked 5 ''a'' (trThrottle locked_out))
   \<and> length (trLog (fold (throttle_step ''a'') [(6, Ask ''a''), (7, Fail ''a''), (8, Sweep), (9, Ask ''b'')] locked_out)) \<le> 1
   \<and> \<not> fst (blocked 900000000001 ''a'' (trThrottle (fold (throttle_step ''a'') [(6, Ask ''a''), (7, Fail ''a''), (8, Sweep), (9, Ask ''b'')] locked_out)))"
proof -
  have "fst (blocked 5 ''a'' (trThrottle locked_out))"
    by (simp add: blocked_def elapsed_def failureWindow_def maxFailedAttempts_def locked_out_def)
  then show ?thesis
    using lockout_ends_on_time[of locked_out "''a''" "\<lparr>fcCount = 10, fcFirst = 0\<rparr>" 5
        "[(6, Ask ''a''), (7, Fail ''a''), (8, Sweep), (9, Ask ''b'')]"]
    by (auto simp: failureWindow_def locked_out_def)
qed

text \<open>A sweep leaves exactly the live entries, so it changes no decision from then on.\<close>

lemma sweep_keeps_decisions:
  assumes "now \<le> later"
  shows "fst (blocked later email (sweep now t)) = fst (blocked later email t)"
  using assms by (auto simp: blocked_def sweep_def elapsed_def split: option.splits)

end
