(* ===== verification/Local_Auth_Store.thy ===== *)
theory Local_Auth_Store
  imports Base64
begin

text \<open>
  The tables of the built-in password provider (pkg/gateway/client/localauth.go,
  pkg/gateway/types/localauth.go): accounts and login sessions. Every operation runs in one database
  transaction, or is one statement, and takes the row locks it needs, so an operation is a function on the
  tables and concurrent requests are an interleaving of operations. The clock is an argument. The digest
  \<open>hash.String\<close> and the transformer of the encryption at rest are parameters. A failure of the database
  connection, which rolls the transaction back, is not modelled.
\<close>

section \<open>Tables\<close>

record LocalAuthUser =
  luID :: nat
  luEmail :: string
  luHashedEmail :: string
  luPasswordHash :: string
  luRequirePasswordChange :: bool
  luSetupTokenHash :: string
  luSetupTokenExpiresAt :: "int option"
  luEncrypted :: bool

record LocalAuthSession =
  lsID :: string
  lsUserID :: nat
  lsExpiresAt :: int

text \<open>The key generator of the accounts table never hands out an identifier twice.\<close>

record auth_db =
  dbUsers :: "LocalAuthUser list"
  dbSessions :: "LocalAuthSession list"
  dbNextID :: nat

record transformer =
  TransformToStorage :: "string \<Rightarrow> string \<Rightarrow> string option"
  TransformFromStorage :: "string \<Rightarrow> string \<Rightarrow> string option"

record auth_store =
  asHash :: "string \<Rightarrow> string"
  asTransformer :: "transformer option"

datatype auth_error =
    ErrRecordNotFound
  | ErrLocalAuthUserExists
  | ErrBootstrapLocalAuthUserLimit
  | ErrDuplicatedKey
  | ErrEncrypt
  | ErrDecrypt
  | InvalidUserError string
  | ErrVerifyPassword
  | ErrHashPassword
  | ErrCredential string

text \<open>An operation returns its error or its result, and the tables it leaves.\<close>

type_synonym 'a store_op = "auth_db \<Rightarrow> (auth_error + 'a) \<times> auth_db"

section \<open>Encryption at rest\<close>

definition NormalizeEmail :: "string \<Rightarrow> string" where
  "NormalizeEmail email = ToLower (TrimSpace email)"

definition localAuthUserDataCtx :: "LocalAuthUser \<Rightarrow> string" where
  "localAuthUserDataCtx user = ''users.obot.obot.ai/'' @ luHashedEmail user"

definition encryptLocalAuthUser :: "auth_store \<Rightarrow> LocalAuthUser \<Rightarrow> auth_error + LocalAuthUser" where
  "encryptLocalAuthUser c user =
    (case asTransformer c of
       None \<Rightarrow> Inr user
     | Some transformer \<Rightarrow>
         (case TransformToStorage transformer (luEmail user) (localAuthUserDataCtx user) of
            None \<Rightarrow> Inl ErrEncrypt
          | Some b \<Rightarrow> Inr (user\<lparr>luEmail := StdEncoding_EncodeToString b, luEncrypted := True\<rparr>)))"

definition decryptLocalAuthUser :: "auth_store \<Rightarrow> LocalAuthUser \<Rightarrow> auth_error + LocalAuthUser" where
  "decryptLocalAuthUser c user =
    (if \<not> luEncrypted user then Inr user
     else case asTransformer c of
            None \<Rightarrow> Inr user
          | Some transformer \<Rightarrow>
              (case StdEncoding_DecodeString (luEmail user) of
                 None \<Rightarrow> Inl ErrDecrypt
               | Some decoded \<Rightarrow>
                   (case TransformFromStorage transformer decoded (localAuthUserDataCtx user) of
                      None \<Rightarrow> Inl ErrDecrypt
                    | Some out \<Rightarrow> Inr (user\<lparr>luEmail := out, luEncrypted := False\<rparr>))))"

section \<open>Accounts\<close>

text \<open>\<open>First\<close> returns the matching row with the smallest key, which is the first of the list.\<close>

definition first_user :: "(LocalAuthUser \<Rightarrow> bool) \<Rightarrow> auth_db \<Rightarrow> auth_error + LocalAuthUser" where
  "first_user P db = (case find P (dbUsers db) of None \<Rightarrow> Inl ErrRecordNotFound | Some user \<Rightarrow> Inr user)"

definition found_user :: "auth_store \<Rightarrow> (LocalAuthUser \<Rightarrow> bool) \<Rightarrow> auth_db \<Rightarrow> auth_error + LocalAuthUser" where
  "found_user c P db = (case first_user P db of Inl e \<Rightarrow> Inl e | Inr user \<Rightarrow> decryptLocalAuthUser c user)"

fun decrypt_all :: "auth_store \<Rightarrow> LocalAuthUser list \<Rightarrow> auth_error + LocalAuthUser list" where
  "decrypt_all c [] = Inr []"
| "decrypt_all c (user # users) =
    (case decryptLocalAuthUser c user of
       Inl e \<Rightarrow> Inl e
     | Inr user' \<Rightarrow> (case decrypt_all c users of Inl e \<Rightarrow> Inl e | Inr users' \<Rightarrow> Inr (user' # users')))"

definition LocalAuthUsers :: "auth_store \<Rightarrow> LocalAuthUser list store_op" where
  "LocalAuthUsers c db = (decrypt_all c (dbUsers db), db)"

definition LocalAuthUserByEmail :: "auth_store \<Rightarrow> string \<Rightarrow> LocalAuthUser store_op" where
  "LocalAuthUserByEmail c email db = (found_user c (\<lambda>u. luHashedEmail u = asHash c (NormalizeEmail email)) db, db)"

definition LocalAuthUserByID :: "auth_store \<Rightarrow> nat \<Rightarrow> LocalAuthUser store_op" where
  "LocalAuthUserByID c uid db = (found_user c (\<lambda>u. luID u = uid) db, db)"

definition createLocalAuthUser ::
  "auth_store \<Rightarrow> string \<Rightarrow> string \<Rightarrow> bool \<Rightarrow> string \<Rightarrow> int option \<Rightarrow> bool \<Rightarrow> LocalAuthUser store_op" where
  "createLocalAuthUser c email passwordHash requirePasswordChange setupTokenHash setupTokenExpiresAt bootstrap db =
    (let email = NormalizeEmail email;
         user = \<lparr>luID = 0, luEmail = email, luHashedEmail = asHash c email, luPasswordHash = passwordHash,
                 luRequirePasswordChange = requirePasswordChange, luSetupTokenHash = setupTokenHash,
                 luSetupTokenExpiresAt = setupTokenExpiresAt, luEncrypted = False\<rparr>
     in case encryptLocalAuthUser c user of
          Inl e \<Rightarrow> (Inl e, db)
        | Inr user \<Rightarrow>
            if bootstrap \<and> length (dbUsers db) > 0 then (Inl ErrBootstrapLocalAuthUserLimit, db)
            else if luHashedEmail user \<in> luHashedEmail ` set (dbUsers db) then (Inl ErrLocalAuthUserExists, db)
            else let user = user\<lparr>luID := dbNextID db\<rparr>
                 in (Inr (user\<lparr>luEmail := email, luEncrypted := False\<rparr>),
                     db\<lparr>dbUsers := dbUsers db @ [user], dbNextID := dbNextID db + 1\<rparr>))"

definition CreateLocalAuthUser :: "auth_store \<Rightarrow> string \<Rightarrow> string \<Rightarrow> bool \<Rightarrow> LocalAuthUser store_op" where
  "CreateLocalAuthUser c email passwordHash requirePasswordChange =
    createLocalAuthUser c email passwordHash requirePasswordChange [] None False"

definition CreateBootstrapLocalAuthUser :: "auth_store \<Rightarrow> string \<Rightarrow> string \<Rightarrow> bool \<Rightarrow> LocalAuthUser store_op" where
  "CreateBootstrapLocalAuthUser c email passwordHash requirePasswordChange =
    createLocalAuthUser c email passwordHash requirePasswordChange [] None True"

definition CreateInitialLocalAuthUser :: "auth_store \<Rightarrow> string \<Rightarrow> string \<Rightarrow> string \<Rightarrow> int \<Rightarrow> LocalAuthUser store_op" where
  "CreateInitialLocalAuthUser c email passwordHash setupTokenHash setupTokenExpiresAt =
    createLocalAuthUser c email passwordHash True setupTokenHash (Some setupTokenExpiresAt) False"

section \<open>Sessions\<close>

text \<open>The insertion fails when the primary key is taken.\<close>

definition CreateLocalAuthSession :: "string \<Rightarrow> nat \<Rightarrow> int \<Rightarrow> unit store_op" where
  "CreateLocalAuthSession sid userID expiresAt db =
    (if sid \<in> lsID ` set (dbSessions db) then (Inl ErrDuplicatedKey, db)
     else (Inr (), db\<lparr>dbSessions := dbSessions db @ [\<lparr>lsID = sid, lsUserID = userID, lsExpiresAt = expiresAt\<rparr>]\<rparr>))"

definition delete_sessions :: "(LocalAuthSession \<Rightarrow> bool) \<Rightarrow> auth_db \<Rightarrow> auth_db" where
  "delete_sessions P db = db\<lparr>dbSessions := filter (\<lambda>s. \<not> P s) (dbSessions db)\<rparr>"

definition token_pending :: "string \<Rightarrow> int \<Rightarrow> LocalAuthUser \<Rightarrow> bool" where
  "token_pending setupTokenHash now u =
    (luSetupTokenHash u = setupTokenHash \<and> (case luSetupTokenExpiresAt u of None \<Rightarrow> False | Some expires \<Rightarrow> expires > now)
     \<and> luRequirePasswordChange u)"

definition ActivateLocalAuthUser :: "auth_store \<Rightarrow> int \<Rightarrow> string \<Rightarrow> string \<Rightarrow> int \<Rightarrow> LocalAuthUser store_op" where
  "ActivateLocalAuthUser c now setupTokenHash sessionID expiresAt db =
    (case first_user (token_pending setupTokenHash now) db of
       Inl e \<Rightarrow> (Inl e, db)
     | Inr user \<Rightarrow>
         (case CreateLocalAuthSession sessionID (luID user) expiresAt db of
            (Inl e, _) \<Rightarrow> (Inl e, db)
          | (Inr _, db') \<Rightarrow> (decryptLocalAuthUser c user, db')))"

definition LocalAuthRequiresActivation :: "bool store_op" where
  "LocalAuthRequiresActivation db =
    (Inr (list_ex (\<lambda>u. luSetupTokenHash u \<noteq> [] \<and> luRequirePasswordChange u) (dbUsers db)), db)"

text \<open>An update of the rows that match, with the number of rows it affects.\<close>

definition update_users :: "(LocalAuthUser \<Rightarrow> bool) \<Rightarrow> (LocalAuthUser \<Rightarrow> LocalAuthUser) \<Rightarrow> auth_db \<Rightarrow> nat \<times> auth_db" where
  "update_users P f db =
    (length (filter P (dbUsers db)), db\<lparr>dbUsers := map (\<lambda>u. if P u then f u else u) (dbUsers db)\<rparr>)"

definition RefreshLocalAuthUserSetupToken :: "nat \<Rightarrow> string \<Rightarrow> int \<Rightarrow> unit store_op" where
  "RefreshLocalAuthUserSetupToken uid setupTokenHash setupTokenExpiresAt db =
    (case update_users (\<lambda>u. luID u = uid \<and> luSetupTokenHash u \<noteq> [] \<and> luRequirePasswordChange u)
            (\<lambda>u. u\<lparr>luSetupTokenHash := setupTokenHash, luSetupTokenExpiresAt := Some setupTokenExpiresAt\<rparr>) db of
       (rows, db') \<Rightarrow>
         if rows \<noteq> 1 then (Inl ErrRecordNotFound, db)
         else (Inr (), delete_sessions (\<lambda>s. lsUserID s = uid) db'))"

definition password_update :: "string \<Rightarrow> bool \<Rightarrow> LocalAuthUser \<Rightarrow> LocalAuthUser" where
  "password_update passwordHash requirePasswordChange u =
    u\<lparr>luPasswordHash := passwordHash, luRequirePasswordChange := requirePasswordChange, luSetupTokenHash := [],
      luSetupTokenExpiresAt := None\<rparr>"

definition SetLocalAuthUserPassword :: "nat \<Rightarrow> string \<Rightarrow> bool \<Rightarrow> unit store_op" where
  "SetLocalAuthUserPassword uid passwordHash requirePasswordChange db =
    (case update_users (\<lambda>u. luID u = uid) (password_update passwordHash requirePasswordChange) db of
       (rows, db') \<Rightarrow>
         if rows = 0 then (Inl ErrRecordNotFound, db)
         else (Inr (), delete_sessions (\<lambda>s. lsUserID s = uid) db'))"

definition CompleteLocalAuthUserPasswordChange :: "int \<Rightarrow> nat \<Rightarrow> string \<Rightarrow> string \<Rightarrow> unit store_op" where
  "CompleteLocalAuthUserPasswordChange now uid passwordHash currentSessionID db =
    (case first_user (\<lambda>u. luID u = uid \<and> luRequirePasswordChange u) db of
       Inl e \<Rightarrow> (Inl e, db)
     | Inr _ \<Rightarrow>
         if length (filter (\<lambda>s. lsID s = currentSessionID \<and> lsUserID s = uid \<and> lsExpiresAt s > now) (dbSessions db)) \<noteq> 1
         then (Inl ErrRecordNotFound, db)
         else (case update_users (\<lambda>u. luID u = uid \<and> luRequirePasswordChange u) (password_update passwordHash False) db of
                 (rows, db') \<Rightarrow>
                   if rows \<noteq> 1 then (Inl ErrRecordNotFound, db)
                   else (Inr (), delete_sessions (\<lambda>s. lsUserID s = uid \<and> lsID s \<noteq> currentSessionID) db')))"

definition DeleteLocalAuthUser :: "nat \<Rightarrow> unit store_op" where
  "DeleteLocalAuthUser uid db =
    (if length (filter (\<lambda>u. luID u = uid) (dbUsers db)) = 0 then (Inl ErrRecordNotFound, db)
     else (Inr (), delete_sessions (\<lambda>s. lsUserID s = uid) (db\<lparr>dbUsers := filter (\<lambda>u. luID u \<noteq> uid) (dbUsers db)\<rparr>)))"

definition DeleteLocalAuthSession :: "string \<Rightarrow> unit store_op" where
  "DeleteLocalAuthSession sid db = (Inr (), delete_sessions (\<lambda>s. lsID s = sid) db)"

definition LocalAuthSession :: "auth_store \<Rightarrow> int \<Rightarrow> string \<Rightarrow> (LocalAuthSession \<times> LocalAuthUser) store_op" where
  "LocalAuthSession c now sid db =
    (case find (\<lambda>s. lsID s = sid) (dbSessions db) of
       None \<Rightarrow> (Inl ErrRecordNotFound, db)
     | Some session \<Rightarrow>
         if \<not> lsExpiresAt session > now then (Inl ErrRecordNotFound, snd (DeleteLocalAuthSession sid db))
         else (case found_user c (\<lambda>u. luID u = lsUserID session) db of
                 Inl e \<Rightarrow> (Inl e, db)
               | Inr user \<Rightarrow> (Inr (session, user), db)))"

definition DeleteLocalAuthSessionsForEmail :: "auth_store \<Rightarrow> string \<Rightarrow> string \<Rightarrow> unit store_op" where
  "DeleteLocalAuthSessionsForEmail c email exceptSessionID db =
    (case first_user (\<lambda>u. luHashedEmail u = asHash c (NormalizeEmail email)) db of
       Inl _ \<Rightarrow> (Inr (), db)
     | Inr user \<Rightarrow>
         (Inr (), delete_sessions (\<lambda>s. lsUserID s = luID user \<and> (exceptSessionID \<noteq> [] \<longrightarrow> lsID s \<noteq> exceptSessionID)) db))"

definition DeleteAllLocalAuthSessions :: "unit store_op" where
  "DeleteAllLocalAuthSessions db = (Inr (), delete_sessions (\<lambda>_. True) db)"

definition DeleteExpiredLocalAuthSessions :: "int \<Rightarrow> unit store_op" where
  "DeleteExpiredLocalAuthSessions now db = (Inr (), delete_sessions (\<lambda>s. lsExpiresAt s < now) db)"

section \<open>Interleavings\<close>

text \<open>Everything that changes the tables. A run is any interleaving of the operations of all requests.\<close>

datatype store_event =
    EvCreate string string bool
  | EvCreateBootstrap string string bool
  | EvCreateInitial string string string int
  | EvActivate int string string int
  | EvRefresh nat string int
  | EvSetPassword nat string bool
  | EvComplete int nat string string
  | EvDeleteUser nat
  | EvCreateSession string nat int
  | EvReadSession int string
  | EvDeleteSession string
  | EvDeleteForEmail string string
  | EvDeleteAll
  | EvDeleteExpired int

definition apply_event :: "auth_store \<Rightarrow> store_event \<Rightarrow> auth_db \<Rightarrow> auth_db" where
  "apply_event c ev db =
    (case ev of
       EvCreate email ph req \<Rightarrow> snd (CreateLocalAuthUser c email ph req db)
     | EvCreateBootstrap email ph req \<Rightarrow> snd (CreateBootstrapLocalAuthUser c email ph req db)
     | EvCreateInitial email ph tok expires \<Rightarrow> snd (CreateInitialLocalAuthUser c email ph tok expires db)
     | EvActivate now tok sid expires \<Rightarrow> snd (ActivateLocalAuthUser c now tok sid expires db)
     | EvRefresh uid tok expires \<Rightarrow> snd (RefreshLocalAuthUserSetupToken uid tok expires db)
     | EvSetPassword uid ph req \<Rightarrow> snd (SetLocalAuthUserPassword uid ph req db)
     | EvComplete now uid ph sid \<Rightarrow> snd (CompleteLocalAuthUserPasswordChange now uid ph sid db)
     | EvDeleteUser uid \<Rightarrow> snd (DeleteLocalAuthUser uid db)
     | EvCreateSession sid uid expires \<Rightarrow> snd (CreateLocalAuthSession sid uid expires db)
     | EvReadSession now sid \<Rightarrow> snd (LocalAuthSession c now sid db)
     | EvDeleteSession sid \<Rightarrow> snd (DeleteLocalAuthSession sid db)
     | EvDeleteForEmail email except \<Rightarrow> snd (DeleteLocalAuthSessionsForEmail c email except db)
     | EvDeleteAll \<Rightarrow> snd (DeleteAllLocalAuthSessions db)
     | EvDeleteExpired now \<Rightarrow> snd (DeleteExpiredLocalAuthSessions now db))"

definition apply_events :: "auth_store \<Rightarrow> store_event list \<Rightarrow> auth_db \<Rightarrow> auth_db" where
  "apply_events c evs = fold (apply_event c) evs"

section \<open>The invariant of the tables\<close>

definition users_ok :: "LocalAuthUser list \<Rightarrow> nat \<Rightarrow> bool" where
  "users_ok users next =
    (sorted_wrt (<) (map luID users) \<and> (\<forall>u\<in>set users. luID u < next) \<and> distinct (map luHashedEmail users)
     \<and> (\<forall>u\<in>set users. luSetupTokenHash u \<noteq> [] \<longrightarrow> luRequirePasswordChange u))"

definition db_ok :: "auth_db \<Rightarrow> bool" where
  "db_ok db = (users_ok (dbUsers db) (dbNextID db) \<and> distinct (map lsID (dbSessions db)))"

definition empty_db :: auth_db where
  "empty_db = \<lparr>dbUsers = [], dbSessions = [], dbNextID = 1\<rparr>"

lemma db_ok_delete_sessions: "db_ok db \<Longrightarrow> db_ok (delete_sessions P db)"
  by (simp add: db_ok_def delete_sessions_def distinct_map_filter)

lemma users_ok_map:
  assumes "users_ok users next" "\<And>u. luID (f u) = luID u" "\<And>u. luHashedEmail (f u) = luHashedEmail u"
    "\<And>u. (luSetupTokenHash u \<noteq> [] \<longrightarrow> luRequirePasswordChange u) \<Longrightarrow> luSetupTokenHash (f u) \<noteq> [] \<longrightarrow> luRequirePasswordChange (f u)"
  shows "users_ok (map f users) next"
proof -
  have "luID \<circ> f = luID" "luHashedEmail \<circ> f = luHashedEmail" using assms(2,3) by auto
  with assms show ?thesis by (simp add: users_ok_def)
qed

lemma users_ok_filter: "users_ok users next \<Longrightarrow> users_ok (filter P users) next"
  by (auto simp: users_ok_def sorted_wrt_map sorted_wrt_filter distinct_map_filter)

lemma users_ok_append:
  assumes "users_ok users next" "luID u = next" "luHashedEmail u \<notin> luHashedEmail ` set users"
    "luSetupTokenHash u \<noteq> [] \<Longrightarrow> luRequirePasswordChange u"
  shows "users_ok (users @ [u]) (next + 1)"
  using assms by (auto simp: users_ok_def sorted_wrt_append less_Suc_eq)

lemma db_ok_update:
  assumes "db_ok db" "\<And>u. P u \<Longrightarrow> luID (f u) = luID u" "\<And>u. P u \<Longrightarrow> luHashedEmail (f u) = luHashedEmail u"
    "\<And>u. P u \<Longrightarrow> luSetupTokenHash (f u) \<noteq> [] \<Longrightarrow> luRequirePasswordChange (f u)"
  shows "db_ok (snd (update_users P f db))"
proof -
  let ?g = "\<lambda>u. if P u then f u else u"
  have "users_ok (map ?g (dbUsers db)) (dbNextID db)"
    by (rule users_ok_map) (use assms in \<open>simp_all add: db_ok_def split: if_splits\<close>)
  with assms(1) show ?thesis by (simp add: db_ok_def update_users_def)
qed

lemma encrypt_fields:
  assumes "encryptLocalAuthUser c u = Inr v"
  shows "luHashedEmail v = luHashedEmail u" "luSetupTokenHash v = luSetupTokenHash u"
    "luRequirePasswordChange v = luRequirePasswordChange u" "luPasswordHash v = luPasswordHash u"
    "luSetupTokenExpiresAt v = luSetupTokenExpiresAt u"
  using assms by (auto simp: encryptLocalAuthUser_def split: option.splits)

lemma create_cases:
  obtains (fails) e where "createLocalAuthUser c email ph req tok expires bootstrap db = (Inl e, db)"
  | (creates) u v where "createLocalAuthUser c email ph req tok expires bootstrap db =
        (Inr v, db\<lparr>dbUsers := dbUsers db @ [u], dbNextID := dbNextID db + 1\<rparr>)"
      "luID u = dbNextID db" "luHashedEmail u = asHash c (NormalizeEmail email)"
      "luHashedEmail u \<notin> luHashedEmail ` set (dbUsers db)" "luSetupTokenHash u = tok" "luRequirePasswordChange u = req"
      "luPasswordHash u = ph" "bootstrap \<Longrightarrow> dbUsers db = []"
proof -
  let ?u = "\<lparr>luID = 0, luEmail = NormalizeEmail email, luHashedEmail = asHash c (NormalizeEmail email), luPasswordHash = ph,
     luRequirePasswordChange = req, luSetupTokenHash = tok, luSetupTokenExpiresAt = expires, luEncrypted = False\<rparr>"
  show thesis
  proof (cases "encryptLocalAuthUser c ?u")
    case (Inl e)
    then show thesis by (intro fails) (simp add: createLocalAuthUser_def)
  next
    case (Inr v)
    consider "bootstrap \<and> dbUsers db \<noteq> []" | "\<not> (bootstrap \<and> dbUsers db \<noteq> [])" "luHashedEmail v \<in> luHashedEmail ` set (dbUsers db)"
      | "\<not> (bootstrap \<and> dbUsers db \<noteq> [])" "luHashedEmail v \<notin> luHashedEmail ` set (dbUsers db)" by blast
    then show thesis
    proof cases
      case 1
      with Inr show thesis by (intro fails) (simp add: createLocalAuthUser_def)
    next
      case 2
      with Inr show thesis by (intro fails[of ErrLocalAuthUserExists]) (auto simp: createLocalAuthUser_def Let_def)
    next
      case 3
      with Inr encrypt_fields[OF Inr] show thesis
        by (intro creates[of "v\<lparr>luEmail := NormalizeEmail email, luEncrypted := False, luID := dbNextID db\<rparr>" "v\<lparr>luID := dbNextID db\<rparr>"])
           (simp_all add: createLocalAuthUser_def Let_def)
    qed
  qed
qed

lemma db_ok_create:
  assumes "db_ok db" "tok \<noteq> [] \<Longrightarrow> req"
  shows "db_ok (snd (createLocalAuthUser c email ph req tok expires bootstrap db))"
proof (rule create_cases[of c email ph req tok expires bootstrap db])
  fix u v
  assume "createLocalAuthUser c email ph req tok expires bootstrap db =
      (Inr v, db\<lparr>dbUsers := dbUsers db @ [u], dbNextID := dbNextID db + 1\<rparr>)"
    "luID u = dbNextID db" "luHashedEmail u \<notin> luHashedEmail ` set (dbUsers db)" "luSetupTokenHash u = tok"
    "luRequirePasswordChange u = req"
  with assms users_ok_append[of "dbUsers db" "dbNextID db" u] show ?thesis by (simp add: db_ok_def)
qed (use assms in simp)

lemma db_ok_create_session: "db_ok db \<Longrightarrow> db_ok (snd (CreateLocalAuthSession sid uid expires db))"
  by (auto simp: CreateLocalAuthSession_def db_ok_def)

text \<open>The effect of every operation on the tables, without its result.\<close>

lemma write_effects:
  "snd (ActivateLocalAuthUser c now tok sid expires db) =
    (case find (token_pending tok now) (dbUsers db) of
       None \<Rightarrow> db | Some u \<Rightarrow> snd (CreateLocalAuthSession sid (luID u) expires db))"
  "snd (RefreshLocalAuthUserSetupToken uid tok expires db) =
    (if length (filter (\<lambda>u. luID u = uid \<and> luSetupTokenHash u \<noteq> [] \<and> luRequirePasswordChange u) (dbUsers db)) = 1
     then delete_sessions (\<lambda>s. lsUserID s = uid)
       (snd (update_users (\<lambda>u. luID u = uid \<and> luSetupTokenHash u \<noteq> [] \<and> luRequirePasswordChange u)
          (\<lambda>u. u\<lparr>luSetupTokenHash := tok, luSetupTokenExpiresAt := Some expires\<rparr>) db))
     else db)"
  "snd (SetLocalAuthUserPassword uid ph req db) =
    (if filter (\<lambda>u. luID u = uid) (dbUsers db) = [] then db
     else delete_sessions (\<lambda>s. lsUserID s = uid) (snd (update_users (\<lambda>u. luID u = uid) (password_update ph req) db)))"
  "snd (CompleteLocalAuthUserPasswordChange now uid ph sid db) =
    (if length (filter (\<lambda>u. luID u = uid \<and> luRequirePasswordChange u) (dbUsers db)) = 1
        \<and> length (filter (\<lambda>s. lsID s = sid \<and> lsUserID s = uid \<and> lsExpiresAt s > now) (dbSessions db)) = 1
     then delete_sessions (\<lambda>s. lsUserID s = uid \<and> lsID s \<noteq> sid)
       (snd (update_users (\<lambda>u. luID u = uid \<and> luRequirePasswordChange u) (password_update ph False) db))
     else db)"
  by (auto simp: ActivateLocalAuthUser_def first_user_def CreateLocalAuthSession_def RefreshLocalAuthUserSetupToken_def
      SetLocalAuthUserPassword_def CompleteLocalAuthUserPasswordChange_def update_users_def find_None_iff filter_empty_conv
      split: option.splits sum.splits prod.splits)

lemma read_effect:
  "snd (LocalAuthSession c now sid db) =
    (case find (\<lambda>s. lsID s = sid) (dbSessions db) of
       None \<Rightarrow> db | Some s \<Rightarrow> if lsExpiresAt s > now then db else delete_sessions (\<lambda>s. lsID s = sid) db)"
  by (simp add: LocalAuthSession_def DeleteLocalAuthSession_def split: option.split sum.split)

lemmas store_effects = write_effects read_effect

lemmas create_defs = CreateLocalAuthUser_def CreateBootstrapLocalAuthUser_def CreateInitialLocalAuthUser_def

lemmas event_defs = apply_event_def DeleteLocalAuthUser_def DeleteLocalAuthSession_def
  DeleteLocalAuthSessionsForEmail_def DeleteAllLocalAuthSessions_def DeleteExpiredLocalAuthSessions_def

lemma db_ok_delete_user:
  assumes "db_ok db"
  shows "db_ok (snd (DeleteLocalAuthUser uid db))"
proof -
  have "db_ok (db\<lparr>dbUsers := filter (\<lambda>u. luID u \<noteq> uid) (dbUsers db)\<rparr>)"
    using assms by (simp add: db_ok_def users_ok_filter)
  with assms show ?thesis by (simp add: DeleteLocalAuthUser_def db_ok_delete_sessions)
qed

lemma db_ok_event:
  assumes "db_ok db"
  shows "db_ok (apply_event c ev db)"
proof -
  have upd: "db_ok (snd (update_users P (password_update ph req) db))"
    "db_ok (snd (update_users (\<lambda>u. luID u = uid \<and> luSetupTokenHash u \<noteq> [] \<and> luRequirePasswordChange u)
        (\<lambda>u. u\<lparr>luSetupTokenHash := tok, luSetupTokenExpiresAt := Some expires\<rparr>) db))" for P ph req uid tok expires
    by (rule db_ok_update[OF assms]; simp add: password_update_def)+
  show ?thesis
    by (cases ev)
       (use assms upd db_ok_create_session[OF assms] db_ok_delete_user[OF assms] in
         \<open>auto simp: apply_event_def create_defs store_effects DeleteLocalAuthSession_def
           DeleteLocalAuthSessionsForEmail_def DeleteAllLocalAuthSessions_def DeleteExpiredLocalAuthSessions_def
           intro!: db_ok_create db_ok_delete_sessions split: option.splits sum.splits\<close>)
qed

lemma apply_events_simps [simp]:
  "apply_events c [] db = db" "apply_events c (ev # evs) db = apply_events c evs (apply_event c ev db)"
  by (simp_all add: apply_events_def)

lemma db_ok_events: "db_ok db \<Longrightarrow> db_ok (apply_events c evs db)"
  by (induction evs arbitrary: db) (simp_all add: db_ok_event)

section \<open>What an operation can do to an account\<close>

text \<open>
  An account of the next tables is new, or it is an account of the current tables of which the setup
  token was not revived, and the password and the pending flag changed only where the operation may.
\<close>

definition succeeds_user :: "store_event \<Rightarrow> LocalAuthUser \<Rightarrow> LocalAuthUser \<Rightarrow> bool" where
  "succeeds_user ev u v =
    (luID v = luID u \<and> luHashedEmail v = luHashedEmail u
     \<and> (luSetupTokenHash u = [] \<longrightarrow> luSetupTokenHash v = [])
     \<and> (\<not> luRequirePasswordChange u \<longrightarrow> luRequirePasswordChange v \<longrightarrow> (\<exists>ph. ev = EvSetPassword (luID u) ph True))
     \<and> (\<not> luRequirePasswordChange u \<longrightarrow> luPasswordHash v \<noteq> luPasswordHash u \<longrightarrow> (\<exists>ph req. ev = EvSetPassword (luID u) ph req)))"

lemma succeeds_user_refl [simp]: "succeeds_user ev u u"
  by (simp add: succeeds_user_def)

lemma created_users:
  assumes "v \<in> set (dbUsers (snd (createLocalAuthUser c email ph req tok expires bootstrap db)))"
  shows "v \<in> set (dbUsers db) \<or> luID v = dbNextID db"
  by (rule create_cases[of c email ph req tok expires bootstrap db]) (use assms in auto)

lemma unchanged_users [simp]:
  "dbUsers (delete_sessions P db) = dbUsers db" "dbNextID (delete_sessions P db) = dbNextID db"
  "dbUsers (snd (CreateLocalAuthSession sid uid expires db)) = dbUsers db"
  "dbNextID (snd (CreateLocalAuthSession sid uid expires db)) = dbNextID db"
  "dbNextID (snd (update_users Q f db)) = dbNextID db"
  "dbSessions (snd (update_users Q f db)) = dbSessions db"
  by (simp_all add: delete_sessions_def CreateLocalAuthSession_def update_users_def)

lemma event_user:
  assumes "v \<in> set (dbUsers (apply_event c ev db))"
  shows "luID v = dbNextID db \<or> (\<exists>u\<in>set (dbUsers db). succeeds_user ev u v)"
proof -
  have upd: "\<exists>u\<in>set (dbUsers db). (P u \<and> v = f u) \<or> v = u" if "v \<in> set (dbUsers (snd (update_users P f db)))" for P f
    using that by (auto simp: update_users_def)
  show ?thesis
  proof (cases ev)
    case (EvRefresh uid tok expires)
    with assms upd show ?thesis
      by (fastforce simp: apply_event_def store_effects succeeds_user_def split: if_splits)
  next
    case (EvSetPassword uid ph req)
    with assms upd show ?thesis
      by (fastforce simp: apply_event_def store_effects succeeds_user_def password_update_def split: if_splits)
  next
    case (EvComplete now uid ph sid)
    with assms upd show ?thesis
      by (fastforce simp: apply_event_def store_effects succeeds_user_def password_update_def split: if_splits)
  qed (use assms created_users in \<open>fastforce simp: event_defs create_defs store_effects split: option.splits sum.splits if_splits\<close>)+
qed

lemma event_next: "dbNextID db \<le> dbNextID (apply_event c ev db)"
proof -
  have "dbNextID db \<le> dbNextID (snd (createLocalAuthUser c email ph req tok expires bootstrap db))"
    for email ph req tok expires bootstrap
    by (rule create_cases[of c email ph req tok expires bootstrap db]) auto
  then show ?thesis
    by (cases ev) (auto simp: event_defs create_defs store_effects split: option.splits sum.splits)
qed

text \<open>A property of one account that every operation keeps holds after any run.\<close>

lemma events_keep_user:
  assumes "uid < dbNextID db" "\<forall>u\<in>set (dbUsers db). luID u = uid \<longrightarrow> P u"
    "\<And>ev u v. ev \<in> set evs \<Longrightarrow> luID u = uid \<Longrightarrow> P u \<Longrightarrow> succeeds_user ev u v \<Longrightarrow> P v"
  shows "\<forall>u\<in>set (dbUsers (apply_events c evs db)). luID u = uid \<longrightarrow> P u"
  using assms
proof (induction evs arbitrary: db)
  case (Cons ev evs)
  have "P v" if v: "v \<in> set (dbUsers (apply_event c ev db))" "luID v = uid" for v
  proof -
    from event_user[OF v(1)] v(2) Cons.prems(1) obtain u where "u \<in> set (dbUsers db)" "succeeds_user ev u v" by auto
    with Cons.prems v(2) show "P v" by (metis list.set_intros(1) succeeds_user_def)
  qed
  moreover have "uid < dbNextID (apply_event c ev db)" using Cons.prems(1) event_next[of db c ev] by simp
  ultimately have "\<forall>u\<in>set (dbUsers (apply_events c evs (apply_event c ev db))). luID u = uid \<longrightarrow> P u"
    using Cons.prems(3) by (intro Cons.IH) auto
  then show ?case by simp
qed simp

section \<open>Theorems\<close>

text \<open>
  C12: Whatever the requests and however their transactions interleave, the tables keep their integrity: account
  identifiers increase and are never reused, no two accounts share an email, session identifiers are unique,
  and an account with a setup token still has to choose its password.
\<close>

theorem store_integrity: "db_ok (apply_events c evs empty_db)"
  by (rule db_ok_events) (simp add: db_ok_def users_ok_def empty_db_def)

lemma event_sessions:
  assumes "s \<in> set (dbSessions (apply_event c ev db))" "s \<notin> set (dbSessions db)"
  shows "(\<exists>sid expires. ev = EvCreateSession sid (lsUserID s) expires)
    \<or> (\<exists>now tok sid expires. ev = EvActivate now tok sid expires
         \<and> (\<exists>u\<in>set (dbUsers db). luID u = lsUserID s \<and> token_pending tok now u))"
proof -
  have created: "dbSessions (snd (createLocalAuthUser c email ph req tok expires bootstrap db)) = dbSessions db"
    for email ph req tok expires bootstrap
    by (rule create_cases[of c email ph req tok expires bootstrap db]) auto
  show ?thesis
    using assms
    by (cases ev) (auto simp: event_defs create_defs store_effects created delete_sessions_def CreateLocalAuthSession_def
        find_Some_iff split: option.splits sum.splits if_splits)
qed

text \<open>An account without a setup token, of which no login creates a session, gains no session.\<close>

lemma events_gain_no_session:
  assumes "db_ok db" "uid < dbNextID db" "\<forall>u\<in>set (dbUsers db). luID u = uid \<longrightarrow> luSetupTokenHash u = []"
    "\<forall>sid expires. EvCreateSession sid uid expires \<notin> set evs"
    "\<forall>now sid expires. EvActivate now [] sid expires \<notin> set evs"
    "s \<in> set (dbSessions (apply_events c evs db))" "lsUserID s = uid"
  shows "s \<in> set (dbSessions db)"
  using assms
proof (induction evs arbitrary: db)
  case (Cons ev evs)
  let ?db = "apply_event c ev db"
  have tokens: "\<forall>u\<in>set (dbUsers ?db). luID u = uid \<longrightarrow> luSetupTokenHash u = []"
    using events_keep_user[OF Cons.prems(2,3), of "[ev]" c] by (simp add: succeeds_user_def)
  have "s \<in> set (dbSessions ?db)"
    by (rule Cons.IH[OF db_ok_event[OF Cons.prems(1)] _ tokens])
       (use Cons.prems event_next[of db c ev] in auto)
  moreover have "\<not> (\<exists>u\<in>set (dbUsers db). luID u = uid \<and> token_pending tok now u)"
    if "ev = EvActivate now tok sid expires" for now tok sid expires
    using Cons.prems(3,5) that by (metis list.set_intros(1) token_pending_def)
  ultimately show ?case
    using event_sessions[of s c ev db] Cons.prems(4,7) by (metis list.set_intros(1))
qed simp

lemma updated_user:
  assumes "v \<in> set (dbUsers (snd (update_users P f db)))"
  shows "(\<exists>u\<in>set (dbUsers db). P u \<and> v = f u) \<or> (v \<in> set (dbUsers db) \<and> \<not> P v)"
  using assms by (auto simp: update_users_def)

lemma password_update_fields [simp]:
  "luID (password_update ph req u) = luID u" "luHashedEmail (password_update ph req u) = luHashedEmail u"
  "luPasswordHash (password_update ph req u) = ph" "luRequirePasswordChange (password_update ph req u) = req"
  "luSetupTokenHash (password_update ph req u) = []"
  by (simp_all add: password_update_def)

lemma password_set:
  assumes "fst (SetLocalAuthUserPassword uid ph req db) = Inr ()" "db_ok db"
  shows "uid < dbNextID db"
    "snd (SetLocalAuthUserPassword uid ph req db) =
       delete_sessions (\<lambda>s. lsUserID s = uid) (snd (update_users (\<lambda>u. luID u = uid) (password_update ph req) db))"
proof -
  have "filter (\<lambda>u. luID u = uid) (dbUsers db) \<noteq> []"
    using assms(1) by (auto simp: SetLocalAuthUserPassword_def update_users_def split: if_splits)
  then show "snd (SetLocalAuthUserPassword uid ph req db) =
       delete_sessions (\<lambda>s. lsUserID s = uid) (snd (update_users (\<lambda>u. luID u = uid) (password_update ph req) db))"
    and "uid < dbNextID db"
    using assms(2) by (auto simp: store_effects filter_empty_conv db_ok_def users_ok_def)
qed

lemma password_completed:
  assumes "fst (CompleteLocalAuthUserPasswordChange now uid ph sid db) = Inr ()" "db_ok db"
  shows "uid < dbNextID db"
    "snd (CompleteLocalAuthUserPasswordChange now uid ph sid db) =
       delete_sessions (\<lambda>s. lsUserID s = uid \<and> lsID s \<noteq> sid)
         (snd (update_users (\<lambda>u. luID u = uid \<and> luRequirePasswordChange u) (password_update ph False) db))"
    "\<forall>u\<in>set (dbUsers db). luID u = uid \<longrightarrow> luRequirePasswordChange u"
    "\<forall>u\<in>set (dbUsers (snd (CompleteLocalAuthUserPasswordChange now uid ph sid db))). luID u = uid \<longrightarrow>
       luPasswordHash u = ph \<and> luSetupTokenHash u = [] \<and> \<not> luRequirePasswordChange u"
proof -
  have one: "length (filter (\<lambda>u. luID u = uid \<and> luRequirePasswordChange u) (dbUsers db)) = 1"
      "length (filter (\<lambda>s. lsID s = sid \<and> lsUserID s = uid \<and> lsExpiresAt s > now) (dbSessions db)) = 1"
    using assms(1) by (auto simp: CompleteLocalAuthUserPasswordChange_def first_user_def update_users_def
        split: option.splits if_splits)
  then have "filter (\<lambda>u. luID u = uid \<and> luRequirePasswordChange u) (dbUsers db) \<noteq> []" by auto
  then obtain u where u: "u \<in> set (dbUsers db)" "luID u = uid" "luRequirePasswordChange u"
    by (auto simp: filter_empty_conv)
  show eq: "snd (CompleteLocalAuthUserPasswordChange now uid ph sid db) =
       delete_sessions (\<lambda>s. lsUserID s = uid \<and> lsID s \<noteq> sid)
         (snd (update_users (\<lambda>u. luID u = uid \<and> luRequirePasswordChange u) (password_update ph False) db))"
    using one by (simp add: store_effects)
  show "uid < dbNextID db" using u assms(2) by (auto simp: db_ok_def users_ok_def)
  have "distinct (map luID (dbUsers db))"
    using assms(2) by (simp add: db_ok_def users_ok_def strict_sorted_iff)
  then have "inj_on luID (set (dbUsers db))" by (simp add: distinct_map)
  then show pending: "\<forall>v\<in>set (dbUsers db). luID v = uid \<longrightarrow> luRequirePasswordChange v"
    using u by (metis inj_onD)
  show "\<forall>u\<in>set (dbUsers (snd (CompleteLocalAuthUserPasswordChange now uid ph sid db))). luID u = uid \<longrightarrow>
       luPasswordHash u = ph \<and> luSetupTokenHash u = [] \<and> \<not> luRequirePasswordChange u"
    unfolding eq unchanged_users
  proof (intro ballI impI)
    fix v assume v: "v \<in> set (dbUsers (snd (update_users (\<lambda>u. luID u = uid \<and> luRequirePasswordChange u) (password_update ph False) db)))"
      "luID v = uid"
    with updated_user[OF v(1)] pending obtain u where "v = password_update ph False u" by blast
    then show "luPasswordHash v = ph \<and> luSetupTokenHash v = [] \<and> \<not> luRequirePasswordChange v" by simp
  qed
qed

lemma password_write_revokes:
  assumes "db_ok db" "\<forall>sid expires. EvCreateSession sid uid expires \<notin> set evs"
    "\<forall>now sid expires. EvActivate now [] sid expires \<notin> set evs"
  shows "fst (SetLocalAuthUserPassword uid ph req db) = Inr () \<Longrightarrow>
      \<forall>s\<in>set (dbSessions (apply_events c evs (snd (SetLocalAuthUserPassword uid ph req db)))). lsUserID s \<noteq> uid"
    and "fst (CompleteLocalAuthUserPasswordChange now uid ph sid db) = Inr () \<Longrightarrow>
      \<forall>s\<in>set (dbSessions (apply_events c evs (snd (CompleteLocalAuthUserPasswordChange now uid ph sid db)))).
        lsUserID s = uid \<longrightarrow> lsID s = sid"
proof -
  assume "fst (SetLocalAuthUserPassword uid ph req db) = Inr ()"
  note set = password_set[OF this assms(1)]
  let ?db = "snd (SetLocalAuthUserPassword uid ph req db)"
  have "db_ok ?db" using db_ok_event[OF assms(1), of c "EvSetPassword uid ph req"] by (simp add: apply_event_def)
  moreover have "\<forall>u\<in>set (dbUsers ?db). luID u = uid \<longrightarrow> luSetupTokenHash u = []"
    using updated_user[of _ "\<lambda>u. luID u = uid" "password_update ph req" db] unfolding set(2) unchanged_users
    by (metis password_update_fields(5))
  moreover have "uid < dbNextID ?db" using set(1) by (simp add: set(2))
  ultimately have kept: "s \<in> set (dbSessions ?db)" if "s \<in> set (dbSessions (apply_events c evs ?db))" "lsUserID s = uid" for s
    using events_gain_no_session assms(2,3) that by blast
  have "lsUserID s \<noteq> uid" if "s \<in> set (dbSessions ?db)" for s
    using that by (simp add: set(2) delete_sessions_def)
  with kept show "\<forall>s\<in>set (dbSessions (apply_events c evs ?db)). lsUserID s \<noteq> uid" by blast
next
  assume "fst (CompleteLocalAuthUserPasswordChange now uid ph sid db) = Inr ()"
  note complete = password_completed[OF this assms(1)]
  let ?db = "snd (CompleteLocalAuthUserPasswordChange now uid ph sid db)"
  have "db_ok ?db" using db_ok_event[OF assms(1), of c "EvComplete now uid ph sid"] by (simp add: apply_event_def)
  moreover have "\<forall>u\<in>set (dbUsers ?db). luID u = uid \<longrightarrow> luSetupTokenHash u = []"
    using complete(4) by blast
  moreover have "uid < dbNextID ?db" using complete(1) by (simp add: complete(2))
  ultimately have kept: "s \<in> set (dbSessions ?db)" if "s \<in> set (dbSessions (apply_events c evs ?db))" "lsUserID s = uid" for s
    using events_gain_no_session assms(2,3) that by blast
  have "lsID s = sid" if "s \<in> set (dbSessions ?db)" "lsUserID s = uid" for s
    using that by (simp add: complete(2) delete_sessions_def)
  with kept show "\<forall>s\<in>set (dbSessions (apply_events c evs ?db)). lsUserID s = uid \<longrightarrow> lsID s = sid" by blast
qed

text \<open>
  C13: A password write ends the other sessions of the account for good. After an administrator set the
  password no session of the account is left, and after its owner completed a required change only the
  session that did it; and whatever happens afterwards, no session of the account appears until a login
  creates one.
\<close>

theorem password_write_revokes_sessions:
  assumes "db_ok db" "\<forall>sid expires. EvCreateSession sid uid expires \<notin> set evs"
    "\<forall>now sid expires. EvActivate now [] sid expires \<notin> set evs"
  shows "(fst (SetLocalAuthUserPassword uid ph req db) = Inr () \<longrightarrow>
      (\<forall>s\<in>set (dbSessions (apply_events c evs (snd (SetLocalAuthUserPassword uid ph req db)))). lsUserID s \<noteq> uid))
    \<and> (fst (CompleteLocalAuthUserPasswordChange now uid ph sid db) = Inr () \<longrightarrow>
      (\<forall>s\<in>set (dbSessions (apply_events c evs (snd (CompleteLocalAuthUserPasswordChange now uid ph sid db)))).
        lsUserID s = uid \<longrightarrow> lsID s = sid))"
  using password_write_revokes[OF assms] by simp

text \<open>
  Only the first completion of a required password change succeeds, and a completed account is never
  rearmed: until an administrator sets the password of the account, it keeps the chosen password, has no
  setup token, and every further completion and every rotation of its setup token fails.
\<close>

theorem completed_account_final:
  assumes "db_ok db" "fst (CompleteLocalAuthUserPasswordChange now uid ph sid db) = Inr ()"
    "\<forall>ph' req. EvSetPassword uid ph' req \<notin> set evs"
    and db': "db' = apply_events c evs (snd (CompleteLocalAuthUserPasswordChange now uid ph sid db))"
  shows "(\<forall>u\<in>set (dbUsers db'). luID u = uid \<longrightarrow>
        luPasswordHash u = ph \<and> luSetupTokenHash u = [] \<and> \<not> luRequirePasswordChange u)
    \<and> fst (CompleteLocalAuthUserPasswordChange now' uid ph' sid' db') = Inl ErrRecordNotFound
    \<and> fst (RefreshLocalAuthUserSetupToken uid tok expires db') = Inl ErrRecordNotFound"
proof -
  note complete = password_completed[OF assms(2,1)]
  let ?P = "\<lambda>u. luPasswordHash u = ph \<and> luSetupTokenHash u = [] \<and> \<not> luRequirePasswordChange u"
  let ?db = "snd (CompleteLocalAuthUserPasswordChange now uid ph sid db)"
  have final: "\<forall>u\<in>set (dbUsers db'). luID u = uid \<longrightarrow> ?P u"
    unfolding db'
  proof (rule events_keep_user)
    show "uid < dbNextID ?db" using complete(1) by (simp add: complete(2))
    show "\<forall>u\<in>set (dbUsers ?db). luID u = uid \<longrightarrow> ?P u"
      using complete(4) by blast
  next
    fix ev u v assume "ev \<in> set evs" "luID u = uid" "?P u" "succeeds_user ev u v"
    with assms(3) show "?P v" by (auto simp: succeeds_user_def)
  qed
  then have "filter (\<lambda>u. luID u = uid \<and> luRequirePasswordChange u) (dbUsers db') = []"
    "filter (\<lambda>u. luID u = uid \<and> luSetupTokenHash u \<noteq> [] \<and> luRequirePasswordChange u) (dbUsers db') = []"
    "find (\<lambda>u. luID u = uid \<and> luRequirePasswordChange u) (dbUsers db') = None"
    by (auto simp: filter_empty_conv find_None_iff)
  with final show ?thesis
    by (simp add: CompleteLocalAuthUserPasswordChange_def first_user_def RefreshLocalAuthUserSetupToken_def update_users_def)
qed

text \<open>The contract of the encryption at rest: what was stored is read back, under the same context.\<close>

definition transformer_ok :: "auth_store \<Rightarrow> bool" where
  "transformer_ok c =
    (\<forall>t x ctx b. asTransformer c = Some t \<and> TransformToStorage t x ctx = Some b \<longrightarrow> TransformFromStorage t b ctx = Some x)"

lemma decrypt_encrypt:
  assumes "transformer_ok c" "encryptLocalAuthUser c u = Inr v" "\<not> luEncrypted u"
  shows "decryptLocalAuthUser c (v\<lparr>luID := uid\<rparr>) = Inr (v\<lparr>luID := uid, luEmail := luEmail u, luEncrypted := False\<rparr>)"
  using assms
  by (auto simp: encryptLocalAuthUser_def decryptLocalAuthUser_def transformer_ok_def localAuthUserDataCtx_def split: option.splits)

text \<open>
  An account that was created is found again under every spelling of its email, with the email
  decrypted, and is the account that the creation returned.
\<close>

theorem created_account_found:
  assumes "transformer_ok c" "db_ok db"
    "createLocalAuthUser c email ph req tok expires bootstrap db = (Inr user, db')"
    "NormalizeEmail spelling = NormalizeEmail email"
  shows "LocalAuthUserByEmail c spelling db' = (Inr user, db') \<and> LocalAuthUserByID c (luID user) db' = (Inr user, db')
    \<and> luEmail user = NormalizeEmail email \<and> luPasswordHash user = ph"
proof -
  let ?u = "\<lparr>luID = 0, luEmail = NormalizeEmail email, luHashedEmail = asHash c (NormalizeEmail email), luPasswordHash = ph,
     luRequirePasswordChange = req, luSetupTokenHash = tok, luSetupTokenExpiresAt = expires, luEncrypted = False\<rparr>"
  obtain v where v: "encryptLocalAuthUser c ?u = Inr v" "luHashedEmail v \<notin> luHashedEmail ` set (dbUsers db)"
    "user = v\<lparr>luID := dbNextID db, luEmail := NormalizeEmail email, luEncrypted := False\<rparr>"
    "db' = db\<lparr>dbUsers := dbUsers db @ [v\<lparr>luID := dbNextID db\<rparr>], dbNextID := dbNextID db + 1\<rparr>"
    using assms(3) by (auto simp: createLocalAuthUser_def Let_def split: sum.splits if_splits)
  have fresh: "find (\<lambda>u. luHashedEmail u = luHashedEmail v) (dbUsers db) = None"
    using v(2) unfolding find_None_iff by (auto simp: image_iff eq_commute[of "luHashedEmail v"])
  have newest: "find (\<lambda>u. luID u = dbNextID db) (dbUsers db) = None"
    using assms(2) by (auto simp: find_None_iff db_ok_def users_ok_def)
  have find_append: "find P (xs @ [x]) = (case find P xs of Some y \<Rightarrow> Some y | None \<Rightarrow> if P x then Some x else None)"
    for P and xs :: "LocalAuthUser list" and x
    by (induction xs) auto
  have "found_user c (\<lambda>u. luHashedEmail u = luHashedEmail v) db' = Inr user" "found_user c (\<lambda>u. luID u = dbNextID db) db' = Inr user"
    using decrypt_encrypt[OF assms(1) v(1), of "dbNextID db"] fresh newest by (simp_all add: found_user_def first_user_def v find_append)
  with encrypt_fields[OF v(1)] v(3) assms(4) show ?thesis
    by (simp add: LocalAuthUserByEmail_def LocalAuthUserByID_def)
qed

section \<open>Witnesses\<close>

text \<open>A store that encrypts by reversing, and the tables after the creation of the initial owner and its activation.\<close>

definition example_store :: auth_store where
  "example_store =
    \<lparr>asHash = (\<lambda>s. ''h'' @ s),
     asTransformer = Some \<lparr>TransformToStorage = (\<lambda>x ctx. Some (rev x)), TransformFromStorage = (\<lambda>b ctx. Some (rev b))\<rparr>\<rparr>"

definition example_tables :: auth_db where
  "example_tables =
    apply_events example_store [EvCreateInitial ''Ann@x.org'' ''p0'' ''t'' 9, EvActivate 1 ''t'' ''s1'' 50, EvActivate 2 ''t'' ''s2'' 50] empty_db"

lemmas example_simps = example_tables_def example_store_def apply_event_def create_defs createLocalAuthUser_def Let_def
  encryptLocalAuthUser_def empty_db_def ActivateLocalAuthUser_def first_user_def token_pending_def CreateLocalAuthSession_def
  decryptLocalAuthUser_def localAuthUserDataCtx_def

lemma example_tables_ok: "db_ok example_tables"
  unfolding example_tables_def by (rule db_ok_events) (simp add: db_ok_def users_ok_def empty_db_def)

lemma example_rows:
  "map luID (dbUsers example_tables) = [1]" "map luRequirePasswordChange (dbUsers example_tables) = [True]"
  "map (\<lambda>s. (lsID s, lsUserID s, lsExpiresAt s)) (dbSessions example_tables) = [(''s1'', 1, 50), (''s2'', 1, 50)]"
  by (simp_all add: example_simps)

lemma example_completes: "fst (CompleteLocalAuthUserPasswordChange 3 1 ''p1'' ''s1'' example_tables) = Inr ()"
  by (simp add: CompleteLocalAuthUserPasswordChange_def update_users_def example_simps)

lemma example_set: "fst (SetLocalAuthUserPassword 1 ''p2'' True example_tables) = Inr ()"
  by (simp add: SetLocalAuthUserPassword_def update_users_def example_simps)

theorem password_write_revokes_sessions_witness:
  "map lsUserID (dbSessions (apply_events example_store [EvActivate 4 ''t'' ''s3'' 60, EvCreateSession ''s4'' 2 60]
     (snd (SetLocalAuthUserPassword 1 ''p2'' True example_tables)))) = [2]
   \<and> \<not> list_ex (\<lambda>s. lsUserID s = 1) (dbSessions (apply_events example_store [EvActivate 4 ''t'' ''s3'' 60, EvCreateSession ''s4'' 2 60]
     (snd (SetLocalAuthUserPassword 1 ''p2'' True example_tables))))"
  using password_write_revokes_sessions[OF example_tables_ok,
      of 1 "[EvActivate 4 ''t'' ''s3'' 60, EvCreateSession ''s4'' 2 60]" "''p2''" True example_store] example_set
  by (simp add: list_ex_iff store_effects update_users_def password_update_def delete_sessions_def example_simps)

theorem completed_account_final_witness:
  "fst (CompleteLocalAuthUserPasswordChange 5 1 ''p9'' ''s1''
      (apply_events example_store [EvRefresh 1 ''t2'' 99, EvActivate 4 ''t'' ''s3'' 60]
        (snd (CompleteLocalAuthUserPasswordChange 3 1 ''p1'' ''s1'' example_tables)))) = Inl ErrRecordNotFound
   \<and> fst (CompleteLocalAuthUserPasswordChange 3 1 ''p1'' ''s1'' example_tables) = Inr ()"
  using completed_account_final[OF example_tables_ok example_completes, of "[EvRefresh 1 ''t2'' 99, EvActivate 4 ''t'' ''s3'' 60]" _ example_store]
    example_completes by simp

theorem created_account_found_witness:
  "fst (LocalAuthUserByEmail example_store '' ANN@X.org ''
      (snd (createLocalAuthUser example_store ''Ann@x.org'' ''p0'' True ''t'' (Some 9) False empty_db)))
   = fst (createLocalAuthUser example_store ''Ann@x.org'' ''p0'' True ''t'' (Some 9) False empty_db)"
proof -
  let ?r = "createLocalAuthUser example_store ''Ann@x.org'' ''p0'' True ''t'' (Some 9) False empty_db"
  have "transformer_ok example_store" by (simp add: transformer_ok_def example_store_def)
  moreover have "db_ok empty_db" by (simp add: db_ok_def users_ok_def empty_db_def)
  moreover obtain u db' where "?r = (Inr u, db')"
    by (simp add: createLocalAuthUser_def Let_def example_store_def encryptLocalAuthUser_def empty_db_def)
  moreover have "NormalizeEmail '' ANN@X.org '' = NormalizeEmail ''Ann@x.org''"
    by code_simp
  ultimately show ?thesis using created_account_found by simp
qed

end
