(* ===== verification/Credential_Store.thy ===== *)
theory Credential_Store
  imports Local_Auth_Store
begin

text \<open>
  The table of named secrets (pkg/gateway/client/credential.go): a row for each context and name, with the
  secrets encrypted at rest as one value. The secrets are a map of strings, here an association list with distinct keys whose
  order means nothing; the column of a row holds its JSON text, which the serializer of the database layer
  writes and reads. The transformer of the encryption and the JSON text of a map of
  strings are parameters. A failure of the database connection is not modelled.
\<close>

section \<open>Rows\<close>

record Credential =
  crContext :: string
  crName :: string
  crSecrets :: "(string \<times> string) list"
  crEncrypted :: bool

text \<open>The row: the column of the secrets is text.\<close>

record CredentialRow =
  roContext :: string
  roName :: string
  roSecrets :: string
  roEncrypted :: bool

record credential_store =
  csTransformer :: "transformer option"
  csMarshal :: "(string \<times> string) list \<Rightarrow> string"
  csUnmarshal :: "string \<Rightarrow> (string \<times> string) list option"

datatype credential_error =
    CredentialNotFoundError "string list" string
  | CredentialRequired
  | CredentialEncrypt
  | CredentialDecrypt
  | CredentialScan

type_synonym credentials = "CredentialRow list"

text \<open>What the \<open>json\<close> serializer stores for a credential, and what it reads back; an empty column is an empty map.\<close>

definition to_row :: "credential_store \<Rightarrow> Credential \<Rightarrow> CredentialRow" where
  "to_row c credential =
    \<lparr>roContext = crContext credential, roName = crName credential, roSecrets = csMarshal c (crSecrets credential), roEncrypted = crEncrypted credential\<rparr>"

definition scan_row :: "credential_store \<Rightarrow> CredentialRow \<Rightarrow> credential_error + Credential" where
  "scan_row c r =
    (case (if roSecrets r = [] then Some [] else csUnmarshal c (roSecrets r)) of
       None \<Rightarrow> Inl CredentialScan
     | Some secrets \<Rightarrow> Inr \<lparr>crContext = roContext r, crName = roName r, crSecrets = secrets, crEncrypted = roEncrypted r\<rparr>)"

definition credentialEncryptedSecretsKey :: string where
  "credentialEncryptedSecretsKey = ''_obot_encrypted_env''"

section \<open>Encryption at rest\<close>

definition credentialDataCtx :: "Credential \<Rightarrow> string" where
  "credentialDataCtx credential = crName credential @ ''///'' @ crContext credential"

definition encryptCredential :: "credential_store \<Rightarrow> Credential \<Rightarrow> credential_error + Credential" where
  "encryptCredential c credential =
    (case csTransformer c of
       None \<Rightarrow> Inr credential
     | Some transformer \<Rightarrow>
         (case TransformToStorage transformer (csMarshal c (crSecrets credential)) (credentialDataCtx credential) of
            None \<Rightarrow> Inl CredentialEncrypt
          | Some b \<Rightarrow>
              Inr (credential\<lparr>crSecrets := [(credentialEncryptedSecretsKey, StdEncoding_EncodeToString b)], crEncrypted := True\<rparr>)))"

definition secret_value :: "(string \<times> string) list \<Rightarrow> string \<Rightarrow> string" where
  "secret_value secrets key = (case map_of secrets key of None \<Rightarrow> [] | Some v \<Rightarrow> v)"

definition decryptCredential :: "credential_store \<Rightarrow> Credential \<Rightarrow> credential_error + Credential" where
  "decryptCredential c credential =
    (if \<not> crEncrypted credential \<or> length (crSecrets credential) \<noteq> 1 then Inr credential
     else case csTransformer c of
            None \<Rightarrow> Inr credential
          | Some transformer \<Rightarrow>
              let encryptedSecrets = secret_value (crSecrets credential) credentialEncryptedSecretsKey
              in if encryptedSecrets = [] then Inl CredentialDecrypt
                 else (case StdEncoding_DecodeString encryptedSecrets of
                        None \<Rightarrow> Inl CredentialDecrypt
                      | Some decoded \<Rightarrow>
                          (case TransformFromStorage transformer decoded (credentialDataCtx credential) of
                             None \<Rightarrow> Inl CredentialDecrypt
                           | Some out \<Rightarrow>
                               (case csUnmarshal c out of
                                  None \<Rightarrow> Inl CredentialDecrypt
                                | Some secrets \<Rightarrow> Inr (credential\<lparr>crSecrets := secrets\<rparr>)))))"

definition blankCredentialSecrets :: "(string \<times> string) list \<Rightarrow> (string \<times> string) list" where
  "blankCredentialSecrets secrets = map (\<lambda>(key, _). (key, [])) secrets"

section \<open>Operations\<close>

definition is_row :: "string \<Rightarrow> string \<Rightarrow> CredentialRow \<Rightarrow> bool" where
  "is_row context name r = (roContext r = context \<and> roName r = name)"

text \<open>\<open>Find\<close> reads all rows before the first is decrypted.\<close>

fun scan_rows :: "credential_store \<Rightarrow> credentials \<Rightarrow> credential_error + Credential list" where
  "scan_rows c [] = Inr []"
| "scan_rows c (r # rs) =
    (case scan_row c r of
       Inl e \<Rightarrow> Inl e
     | Inr d \<Rightarrow> (case scan_rows c rs of Inl e \<Rightarrow> Inl e | Inr ds \<Rightarrow> Inr (d # ds)))"

fun list_rows :: "credential_store \<Rightarrow> Credential list \<Rightarrow> credential_error + Credential list" where
  "list_rows c [] = Inr []"
| "list_rows c (r # rs) =
    (case decryptCredential c r of
       Inl e \<Rightarrow> Inl e
     | Inr d \<Rightarrow>
         (case list_rows c rs of
            Inl e \<Rightarrow> Inl e
          | Inr ds \<Rightarrow> Inr (d\<lparr>crSecrets := blankCredentialSecrets (crSecrets d)\<rparr> # ds)))"

definition ListCredentials :: "credential_store \<Rightarrow> string list \<Rightarrow> bool \<Rightarrow> credentials \<Rightarrow> credential_error + Credential list" where
  "ListCredentials c contexts allContexts db =
    (if contexts = [] \<and> \<not> allContexts then Inr []
     else case scan_rows c (if allContexts then db else filter (\<lambda>r. roContext r \<in> set contexts) db) of
            Inl e \<Rightarrow> Inl e
          | Inr rows \<Rightarrow> list_rows c rows)"

fun reveal_first :: "credential_store \<Rightarrow> string list \<Rightarrow> string \<Rightarrow> string list \<Rightarrow> credentials \<Rightarrow> credential_error + Credential" where
  "reveal_first c all name [] db = Inl (CredentialNotFoundError all name)"
| "reveal_first c all name (context # contexts) db =
    (case find (is_row context name) db of
       None \<Rightarrow> reveal_first c all name contexts db
     | Some r \<Rightarrow> (case scan_row c r of Inl e \<Rightarrow> Inl e | Inr credential \<Rightarrow> decryptCredential c credential))"

definition RevealCredential :: "credential_store \<Rightarrow> string list \<Rightarrow> string \<Rightarrow> credentials \<Rightarrow> credential_error + Credential" where
  "RevealCredential c contexts name db = reveal_first c contexts name contexts db"

definition HasCredential :: "string list \<Rightarrow> string \<Rightarrow> credentials \<Rightarrow> bool" where
  "HasCredential contexts name db =
    (contexts \<noteq> [] \<and> length (filter (\<lambda>r. roContext r \<in> set contexts \<and> roName r = name) db) > 0)"

text \<open>An upsert replaces the secrets of the row with the same context and name, and inserts a row otherwise.\<close>

definition on_conflict_update :: "CredentialRow \<Rightarrow> credentials \<Rightarrow> credentials" where
  "on_conflict_update r db =
    (if list_ex (is_row (roContext r) (roName r)) db
     then map (\<lambda>x. if is_row (roContext r) (roName r) x then x\<lparr>roSecrets := roSecrets r, roEncrypted := roEncrypted r\<rparr> else x) db
     else db @ [r])"

definition UpsertCredential :: "credential_store \<Rightarrow> Credential \<Rightarrow> credentials \<Rightarrow> (credential_error + unit) \<times> credentials" where
  "UpsertCredential c credential db =
    (if crContext credential = [] \<or> crName credential = [] then (Inl CredentialRequired, db)
     else case encryptCredential c (credential\<lparr>crEncrypted := False\<rparr>) of
            Inl e \<Rightarrow> (Inl e, db)
          | Inr stored \<Rightarrow> (Inr (), on_conflict_update (to_row c stored) db))"

definition EnsureCredential :: "credential_store \<Rightarrow> Credential \<Rightarrow> credentials \<Rightarrow> (credential_error + Credential) \<times> credentials" where
  "EnsureCredential c credential db =
    (if crContext credential = [] \<or> crName credential = [] then (Inl CredentialRequired, db)
     else case encryptCredential c (credential\<lparr>crEncrypted := False\<rparr>) of
            Inl e \<Rightarrow> (Inl e, db)
          | Inr stored \<Rightarrow>
              let db' = (if list_ex (is_row (crContext stored) (crName stored)) db then db else db @ [to_row c stored])
              in (RevealCredential c [crContext stored] (crName stored) db', db'))"

definition DeleteCredential :: "string \<Rightarrow> string \<Rightarrow> credentials \<Rightarrow> bool \<times> credentials" where
  "DeleteCredential context name db =
    (list_ex (is_row context name) db, filter (\<lambda>r. \<not> is_row context name r) db)"

section \<open>What a table of secrets promises\<close>

text \<open>
  The contract its clients use: with a sound configuration, a value that was put and is fit for the table is what the row reads as, up to
  what a value shows, and rows of other contexts or names read as before. A row may be unreadable.
\<close>

locale secret_table =
  fixes sound :: "'c \<Rightarrow> bool" and fit :: "'s \<Rightarrow> bool" and view :: "'s \<Rightarrow> 'v"
    and put :: "'c \<Rightarrow> string \<Rightarrow> string \<Rightarrow> 's \<Rightarrow> 'db \<Rightarrow> 'db option"
    and fetch :: "'c \<Rightarrow> string \<Rightarrow> string \<Rightarrow> 'db \<Rightarrow> ('e + 'v) option"
  assumes fetch_put: "sound c \<Longrightarrow> fit s \<Longrightarrow> put c context name s db = Some db' \<Longrightarrow> fetch c context name db' = Some (Inr (view s))"
    and fetch_other: "put c context name s db = Some db' \<Longrightarrow> (context', name') \<noteq> (context, name) \<Longrightarrow>
      fetch c context' name' db' = fetch c context' name' db"
begin

text \<open>Reading through an ordered list of contexts, as the clients do.\<close>

fun fetch_first :: "'c \<Rightarrow> string list \<Rightarrow> string \<Rightarrow> 'db \<Rightarrow> ('e + 'v) option" where
  "fetch_first c [] name db = None"
| "fetch_first c (context # contexts) name db =
    (case fetch c context name db of None \<Rightarrow> fetch_first c contexts name db | Some s \<Rightarrow> Some s)"

lemma fetch_first_put:
  assumes "sound c" "fit s" "put c context name s db = Some db'" "\<forall>before\<in>set befores. fetch c before name db = None"
  shows "fetch_first c (befores @ context # afters) name db' = Some (Inr (view s))"
  using assms(4)
proof (induction befores)
  case (Cons b bs)
  then show ?case
    using fetch_other[OF assms(3), of b name] fetch_put[OF assms(1-3)] by (cases "b = context") auto
qed (simp add: fetch_put[OF assms(1-3)])

lemma put_later_context_hidden:
  assumes "put c context name s db = Some db'" "fetch c first name db = Some r" "first \<noteq> context"
  shows "fetch_first c (first # contexts) name db' = Some r"
  using fetch_other[OF assms(1), of first name] assms(2,3) by simp

end

text \<open>A Go map of strings that JSON represents: distinct keys, and valid UTF-8 (other bytes are replaced).\<close>

definition secret_map :: "(string \<times> string) list \<Rightarrow> bool" where
  "secret_map s \<longleftrightarrow> distinct (map fst s) \<and> (\<forall>(key, value)\<in>set s. valid_utf8 key \<and> valid_utf8 value)"

text \<open>
  The contract of the parameters: the JSON text of such a map is not empty and reads back as the same map, in some order; sealing
  can be undone under the same context and is never empty.
\<close>

definition seals_ok :: "credential_store \<Rightarrow> bool" where
  "seals_ok c =
    ((\<forall>s. secret_map s \<longrightarrow> csMarshal c s \<noteq> []
        \<and> (\<exists>s'. csUnmarshal c (csMarshal c s) = Some s' \<and> distinct (map fst s') \<and> map_of s' = map_of s))
     \<and> (\<forall>t x ctx b. csTransformer c = Some t \<and> TransformToStorage t x ctx = Some b \<longrightarrow> b \<noteq> [] \<and> TransformFromStorage t b ctx = Some x))"

lemma scan_to_row:
  assumes "seals_ok c" "secret_map (crSecrets s)" "roContext x = crContext s" "roName x = crName s" "roSecrets x = csMarshal c (crSecrets s)"
    "roEncrypted x = crEncrypted s"
  obtains m where "scan_row c x = Inr (s\<lparr>crSecrets := m\<rparr>)" "distinct (map fst m)" "map_of m = map_of (crSecrets s)"
proof -
  obtain m where "csMarshal c (crSecrets s) \<noteq> []" "csUnmarshal c (csMarshal c (crSecrets s)) = Some m" "distinct (map fst m)" "map_of m = map_of (crSecrets s)"
    using assms(1,2) by (auto simp: seals_ok_def)
  with that[of m] assms(3-6) show thesis by (simp add: scan_row_def)
qed

lemma single_entry: "distinct (map fst m) \<Longrightarrow> map_of m = map_of [(k, v)] \<Longrightarrow> m = [(k, v)]"
proof -
  assume d: "distinct (map fst m)" and m: "map_of m = map_of [(k, v)]"
  have "p \<in> set m \<longleftrightarrow> p = (k, v)" for p
    using map_of_eq_Some_iff[OF d, of "fst p" "snd p"] m by (cases p) (auto split: if_splits)
  then have "set m = {(k, v)}" by auto
  moreover have "distinct m" using d by (simp add: distinct_map)
  ultimately show "m = [(k, v)]" by (cases m; cases "tl m") auto
qed

lemma base64_ascii: "ascii_text (StdEncoding_EncodeToString b)"
proof -
  have chr: "of_char (base64_char n) < (128 :: nat)" for n
    by (auto simp: base64_char_def alphabet_char_def take_bit_nat_eq_self)
  show ?thesis
    unfolding StdEncoding_EncodeToString_def ascii_text_def
    by (induction base64_char "''=''" b rule: encode_groups.induct) (simp_all add: chr)
qed

lemma sealed_map: "secret_map [(credentialEncryptedSecretsKey, StdEncoding_EncodeToString b)]"
proof -
  have "ascii_text credentialEncryptedSecretsKey" by (simp add: credentialEncryptedSecretsKey_def ascii_text_def)
  then show ?thesis using base64_ascii[of b] by (simp add: secret_map_def ascii_valid_utf8)
qed

lemma encoded_nonempty: "b \<noteq> [] \<Longrightarrow> StdEncoding_EncodeToString b \<noteq> []"
  by (metis StdEncoding_roundtrip StdEncoding_DecodeString_def decode_padded.simps(1) filter.simps(1) option.sel without_breaks_def)

lemma encrypt_keeps: "encryptCredential c r = Inr s \<Longrightarrow> crContext s = crContext r \<and> crName s = crName r"
  by (auto simp: encryptCredential_def split: option.splits)

lemma decrypt_encrypted:
  assumes "seals_ok c" "secret_map (crSecrets r)" "encryptCredential c r = Inr s" "\<not> crEncrypted r"
    "roContext x = crContext r" "roName x = crName r" "roSecrets x = csMarshal c (crSecrets s)" "roEncrypted x = crEncrypted s"
  shows "\<exists>y d. scan_row c x = Inr y \<and> decryptCredential c y = Inr d \<and> map_of (crSecrets d) = map_of (crSecrets r)"
proof (cases "csTransformer c")
  case None
  with assms(3) have "s = r" by (simp add: encryptCredential_def)
  with assms obtain m where "scan_row c x = Inr (r\<lparr>crSecrets := m\<rparr>)" "map_of m = map_of (crSecrets r)"
    using scan_to_row[OF assms(1,2), of x] by auto
  with assms(4) show ?thesis by (simp add: decryptCredential_def)
next
  case (Some t)
  then obtain b where b: "TransformToStorage t (csMarshal c (crSecrets r)) (credentialDataCtx r) = Some b"
    and s: "s = r\<lparr>crSecrets := [(credentialEncryptedSecretsKey, StdEncoding_EncodeToString b)], crEncrypted := True\<rparr>"
    using assms(3) by (auto simp: encryptCredential_def split: option.splits)
  obtain m where m: "scan_row c x = Inr (s\<lparr>crSecrets := m\<rparr>)" "distinct (map fst m)" "map_of m = map_of (crSecrets s)"
    by (rule scan_to_row[OF assms(1), of s x]) (use assms(5-8) sealed_map[of b] in \<open>simp_all add: s\<close>)
  then have sealed: "m = [(credentialEncryptedSecretsKey, StdEncoding_EncodeToString b)]" by (intro single_entry) (simp_all add: s)
  obtain out where "b \<noteq> []" "TransformFromStorage t b (credentialDataCtx r) = Some (csMarshal c (crSecrets r))"
    "csUnmarshal c (csMarshal c (crSecrets r)) = Some out" "map_of out = map_of (crSecrets r)"
    using assms(1,2) Some b unfolding seals_ok_def by metis
  moreover have "credentialDataCtx (s\<lparr>crSecrets := m\<rparr>) = credentialDataCtx r" by (simp add: s credentialDataCtx_def)
  ultimately show ?thesis
    using Some m(1) sealed encoded_nonempty[of b] by (simp add: decryptCredential_def secret_value_def s)
qed

lemma find_updated:
  "find P (map (\<lambda>x. if Q x then f x else x) xs) = map_option (\<lambda>x. if Q x then f x else x) (find P xs)"
  if "\<And>x. P (f x) = P x"
  using that by (induction xs) auto

lemma find_row_on_conflict:
  assumes "roContext r = context" "roName r = name"
  shows "\<exists>x. find (is_row context name) (on_conflict_update r db) = Some x \<and> roContext x = context \<and> roName x = name
    \<and> roSecrets x = roSecrets r \<and> roEncrypted x = roEncrypted r"
proof (cases "find (is_row context name) db")
  case None
  then have "\<not> list_ex (is_row context name) db" by (auto simp: find_None_iff list_ex_iff)
  moreover have "find (is_row context name) (db @ [r]) = Some r"
    using None assms by (induction db) (auto simp: is_row_def)
  ultimately show ?thesis using assms by (simp add: on_conflict_update_def)
next
  case (Some x)
  then have "list_ex (is_row context name) db" "is_row context name x" by (auto simp: find_Some_iff list_ex_iff)
  moreover have "find (is_row context name) (map (\<lambda>x. if is_row context name x then x\<lparr>roSecrets := roSecrets r, roEncrypted := roEncrypted r\<rparr> else x) db)
      = Some (x\<lparr>roSecrets := roSecrets r, roEncrypted := roEncrypted r\<rparr>)"
    using Some \<open>is_row context name x\<close> find_updated[of "is_row context name"
        "\<lambda>x. x\<lparr>roSecrets := roSecrets r, roEncrypted := roEncrypted r\<rparr>" "is_row context name" db]
    by (simp add: is_row_def)
  ultimately show ?thesis using assms by (simp add: on_conflict_update_def is_row_def)
qed

lemma find_other_row:
  assumes "(context', name') \<noteq> (roContext r, roName r)"
  shows "find (is_row context' name') (on_conflict_update r db) = find (is_row context' name') db"
proof -
  have no: "\<not> is_row context' name' x" if "is_row (roContext r) (roName r) x" for x
    using assms that by (auto simp: is_row_def)
  have "find (is_row context' name') (map (\<lambda>x. if is_row (roContext r) (roName r) x
      then x\<lparr>roSecrets := roSecrets r, roEncrypted := roEncrypted r\<rparr> else x) db) = find (is_row context' name') db"
    using no assms by (induction db) (auto simp: is_row_def)
  moreover have "find (is_row context' name') (db @ [r]) = find (is_row context' name') db"
    using assms by (induction db) (auto simp: is_row_def)
  ultimately show ?thesis by (simp add: on_conflict_update_def)
qed

definition put_secrets :: "credential_store \<Rightarrow> string \<Rightarrow> string \<Rightarrow> (string \<times> string) list \<Rightarrow> credentials \<Rightarrow> credentials option" where
  "put_secrets c context name secrets db =
    (case UpsertCredential c \<lparr>crContext = context, crName = name, crSecrets = secrets, crEncrypted = False\<rparr> db of
       (Inl _, _) \<Rightarrow> None | (Inr _, db') \<Rightarrow> Some db')"

definition read_row :: "credential_store \<Rightarrow> CredentialRow \<Rightarrow> credential_error + (string \<rightharpoonup> string)" where
  "read_row c r =
    (case scan_row c r of
       Inl e \<Rightarrow> Inl e
     | Inr y \<Rightarrow> (case decryptCredential c y of Inl e \<Rightarrow> Inl e | Inr d \<Rightarrow> Inr (map_of (crSecrets d))))"

definition fetch_secrets :: "credential_store \<Rightarrow> string \<Rightarrow> string \<Rightarrow> credentials \<Rightarrow> (credential_error + (string \<rightharpoonup> string)) option" where
  "fetch_secrets c context name db = map_option (read_row c) (find (is_row context name) db)"

lemma fetch_secrets_row:
  "find (is_row context name) db = None \<Longrightarrow> fetch_secrets c context name db = None"
  "find (is_row context name) db = Some r \<Longrightarrow> fetch_secrets c context name db = Some (read_row c r)"
  by (simp_all add: fetch_secrets_def)

lemma put_secrets_Some:
  assumes "put_secrets c context name secrets db = Some db'"
  obtains s where "encryptCredential c \<lparr>crContext = context, crName = name, crSecrets = secrets, crEncrypted = False\<rparr> = Inr s"
    "crContext s = context" "crName s = name" "db' = on_conflict_update (to_row c s) db"
  using assms encrypt_keeps[of c "\<lparr>crContext = context, crName = name, crSecrets = secrets, crEncrypted = False\<rparr>"]
  by (auto simp: put_secrets_def UpsertCredential_def split: sum.splits if_splits)

interpretation creds: secret_table seals_ok secret_map map_of put_secrets fetch_secrets
proof
  fix c cx name s and db db' :: credentials
  assume ok: "seals_ok c" "secret_map s" and put: "put_secrets c cx name s db = Some db'"
  obtain r where r: "encryptCredential c \<lparr>crContext = cx, crName = name, crSecrets = s, crEncrypted = False\<rparr> = Inr r"
    "crContext r = cx" "crName r = name" "db' = on_conflict_update (to_row c r) db"
    using put by (rule put_secrets_Some)
  obtain x where x: "find (is_row cx name) db' = Some x" "roContext x = cx" "roName x = name"
    "roSecrets x = csMarshal c (crSecrets r)" "roEncrypted x = crEncrypted r"
    using find_row_on_conflict[of "to_row c r" cx name db] r by (auto simp: to_row_def)
  obtain y d where "scan_row c x = Inr y" "decryptCredential c y = Inr d" "map_of (crSecrets d) = map_of s"
    using decrypt_encrypted[OF ok(1) _ r(1), of x] ok(2) x by auto
  with x(1) show "fetch_secrets c cx name db' = Some (Inr (map_of s))" by (simp add: fetch_secrets_def read_row_def)
next
  fix c cx name s and db db' :: credentials and cy name2
  assume put: "put_secrets c cx name s db = Some db'" and other: "(cy, name2) \<noteq> (cx, name)"
  obtain r where "crContext r = cx" "crName r = name" "db' = on_conflict_update (to_row c r) db"
    using put by (rule put_secrets_Some)
  with find_other_row[of cy name2 "to_row c r" db] other show "fetch_secrets c cy name2 db' = fetch_secrets c cy name2 db"
    by (simp add: fetch_secrets_def to_row_def)
qed

text \<open>\<open>RevealCredential\<close> is the ordered reading of the contract, with its not-found error.\<close>

lemma RevealCredential_fetch:
  "(case RevealCredential c contexts name db of Inl e \<Rightarrow> Inl e | Inr r \<Rightarrow> Inr (map_of (crSecrets r))) =
    (case creds.fetch_first c contexts name db of None \<Rightarrow> Inl (CredentialNotFoundError contexts name) | Some r \<Rightarrow> r)"
proof -
  have "(case reveal_first c all name cs db of Inl e \<Rightarrow> Inl e | Inr r \<Rightarrow> Inr (map_of (crSecrets r))) =
    (case creds.fetch_first c cs name db of None \<Rightarrow> Inl (CredentialNotFoundError all name) | Some r \<Rightarrow> r)" for all cs
  proof (induction cs)
    case (Cons cx cs)
    then show ?case by (cases "find (is_row cx name) db") (simp_all add: fetch_secrets_row read_row_def split: sum.split)
  qed simp
  then show ?thesis by (simp add: RevealCredential_def)
qed

text \<open>
  C33: Secrets that were stored are revealed as the same map, through the encryption at rest and the JSON text of the column, from the first of
  the given contexts that has the name, and storing them leaves every other credential as it was. The secrets are
  a map, with distinct keys, of valid UTF-8 strings; JSON replaces other bytes.
\<close>

theorem reveal_after_upsert:
  assumes "seals_ok c" "secret_map (crSecrets r)" "UpsertCredential c r db = (Inr (), db')"
  shows "((\<forall>before\<in>set befores. find (is_row before (crName r)) db = None) \<longrightarrow>
      (\<exists>d. RevealCredential c (befores @ crContext r # afters) (crName r) db' = Inr d \<and> map_of (crSecrets d) = map_of (crSecrets r)))
    \<and> (\<forall>context name. (context, name) \<noteq> (crContext r, crName r) \<longrightarrow>
      RevealCredential c [context] name db' = RevealCredential c [context] name db)"
proof (intro conjI impI)
  have put: "put_secrets c (crContext r) (crName r) (crSecrets r) db = Some db'"
    using assms(3) by (cases r) (auto simp: put_secrets_def UpsertCredential_def split: sum.splits if_splits)
  show "\<exists>d. RevealCredential c (befores @ crContext r # afters) (crName r) db' = Inr d \<and> map_of (crSecrets d) = map_of (crSecrets r)"
    if "\<forall>before\<in>set befores. find (is_row before (crName r)) db = None"
  proof -
    have "creds.fetch_first c (befores @ crContext r # afters) (crName r) db' = Some (Inr (map_of (crSecrets r)))"
      by (rule creds.fetch_first_put[OF assms(1,2) put]) (use that in \<open>simp add: fetch_secrets_row\<close>)
    with RevealCredential_fetch[of c "befores @ crContext r # afters" "crName r" db'] show ?thesis
      by (auto split: sum.splits)
  qed
  show "\<forall>context name. (context, name) \<noteq> (crContext r, crName r) \<longrightarrow>
      RevealCredential c [context] name db' = RevealCredential c [context] name db"
  proof (intro allI impI)
    fix cx name assume "(cx, name) \<noteq> (crContext r, crName r)"
    moreover obtain s where "crContext s = crContext r" "crName s = crName r" "db' = on_conflict_update (to_row c s) db"
      using put by (rule put_secrets_Some)
    ultimately show "RevealCredential c [cx] name db' = RevealCredential c [cx] name db"
      using find_other_row[of cx name "to_row c s" db] by (simp add: RevealCredential_def to_row_def split: option.split)
  qed
qed

section \<open>Witnesses\<close>

text \<open>A store with a prefix code in place of JSON and a transformer that reverses.\<close>

fun code_string :: "string \<Rightarrow> string" where
  "code_string [] = ''0''"
| "code_string (c # cs) = CHR ''1'' # c # code_string cs"

fun decode_string :: "string \<Rightarrow> (string \<times> string) option" where
  "decode_string (b # rest) =
    (if b = CHR ''0'' then Some ([], rest)
     else case rest of [] \<Rightarrow> None | c # rest' \<Rightarrow> map_option (\<lambda>(s, r). (c # s, r)) (decode_string rest'))"
| "decode_string [] = None"

lemma decode_code_string [simp]: "decode_string (code_string s @ rest) = Some (s, rest)"
  by (induction s) auto

fun code_map :: "(string \<times> string) list \<Rightarrow> string" where
  "code_map [] = []"
| "code_map ((k, v) # rest) = CHR ''1'' # code_string k @ code_string v @ code_map rest"

fun decode_map :: "nat \<Rightarrow> string \<Rightarrow> (string \<times> string) list option" where
  "decode_map n [] = Some []"
| "decode_map 0 (_ # _) = None"
| "decode_map (Suc n) (_ # s) =
    (case decode_string s of
       None \<Rightarrow> None
     | Some (k, s') \<Rightarrow>
         (case decode_string s' of
            None \<Rightarrow> None
          | Some (v, rest) \<Rightarrow> map_option (\<lambda>m. (k, v) # m) (decode_map n rest)))"

lemma decode_code_map: "length (code_map m) \<le> n \<Longrightarrow> decode_map n (code_map m) = Some m"
proof (induction m arbitrary: n)
  case (Cons p m)
  then show ?case by (cases p; cases n) (auto simp: Cons.IH)
qed simp

definition example_secrets :: credential_store where
  "example_secrets =
    \<lparr>csTransformer = Some \<lparr>TransformToStorage = (\<lambda>x ctx. Some (CHR ''x'' # rev x)), TransformFromStorage = (\<lambda>b ctx. Some (rev (tl b)))\<rparr>,
     csMarshal = (\<lambda>m. CHR ''{'' # code_map m), csUnmarshal = (\<lambda>s. decode_map (length s) (tl s))\<rparr>"

lemma example_seals: "seals_ok example_secrets"
  by (auto simp: seals_ok_def example_secrets_def decode_code_map secret_map_def)

lemma example_scan: "scan_row example_secrets (to_row example_secrets cr) = Inr cr"
  by (simp add: scan_row_def to_row_def example_secrets_def decode_code_map)

theorem reveal_after_upsert_witness:
  "\<exists>d. RevealCredential example_secrets [''other'', ''ctx''] ''n''
      (snd (UpsertCredential example_secrets \<lparr>crContext = ''ctx'', crName = ''n'', crSecrets = [(''K'', ''v'')], crEncrypted = False\<rparr> [])) = Inr d
    \<and> map_of (crSecrets d) ''K'' = Some ''v''"
proof -
  let ?r = "\<lparr>crContext = ''ctx'', crName = ''n'', crSecrets = [(''K'', ''v'')], crEncrypted = False\<rparr>"
  have "secret_map (crSecrets ?r)" by (simp add: secret_map_def)
  moreover obtain db' where "UpsertCredential example_secrets ?r [] = (Inr (), db')"
    by (simp add: UpsertCredential_def encryptCredential_def example_secrets_def)
  ultimately show ?thesis using reveal_after_upsert[OF example_seals _ _, of ?r "[]" db' "[''other'']" "[]"] by auto
qed

end
