(* ===== verification/Password.thy ===== *)
theory Password
  imports Base64 Decimal
begin

text \<open>
  Password hashes (pkg/localauth/password.go): the encoded form with its parameters and salt, its
  verification, and the part of \<open>fmt.Sscanf\<close> that reads the parameters. The key derivation
  \<open>argon2.IDKey\<close> is a parameter, and the random salt an argument, absent when the random source fails.
\<close>

section \<open>Parameters\<close>

definition argon2_Version :: int where "argon2_Version = 19"
definition argonTime :: nat where "argonTime = 2"
definition argonMemory :: nat where "argonMemory = 19 * 1024"
definition argonThreads :: nat where "argonThreads = 1"
definition argonKeyLen :: nat where "argonKeyLen = 32"
definition argonSaltLen :: nat where "argonSaltLen = 16"
definition minPasswordLength :: nat where "minPasswordLength = 12"

datatype password_error =
    PasswordTooShort
  | SaltFailed
  | ErrInvalidPassword
  | errInvalidHash

text \<open>Password, salt, time, memory, threads, key length.\<close>

type_synonym id_key = "string \<Rightarrow> string \<Rightarrow> nat \<Rightarrow> nat \<Rightarrow> nat \<Rightarrow> nat \<Rightarrow> string"

section \<open>Scanning numbers\<close>

text \<open>
  What \<open>%d\<close> scans: blanks are skipped, then at least one digit must follow, and the number must fit the
  type of its target. A signed target also takes a sign.
\<close>

definition skip_blanks :: "string \<Rightarrow> string" where
  "skip_blanks s = dropWhile (\<lambda>c. is_space c \<and> c \<noteq> CHR 0x0A) s"

definition scan_uint :: "nat \<Rightarrow> string \<Rightarrow> (nat \<times> string) option" where
  "scan_uint bits s =
    (let s = skip_blanks s; ds = takeWhile digit s
     in if ds = [] \<or> digits_value ds \<ge> 2 ^ bits then None else Some (digits_value ds, dropWhile digit s))"

definition scan_int :: "string \<Rightarrow> (int \<times> string) option" where
  "scan_int s =
    (let s = skip_blanks s;
         neg = HasPrefix s ''-'';
         s = (if neg \<or> HasPrefix s ''+'' then tl s else s);
         ds = takeWhile digit s;
         v = (if neg then - int (digits_value ds) else int (digits_value ds))
     in if ds = [] \<or> v < - (2 ^ 63) \<or> v \<ge> 2 ^ 63 then None else Some (v, dropWhile digit s))"

definition scan_literal :: "string \<Rightarrow> string \<Rightarrow> string option" where
  "scan_literal lit s = CutPrefix s lit"

definition scan_version :: "string \<Rightarrow> int option" where
  "scan_version s = Option.bind (scan_literal ''v='' s) (\<lambda>s. map_option fst (scan_int s))"

definition scan_params :: "string \<Rightarrow> (nat \<times> nat \<times> nat) option" where
  "scan_params s =
    Option.bind (scan_literal ''m='' s) (\<lambda>s.
    Option.bind (scan_uint 32 s) (\<lambda>(memory, s).
    Option.bind (scan_literal '',t='' s) (\<lambda>s.
    Option.bind (scan_uint 32 s) (\<lambda>(time, s).
    Option.bind (scan_literal '',p='' s) (\<lambda>s.
    map_option (\<lambda>(threads, _). (memory, time, threads)) (scan_uint 8 s))))))"

section \<open>Hashing and verification\<close>

definition encoded_hash :: "string \<Rightarrow> string \<Rightarrow> string" where
  "encoded_hash salt key =
    ''$argon2id$v='' @ decimal (nat argon2_Version) @ ''$m='' @ decimal argonMemory @ '',t='' @ decimal argonTime @ '',p='' @
    decimal argonThreads @ ''$'' @ RawStdEncoding_EncodeToString salt @ ''$'' @ RawStdEncoding_EncodeToString key"

definition HashPassword :: "id_key \<Rightarrow> string option \<Rightarrow> string \<Rightarrow> password_error + string" where
  "HashPassword IDKey salt password =
    (if length password < minPasswordLength then Inl PasswordTooShort
     else case salt of
            None \<Rightarrow> Inl SaltFailed
          | Some salt \<Rightarrow> Inr (encoded_hash salt (IDKey password salt argonTime argonMemory argonThreads argonKeyLen)))"

definition VerifyPassword :: "id_key \<Rightarrow> string \<Rightarrow> string \<Rightarrow> password_error option" where
  "VerifyPassword IDKey encodedHash password =
    (let parts = Split (CHR ''$'') encodedHash
     in if length parts \<noteq> 6 \<or> parts ! 1 \<noteq> ''argon2id'' then Some errInvalidHash
        else case scan_version (parts ! 2) of
               None \<Rightarrow> Some errInvalidHash
             | Some version \<Rightarrow>
                 if version \<noteq> argon2_Version then Some errInvalidHash
                 else (case scan_params (parts ! 3) of
                         None \<Rightarrow> Some errInvalidHash
                       | Some (memory, time, threads) \<Rightarrow>
                           (case RawStdEncoding_Strict_DecodeString (parts ! 4) of
                              None \<Rightarrow> Some errInvalidHash
                            | Some salt \<Rightarrow>
                                (case RawStdEncoding_Strict_DecodeString (parts ! 5) of
                                   None \<Rightarrow> Some errInvalidHash
                                 | Some key \<Rightarrow>
                                     if key \<noteq> IDKey password salt time memory threads (length key) then Some ErrInvalidPassword
                                     else None))))"

section \<open>Verification undoes hashing\<close>

lemma argon_text:
  "decimal (nat argon2_Version) = ''19''" "decimal argonMemory = ''19456''" "decimal argonTime = ''2''" "decimal argonThreads = ''1''"
  by (simp_all add: decimal.simps argon2_Version_def argonMemory_def argonTime_def argonThreads_def)

lemma parts_of_hash:
  "Split (CHR ''$'') (encoded_hash salt key) =
    [[], ''argon2id'', ''v=19'', ''m=19456,t=2,p=1'', RawStdEncoding_EncodeToString salt, RawStdEncoding_EncodeToString key]"
proof -
  let ?s = "RawStdEncoding_EncodeToString salt" and ?k = "RawStdEncoding_EncodeToString key"
  have "Split (CHR ''$'') (?s @ CHR ''$'' # ?k) = [?s, ?k]"
    by (simp add: Split_append Split_none RawStdEncoding_no_dollar)
  then show ?thesis by (simp add: encoded_hash_def argon_text)
qed

lemma scanned_params: "scan_version ''v=19'' = Some 19" "scan_params ''m=19456,t=2,p=1'' = Some (19456, 2, 1)"
  by (simp_all add: scan_version_def scan_params_def scan_literal_def scan_int_def scan_uint_def skip_blanks_def is_space_def
      digit_def digits_value_def digit_value_def CutPrefix_def HasPrefix_def Let_def)

lemma verify_encoded:
  assumes "\<And>pw salt t m p n. length (IDKey pw salt t m p n) = n"
  shows "VerifyPassword IDKey (encoded_hash salt (IDKey password salt 2 19456 1 32)) other =
        (if IDKey other salt 2 19456 1 32 = IDKey password salt 2 19456 1 32 then None else Some ErrInvalidPassword)"
  using assms by (auto simp: VerifyPassword_def parts_of_hash scanned_params argon2_Version_def)

lemma hash_encoded:
  "HashPassword IDKey (Some salt) password = (if length password < 12 then Inl PasswordTooShort else
      Inr (encoded_hash salt (IDKey password salt 2 19456 1 32)))"
  by (simp add: HashPassword_def minPasswordLength_def argonTime_def argonMemory_def argonThreads_def argonKeyLen_def)

text \<open>
  C32: A stored hash accepts exactly the passwords that derive the same key from its salt, so it accepts
  the password it was made from; no hash is made of a password shorter than twelve bytes.
\<close>

theorem VerifyPassword_HashPassword:
  assumes "\<And>pw salt t m p n. length (IDKey pw salt t m p n) = n"
  shows "HashPassword IDKey (Some salt) password = (if length password < 12 then Inl PasswordTooShort else
      Inr (encoded_hash salt (IDKey password salt 2 19456 1 32)))
    \<and> (VerifyPassword IDKey (encoded_hash salt (IDKey password salt 2 19456 1 32)) other =
        (if IDKey other salt 2 19456 1 32 = IDKey password salt 2 19456 1 32 then None else Some ErrInvalidPassword))"
  using verify_encoded[of IDKey, OF assms] hash_encoded by blast

definition example_key :: id_key where
  "example_key password salt t m p n = take n (password @ salt @ replicate n (CHR ''x''))"

theorem VerifyPassword_HashPassword_witness:
  "VerifyPassword example_key (encoded_hash ''salt'' (example_key ''correct horse battery'' ''salt'' 2 19456 1 32)) ''correct horse battery'' = None
   \<and> VerifyPassword example_key (encoded_hash ''salt'' (example_key ''correct horse battery'' ''salt'' 2 19456 1 32)) ''wrong horse battery'' = Some ErrInvalidPassword"
proof -
  have len: "length (example_key pw salt t m p n) = n" for pw salt t m p n by (simp add: example_key_def)
  have "example_key ''wrong horse battery'' ''salt'' 2 19456 1 32 \<noteq> example_key ''correct horse battery'' ''salt'' 2 19456 1 32"
    by (simp add: example_key_def)
  with VerifyPassword_HashPassword[of example_key "''salt''" "''correct horse battery''" "''correct horse battery''", OF len]
    VerifyPassword_HashPassword[of example_key "''salt''" "''correct horse battery''" "''wrong horse battery''", OF len]
  show ?thesis by simp
qed

end
