(* ===== verification/Redirect.thy ===== *)
theory Redirect
  imports Paths
begin

text \<open>
  Redirects after login and logout: the sanitizer of pkg/auth/redirect.go, and \<open>http.Redirect\<close> with the
  parts of \<open>net/url\<close> and \<open>path\<close> it uses, through which the provider and the proxy send its result. Strings
  are bytes; a control character beyond ASCII is the UTF-8 pair that encodes it.
\<close>

section \<open>The sanitizer\<close>

fun has_control :: "string \<Rightarrow> bool" where
  "has_control [] = False"
| "has_control (c # rest) =
    (let n = of_char c :: nat
     in n < 32 \<or> n = 127
        \<or> (n = 194 \<and> (case rest of d # _ \<Rightarrow> 128 \<le> (of_char d :: nat) \<and> (of_char d :: nat) < 160 | [] \<Rightarrow> False))
        \<or> has_control rest)"

definition slashes :: "string \<Rightarrow> string" where
  "slashes = map (\<lambda>c. if c = CHR 0x5C then CHR ''/'' else c)"

definition SafeRedirectPath :: "string \<Rightarrow> string" where
  "SafeRedirectPath rd =
    (if has_control rd then ''/''
     else let normalized = slashes rd
          in if \<not> HasPrefix normalized ''/'' \<or> HasPrefix normalized ''//'' then ''/'' else rd)"

section \<open>The Location header\<close>

text \<open>The directory part of a path, as \<open>path.Split\<close> returns it, with its trailing slash.\<close>

definition path_dir :: "string \<Rightarrow> string" where
  "path_dir p = rev (dropWhile (\<lambda>c. c \<noteq> CHR ''/'') (rev p))"

definition escapes_ok :: "string \<Rightarrow> bool" where
  "escapes_ok s = (unescape s \<noteq> None)"

definition before :: "char \<Rightarrow> string \<Rightarrow> string" where "before c s = takeWhile (\<lambda>x. x \<noteq> c) s"
definition starting :: "char \<Rightarrow> string \<Rightarrow> string" where "starting c s = dropWhile (\<lambda>x. x \<noteq> c) s"

text \<open>
  Whether \<open>url.Parse\<close> accepts a reference that has no scheme and no authority: the escapes of path and
  fragment are well formed, and a first segment that no slash precedes has no colon.
\<close>

definition parses_relative :: "string \<Rightarrow> bool" where
  "parses_relative url =
    (let rest = before (CHR ''#'') url;
         path = before (CHR ''?'') rest
     in escapes_ok path \<and> escapes_ok (drop 1 (starting (CHR ''#'') url))
        \<and> (HasPrefix path ''/'' \<or> CHR '':'' \<notin> set (before (CHR ''/'') path)))"

text \<open>
  The target \<open>http.Redirect\<close> writes for such a reference, before the escaping of bytes beyond ASCII, on a
  request for \<open>oldpath\<close>, which starts with a slash.
\<close>

definition Redirect_location :: "string \<Rightarrow> string \<Rightarrow> string" where
  "Redirect_location oldpath url =
    (if \<not> parses_relative url then url
     else let url = (if HasPrefix url ''/'' then url else path_dir (if oldpath = [] then ''/'' else oldpath) @ url);
              query = starting (CHR ''?'') url;
              p = before (CHR ''?'') url;
              cleaned = path_Clean p
          in (if HasSuffix p ''/'' \<and> \<not> HasSuffix cleaned ''/'' then cleaned @ ''/'' else cleaned) @ query)"

section \<open>What a browser makes of it\<close>

text \<open>
  A browser reads a backslash as a slash, so a reference stays on the site when it starts with exactly one
  of them, and leaves it when it starts with two.
\<close>

definition slash_like :: "char \<Rightarrow> bool" where "slash_like c = (c = CHR ''/'' \<or> c = CHR 0x5C)"

definition stays_on_site :: "string \<Rightarrow> bool" where
  "stays_on_site url =
    (case url of [] \<Rightarrow> False | c # rest \<Rightarrow> slash_like c \<and> (case rest of [] \<Rightarrow> True | d # _ \<Rightarrow> \<not> slash_like d))"

lemma slash_prefixes:
  "HasPrefix s ''/'' \<longleftrightarrow> (\<exists>rest. s = CHR ''/'' # rest)" "HasPrefix s ''//'' \<longleftrightarrow> (\<exists>rest. s = CHR ''/'' # CHR ''/'' # rest)"
  by (simp_all add: HasPrefix_iff)

lemma stays_on_site_slashes:
  "stays_on_site rd \<longleftrightarrow> HasPrefix (slashes rd) ''/'' \<and> \<not> HasPrefix (slashes rd) ''//''"
  by (cases rd; cases "tl rd") (auto simp: slash_prefixes slashes_def stays_on_site_def slash_like_def)

lemma SafeRedirectPath_stays: "stays_on_site (SafeRedirectPath rd)"
proof -
  have "stays_on_site ''/''" by (simp add: stays_on_site_def slash_like_def)
  then show ?thesis by (simp add: SafeRedirectPath_def Let_def stays_on_site_slashes)
qed

text \<open>
  The sanitizer returns a path that stays on the site, free of control characters, and returns every
  such path as it is.
\<close>

lemma SafeRedirectPath_spec:
  "stays_on_site (SafeRedirectPath rd) \<and> \<not> has_control (SafeRedirectPath rd)
   \<and> (SafeRedirectPath rd = rd \<longleftrightarrow> stays_on_site rd \<and> \<not> has_control rd)"
proof -
  have "stays_on_site ''/''" "\<not> has_control ''/''" by (simp_all add: stays_on_site_def slash_like_def)
  then show ?thesis
    using SafeRedirectPath_stays[of rd] by (auto simp: SafeRedirectPath_def Let_def stays_on_site_slashes)
qed

text \<open>A cleaned path is the root or starts with one slash and a character of a segment.\<close>

lemma path_Clean_rooted:
  "path_Clean p = ''/'' \<or> (\<exists>c rest. path_Clean p = CHR ''/'' # c # rest \<and> c \<noteq> CHR ''/'' \<and> c \<in> set p)"
proof -
  define segs where "segs = fold clean_step (split_slash p) []"
  have plain: "list_all plain_element segs"
    unfolding segs_def by (rule clean_elements) (auto simp: list_all_iff dest: split_slash_no_slash)
  have chars: "set s \<subseteq> set p" if "s \<in> set segs" for s
  proof -
    have "s \<in> set xs \<or> s \<in> set acc" if "s \<in> set (fold clean_step xs acc)" for xs acc
      using that by (induction xs arbitrary: acc) (fastforce simp: clean_step_def dest: in_set_butlastD split: if_splits)+
    with that have "s \<in> set (split_slash p)" unfolding segs_def by fastforce
    then show ?thesis using Split_pieces by blast
  qed
  have clean: "path_Clean p = (if segs = [] then ''/'' else concat (map (\<lambda>s. slash # s) segs))"
    by (simp add: path_Clean_def segs_def)
  show ?thesis
  proof (cases segs)
    case (Cons seg rest)
    then obtain c cs where seg: "seg = c # cs" "c \<noteq> CHR ''/''" using plain by (cases seg) (auto simp: plain_element_def slash_def)
    moreover have "c \<in> set p" using chars[of seg] Cons seg by simp
    ultimately show ?thesis using Cons by (simp add: clean slash_def)
  qed (simp add: clean)
qed

lemma redirect_path:
  assumes "CHR 0x5C \<notin> set rd"
  shows "stays_on_site (Redirect_location oldpath (SafeRedirectPath rd))"
proof -
  let ?url = "SafeRedirectPath rd"
  have safe: "stays_on_site ?url" using SafeRedirectPath_stays .
  have "CHR 0x5C \<notin> set ?url" using assms by (auto simp: SafeRedirectPath_def Let_def)
  with safe have slash: "HasPrefix ?url ''/''"
    by (cases ?url) (auto simp: stays_on_site_def slash_like_def HasPrefix_def)
  let ?p = "before (CHR ''?'') ?url"
  have p: "HasPrefix ?p ''/''" "CHR 0x5C \<notin> set ?p"
    using slash \<open>CHR 0x5C \<notin> set ?url\<close> by (auto simp: before_def HasPrefix_iff dest: set_takeWhileD)
  have "starting (CHR ''?'') ?url = [] \<or> (\<exists>q. starting (CHR ''?'') ?url = CHR ''?'' # q)"
    by (cases "starting (CHR ''?'') ?url") (auto simp: starting_def dropWhile_eq_Cons_conv)
  with path_Clean_rooted[of ?p] p(2) slash safe show ?thesis
    by (auto simp: Redirect_location_def Let_def stays_on_site_def slash_like_def HasSuffix_def)
qed

text \<open>
  C38: Redirects after login and logout stay on the site. The sanitizer returns a path that a browser resolves on the site, free of
  control characters, and returns every such path as it is. A target without a backslash is then sent as a path of the
  site, whatever the path of the request and however \<open>http.Redirect\<close> cleans the target. (With a backslash it may not be, as the next lemma shows.)
\<close>

theorem redirect_stays_on_site:
  "stays_on_site (SafeRedirectPath rd) \<and> \<not> has_control (SafeRedirectPath rd)
   \<and> (SafeRedirectPath rd = rd \<longleftrightarrow> stays_on_site rd \<and> \<not> has_control rd)
   \<and> (CHR 0x5C \<notin> set rd \<longrightarrow> stays_on_site (Redirect_location oldpath (SafeRedirectPath rd)))"
  using SafeRedirectPath_spec redirect_path by blast

theorem redirect_stays_on_site_witness:
  "stays_on_site (Redirect_location ''/oauth2/sign_out'' (SafeRedirectPath ''/a/..//b?x=1''))
   \<and> Redirect_location ''/oauth2/sign_out'' (SafeRedirectPath ''/a/..//b?x=1'') = ''/b?x=1''
   \<and> SafeRedirectPath ''//evil.com'' \<noteq> ''//evil.com''"
proof -
  have "Redirect_location ''/oauth2/sign_out'' (SafeRedirectPath ''/a/..//b?x=1'') = ''/b?x=1''" by code_simp
  moreover have "\<not> stays_on_site ''//evil.com''" by code_simp
  ultimately show ?thesis
    using redirect_stays_on_site[of "''/a/..//b?x=1''" "''/oauth2/sign_out''"] redirect_stays_on_site[of "''//evil.com''" "[]"] by simp
qed

text \<open>
  With a backslash the sanitizer does not protect the redirect: it accepts \<open>/./\evil.com\<close>, which a
  browser would keep on the site, and \<open>http.Redirect\<close> cleans it into \<open>/\evil.com\<close>, the spelling of
  \<open>//evil.com\<close> that the sanitizer is there to reject.
\<close>

lemma redirect_leaves_site:
  "SafeRedirectPath (''/./'' @ CHR 0x5C # ''evil.com'') = ''/./'' @ CHR 0x5C # ''evil.com''
   \<and> Redirect_location oldpath (SafeRedirectPath (''/./'' @ CHR 0x5C # ''evil.com'')) = CHR ''/'' # CHR 0x5C # ''evil.com''
   \<and> \<not> stays_on_site (CHR ''/'' # CHR 0x5C # ''evil.com'')"
proof (intro conjI)
  show *: "SafeRedirectPath (''/./'' @ CHR 0x5C # ''evil.com'') = ''/./'' @ CHR 0x5C # ''evil.com''" by code_simp
  have "parses_relative (''/./'' @ CHR 0x5C # ''evil.com'')"
    "path_Clean (''/./'' @ CHR 0x5C # ''evil.com'') = CHR ''/'' # CHR 0x5C # ''evil.com''" by code_simp+
  then show "Redirect_location oldpath (SafeRedirectPath (''/./'' @ CHR 0x5C # ''evil.com'')) = CHR ''/'' # CHR 0x5C # ''evil.com''"
    unfolding * by (simp add: Redirect_location_def before_def starting_def HasPrefix_def HasSuffix_def)
qed (simp add: stays_on_site_def slash_like_def)

end
