(* ===== verification/Local_Auth.thy ===== *)
theory Local_Auth
  imports Roles Login_Throttle Credential_Store Password Redirect
begin

text \<open>
  The built-in password provider (pkg/localauth: provider.go, users.go, token.go): login, logout, the
  session state behind every authenticated request, the signed access tokens, and the management of
  accounts. It runs on the throttle, the account and session tables, the credential table, the password
  hashes and the redirects of the theories it imports.

  Parameters stand for the key derivation, the keyed digest of the tokens, the parsers of \<open>net/url\<close> and
  \<open>net/mail\<close>, the translated messages and the configured roles; the clock and the random values are arguments.
\<close>

section \<open>Provider and state\<close>

record Provider =
  pvStore :: auth_store
  pvSecrets :: credential_store
  pvIDKey :: id_key
  pvDummyHash :: string
  pvServerURL :: string
  pvMac :: "string \<Rightarrow> string"
  pvParseHost :: "string \<Rightarrow> string option"
  pvParseAddress :: "string \<Rightarrow> string option"
  pvLocale :: "string \<Rightarrow> string"
  pvText :: "string \<Rightarrow> string \<Rightarrow> string"
  pvExplicitRole :: "string \<Rightarrow> Role"

record provider_state =
  psThrottle :: throttle
  psTables :: auth_db
  psCredentials :: credentials

definition ProviderName :: string where "ProviderName = ''local-auth-provider''"
definition EmailDomainsEnvVar :: string where "EmailDomainsEnvVar = ''OBOT_AUTH_PROVIDER_EMAIL_DOMAINS''"
definition LoginPath :: string where "LoginPath = ''/login/local''"
definition ChangePasswordPath :: string where "ChangePasswordPath = ''/change-password''"
definition sessionDuration :: int where "sessionDuration = 7 * 24 * 3600 * 1000000000"
definition GenericAuthProviderCredentialContext :: string where "GenericAuthProviderCredentialContext = ''auth-provider''"
definition ReplacementAuthProviderCredentialContext :: string where
  "ReplacementAuthProviderCredentialContext = ''replacement-auth-provider''"

section \<open>Signed access tokens\<close>

datatype token_error = MalformedToken | MalformedSignature | InvalidSignature | MalformedPayload

definition sign :: "(string \<Rightarrow> string) \<Rightarrow> string \<Rightarrow> string" where
  "sign mac email =
    (let payload = RawURLEncoding_EncodeToString email in payload @ ''.'' @ RawURLEncoding_EncodeToString (mac payload))"

definition verify :: "(string \<Rightarrow> string) \<Rightarrow> string \<Rightarrow> token_error + string" where
  "verify mac token =
    (case Cut token (CHR ''.'') of
       None \<Rightarrow> Inl MalformedToken
     | Some (payload, signature) \<Rightarrow>
         (case RawURLEncoding_DecodeString signature of
            None \<Rightarrow> Inl MalformedSignature
          | Some decodedSignature \<Rightarrow>
              if decodedSignature \<noteq> mac payload then Inl InvalidSignature
              else (case RawURLEncoding_DecodeString payload of
                      None \<Rightarrow> Inl MalformedPayload
                    | Some email \<Rightarrow> Inr email)))"

definition generateToken :: "string option \<Rightarrow> string option" where
  "generateToken random = map_option RawURLEncoding_EncodeToString random"

section \<open>Email domains and origins\<close>

definition emailDomainAllowed :: "string \<Rightarrow> string \<Rightarrow> bool" where
  "emailDomainAllowed domains email =
    (case Cut email (CHR ''@'') of
       None \<Rightarrow> False
     | Some (_, domain) \<Rightarrow>
         domain \<noteq> [] \<and>
         list_ex (\<lambda>allowed. let allowed = ToLower (TrimSpace (TrimPrefix allowed ''@'')) in allowed = ''*'' \<or> allowed = domain)
           (Split (CHR '','') domains))"

definition provider_emailDomainAllowed :: "Provider \<Rightarrow> credentials \<Rightarrow> string \<Rightarrow> auth_error + bool" where
  "provider_emailDomainAllowed p creds email =
    (case RevealCredential (pvSecrets p)
            [ProviderName, GenericAuthProviderCredentialContext, ReplacementAuthProviderCredentialContext] ProviderName creds of
       Inl (CredentialNotFoundError _ _) \<Rightarrow> Inr False
     | Inl _ \<Rightarrow> Inl (ErrCredential ''reveal'')
     | Inr cred \<Rightarrow> Inr (emailDomainAllowed (secret_value (crSecrets cred) EmailDomainsEnvVar) email))"

definition sameOrigin :: "Provider \<Rightarrow> string \<Rightarrow> string \<Rightarrow> string \<Rightarrow> bool" where
  "sameOrigin p origin referer host =
    (let origin = (if origin = [] then referer else origin)
     in if origin = [] then True
        else case pvParseHost p origin of None \<Rightarrow> False | Some h \<Rightarrow> h = host)"

definition secureCookies :: "Provider \<Rightarrow> bool" where
  "secureCookies p = HasPrefix (pvServerURL p) ''https://''"

section \<open>Login\<close>

record LoginRequest =
  lrFormOK :: bool
  lrAcceptLanguage :: string
  lrLocaleField :: string
  lrRd :: string
  lrOrigin :: string
  lrReferer :: string
  lrHost :: string
  lrEmail :: string
  lrPassword :: string

text \<open>A cookie without an expiry time is one that the browser is told to delete.\<close>

record cookie =
  ckValue :: string
  ckExpires :: "int option"
  ckSecure :: bool

datatype http_response =
    HttpError nat string
  | RedirectTo string "cookie option"

definition loginFailed :: "string \<Rightarrow> string \<Rightarrow> http_response" where
  "loginFailed rd message =
    RedirectTo (Redirect_location ''/oauth2/start'' (LoginPath @ ''?rd='' @ QueryEscape rd @ ''&error='' @ QueryEscape message)) None"

definition login_locale :: "Provider \<Rightarrow> LoginRequest \<Rightarrow> string" where
  "login_locale p r = pvLocale p (if lrFormOK r \<and> lrLocaleField r \<noteq> [] then lrLocaleField r else lrAcceptLanguage r)"

text \<open>
  The checks of a login: a response that ends it, or the account that may sign in. They read the account
  and the allowed domains and count failures.
\<close>

definition login_check :: "Provider \<Rightarrow> int \<Rightarrow> LoginRequest \<Rightarrow> provider_state \<Rightarrow> (http_response + LocalAuthUser) \<times> provider_state" where
  "login_check p now r st =
    (let text = pvText p (login_locale p r);
         rd = SafeRedirectPath (lrRd r);
         email = NormalizeEmail (lrEmail r);
         password = lrPassword r
     in if \<not> lrFormOK r then (Inl (HttpError 400 (text ''local_login_invalid_form'')), st)
        else if \<not> sameOrigin p (lrOrigin r) (lrReferer r) (lrHost r) then (Inl (HttpError 403 (text ''local_login_cross_origin'')), st)
        else if email = [] \<or> password = [] then (Inl (loginFailed rd (text ''local_login_credentials_required'')), st)
        else case blocked now email (psThrottle st) of (isBlocked, throttle) \<Rightarrow>
          let st = st\<lparr>psThrottle := throttle\<rparr>
          in if isBlocked then (Inl (loginFailed rd (text ''local_login_throttled'')), st)
             else let found = fst (LocalAuthUserByEmail (pvStore p) email (psTables st))
                  in if (case found of Inl e \<Rightarrow> e \<noteq> ErrRecordNotFound | Inr _ \<Rightarrow> False)
                     then (Inl (HttpError 500 (text ''internal_server_error'')), st)
                     else let passwordHash = (case found of Inr user \<Rightarrow> luPasswordHash user | Inl _ \<Rightarrow> pvDummyHash p)
                          in (case (VerifyPassword (pvIDKey p) passwordHash password, found) of
                                (None, Inr user) \<Rightarrow>
                                  (case provider_emailDomainAllowed p (psCredentials st) email of
                                     Inl _ \<Rightarrow> (Inl (HttpError 500 (text ''internal_server_error'')), st)
                                   | Inr allowed \<Rightarrow>
                                       if \<not> allowed then (Inl (loginFailed rd (text ''local_login_domain_disallowed'')), st)
                                       else (Inr user, st\<lparr>psThrottle := succeeded email (psThrottle st)\<rparr>))
                              | _ \<Rightarrow>
                                  (Inl (loginFailed rd (text ''local_login_incorrect_credentials'')),
                                   st\<lparr>psThrottle := failed now email (psThrottle st)\<rparr>)))"

text \<open>The session of an accepted login.\<close>

definition login_finish ::
  "Provider \<Rightarrow> int \<Rightarrow> string option \<Rightarrow> LoginRequest \<Rightarrow> LocalAuthUser \<Rightarrow> provider_state \<Rightarrow> http_response \<times> provider_state" where
  "login_finish p now random r user st =
    (let text = pvText p (login_locale p r);
         rd = SafeRedirectPath (lrRd r)
     in case generateToken random of
          None \<Rightarrow> (HttpError 500 (text ''internal_server_error''), st)
        | Some token \<Rightarrow>
            (case CreateLocalAuthSession (asHash (pvStore p) token) (luID user) (now + sessionDuration) (psTables st) of
               (Inl _, _) \<Rightarrow> (HttpError 500 (text ''internal_server_error''), st)
             | (Inr _, tables) \<Rightarrow>
                 (RedirectTo (Redirect_location ''/oauth2/start''
                     (if luRequirePasswordChange user then ChangePasswordPath @ ''?rd='' @ QueryEscape rd else rd))
                   (Some \<lparr>ckValue = token, ckExpires = Some (now + sessionDuration), ckSecure = secureCookies p\<rparr>),
                  st\<lparr>psTables := tables\<rparr>)))"

definition login :: "Provider \<Rightarrow> int \<Rightarrow> string option \<Rightarrow> LoginRequest \<Rightarrow> provider_state \<Rightarrow> http_response \<times> provider_state" where
  "login p now random r st =
    (case login_check p now r st of
       (Inl response, st') \<Rightarrow> (response, st')
     | (Inr user, st') \<Rightarrow> login_finish p now random r user st')"

text \<open>The login form, and activation with a setup token.\<close>

definition start :: "string \<Rightarrow> http_response" where
  "start rd = RedirectTo (Redirect_location ''/oauth2/start'' (LoginPath @ ''?rd='' @ QueryEscape (SafeRedirectPath rd))) None"

definition ActivateInitialOwner ::
  "Provider \<Rightarrow> int \<Rightarrow> string option \<Rightarrow> string \<Rightarrow> provider_state \<Rightarrow> (auth_error + string \<times> int) \<times> provider_state" where
  "ActivateInitialOwner p now random setupToken st =
    (if length setupToken < 32 then (Inl ErrRecordNotFound, st)
     else case generateToken random of
            None \<Rightarrow> (Inl (ErrCredential ''random''), st)
          | Some token \<Rightarrow>
              (case ActivateLocalAuthUser (pvStore p) now (asHash (pvStore p) setupToken) (asHash (pvStore p) token)
                      (now + sessionDuration) (psTables st) of
                 (Inl e, tables) \<Rightarrow> (Inl e, st\<lparr>psTables := tables\<rparr>)
               | (Inr _, tables) \<Rightarrow> (Inr (token, now + sessionDuration), st\<lparr>psTables := tables\<rparr>)))"

section \<open>Sessions\<close>

text \<open>The cookie of the request, if it has one.\<close>

definition signOut :: "Provider \<Rightarrow> string option \<Rightarrow> string \<Rightarrow> provider_state \<Rightarrow> http_response \<times> provider_state" where
  "signOut p session rd st =
    (RedirectTo (Redirect_location ''/oauth2/sign_out'' (SafeRedirectPath rd))
       (Some \<lparr>ckValue = [], ckExpires = None, ckSecure = secureCookies p\<rparr>),
     case session of
       None \<Rightarrow> st
     | Some token \<Rightarrow> st\<lparr>psTables := snd (DeleteLocalAuthSession (asHash (pvStore p) token) (psTables st))\<rparr>)"

record SerializableState =
  ssExpiresOn :: int
  ssAccessToken :: string
  ssEmail :: string
  ssRequirePasswordChange :: bool

datatype state_response =
    StateError nat string
  | StateOK SerializableState

definition invalidSessionBody :: string where "invalidSessionBody = ''record not found''"

definition getState :: "Provider \<Rightarrow> int \<Rightarrow> bool \<Rightarrow> string \<Rightarrow> provider_state \<Rightarrow> state_response \<times> provider_state" where
  "getState p now decodes token st =
    (if \<not> decodes then (StateError 400 ''invalid request'', st)
     else if token = [] then (StateError 500 invalidSessionBody, st)
     else case LocalAuthSession (pvStore p) now (asHash (pvStore p) token) (psTables st) of
            (Inl e, tables) \<Rightarrow>
              (StateError 500 (if e = ErrRecordNotFound then invalidSessionBody else ''internal server error''), st\<lparr>psTables := tables\<rparr>)
          | (Inr (session, user), tables) \<Rightarrow>
              (StateOK \<lparr>ssExpiresOn = lsExpiresAt session, ssAccessToken = sign (pvMac p) (luEmail user), ssEmail = luEmail user,
                 ssRequirePasswordChange = luRequirePasswordChange user\<rparr>, st\<lparr>psTables := tables\<rparr>))"

definition getUserInfo :: "Provider \<Rightarrow> string \<Rightarrow> string option" where
  "getUserInfo p authorization =
    (case verify (pvMac p) (TrimPrefix authorization ''Bearer '') of Inl _ \<Rightarrow> None | Inr email \<Rightarrow> Some email)"

section \<open>Accounts\<close>

definition normalizeUserEmail :: "Provider \<Rightarrow> string \<Rightarrow> auth_error + string" where
  "normalizeUserEmail p email =
    (case pvParseAddress p (NormalizeEmail email) of
       None \<Rightarrow> Inl (InvalidUserError ''local_valid_email_required'')
     | Some address \<Rightarrow> Inr (NormalizeEmail address))"

definition hashUserPassword :: "Provider \<Rightarrow> string option \<Rightarrow> string \<Rightarrow> auth_error + string" where
  "hashUserPassword p salt password =
    (if length password < minPasswordLength then Inl (InvalidUserError ''local_password_min_length'')
     else case HashPassword (pvIDKey p) salt password of Inl _ \<Rightarrow> Inl ErrHashPassword | Inr h \<Rightarrow> Inr h)"

text \<open>An operation on the tables, within the state of the provider.\<close>

definition on_tables :: "'a store_op \<Rightarrow> provider_state \<Rightarrow> (auth_error + 'a) \<times> provider_state" where
  "on_tables f st = (case f (psTables st) of (r, tables) \<Rightarrow> (r, st\<lparr>psTables := tables\<rparr>))"

definition CreateUser ::
  "Provider \<Rightarrow> string option \<Rightarrow> string \<Rightarrow> string \<Rightarrow> bool \<Rightarrow> bool \<Rightarrow> provider_state \<Rightarrow> (auth_error + LocalAuthUser) \<times> provider_state" where
  "CreateUser p salt email password requirePasswordChange bootstrap st =
    (case normalizeUserEmail p email of
       Inl e \<Rightarrow> (Inl e, st)
     | Inr email \<Rightarrow>
         (case provider_emailDomainAllowed p (psCredentials st) email of
            Inl e \<Rightarrow> (Inl e, st)
          | Inr allowed \<Rightarrow>
              if \<not> allowed then (Inl (InvalidUserError ''local_email_domain_disallowed''), st)
              else let explicitRole = pvExplicitRole p (ToLower email)
                   in if bootstrap \<and> HasRole explicitRole RoleAdmin \<and> \<not> HasRole explicitRole RoleOwner
                      then (Inl (InvalidUserError ''local_initial_owner_role''), st)
                      else (case hashUserPassword p salt password of
                              Inl e \<Rightarrow> (Inl e, st)
                            | Inr passwordHash \<Rightarrow>
                                on_tables ((if bootstrap then CreateBootstrapLocalAuthUser else CreateLocalAuthUser) (pvStore p) email
                                  passwordHash requirePasswordChange) st)))"

definition SetPassword ::
  "Provider \<Rightarrow> string option \<Rightarrow> nat \<Rightarrow> string \<Rightarrow> bool \<Rightarrow> provider_state \<Rightarrow> (auth_error + unit) \<times> provider_state" where
  "SetPassword p salt uid password requirePasswordChange st =
    (case hashUserPassword p salt password of
       Inl e \<Rightarrow> (Inl e, st)
     | Inr passwordHash \<Rightarrow> on_tables (SetLocalAuthUserPassword uid passwordHash requirePasswordChange) st)"

definition ChangePassword ::
  "Provider \<Rightarrow> int \<Rightarrow> string option \<Rightarrow> nat \<Rightarrow> string \<Rightarrow> string \<Rightarrow> provider_state \<Rightarrow> (auth_error + unit) \<times> provider_state" where
  "ChangePassword p now salt uid password currentSessionID st =
    (case fst (LocalAuthUserByID (pvStore p) uid (psTables st)) of
       Inl e \<Rightarrow> (Inl e, st)
     | Inr user \<Rightarrow>
         (case VerifyPassword (pvIDKey p) (luPasswordHash user) password of
            None \<Rightarrow> (Inl (InvalidUserError ''local_password_must_differ''), st)
          | Some e \<Rightarrow>
              if e \<noteq> ErrInvalidPassword then (Inl ErrVerifyPassword, st)
              else (case hashUserPassword p salt password of
                      Inl e \<Rightarrow> (Inl e, st)
                    | Inr passwordHash \<Rightarrow> on_tables (CompleteLocalAuthUserPasswordChange now uid passwordHash currentSessionID) st)))"

definition DeleteUser :: "nat \<Rightarrow> provider_state \<Rightarrow> (auth_error + unit) \<times> provider_state" where
  "DeleteUser uid st = on_tables (DeleteLocalAuthUser uid) st"

text \<open>A pending setup token is rotated when the configured one is another.\<close>

definition rotate_token :: "Provider \<Rightarrow> LocalAuthUser \<Rightarrow> string \<Rightarrow> int \<Rightarrow> provider_state \<Rightarrow> (auth_error + unit) \<times> provider_state" where
  "rotate_token p existing setupToken expires st =
    (let newHash = asHash (pvStore p) setupToken
     in if luSetupTokenHash existing \<noteq> newHash
        then on_tables (RefreshLocalAuthUserSetupToken (luID existing) newHash expires) st
        else (Inr (), st))"

text \<open>The configuration of the provider: the domain of the owner's email, unless one is stored.\<close>

definition configure_provider :: "Provider \<Rightarrow> string \<Rightarrow> credentials \<Rightarrow> (auth_error + bool) \<times> credentials" where
  "configure_provider p email creds =
    (case RevealCredential (pvSecrets p) [ProviderName, GenericAuthProviderCredentialContext] ProviderName creds of
       Inr cred \<Rightarrow> (Inr (emailDomainAllowed (secret_value (crSecrets cred) EmailDomainsEnvVar) email), creds)
     | Inl (CredentialNotFoundError _ _) \<Rightarrow>
         (let domain = (case Cut email (CHR ''@'') of None \<Rightarrow> [] | Some (_, d) \<Rightarrow> d)
          in case UpsertCredential (pvSecrets p)
                    \<lparr>crContext = ProviderName, crName = ProviderName, crSecrets = [(EmailDomainsEnvVar, domain)], crEncrypted = False\<rparr> creds of
               (Inl _, creds') \<Rightarrow> (Inl (ErrCredential ''configure''), creds')
             | (Inr _, creds') \<Rightarrow> (Inr True, creds'))
     | Inl _ \<Rightarrow> (Inl (ErrCredential ''read''), creds))"

text \<open>The account of the owner that another replica created first is reconciled.\<close>

definition reconcile_created :: "Provider \<Rightarrow> string \<Rightarrow> string \<Rightarrow> int \<Rightarrow> provider_state \<Rightarrow> (auth_error + unit) \<times> provider_state" where
  "reconcile_created p email setupToken expires st =
    (case fst (LocalAuthUserByEmail (pvStore p) email (psTables st)) of
       Inl e \<Rightarrow> (Inl e, st)
     | Inr existing \<Rightarrow>
         if luSetupTokenHash existing = [] then (Inr (), st) else rotate_token p existing setupToken expires st)"

text \<open>
  The creation of the owner's account, with a password nobody knows. \<open>randomPassword\<close> is its 32 random
  bytes and \<open>concurrently\<close> what other replicas did to the tables since the lookup.
\<close>

definition create_owner ::
  "Provider \<Rightarrow> string option \<Rightarrow> string option \<Rightarrow> (auth_db \<Rightarrow> auth_db) \<Rightarrow> string \<Rightarrow> string \<Rightarrow> int \<Rightarrow> provider_state
    \<Rightarrow> (auth_error + unit) \<times> provider_state" where
  "create_owner p randomPassword salt concurrently email setupToken expires st =
    (case randomPassword of
       None \<Rightarrow> (Inl (ErrCredential ''random''), st)
     | Some bytes \<Rightarrow>
         (case HashPassword (pvIDKey p) salt (RawURLEncoding_EncodeToString bytes) of
            Inl _ \<Rightarrow> (Inl ErrHashPassword, st)
          | Inr passwordHash \<Rightarrow>
              (case on_tables (CreateInitialLocalAuthUser (pvStore p) email passwordHash (asHash (pvStore p) setupToken) expires)
                      (st\<lparr>psTables := concurrently (psTables st)\<rparr>) of
                 (Inr _, st') \<Rightarrow> (Inr (), st')
               | (Inl e, st') \<Rightarrow>
                   if e = ErrLocalAuthUserExists then reconcile_created p email setupToken expires st' else (Inl e, st'))))"

definition EnsureInitialOwner ::
  "Provider \<Rightarrow> string option \<Rightarrow> string option \<Rightarrow> (auth_db \<Rightarrow> auth_db) \<Rightarrow> string \<Rightarrow> string \<Rightarrow> int \<Rightarrow> provider_state
    \<Rightarrow> (auth_error + unit) \<times> provider_state" where
  "EnsureInitialOwner p randomPassword salt concurrently email setupToken expires st =
    (case normalizeUserEmail p email of
       Inl e \<Rightarrow> (Inl e, st)
     | Inr email \<Rightarrow>
         if length setupToken < 32 then (Inl (InvalidUserError ''local_setup_token_length''), st)
         else (case configure_provider p email (psCredentials st) of
                 (Inl e, creds) \<Rightarrow> (Inl e, st\<lparr>psCredentials := creds\<rparr>)
               | (Inr allowed, creds) \<Rightarrow>
                   let st = st\<lparr>psCredentials := creds\<rparr>
                   in (case fst (LocalAuthUserByEmail (pvStore p) email (psTables st)) of
                         Inr existing \<Rightarrow>
                           if luSetupTokenHash existing = [] then (Inr (), st)
                           else if \<not> allowed then (Inl (InvalidUserError ''local_initial_owner_domain''), st)
                           else rotate_token p existing setupToken expires st
                       | Inl e \<Rightarrow>
                           if e \<noteq> ErrRecordNotFound then (Inl e, st)
                           else if \<not> allowed then (Inl (InvalidUserError ''local_initial_owner_domain''), st)
                           else create_owner p randomPassword salt concurrently email setupToken expires st)))"

section \<open>Token theorems\<close>

lemma token_roundtrip_sign: "verify mac (sign mac email) = Inr email"
  by (simp add: verify_def sign_def Let_def Cut_append RawURLEncoding_no_dot)

text \<open>
  The provider accepts every access token it signed and reads the email back from it, and accepts a
  token only when its signature is the keyed digest of its payload and the payload encodes the email.
\<close>

theorem token_roundtrip:
  "verify mac (sign mac email) = Inr email
   \<and> (verify mac token = Inr email \<longleftrightarrow>
       (\<exists>payload signature. token = payload @ ''.'' @ signature \<and> CHR ''.'' \<notin> set payload
          \<and> RawURLEncoding_DecodeString signature = Some (mac payload) \<and> RawURLEncoding_DecodeString payload = Some email))"
proof
  show "verify mac (sign mac email) = Inr email" by (rule token_roundtrip_sign)
  show "verify mac token = Inr email \<longleftrightarrow>
       (\<exists>payload signature. token = payload @ ''.'' @ signature \<and> CHR ''.'' \<notin> set payload
          \<and> RawURLEncoding_DecodeString signature = Some (mac payload) \<and> RawURLEncoding_DecodeString payload = Some email)"
    (is "_ \<longleftrightarrow> ?signed")
  proof
    show "verify mac token = Inr email \<Longrightarrow> ?signed"
      by (fastforce simp: verify_def dest!: Cut_SomeD split: option.splits if_splits)
  qed (auto simp: verify_def Cut_append)
qed

section \<open>Login theorems\<close>

text \<open>What the checks require of an accepted login, and that they change nothing but the throttle.\<close>

lemma login_check_accepts:
  assumes "login_check p now r st = (Inr user, st')"
  shows "lrFormOK r" "sameOrigin p (lrOrigin r) (lrReferer r) (lrHost r)"
    "\<not> fst (blocked now (NormalizeEmail (lrEmail r)) (psThrottle st))"
    "fst (LocalAuthUserByEmail (pvStore p) (NormalizeEmail (lrEmail r)) (psTables st)) = Inr user"
    "VerifyPassword (pvIDKey p) (luPasswordHash user) (lrPassword r) = None"
    "provider_emailDomainAllowed p (psCredentials st) (NormalizeEmail (lrEmail r)) = Inr True"
  using assms
  by (auto simp: login_check_def Let_def split: if_splits prod.splits sum.splits option.splits)

lemma login_check_tables:
  "psTables (snd (login_check p now r st)) = psTables st" "psCredentials (snd (login_check p now r st)) = psCredentials st"
  by (auto simp: login_check_def Let_def split: prod.splits sum.splits option.splits)

lemma login_check_refuses:
  "fst (login_check p now r st) = Inl response \<Longrightarrow> \<exists>x. response = HttpError (fst x) (snd x) \<or> response = RedirectTo (snd x) None"
  by (auto simp: login_check_def Let_def loginFailed_def split: if_splits prod.splits sum.splits option.splits)

lemma login_finish_cases:
  obtains (fails) message where "login_finish p now random r user st = (HttpError 500 message, st)"
  | (opens) token loc where "generateToken random = Some token"
      "asHash (pvStore p) token \<notin> lsID ` set (dbSessions (psTables st))"
      "login_finish p now random r user st =
        (RedirectTo loc (Some \<lparr>ckValue = token, ckExpires = Some (now + sessionDuration), ckSecure = secureCookies p\<rparr>),
         st\<lparr>psTables := (psTables st)\<lparr>dbSessions := dbSessions (psTables st) @
           [\<lparr>lsID = asHash (pvStore p) token, lsUserID = luID user, lsExpiresAt = now + sessionDuration\<rparr>]\<rparr>\<rparr>)"
proof (cases "generateToken random")
  case None
  then show thesis by (intro fails) (simp add: login_finish_def)
next
  case (Some token)
  show thesis
  proof (cases "asHash (pvStore p) token \<in> lsID ` set (dbSessions (psTables st))")
    case True
    with Some show thesis by (intro fails) (simp add: login_finish_def Let_def CreateLocalAuthSession_def)
  next
    case False
    with Some show thesis by (intro opens) (simp_all add: login_finish_def Let_def CreateLocalAuthSession_def)
  qed
qed

text \<open>
  C4: A login hands out a session only to a same-origin request that is not throttled, for an existing
  account whose stored hash verifies the password and whose email domain is allowed; the session is the
  one row added to the tables, under the digest of the cookie. Every other login leaves the tables alone.
\<close>

theorem login_opens_session:
  "case login p now random r st of
     (RedirectTo loc (Some ck), st') \<Rightarrow>
       lrFormOK r \<and> sameOrigin p (lrOrigin r) (lrReferer r) (lrHost r)
       \<and> \<not> fst (blocked now (NormalizeEmail (lrEmail r)) (psThrottle st))
       \<and> provider_emailDomainAllowed p (psCredentials st) (NormalizeEmail (lrEmail r)) = Inr True
       \<and> (\<exists>user. fst (LocalAuthUserByEmail (pvStore p) (NormalizeEmail (lrEmail r)) (psTables st)) = Inr user
            \<and> VerifyPassword (pvIDKey p) (luPasswordHash user) (lrPassword r) = None
            \<and> psTables st' = (psTables st)\<lparr>dbSessions := dbSessions (psTables st) @
                [\<lparr>lsID = asHash (pvStore p) (ckValue ck), lsUserID = luID user, lsExpiresAt = now + sessionDuration\<rparr>]\<rparr>)
   | (_, st') \<Rightarrow> psTables st' = psTables st"
proof (cases "login_check p now r st")
  case (Pair checked st1)
  have tables: "psTables st1 = psTables st" using login_check_tables[of p now r st] Pair by simp
  show ?thesis
  proof (cases checked)
    case (Inl response)
    with Pair login_check_refuses[of p now r st response] tables show ?thesis by (auto simp: login_def)
  next
    case (Inr user)
    with Pair have check: "login_check p now r st = (Inr user, st1)" by simp
    show ?thesis
      using login_check_accepts[OF check] tables
      by (rule_tac login_finish_cases[of p now random r user st1]) (auto simp: login_def check)
  qed
qed

text \<open>
  A login with an unknown email and one with a wrong password for an existing account are answered
  alike, and count alike against the email.
\<close>

theorem login_reveals_no_account:
  assumes "psThrottle st = psThrottle st'"
    "fst (LocalAuthUserByEmail (pvStore p) (NormalizeEmail (lrEmail r)) (psTables st)) = Inl ErrRecordNotFound"
    "fst (LocalAuthUserByEmail (pvStore p) (NormalizeEmail (lrEmail r)) (psTables st')) = Inr user"
    "VerifyPassword (pvIDKey p) (luPasswordHash user) (lrPassword r) \<noteq> None"
  shows "fst (login p now random r st) = fst (login p now random r st')
    \<and> psThrottle (snd (login p now random r st)) = psThrottle (snd (login p now random r st'))"
proof -
  have "fst (login_check p now r st) = fst (login_check p now r st') \<and> (\<exists>e. fst (login_check p now r st) = Inl e)
    \<and> psThrottle (snd (login_check p now r st)) = psThrottle (snd (login_check p now r st'))"
    using assms by (auto simp: login_check_def Let_def split: prod.splits option.splits)
  then show ?thesis by (auto simp: login_def split: prod.splits)
qed

section \<open>Sessions of a login\<close>

lemma encode_nonempty: "s \<noteq> [] \<Longrightarrow> RawURLEncoding_EncodeToString s \<noteq> []"
  by (metis RawURLEncoding_roundtrip RawURLEncoding_DecodeString_def decode_raw.simps(1) filter.simps(1) option.sel without_breaks_def)

lemma find_append: "find P (xs @ ys) = (case find P xs of None \<Rightarrow> find P ys | Some x \<Rightarrow> Some x)"
  by (induction xs) auto

text \<open>An account found by its email is found by its identifier, as identifiers are unique.\<close>

lemma found_by_id:
  assumes "users_ok users next" "find P users = Some u"
  shows "find (\<lambda>v. luID v = luID u) users = Some u"
proof -
  have "distinct (map luID users)" using assms(1) by (simp add: users_ok_def strict_sorted_iff)
  moreover have "u \<in> set users" using assms(2) by (auto simp: find_Some_iff)
  ultimately show ?thesis by (induction users) (auto simp: image_iff)
qed

lemma decrypt_id: "decryptLocalAuthUser c u = Inr v \<Longrightarrow> luID v = luID u"
  by (auto simp: decryptLocalAuthUser_def split: if_splits option.splits)

lemma opened_session_resolves:
  assumes "db_ok tables" "fst (LocalAuthUserByEmail c email tables) = Inr user" "sid \<notin> lsID ` set (dbSessions tables)"
    "now < expires"
  shows "LocalAuthSession c now sid (tables\<lparr>dbSessions := dbSessions tables @ [\<lparr>lsID = sid, lsUserID = luID user, lsExpiresAt = expires\<rparr>]\<rparr>) =
    (Inr (\<lparr>lsID = sid, lsUserID = luID user, lsExpiresAt = expires\<rparr>, user),
     tables\<lparr>dbSessions := dbSessions tables @ [\<lparr>lsID = sid, lsUserID = luID user, lsExpiresAt = expires\<rparr>]\<rparr>)"
proof -
  from assms(2) obtain u where u: "find (\<lambda>u. luHashedEmail u = asHash c (NormalizeEmail email)) (dbUsers tables) = Some u"
    "decryptLocalAuthUser c u = Inr user"
    by (auto simp: LocalAuthUserByEmail_def found_user_def first_user_def split: option.splits)
  have "find (\<lambda>v. luID v = luID user) (dbUsers tables) = Some u"
    using found_by_id[of _ "dbNextID tables", OF _ u(1)] assms(1) decrypt_id[OF u(2)] by (simp add: db_ok_def)
  moreover have "find (\<lambda>s. lsID s = sid) (dbSessions tables) = None"
    using assms(3) by (auto simp: find_None_iff image_iff)
  ultimately show ?thesis
    using u(2) assms(4) by (simp add: LocalAuthSession_def find_append found_user_def first_user_def)
qed

text \<open>The session that a login opens answers for the account with the identifier of the checked one.\<close>

lemma finished_session_state:
  assumes "db_ok (psTables st)" "fst (LocalAuthUserByEmail (pvStore p) email (psTables st)) = Inr user" "luID checked = luID user"
    "random = Some bytes" "bytes \<noteq> []" "login_finish p now random r checked st = (RedirectTo loc (Some ck), st')"
  shows "ckValue ck \<noteq> []"
    "fst (getState p later True (ckValue ck) st') =
      (if later < now + sessionDuration
       then StateOK \<lparr>ssExpiresOn = now + sessionDuration, ssAccessToken = sign (pvMac p) (luEmail user), ssEmail = luEmail user,
              ssRequirePasswordChange = luRequirePasswordChange user\<rparr>
       else StateError 500 invalidSessionBody)"
proof -
  let ?sid = "asHash (pvStore p) (ckValue ck)" and ?row = "\<lparr>lsID = asHash (pvStore p) (ckValue ck), lsUserID = luID user, lsExpiresAt = now + sessionDuration\<rparr>"
  have fresh: "?sid \<notin> lsID ` set (dbSessions (psTables st))" and token: "ckValue ck = RawURLEncoding_EncodeToString bytes"
    and st': "psTables st' = (psTables st)\<lparr>dbSessions := dbSessions (psTables st) @ [?row]\<rparr>"
    using assms(3,4,6)
    by (rule_tac login_finish_cases[of p now random r checked st]; auto simp: generateToken_def)+
  show nonempty: "ckValue ck \<noteq> []" using token encode_nonempty[OF assms(5)] by simp
  have "find (\<lambda>s. lsID s = ?sid) (dbSessions (psTables st)) = None"
    using fresh by (auto simp: find_None_iff image_iff)
  then have row: "find (\<lambda>s. lsID s = ?sid) (dbSessions (psTables st')) = Some ?row"
    by (simp add: st' find_append)
  show "fst (getState p later True (ckValue ck) st') =
      (if later < now + sessionDuration
       then StateOK \<lparr>ssExpiresOn = now + sessionDuration, ssAccessToken = sign (pvMac p) (luEmail user), ssEmail = luEmail user,
              ssRequirePasswordChange = luRequirePasswordChange user\<rparr>
       else StateError 500 invalidSessionBody)"
    using opened_session_resolves[OF assms(1,2) fresh, of later "now + sessionDuration"] row nonempty
    by (auto simp: getState_def st' LocalAuthSession_def)
qed

lemma signed_out_state:
  assumes "sid \<noteq> []"
  shows "fst (getState p later True sid (snd (signOut p (Some sid) rd st))) = StateError 500 invalidSessionBody"
proof -
  have "find (\<lambda>s. lsID s = h) (filter (\<lambda>s. lsID s \<noteq> h) xs) = None" for h and xs :: "LocalAuthSession list"
    by (auto simp: find_None_iff)
  with assms show ?thesis
    by (simp add: getState_def signOut_def DeleteLocalAuthSession_def delete_sessions_def LocalAuthSession_def)
qed

lemma reset_account_found:
  assumes "db_ok db" "fst (LocalAuthUserByEmail c email db) = Inr user" "fst (SetLocalAuthUserPassword (luID user) ph req db) = Inr ()"
  shows "fst (LocalAuthUserByEmail c email (snd (SetLocalAuthUserPassword (luID user) ph req db))) = Inr (password_update ph req user)"
proof -
  let ?P = "\<lambda>u. luHashedEmail u = asHash c (NormalizeEmail email)"
  let ?f = "\<lambda>u. if luID u = luID user then password_update ph req u else u"
  obtain u where u: "find ?P (dbUsers db) = Some u" "decryptLocalAuthUser c u = Inr user"
    using assms(2) by (auto simp: LocalAuthUserByEmail_def found_user_def first_user_def split: option.splits)
  have "find ?P (map ?f users) = map_option ?f (find ?P users)" for users by (induction users) (auto simp: password_update_def)
  then have found: "find ?P (map ?f (dbUsers db)) = Some (password_update ph req u)" using u decrypt_id[OF u(2)] by simp
  have "decryptLocalAuthUser c (password_update ph req u) = Inr (password_update ph req user)"
    using u(2) by (auto simp: decryptLocalAuthUser_def localAuthUserDataCtx_def password_update_def split: if_splits option.splits)
  with found show ?thesis
    by (simp add: password_set(2)[OF assms(3,1)] LocalAuthUserByEmail_def found_user_def first_user_def delete_sessions_def update_users_def)
qed

text \<open>
  C27: The cookie of a login identifies the account until the session expires or its owner signs out: the
  session state carries the email of the account, a token that the provider accepts for it, and whether
  the password must be changed; after signing out, or at the expiry, the session is invalid.
\<close>

theorem login_session_lifecycle:
  assumes "db_ok (psTables st)" "random = Some bytes" "bytes \<noteq> []"
    "login p now random r st = (RedirectTo loc (Some ck), st')"
  shows "\<exists>user. fst (LocalAuthUserByEmail (pvStore p) (NormalizeEmail (lrEmail r)) (psTables st)) = Inr user
    \<and> (\<forall>later. fst (getState p later True (ckValue ck) st') =
        (if later < now + sessionDuration
         then StateOK \<lparr>ssExpiresOn = now + sessionDuration, ssAccessToken = sign (pvMac p) (luEmail user), ssEmail = luEmail user,
                ssRequirePasswordChange = luRequirePasswordChange user\<rparr>
         else StateError 500 invalidSessionBody))
    \<and> getUserInfo p (''Bearer '' @ sign (pvMac p) (luEmail user)) = Some (luEmail user)
    \<and> (\<forall>later. fst (getState p later True (ckValue ck) (snd (signOut p (Some (ckValue ck)) rd st'))) = StateError 500 invalidSessionBody)"
proof -
  obtain user st1 where check: "login_check p now r st = (Inr user, st1)"
  proof (cases "login_check p now r st")
    case (Pair checked st1)
    then show thesis
      using that assms(4) login_check_refuses[of p now r st] by (cases checked) (fastforce simp: login_def)+
  qed
  have tables: "psTables st1 = psTables st" using login_check_tables[of p now r st] check by simp
  have finish: "login_finish p now random r user st1 = (RedirectTo loc (Some ck), st')"
    using assms(4) check by (simp add: login_def)
  note found = login_check_accepts(4)[OF check]
  note session = finished_session_state[OF _ _ refl assms(2,3) finish, unfolded tables, OF assms(1) found]
  have "getUserInfo p (''Bearer '' @ sign (pvMac p) (luEmail user)) = Some (luEmail user)"
    unfolding getUserInfo_def TrimPrefix_append by (simp add: token_roundtrip_sign)
  with session signed_out_state found show ?thesis by blast
qed

text \<open>
  C39: A password reset does not reach a login in flight. A login that was checked against the old
  password and opens its session after an administrator's reset has removed the sessions of the account
  keeps a session for the account, valid for its whole duration.
\<close>

theorem reset_misses_login_in_flight:
  assumes "db_ok (psTables st)" "login_check p now r st = (Inr user, st1)"
    "SetPassword p salt (luID user) password req st1 = (Inr (), st2)"
    "login_finish p now (Some bytes) r user st2 = (RedirectTo loc (Some ck), st3)" "bytes \<noteq> []"
    "later < now + sessionDuration"
  shows "\<exists>state. fst (getState p later True (ckValue ck) st3) = StateOK state \<and> ssEmail state = luEmail user"
proof -
  have tables: "psTables st1 = psTables st" using login_check_tables[of p now r st] assms(2) by simp
  obtain ph where set: "SetLocalAuthUserPassword (luID user) ph req (psTables st) = (Inr (), psTables st2)"
    using assms(3) tables by (auto simp: SetPassword_def on_tables_def split: sum.splits prod.splits)
  have "db_ok (psTables st2)"
    using password_set(2)[of "luID user" ph req "psTables st"] set assms(1)
    by (auto simp: password_update_def intro!: db_ok_delete_sessions db_ok_update)
  moreover have "fst (LocalAuthUserByEmail (pvStore p) (NormalizeEmail (lrEmail r)) (psTables st2)) = Inr (password_update ph req user)"
    using reset_account_found[OF assms(1) login_check_accepts(4)[OF assms(2)], of ph req] set by simp
  ultimately show ?thesis
    using finished_session_state(2)[OF _ _ _ refl assms(5,4), of _ "password_update ph req user" later] assms(6)
    by (simp add: password_update_def)
qed

section \<open>The provider on its tables\<close>

text \<open>
  Every request to the provider as one step. The initial owner is provisioned while other replicas may do
  the same.
\<close>

datatype provider_op =
    OpLogin int "string option" LoginRequest
  | OpActivate int "string option" string
  | OpSignOut "string option" string
  | OpGetState int bool string
  | OpCreateUser "string option" string string bool bool
  | OpSetPassword "string option" nat string bool
  | OpChangePassword int "string option" nat string string
  | OpDeleteUser nat
  | OpEnsureInitialOwner "string option" "string option" "(string \<times> string \<times> string \<times> int) list" string string int

definition replicas :: "auth_store \<Rightarrow> (string \<times> string \<times> string \<times> int) list \<Rightarrow> auth_db \<Rightarrow> auth_db" where
  "replicas c created = apply_events c (map (\<lambda>(email, ph, tok, expires). EvCreateInitial email ph tok expires) created)"

definition provider_step :: "Provider \<Rightarrow> provider_op \<Rightarrow> provider_state \<Rightarrow> provider_state" where
  "provider_step p op st =
    (case op of
       OpLogin now random r \<Rightarrow> snd (login p now random r st)
     | OpActivate now random setupToken \<Rightarrow> snd (ActivateInitialOwner p now random setupToken st)
     | OpSignOut session rd \<Rightarrow> snd (signOut p session rd st)
     | OpGetState now decodes token \<Rightarrow> snd (getState p now decodes token st)
     | OpCreateUser salt email password req bootstrap \<Rightarrow> snd (CreateUser p salt email password req bootstrap st)
     | OpSetPassword salt uid password req \<Rightarrow> snd (SetPassword p salt uid password req st)
     | OpChangePassword now salt uid password sid \<Rightarrow> snd (ChangePassword p now salt uid password sid st)
     | OpDeleteUser uid \<Rightarrow> snd (DeleteUser uid st)
     | OpEnsureInitialOwner random salt others email setupToken expires \<Rightarrow>
         snd (EnsureInitialOwner p random salt (replicas (pvStore p) others) email setupToken expires st))"

text \<open>The tables after a request are reached by operations of the store, of which only a reset sets a password.\<close>

definition reaches :: "Provider \<Rightarrow> nat set \<Rightarrow> auth_db \<Rightarrow> auth_db \<Rightarrow> bool" where
  "reaches p resets db db' =
    (\<exists>evs. db' = apply_events (pvStore p) evs db \<and> (\<forall>uid ph req. EvSetPassword uid ph req \<in> set evs \<longrightarrow> uid \<in> resets))"

lemma reaches_refl [simp]: "reaches p resets db db"
  unfolding reaches_def by (rule exI[of _ "[]"]) simp

lemma reaches_trans: "reaches p resets db1 db2 \<Longrightarrow> reaches p resets db2 db3 \<Longrightarrow> reaches p resets db1 db3"
proof -
  assume "reaches p resets db1 db2" "reaches p resets db2 db3"
  then obtain evs1 evs2 where "db2 = apply_events (pvStore p) evs1 db1" "db3 = apply_events (pvStore p) evs2 db2"
    "\<forall>uid ph req. EvSetPassword uid ph req \<in> set evs1 \<longrightarrow> uid \<in> resets"
    "\<forall>uid ph req. EvSetPassword uid ph req \<in> set evs2 \<longrightarrow> uid \<in> resets" unfolding reaches_def by blast
  then show ?thesis unfolding reaches_def by (intro exI[of _ "evs1 @ evs2"]) (simp add: apply_events_def, blast)
qed

lemma reaches_event:
  "(\<And>uid ph req. ev = EvSetPassword uid ph req \<Longrightarrow> uid \<in> resets) \<Longrightarrow> reaches p resets db (apply_event (pvStore p) ev db)"
  unfolding reaches_def by (rule exI[of _ "[ev]"]) auto

lemma reaches_ops:
  "reaches p resets db (snd (CreateLocalAuthUser (pvStore p) email ph req db))"
  "reaches p resets db (snd (CreateBootstrapLocalAuthUser (pvStore p) email ph req db))"
  "reaches p resets db (snd (CreateInitialLocalAuthUser (pvStore p) email ph tok expires db))"
  "reaches p resets db (snd (ActivateLocalAuthUser (pvStore p) now tok sid expires db))"
  "reaches p resets db (snd (RefreshLocalAuthUserSetupToken uid tok expires db))"
  "uid \<in> resets \<Longrightarrow> reaches p resets db (snd (SetLocalAuthUserPassword uid ph req db))"
  "reaches p resets db (snd (CompleteLocalAuthUserPasswordChange now uid ph sid db))"
  "reaches p resets db (snd (DeleteLocalAuthUser uid db))"
  "reaches p resets db (snd (CreateLocalAuthSession sid uid expires db))"
  "reaches p resets db (snd (LocalAuthSession (pvStore p) now sid db))"
  "reaches p resets db (snd (DeleteLocalAuthSession sid db))"
proof -
  note ev = reaches_event[of _ resets p db]
  show "reaches p resets db (snd (CreateLocalAuthUser (pvStore p) email ph req db))"
    using ev[of "EvCreate email ph req"] by (simp add: apply_event_def)
  show "reaches p resets db (snd (CreateBootstrapLocalAuthUser (pvStore p) email ph req db))"
    using ev[of "EvCreateBootstrap email ph req"] by (simp add: apply_event_def)
  show "reaches p resets db (snd (CreateInitialLocalAuthUser (pvStore p) email ph tok expires db))"
    using ev[of "EvCreateInitial email ph tok expires"] by (simp add: apply_event_def)
  show "reaches p resets db (snd (ActivateLocalAuthUser (pvStore p) now tok sid expires db))"
    using ev[of "EvActivate now tok sid expires"] by (simp add: apply_event_def)
  show "reaches p resets db (snd (RefreshLocalAuthUserSetupToken uid tok expires db))"
    using ev[of "EvRefresh uid tok expires"] by (simp add: apply_event_def)
  show "uid \<in> resets \<Longrightarrow> reaches p resets db (snd (SetLocalAuthUserPassword uid ph req db))"
    using ev[of "EvSetPassword uid ph req"] by (simp add: apply_event_def)
  show "reaches p resets db (snd (CompleteLocalAuthUserPasswordChange now uid ph sid db))"
    using ev[of "EvComplete now uid ph sid"] by (simp add: apply_event_def)
  show "reaches p resets db (snd (DeleteLocalAuthUser uid db))"
    using ev[of "EvDeleteUser uid"] by (simp add: apply_event_def)
  show "reaches p resets db (snd (CreateLocalAuthSession sid uid expires db))"
    using ev[of "EvCreateSession sid uid expires"] by (simp add: apply_event_def)
  show "reaches p resets db (snd (LocalAuthSession (pvStore p) now sid db))"
    using ev[of "EvReadSession now sid"] by (simp add: apply_event_def)
  show "reaches p resets db (snd (DeleteLocalAuthSession sid db))"
    using ev[of "EvDeleteSession sid"] by (simp add: apply_event_def)
qed

lemma on_tables_tables [simp]: "psTables (snd (on_tables f st)) = snd (f (psTables st))"
  by (simp add: on_tables_def split: prod.splits)

lemma reaches_replicas: "reaches p resets db (replicas (pvStore p) others db)"
  unfolding reaches_def replicas_def by (rule exI, rule conjI[OF refl]) auto

definition resets_of :: "provider_op \<Rightarrow> nat set" where
  "resets_of op = (case op of OpSetPassword _ uid _ _ \<Rightarrow> {uid} | _ \<Rightarrow> {})"

lemma reaches_login: "reaches p resets (psTables st) (psTables (snd (login p now random r st)))"
proof (cases "login_check p now r st")
  case (Pair checked st1)
  have tables: "psTables st1 = psTables st" using login_check_tables[of p now r st] Pair by simp
  show ?thesis
  proof (cases checked)
    case (Inr user)
    have "reaches p resets (psTables st1) (psTables (snd (login_finish p now random r user st1)))"
    proof (cases "generateToken random")
      case (Some token)
      then show ?thesis
        using reaches_ops(9)[of p resets "psTables st1" "asHash (pvStore p) token" "luID user" "now + sessionDuration"]
        by (auto simp: login_finish_def Let_def split: prod.splits sum.splits)
    qed (simp add: login_finish_def)
    then show ?thesis using Pair Inr tables by (simp add: login_def)
  qed (simp add: login_def Pair tables)
qed

lemma reaches_rotate: "reaches p resets (psTables st) (psTables (snd (rotate_token p existing setupToken expires st)))"
  by (simp add: rotate_token_def Let_def reaches_ops)

lemma reaches_create_initial:
  assumes "on_tables (CreateInitialLocalAuthUser (pvStore p) email ph tok expires) st = (r, st')"
  shows "reaches p resets (psTables st) (psTables st')"
  using reaches_ops(3)[of p resets "psTables st" email ph tok expires] assms by (auto simp: on_tables_def split: prod.splits)

lemma reaches_reconcile: "reaches p resets (psTables st) (psTables (snd (reconcile_created p email setupToken expires st)))"
  using reaches_rotate by (auto simp: reconcile_created_def split: sum.splits)

lemma reaches_create_owner:
  "reaches p resets (psTables st) (psTables (snd (create_owner p random salt (replicas (pvStore p) others) email setupToken expires st)))"
proof -
  have created: "reaches p resets (psTables st) (psTables st')"
    if "on_tables (CreateInitialLocalAuthUser (pvStore p) email ph tok expires)
        (st\<lparr>psTables := replicas (pvStore p) others (psTables st)\<rparr>) = (r, st')" for email ph tok expires r st'
    using reaches_trans[OF reaches_replicas reaches_create_initial[OF that, simplified]] .
  show ?thesis
    unfolding create_owner_def
    by (auto split: option.splits sum.splits prod.splits intro: created reaches_trans[OF created reaches_reconcile])
qed

lemma reaches_ensure:
  "reaches p resets (psTables st) (psTables (snd (EnsureInitialOwner p random salt (replicas (pvStore p) others) email setupToken expires st)))"
  using reaches_create_owner[of p resets "st\<lparr>psCredentials := _\<rparr>", simplified] reaches_rotate[of p resets "st\<lparr>psCredentials := _\<rparr>", simplified]
  by (auto simp: EnsureInitialOwner_def Let_def split: sum.splits prod.splits)

lemma provider_step_reaches: "reaches p (resets_of op) (psTables st) (psTables (provider_step p op st))"
proof (cases op)
  case (OpLogin now random r)
  then show ?thesis by (simp add: provider_step_def reaches_login)
next
  case (OpActivate now random setupToken)
  show ?thesis
  proof (cases "generateToken random")
    case (Some token)
    then show ?thesis
      using OpActivate reaches_ops(4)[of p "{}" "psTables st" now "asHash (pvStore p) setupToken" "asHash (pvStore p) token" "now + sessionDuration"]
      by (auto simp: provider_step_def ActivateInitialOwner_def resets_of_def split: prod.splits sum.splits)
  qed (simp add: OpActivate provider_step_def ActivateInitialOwner_def)
next
  case (OpSignOut session rd)
  then show ?thesis by (auto simp: provider_step_def signOut_def reaches_ops split: option.splits)
next
  case (OpGetState now decodes token)
  then show ?thesis
    using reaches_ops(10)[of p "{}" "psTables st" now "asHash (pvStore p) token"]
    by (auto simp: provider_step_def getState_def resets_of_def split: prod.splits sum.splits)
next
  case (OpCreateUser salt email password req bootstrap)
  then show ?thesis by (auto simp: provider_step_def CreateUser_def Let_def reaches_ops split: sum.splits)
next
  case (OpSetPassword salt uid password req)
  then show ?thesis by (auto simp: provider_step_def SetPassword_def resets_of_def reaches_ops split: sum.splits)
next
  case (OpChangePassword now salt uid password sid)
  then show ?thesis by (auto simp: provider_step_def ChangePassword_def reaches_ops split: sum.splits option.splits)
next
  case (OpDeleteUser uid)
  then show ?thesis by (simp add: provider_step_def DeleteUser_def reaches_ops)
next
  case (OpEnsureInitialOwner random salt others email setupToken expires)
  then show ?thesis by (simp add: provider_step_def reaches_ensure)
qed

lemma provider_run_reaches:
  assumes "\<forall>salt password req. OpSetPassword salt uid password req \<notin> set ops"
  shows "reaches p (- {uid}) (psTables st) (psTables (fold (provider_step p) ops st))"
  using assms
proof (induction ops arbitrary: st)
  case (Cons op ops)
  have "resets_of op \<subseteq> - {uid}" using Cons.prems by (auto simp: resets_of_def split: provider_op.splits)
  then have "reaches p (- {uid}) (psTables st) (psTables (provider_step p op st))"
    using provider_step_reaches[of p op st] unfolding reaches_def by blast
  moreover have "reaches p (- {uid}) (psTables (provider_step p op st)) (psTables (fold (provider_step p) ops (provider_step p op st)))"
    using Cons.prems by (intro Cons.IH) auto
  ultimately show ?case by (simp add: reaches_trans)
qed simp

lemma password_changed:
  assumes "ChangePassword p now salt uid password sid st = (Inr (), st')"
  obtains ph where "hashUserPassword p salt password = Inr ph"
    "CompleteLocalAuthUserPasswordChange now uid ph sid (psTables st) = (Inr (), psTables st')"
  using assms
  by (auto simp: ChangePassword_def on_tables_def split: sum.splits option.splits if_splits prod.splits)

text \<open>
  C26: A password that its owner chose stays the password of the account: until an administrator resets
  the account, no request to the provider, no restart with any configured owner and setup token, and no
  other replica changes it, brings a setup token back, or restricts the account again.
\<close>

theorem chosen_password_stays:
  assumes key: "\<And>pw salt t m threads n. length (pvIDKey p pw salt t m threads n) = n"
    and ok: "db_ok (psTables st)" and change: "ChangePassword p now (Some salt) uid password sid st = (Inr (), st')"
    and ops: "\<forall>salt password req. OpSetPassword salt uid password req \<notin> set ops"
  shows "\<forall>u\<in>set (dbUsers (psTables (fold (provider_step p) ops st'))). luID u = uid \<longrightarrow>
    VerifyPassword (pvIDKey p) (luPasswordHash u) password = None \<and> luSetupTokenHash u = [] \<and> \<not> luRequirePasswordChange u"
proof -
  obtain ph where hash: "hashUserPassword p (Some salt) password = Inr ph"
    and complete: "CompleteLocalAuthUserPasswordChange now uid ph sid (psTables st) = (Inr (), psTables st')"
    using change by (rule password_changed)
  have verified: "VerifyPassword (pvIDKey p) ph password = None"
    using hash verify_encoded[of "pvIDKey p" salt password password, OF key]
    by (auto simp: hashUserPassword_def hash_encoded minPasswordLength_def split: if_splits)
  note final = password_completed[of now uid ph sid "psTables st", OF _ ok, unfolded complete, simplified]
  obtain evs where evs: "psTables (fold (provider_step p) ops st') = apply_events (pvStore p) evs (psTables st')"
    "\<forall>ph req. EvSetPassword uid ph req \<notin> set evs"
    using provider_run_reaches[OF ops, of p st'] unfolding reaches_def by blast
  have "\<forall>u\<in>set (dbUsers (apply_events (pvStore p) evs (psTables st'))). luID u = uid \<longrightarrow>
      luPasswordHash u = ph \<and> luSetupTokenHash u = [] \<and> \<not> luRequirePasswordChange u"
  proof (rule events_keep_user)
    show "uid < dbNextID (psTables st')" using final(1,2) by simp
    show "\<forall>u\<in>set (dbUsers (psTables st')). luID u = uid \<longrightarrow>
        luPasswordHash u = ph \<and> luSetupTokenHash u = [] \<and> \<not> luRequirePasswordChange u" by (rule final(4))
  next
    fix ev u v assume "ev \<in> set evs" "luID u = uid" "luPasswordHash u = ph \<and> luSetupTokenHash u = [] \<and> \<not> luRequirePasswordChange u"
      "succeeds_user ev u v"
    with evs(2) show "luPasswordHash v = ph \<and> luSetupTokenHash v = [] \<and> \<not> luRequirePasswordChange v"
      by (auto simp: succeeds_user_def)
  qed
  with evs(1) verified show ?thesis by simp
qed

section \<open>Witnesses\<close>

definition example_hash :: string where
  "example_hash = encoded_hash ''salt'' (example_key ''correct horse battery'' ''salt'' 2 19456 1 32)"

definition example_provider :: Provider where
  "example_provider =
    \<lparr>pvStore = example_store, pvSecrets = example_secrets, pvIDKey = example_key, pvDummyHash = example_hash,
     pvServerURL = ''https://obot'', pvMac = rev, pvParseHost = Some, pvParseAddress = Some, pvLocale = (\<lambda>_. ''en''),
     pvText = (\<lambda>_ key. key), pvExplicitRole = (\<lambda>_. RoleUnknown)\<rparr>"

definition example_account :: "bool \<Rightarrow> LocalAuthUser" where
  "example_account pending =
    \<lparr>luID = 1, luEmail = ''ann@x.org'', luHashedEmail = ''hann@x.org'', luPasswordHash = example_hash,
     luRequirePasswordChange = pending, luSetupTokenHash = [], luSetupTokenExpiresAt = None, luEncrypted = False\<rparr>"

definition example_state :: "LocalAuthUser list \<Rightarrow> provider_state" where
  "example_state users =
    \<lparr>psThrottle = newThrottle, psTables = \<lparr>dbUsers = users, dbSessions = [\<lparr>lsID = ''s'', lsUserID = 1, lsExpiresAt = 100\<rparr>], dbNextID = 2\<rparr>,
     psCredentials = [to_row example_secrets
       \<lparr>crContext = ProviderName, crName = ProviderName, crSecrets = [(EmailDomainsEnvVar, ''x.org'')], crEncrypted = False\<rparr>]\<rparr>"

definition example_login :: "string \<Rightarrow> LoginRequest" where
  "example_login password =
    \<lparr>lrFormOK = True, lrAcceptLanguage = [], lrLocaleField = [], lrRd = ''/'', lrOrigin = [], lrReferer = [], lrHost = ''obot'',
     lrEmail = ''ann@x.org'', lrPassword = password\<rparr>"

lemma example_key_length: "length (example_key pw salt t m p n) = n"
  by (simp add: example_key_def)

lemma example_verifies:
  "VerifyPassword example_key example_hash ''correct horse battery'' = None"
  "VerifyPassword example_key example_hash ''wrong horse battery'' = Some ErrInvalidPassword"
  unfolding example_hash_def verify_encoded[of example_key, OF example_key_length]
  by (simp_all add: example_key_def)

lemma example_email: "NormalizeEmail ''ann@x.org'' = ''ann@x.org''"
  by (simp add: NormalizeEmail_def ToLower_def to_lower_def TrimSpace_def is_space_def)

lemma example_found:
  "fst (LocalAuthUserByEmail example_store ''ann@x.org'' (psTables (example_state [example_account pending]))) = Inr (example_account pending)"
  "fst (LocalAuthUserByEmail example_store ''ann@x.org'' (psTables (example_state []))) = Inl ErrRecordNotFound"
  by (simp_all add: LocalAuthUserByEmail_def found_user_def first_user_def example_state_def example_account_def example_store_def
      decryptLocalAuthUser_def example_email)

theorem login_reveals_no_account_witness:
  "fst (login example_provider 0 (Some ''r'') (example_login ''wrong horse battery'') (example_state []))
     = fst (login example_provider 0 (Some ''r'') (example_login ''wrong horse battery'') (example_state [example_account False]))"
  using login_reveals_no_account[where st = "example_state []" and st' = "example_state [example_account False]" and p = example_provider
      and r = "example_login ''wrong horse battery''" and user = "example_account False" and now = 0 and random = "Some ''r''"]
    example_found(1)[of False] example_found(2) example_verifies
  by (simp add: example_provider_def example_login_def example_email example_account_def) (simp add: example_state_def)

lemma example_accepts:
  "login_check example_provider 0 (example_login ''correct horse battery'') (example_state [example_account pending]) =
    (Inr (example_account pending), (example_state [example_account pending])\<lparr>psThrottle := newThrottle(''ann@x.org'' := None)\<rparr>)"
proof -
  have row: "is_row ProviderName ProviderName (to_row c \<lparr>crContext = ProviderName, crName = ProviderName, crSecrets = m, crEncrypted = False\<rparr>)" for c m
    by (simp add: is_row_def to_row_def)
  have allowed: "provider_emailDomainAllowed example_provider (psCredentials (example_state [example_account pending])) ''ann@x.org'' = Inr True"
    by (simp add: provider_emailDomainAllowed_def example_state_def example_provider_def RevealCredential_def row example_scan
        decryptCredential_def secret_value_def emailDomainAllowed_def EmailDomainsEnvVar_def ToLower_def to_lower_def TrimSpace_def
        is_space_def TrimPrefix_def CutPrefix_def HasPrefix_def)
  have hash: "luPasswordHash (example_account pending) = example_hash" by (simp add: example_account_def)
  have free: "blocked 0 ''ann@x.org'' (psThrottle (example_state [example_account pending])) = (False, newThrottle)"
    by (simp add: blocked_def example_state_def newThrottle_def)
  have same: "(example_state [example_account pending])\<lparr>psThrottle := newThrottle\<rparr> = example_state [example_account pending]"
    by (simp add: example_state_def)
  show ?thesis
    using example_found(1)[of pending] example_verifies(1) allowed hash free same
    by (simp add: login_check_def Let_def example_login_def example_email sameOrigin_def succeeded_def)
       (simp add: example_provider_def example_state_def succeeded_def)
qed

lemma example_state_ok: "db_ok (psTables (example_state [example_account pending]))"
  by (simp add: db_ok_def users_ok_def example_state_def example_account_def)

lemma example_opens:
  "\<exists>loc ck st'. login example_provider 0 (Some ''r'') (example_login ''correct horse battery'') (example_state [example_account False]) =
     (RedirectTo loc (Some ck), st')"
proof (rule login_finish_cases[of example_provider 0 "Some ''r''" "example_login ''correct horse battery''" "example_account False"
      "(example_state [example_account False])\<lparr>psThrottle := newThrottle(''ann@x.org'' := None)\<rparr>"])
  fix message
  assume "login_finish example_provider 0 (Some ''r'') (example_login ''correct horse battery'') (example_account False)
     ((example_state [example_account False])\<lparr>psThrottle := newThrottle(''ann@x.org'' := None)\<rparr>) =
    (HttpError 500 message, (example_state [example_account False])\<lparr>psThrottle := newThrottle(''ann@x.org'' := None)\<rparr>)"
  then show ?thesis
    by (simp add: login_finish_def Let_def generateToken_def CreateLocalAuthSession_def example_provider_def example_store_def
        example_state_def split: if_splits)
qed (auto simp: login_def example_accepts)

theorem login_session_lifecycle_witness:
  "\<exists>loc ck st'. login example_provider 0 (Some ''r'') (example_login ''correct horse battery'') (example_state [example_account False]) =
      (RedirectTo loc (Some ck), st')
    \<and> fst (getState example_provider 604800000000000 True (ckValue ck) st') = StateError 500 invalidSessionBody"
proof -
  obtain loc ck st' where l: "login example_provider 0 (Some ''r'') (example_login ''correct horse battery'') (example_state [example_account False]) =
      (RedirectTo loc (Some ck), st')" using example_opens by blast
  from login_session_lifecycle[OF example_state_ok refl _ l, of "''/''"] have
    "fst (getState example_provider 604800000000000 True (ckValue ck) st') = StateError 500 invalidSessionBody"
    by (auto simp: sessionDuration_def)
  with l show ?thesis by blast
qed

theorem reset_misses_login_in_flight_witness:
  "\<exists>user st1 st2 loc ck st3. login_check example_provider 0 (example_login ''correct horse battery'') (example_state [example_account False]) = (Inr user, st1)
    \<and> SetPassword example_provider (Some ''salt'') (luID user) ''another horse battery'' True st1 = (Inr (), st2)
    \<and> login_finish example_provider 0 (Some ''r'') (example_login ''correct horse battery'') user st2 = (RedirectTo loc (Some ck), st3)
    \<and> (\<exists>state. fst (getState example_provider 1 True (ckValue ck) st3) = StateOK state \<and> ssEmail state = luEmail user)"
proof -
  let ?st1 = "(example_state [example_account False])\<lparr>psThrottle := newThrottle(''ann@x.org'' := None)\<rparr>" and ?user = "example_account False"
  obtain st2 where set: "SetPassword example_provider (Some ''salt'') (luID ?user) ''another horse battery'' True ?st1 = (Inr (), st2)"
    and sessions: "dbSessions (psTables st2) = []"
    by (simp add: SetPassword_def hashUserPassword_def minPasswordLength_def hash_encoded on_tables_def SetLocalAuthUserPassword_def
        update_users_def delete_sessions_def example_state_def example_account_def)
  obtain loc ck st3 where finish: "login_finish example_provider 0 (Some ''r'') (example_login ''correct horse battery'') ?user st2 = (RedirectTo loc (Some ck), st3)"
    by (simp add: login_finish_def Let_def generateToken_def CreateLocalAuthSession_def sessions)
  from reset_misses_login_in_flight[OF example_state_ok example_accepts set finish, of 1]
  have "\<exists>state. fst (getState example_provider 1 True (ckValue ck) st3) = StateOK state \<and> ssEmail state = luEmail ?user"
    by (simp add: sessionDuration_def)
  with example_accepts set finish show ?thesis by blast
qed

lemma example_changes:
  "\<exists>st'. ChangePassword example_provider 1 (Some ''pepper'') 1 ''another horse battery'' ''s'' (example_state [example_account True]) = (Inr (), st')"
proof -
  have "VerifyPassword example_key example_hash ''another horse battery'' = Some ErrInvalidPassword"
    unfolding example_hash_def verify_encoded[of example_key, OF example_key_length] by (simp add: example_key_def)
  then show ?thesis
    by (simp add: ChangePassword_def LocalAuthUserByID_def found_user_def first_user_def example_state_def example_account_def
        decryptLocalAuthUser_def example_provider_def hashUserPassword_def minPasswordLength_def hash_encoded on_tables_def
        CompleteLocalAuthUserPasswordChange_def update_users_def)
qed

theorem chosen_password_stays_witness:
  "\<exists>st'. ChangePassword example_provider 1 (Some ''pepper'') 1 ''another horse battery'' ''s'' (example_state [example_account True]) = (Inr (), st')
    \<and> list_all (\<lambda>u. luID u \<noteq> 1 \<or> VerifyPassword example_key (luPasswordHash u) ''another horse battery'' = None)
        (dbUsers (psTables (fold (provider_step example_provider)
           [OpEnsureInitialOwner (Some ''r'') (Some ''s'') [] ''ann@x.org'' (replicate 40 (CHR ''t'')) 900, OpSignOut None ''/''] st')))"
proof -
  obtain st' where change: "ChangePassword example_provider 1 (Some ''pepper'') 1 ''another horse battery'' ''s'' (example_state [example_account True]) = (Inr (), st')"
    using example_changes by blast
  have key: "length (pvIDKey example_provider pw salt t m threads n) = n" for pw salt t m threads n
    by (simp add: example_provider_def example_key_length)
  from chosen_password_stays[of example_provider, OF key example_state_ok change,
      of "[OpEnsureInitialOwner (Some ''r'') (Some ''s'') [] ''ann@x.org'' (replicate 40 (CHR ''t'')) 900, OpSignOut None ''/'']"]
  have "list_all (\<lambda>u. luID u \<noteq> 1 \<or> VerifyPassword example_key (luPasswordHash u) ''another horse battery'' = None)
        (dbUsers (psTables (fold (provider_step example_provider)
           [OpEnsureInitialOwner (Some ''r'') (Some ''s'') [] ''ann@x.org'' (replicate 40 (CHR ''t'')) 900, OpSignOut None ''/''] st')))"
    by (auto simp: list_all_iff example_provider_def)
  with change show ?thesis by blast
qed

text \<open>
  A domain of the configured list that follows a blank loses its leading at sign only when the blank does
  not come first, so a list written with blanks after the commas does not allow its later entries.
\<close>

lemma blank_before_at_sign:
  "emailDomainAllowed ''@x.org,@y.org'' ''ann@y.org'' \<and> \<not> emailDomainAllowed ''@x.org, @y.org'' ''ann@y.org''"
  by (simp add: emailDomainAllowed_def ToLower_def to_lower_def TrimSpace_def is_space_def TrimPrefix_def CutPrefix_def HasPrefix_def)

end
