(* ===== verification/Enforcement.thy ===== *)
theory Enforcement
  imports Paths
begin

text \<open>
  The policy engine for the tool calls of managed devices (pkg/enforcement, with the allowlist handling
  of pkg/api/handlers/mdmconfigurations_enforcement.go and the decision endpoint of
  pkg/api/handlers/enforcement.go). It decides from a description of a call whether an allowlist
  permits it. The parser of \<open>net/url\<close> is a parameter, of which a URL is the part the sources read. Case
  folding is that of ASCII; what is shown of merged entries is restricted to it.
\<close>

section \<open>Calls and allowlists\<close>

record url_parts =
  uScheme :: string
  uHostname :: string
  uPort :: string
  uEscapedPath :: string
  uUser :: bool
  uQuery :: bool
  uFragment :: bool

type_synonym url_parser = "string \<Rightarrow> url_parts option"

record PackageIdentity =
  pkSource :: string
  pkName :: string
  pkVersion :: string

record ServerIdentity =
  siURL :: string
  siPackage :: "PackageIdentity option"
  siCommand :: string
  siHostname :: string
  siConnector :: string

record NormalizedCall =
  ncAgent :: string
  ncTool :: string
  ncKind :: string
  ncServerName :: string
  ncServer :: ServerIdentity
  ncObotHosted :: bool
  ncUnresolved :: bool
  ncUnresolvedReason :: string

record AllowlistServer =
  alURL :: string
  alPackage :: "PackageIdentity option"
  alHostname :: string
  alConnector :: string
  alTools :: "string list"

record EnforcementAllowlist =
  eaAllowEverything :: bool
  eaAllowAllObotHostedMCP :: bool
  eaAllowAllBuiltinAgentTools :: bool
  eaAllowAllBuiltinAgentMCP :: bool
  eaServers :: "AllowlistServer list"

record Decision =
  dcAllow :: bool
  dcReason :: string

section \<open>Built-in tools and servers\<close>

definition builtinAgentMCPServers :: "(string \<times> string list) list" where
  "builtinAgentMCPServers =
    [(''claude_code'', [''workspace'', ''claude-in-chrome'', ''computer-use'', ''Claude Preview'', ''Claude Browser''])]"

definition builtinAgentToolKinds :: "string list" where
  "builtinAgentToolKinds = [''shell'', ''read'', ''write'', ''task'', ''generic'']"

definition isBuiltinAgentToolKind :: "string \<Rightarrow> bool" where
  "isBuiltinAgentToolKind kind = (kind \<in> set builtinAgentToolKinds)"

definition normalizedServerName :: "string \<Rightarrow> string" where
  "normalizedServerName name =
    filter (\<lambda>c. let n = of_char c :: nat in (97 \<le> n \<and> n \<le> 122) \<or> (48 \<le> n \<and> n \<le> 57)) (ToLower name)"

definition isBuiltinAgentMCP :: "string \<Rightarrow> string \<Rightarrow> bool" where
  "isBuiltinAgentMCP agent serverName =
    (serverName \<noteq> [] \<and>
     (case map_of builtinAgentMCPServers agent of
        None \<Rightarrow> False
      | Some servers \<Rightarrow>
          serverName \<in> set servers
          \<or> (let target = normalizedServerName serverName
             in target \<noteq> [] \<and> list_ex (\<lambda>name. normalizedServerName name = target) servers)))"

section \<open>Package names\<close>

definition separator :: "char \<Rightarrow> bool" where
  "separator c = (c = CHR ''-'' \<or> c = CHR ''_'' \<or> c = CHR ''.'')"

text \<open>The loop of the source: the characters left, and whether separators are pending.\<close>

fun pypi_loop :: "bool \<Rightarrow> string \<Rightarrow> string" where
  "pypi_loop pending [] = (if pending then ''-'' else [])"
| "pypi_loop pending (r # rs) =
    (if separator r then pypi_loop True rs
     else (if pending then [CHR ''-'', r] else [r]) @ pypi_loop False rs)"

definition canonicalPyPIName :: "string \<Rightarrow> string" where
  "canonicalPyPIName name = pypi_loop False (ToLower name)"

definition CanonicalPackageName :: "string \<Rightarrow> string \<Rightarrow> string" where
  "CanonicalPackageName source name =
    (let name = TrimSpace name
     in if source = ''npm'' then ToLower name else if source = ''pypi'' then canonicalPyPIName name else name)"

section \<open>Paths\<close>

definition MaxMatchedPathBytes :: nat where "MaxMatchedPathBytes = 65536"

text \<open>\<open>percentEncodedDot.Replace\<close>.\<close>

fun decode_dots :: "string \<Rightarrow> string" where
  "decode_dots (a # b # c # s) =
    (if a = CHR 0x25 \<and> b = CHR ''2'' \<and> (c = CHR ''e'' \<or> c = CHR ''E'') then CHR ''.'' # decode_dots s
     else a # decode_dots (b # c # s))"
| "decode_dots s = s"

definition needs_escape :: "char \<Rightarrow> bool" where
  "needs_escape c =
    (let n = of_char c :: nat in n \<le> 32 \<or> n > 126 \<or> c \<in> set [CHR 0x22, CHR ''<'', CHR ''>'', CHR 0x5E, CHR 0x60, CHR ''{'', CHR ''}''])"

definition escapeClientPath :: "string \<Rightarrow> string" where
  "escapeClientPath path =
    concat (map (\<lambda>c. if needs_escape c then [CHR 0x25, upper_hex (of_char c div 16), upper_hex (of_char c mod 16)] else [c]) path)"

text \<open>The loop over the segments, with the resolved ones so far.\<close>

fun resolve_segments :: "string list \<Rightarrow> string list \<Rightarrow> string list" where
  "resolve_segments resolved [] = resolved"
| "resolve_segments resolved (segment # segments) =
    (let final = (segments = []);
         resolved = (if segment = ''..'' then butlast resolved else if segment = ''.'' then resolved else resolved @ [segment]);
         resolved = (if final \<and> (segment = ''..'' \<or> segment = ''.'') then resolved @ [[]] else resolved)
     in resolve_segments resolved segments)"

fun Join :: "char \<Rightarrow> string list \<Rightarrow> string" where
  "Join c [] = []"
| "Join c [s] = s"
| "Join c (s # ss) = s @ c # Join c ss"

definition ResolvePath :: "string \<Rightarrow> string" where
  "ResolvePath escapedPath =
    (let escaped = decode_dots escapedPath
     in if \<not> HasPrefix escaped ''/'' then escaped
        else slash # Join slash (resolve_segments [] (split_slash (tl escaped))))"

definition HasDotSegments :: "string \<Rightarrow> bool" where
  "HasDotSegments escapedPath = (ResolvePath escapedPath \<noteq> decode_dots escapedPath)"

definition pathPrefixMatches :: "string \<Rightarrow> string \<Rightarrow> bool" where
  "pathPrefixMatches entryPath callPath =
    (let entryPath = TrimSuffix entryPath ''/''
     in if entryPath = [] then True
        else let callPath = TrimSuffix callPath ''/'' in callPath = entryPath \<or> HasPrefix callPath (entryPath @ ''/''))"

section \<open>URLs\<close>

definition before_query :: "string \<Rightarrow> string" where
  "before_query s = takeWhile (\<lambda>c. c \<noteq> CHR ''?'' \<and> c \<noteq> CHR ''#'') s"

definition backslashes :: "string \<Rightarrow> string" where
  "backslashes = map (\<lambda>c. if c = CHR 0x5C then slash else c)"

definition ParseClientURL :: "url_parser \<Rightarrow> string \<Rightarrow> (url_parts \<times> string) option" where
  "ParseClientURL parse rawURL =
    (case Cut rawURL (CHR '':'') of
       None \<Rightarrow> map_option (\<lambda>u. (u, uEscapedPath u)) (parse rawURL)
     | Some (scheme, _) \<Rightarrow>
         if \<not> EqualFold scheme ''http'' \<and> \<not> EqualFold scheme ''https'' then map_option (\<lambda>u. (u, uEscapedPath u)) (parse rawURL)
         else let end = length (before_query rawURL);
                  normalized = backslashes (take end rawURL) @ drop end rawURL
              in (case parse normalized of
                   None \<Rightarrow> None
                 | Some u \<Rightarrow>
                     let hierarchy = drop (length scheme + 1) (take end normalized)
                     in if \<not> HasPrefix hierarchy ''//'' then Some (u, uEscapedPath u)
                        else let cut = Cut (drop 2 hierarchy) slash;
                                 authority = (case cut of None \<Rightarrow> drop 2 hierarchy | Some (a, _) \<Rightarrow> a);
                                 authorityEnd = min (length scheme + 3 + length authority + 1) end
                             in if CHR 0x5C \<in> set (take authorityEnd rawURL) then None
                                else Some (u, case cut of None \<Rightarrow> [] | Some (_, path) \<Rightarrow> escapeClientPath (slash # path))))"

definition NormalizedPort :: "url_parts \<Rightarrow> string" where
  "NormalizedPort u =
    (if uPort u \<noteq> [] then uPort u
     else if ToLower (uScheme u) = ''https'' then ''443''
     else if ToLower (uScheme u) = ''http'' then ''80''
     else [])"

definition urlMatches :: "url_parser \<Rightarrow> string \<Rightarrow> string \<Rightarrow> bool" where
  "urlMatches parse entryURL callURL =
    (let callURL = before_query callURL
     in if callURL = [] \<or> length callURL > MaxMatchedPathBytes then False
        else case ParseClientURL parse entryURL of
               None \<Rightarrow> False
             | Some (entry, entryPath) \<Rightarrow>
                 if length entryPath > MaxMatchedPathBytes then False
                 else (case ParseClientURL parse callURL of
                         None \<Rightarrow> False
                       | Some (actual, actualPath) \<Rightarrow>
                           if length actualPath > MaxMatchedPathBytes then False
                           else if \<not> EqualFold (uScheme entry) (uScheme actual) then False
                           else if \<not> EqualFold (uHostname entry) (uHostname actual) then False
                           else if NormalizedPort entry \<noteq> NormalizedPort actual then False
                           else if HasDotSegments entryPath then False
                           else pathPrefixMatches (ResolvePath entryPath) (ResolvePath actualPath)))"

section \<open>The decision\<close>

definition packageMatches :: "PackageIdentity option \<Rightarrow> PackageIdentity option \<Rightarrow> bool" where
  "packageMatches entry actual =
    (case (entry, actual) of
       (Some e, Some a) \<Rightarrow> pkSource e = pkSource a \<and> pkName e = pkName a \<and> (pkVersion e = [] \<or> pkVersion e = pkVersion a)
     | _ \<Rightarrow> False)"

definition hostnameMatches :: "string \<Rightarrow> string \<Rightarrow> bool" where
  "hostnameMatches entryHost callHost = (callHost \<noteq> [] \<and> EqualFold entryHost callHost)"

definition connectorMatches :: "string \<Rightarrow> string \<Rightarrow> bool" where
  "connectorMatches entryConnector callConnector = (callConnector \<noteq> [] \<and> EqualFold entryConnector callConnector)"

definition callHostname :: "url_parser \<Rightarrow> NormalizedCall \<Rightarrow> string" where
  "callHostname parse call =
    (if siHostname (ncServer call) \<noteq> [] then siHostname (ncServer call)
     else if siURL (ncServer call) = [] then []
     else case parse (siURL (ncServer call)) of None \<Rightarrow> [] | Some u \<Rightarrow> uHostname u)"

definition serverMatches :: "url_parser \<Rightarrow> NormalizedCall \<Rightarrow> AllowlistServer \<Rightarrow> bool" where
  "serverMatches parse call entry =
    (if alURL entry \<noteq> [] then urlMatches parse (alURL entry) (siURL (ncServer call))
     else if alPackage entry \<noteq> None then packageMatches (alPackage entry) (siPackage (ncServer call))
     else if alHostname entry \<noteq> [] then hostnameMatches (alHostname entry) (callHostname parse call)
     else if alConnector entry \<noteq> [] then connectorMatches (alConnector entry) (siConnector (ncServer call))
     else False)"

definition toolMatches :: "NormalizedCall \<Rightarrow> AllowlistServer \<Rightarrow> bool" where
  "toolMatches call entry = (alTools entry = [] \<or> ncTool call \<in> set (alTools entry))"

definition Evaluate :: "url_parser \<Rightarrow> NormalizedCall \<Rightarrow> EnforcementAllowlist \<Rightarrow> Decision" where
  "Evaluate parse call allowlist =
    (if ncUnresolved call
     then \<lparr>dcAllow = False, dcReason = (let reason = TrimSpace (ncUnresolvedReason call)
            in if reason = [] then ''the device could not determine what this tool call targets'' else reason)\<rparr>
     else if eaAllowEverything allowlist then \<lparr>dcAllow = True, dcReason = ''allow-everything toggle is enabled''\<rparr>
     else if eaAllowAllBuiltinAgentTools allowlist \<and> isBuiltinAgentToolKind (ncKind call)
     then \<lparr>dcAllow = True, dcReason = ''built-in agent tools are allowed''\<rparr>
     else if ncKind call = ''mcp'' \<and> eaAllowAllObotHostedMCP allowlist \<and> ncObotHosted call
     then \<lparr>dcAllow = True, dcReason = ''Obot-hosted MCP servers are allowed''\<rparr>
     else if ncKind call = ''mcp'' \<and> eaAllowAllBuiltinAgentMCP allowlist \<and> isBuiltinAgentMCP (ncAgent call) (ncServerName call)
     then \<lparr>dcAllow = True, dcReason = ''built-in agent MCP servers are allowed''\<rparr>
     else if ncKind call = ''mcp'' \<and> list_ex (\<lambda>server. serverMatches parse call server \<and> toolMatches call server) (eaServers allowlist)
     then \<lparr>dcAllow = True, dcReason = ''matched an allowlisted server entry''\<rparr>
     else \<lparr>dcAllow = False, dcReason = ''no matching allowlist entry''\<rparr>)"

section \<open>Saving an allowlist\<close>

definition normalize_tools :: "string list \<Rightarrow> string list" where
  "normalize_tools tools = filter (\<lambda>tool. tool \<noteq> []) (map TrimSpace tools)"

definition normalize_server :: "AllowlistServer \<Rightarrow> AllowlistServer option" where
  "normalize_server server =
    (if alTools server \<noteq> [] \<and> normalize_tools (alTools server) = [] then None
     else Some \<lparr>alURL = TrimSpace (alURL server),
                alPackage = map_option (\<lambda>p. \<lparr>pkSource = pkSource p, pkName = CanonicalPackageName (pkSource p) (pkName p),
                                               pkVersion = TrimSpace (pkVersion p)\<rparr>) (alPackage server),
                alHostname = ToLower (TrimSpace (alHostname server)),
                alConnector = TrimSpace (alConnector server),
                alTools = normalize_tools (alTools server)\<rparr>)"

definition allowlistServerKey :: "AllowlistServer \<Rightarrow> string \<times> bool" where
  "allowlistServerKey server =
    (if alURL server \<noteq> [] then (''url:'' @ alURL server, alPackage server = None \<and> alHostname server = [] \<and> alConnector server = [])
     else (case alPackage server of
             Some p \<Rightarrow> (''package:'' @ pkSource p @ '':'' @ pkName p @ '':'' @ pkVersion p, alHostname server = [] \<and> alConnector server = [])
           | None \<Rightarrow>
               if alHostname server \<noteq> [] then (''hostname:'' @ ToLower (alHostname server), alConnector server = [])
               else if alConnector server \<noteq> [] then (''connector:'' @ ToLower (alConnector server), True)
               else ([], False)))"

definition merge_tools :: "string list \<Rightarrow> string list \<Rightarrow> string list" where
  "merge_tools tools added =
    (if tools = [] then [] else if added = [] then []
     else fold (\<lambda>tool acc. if tool \<in> set acc then acc else acc @ [tool]) added tools)"

text \<open>The entry with the key of a later one takes its tools; entries without a key stay.\<close>

fun merge_into :: "AllowlistServer \<Rightarrow> AllowlistServer list \<Rightarrow> AllowlistServer list option" where
  "merge_into server [] = None"
| "merge_into server (x # out) =
    (if snd (allowlistServerKey x) \<and> fst (allowlistServerKey x) = fst (allowlistServerKey server)
     then Some (x\<lparr>alTools := merge_tools (alTools x) (alTools server)\<rparr> # out)
     else map_option (\<lambda>out'. x # out') (merge_into server out))"

definition merge_step :: "AllowlistServer \<Rightarrow> AllowlistServer list \<Rightarrow> AllowlistServer list" where
  "merge_step server out =
    (if \<not> snd (allowlistServerKey server) then out @ [server]
     else case merge_into server out of None \<Rightarrow> out @ [server] | Some out' \<Rightarrow> out')"

definition mergeAllowlistServers :: "AllowlistServer list \<Rightarrow> AllowlistServer list" where
  "mergeAllowlistServers servers = (if length servers < 2 then servers else fold merge_step servers [])"

definition normalizeEnforcementAllowlist :: "EnforcementAllowlist \<Rightarrow> EnforcementAllowlist result" where
  "normalizeEnforcementAllowlist allowlist =
    (if eaServers allowlist = [] then Inr allowlist
     else if list_ex (\<lambda>s. normalize_server s = None) (eaServers allowlist)
     then Inl (BadRequest ''lists only blank tool names'')
     else Inr (allowlist\<lparr>eaServers := mergeAllowlistServers (map (the \<circ> normalize_server) (eaServers allowlist))\<rparr>))"

definition enforcementAllowlistIsEmpty :: "EnforcementAllowlist \<Rightarrow> bool" where
  "enforcementAllowlistIsEmpty a =
    (\<not> eaAllowEverything a \<and> \<not> eaAllowAllObotHostedMCP a \<and> \<not> eaAllowAllBuiltinAgentTools a \<and> \<not> eaAllowAllBuiltinAgentMCP a
     \<and> eaServers a = [])"

definition validateAllowlistURL :: "url_parser \<Rightarrow> string \<Rightarrow> api_error option" where
  "validateAllowlistURL parse raw =
    (case ParseClientURL parse raw of
       None \<Rightarrow> Some (BadRequest ''unparseable url'')
     | Some (u, path) \<Rightarrow>
         if uScheme u \<noteq> ''http'' \<and> uScheme u \<noteq> ''https'' then Some (BadRequest ''must use the http or https scheme'')
         else if uHostname u = [] then Some (BadRequest ''must include a hostname'')
         else if uUser u then Some (BadRequest ''must not include userinfo'')
         else if uQuery u \<or> uFragment u then Some (BadRequest ''must not include a query string or fragment'')
         else if length path > MaxMatchedPathBytes then Some (BadRequest ''url path too long'')
         else if HasDotSegments path then Some (BadRequest ''must not include dot segments'')
         else None)"

definition validateAllowlistHostname :: "string \<Rightarrow> api_error option" where
  "validateAllowlistHostname raw =
    (if list_ex (\<lambda>c. c \<in> set ('':/?#@ '' @ [CHR 0x09])) raw then Some (BadRequest ''must be a bare hostname'') else None)"

definition validate_server :: "url_parser \<Rightarrow> AllowlistServer \<Rightarrow> api_error option" where
  "validate_server parse s =
    (let urlSet = TrimSpace (alURL s) \<noteq> []; hostSet = TrimSpace (alHostname s) \<noteq> [];
         n = of_bool urlSet + of_bool (alPackage s \<noteq> None) + of_bool hostSet + of_bool (TrimSpace (alConnector s) \<noteq> []) :: nat;
         urlErr = (if urlSet then validateAllowlistURL parse (alURL s) else None);
         hostErr = (if hostSet then validateAllowlistHostname (alHostname s) else None)
     in if urlErr \<noteq> None then urlErr
        else if hostErr \<noteq> None then hostErr
        else if n \<noteq> 1 then Some (BadRequest ''must set exactly one of url, package, hostname, or connector'')
        else case alPackage s of
               None \<Rightarrow> None
             | Some p \<Rightarrow>
                 if pkSource p \<noteq> ''npm'' \<and> pkSource p \<noteq> ''pypi'' then Some (BadRequest ''invalid package source'')
                 else if TrimSpace (pkName p) = [] then Some (BadRequest ''package requires a name'')
                 else None)"

fun validateEnforcementAllowlist :: "url_parser \<Rightarrow> AllowlistServer list \<Rightarrow> api_error option" where
  "validateEnforcementAllowlist parse [] = None"
| "validateEnforcementAllowlist parse (s # ss) =
    (case validate_server parse s of Some e \<Rightarrow> Some e | None \<Rightarrow> validateEnforcementAllowlist parse ss)"

definition no_allowlist :: EnforcementAllowlist where
  "no_allowlist = \<lparr>eaAllowEverything = False, eaAllowAllObotHostedMCP = False, eaAllowAllBuiltinAgentTools = False,
     eaAllowAllBuiltinAgentMCP = False, eaServers = []\<rparr>"

definition defaultEnforcementAllowlist :: EnforcementAllowlist where
  "defaultEnforcementAllowlist = \<lparr>eaAllowEverything = False, eaAllowAllObotHostedMCP = True, eaAllowAllBuiltinAgentTools = True,
     eaAllowAllBuiltinAgentMCP = True, eaServers = []\<rparr>"

definition enforcementAllowlistForSave :: "url_parser \<Rightarrow> bool \<Rightarrow> EnforcementAllowlist \<Rightarrow> bool \<Rightarrow> EnforcementAllowlist result" where
  "enforcementAllowlistForSave parse enabled allowlist isNew =
    andThen (normalizeEnforcementAllowlist allowlist) (\<lambda>allowlist.
      if enforcementAllowlistIsEmpty allowlist
      then Inr (if enabled \<and> isNew then defaultEnforcementAllowlist else no_allowlist)
      else case validateEnforcementAllowlist parse (eaServers allowlist) of Some e \<Rightarrow> Inl e | None \<Rightarrow> Inr allowlist)"

section \<open>The decision endpoint\<close>

record DecisionRequest =
  drAgent :: string
  drTool :: string
  drKind :: string
  drServerName :: string
  drServer :: ServerIdentity
  drUnresolved :: bool
  drUnresolvedReason :: string

text \<open>\<open>truncateRunes\<close> on ASCII text, where a rune is a byte.\<close>

definition sanitizeUnresolvedReason :: "string \<Rightarrow> string" where
  "sanitizeUnresolvedReason raw = take 512 (TrimSpace raw)"

definition normalizedCallFromRequest :: "DecisionRequest \<Rightarrow> bool \<Rightarrow> NormalizedCall" where
  "normalizedCallFromRequest r obotHosted =
    \<lparr>ncAgent = drAgent r, ncTool = drTool r, ncKind = drKind r, ncServerName = drServerName r,
     ncServer = (drServer r)\<lparr>siHostname := []\<rparr>, ncObotHosted = obotHosted, ncUnresolved = drUnresolved r,
     ncUnresolvedReason = (if drUnresolved r then sanitizeUnresolvedReason (drUnresolvedReason r) else [])\<rparr>"

definition isObotHosted :: "url_parser \<Rightarrow> url_parts option \<Rightarrow> string \<Rightarrow> bool" where
  "isObotHosted parse serverURL callURL =
    (case serverURL of
       None \<Rightarrow> False
     | Some server \<Rightarrow>
         callURL \<noteq> [] \<and>
         (case parse callURL of
            None \<Rightarrow> False
          | Some call \<Rightarrow>
              uHostname call \<noteq> [] \<and> uHostname server \<noteq> [] \<and> EqualFold (uHostname call) (uHostname server)
              \<and> EqualFold (uScheme call) (uScheme server) \<and> NormalizedPort call = NormalizedPort server))"

text \<open>
  The endpoint: the device and the configuration its identity names, if any, and the enforcement
  settings of that configuration, which may fail to load. The result is the verdict and whether it is
  recorded.
\<close>

definition Decide ::
  "url_parser \<Rightarrow> url_parts option \<Rightarrow> string \<Rightarrow> nat option \<Rightarrow> (nat \<Rightarrow> (bool \<times> EnforcementAllowlist) option) \<Rightarrow> DecisionRequest
    \<Rightarrow> Decision \<times> bool" where
  "Decide parse serverURL deviceID configID load r =
    (case (deviceID, configID) of
       (_ # _, Some config) \<Rightarrow>
         (case load config of
            None \<Rightarrow> (\<lparr>dcAllow = False, dcReason = ''MDM configuration could not be loaded''\<rparr>, True)
          | Some (enabled, allowlist) \<Rightarrow>
              if \<not> enabled then (\<lparr>dcAllow = True, dcReason = ''enforcement is not enabled''\<rparr>, False)
              else (Evaluate parse (normalizedCallFromRequest r (isObotHosted parse serverURL (siURL (drServer r)))) allowlist, True))
     | _ \<Rightarrow> (\<lparr>dcAllow = False, dcReason = ''no MDM configuration is associated with this device''\<rparr>, False))"

section \<open>What a decision depends on\<close>

text \<open>
  The engine fails closed. A call is allowed exactly when its target was resolved and everything is
  allowed, or it is a built-in tool and those are allowed, or it is an MCP call that an enabled toggle
  covers or an entry of the list matches in server and tool.
\<close>

theorem Evaluate_allows_iff:
  "dcAllow (Evaluate parse call allowlist) \<longleftrightarrow>
    \<not> ncUnresolved call \<and>
    (eaAllowEverything allowlist
     \<or> (eaAllowAllBuiltinAgentTools allowlist \<and> ncKind call \<in> set builtinAgentToolKinds)
     \<or> (ncKind call = ''mcp'' \<and>
         ((eaAllowAllObotHostedMCP allowlist \<and> ncObotHosted call)
          \<or> (eaAllowAllBuiltinAgentMCP allowlist \<and> isBuiltinAgentMCP (ncAgent call) (ncServerName call))
          \<or> (\<exists>s\<in>set (eaServers allowlist). serverMatches parse call s \<and> toolMatches call s))))"
  by (simp add: Evaluate_def isBuiltinAgentToolKind_def list_ex_iff)

text \<open>
  The endpoint allows a call only of an enrolled device whose configuration loads and either does not
  enforce or permits the call; a verdict is recorded only for enrolled devices; and the host name that a
  device reports has no influence.
\<close>

theorem Decide_spec:
  "(dcAllow (fst (Decide parse serverURL deviceID configID load r)) \<longleftrightarrow>
      deviceID \<noteq> [] \<and> (\<exists>config enabled allowlist. configID = Some config \<and> load config = Some (enabled, allowlist)
        \<and> (\<not> enabled \<or> dcAllow (Evaluate parse (normalizedCallFromRequest r (isObotHosted parse serverURL (siURL (drServer r)))) allowlist))))
   \<and> (snd (Decide parse serverURL deviceID configID load r) \<longleftrightarrow>
      deviceID \<noteq> [] \<and> (\<exists>config. configID = Some config \<and> (\<forall>allowlist. load config \<noteq> Some (False, allowlist))))
   \<and> Decide parse serverURL deviceID configID load (r\<lparr>drServer := (drServer r)\<lparr>siHostname := reported\<rparr>\<rparr>) =
      Decide parse serverURL deviceID configID load r"
proof (intro conjI)
  have "normalizedCallFromRequest (r\<lparr>drServer := (drServer r)\<lparr>siHostname := reported\<rparr>\<rparr>) = normalizedCallFromRequest r"
    by (rule ext) (simp add: normalizedCallFromRequest_def)
  then show "Decide parse serverURL deviceID configID load (r\<lparr>drServer := (drServer r)\<lparr>siHostname := reported\<rparr>\<rparr>) =
      Decide parse serverURL deviceID configID load r" by (simp add: Decide_def split: list.split option.split)
qed (auto simp: Decide_def split: list.splits option.splits)

section \<open>Package names\<close>

text \<open>The reference: every run of separators becomes one dash, and letters become small.\<close>

function pep503 :: "string \<Rightarrow> string" where
  "pep503 [] = []"
| "pep503 (c # cs) = (if separator c then CHR ''-'' # pep503 (dropWhile separator cs) else c # pep503 cs)"
  by pat_completeness auto
termination by (relation "measure length") (auto simp: le_imp_less_Suc length_dropWhile_le)

lemma pypi_loop_pep503:
  "pypi_loop True s = CHR ''-'' # pep503 (dropWhile separator s)" "pypi_loop False s = pep503 s"
  by (induction s) auto

lemma to_lower_simps [simp]: "to_lower (to_lower c) = to_lower c" "to_lower (CHR ''-'') = CHR ''-''"
  by (simp_all add: to_lower_def Let_def)

lemma ToLower_idem [simp]: "ToLower (ToLower s) = ToLower s"
  by (simp add: ToLower_def)

lemma set_pep503: "set (pep503 s) \<subseteq> insert (CHR ''-'') (set s)"
  by (induction s rule: pep503.induct) (auto dest: set_dropWhileD)

lemma small_iff: "ToLower s = s \<longleftrightarrow> (\<forall>c\<in>set s. to_lower c = c)"
  unfolding ToLower_def by (induction s) auto

lemma pep503_small: "ToLower s = s \<Longrightarrow> ToLower (pep503 s) = pep503 s"
  using set_pep503[of s] by (auto simp: small_iff)

lemma pep503_idem: "pep503 (pep503 s) = pep503 s"
proof (induction s rule: pep503.induct)
  case (2 c cs)
  show ?case
  proof (cases "separator c")
    case True
    have "dropWhile separator (pep503 (dropWhile separator cs)) = pep503 (dropWhile separator cs)"
    proof (cases "dropWhile separator cs")
      case (Cons d ds)
      then have "\<not> separator d" by (simp add: dropWhile_eq_Cons_conv)
      with Cons show ?thesis by simp
    next
      case Nil
      show ?thesis unfolding Nil by simp
    qed
    with True 2(1) show ?thesis by (simp add: separator_def)
  qed (use 2(2) in simp)
qed simp

text \<open>Names without blanks at their ends stay so.\<close>

definition trimmed :: "string \<Rightarrow> bool" where
  "trimmed s = (s = [] \<or> (\<not> is_space (hd s) \<and> \<not> is_space (last s)))"

lemma TrimSpace_trimmed:
  assumes "trimmed s"
  shows "TrimSpace s = s"
proof (cases "s = []")
  case False
  with assms have "\<not> is_space (hd s)" "\<not> is_space (hd (rev s))" by (simp_all add: trimmed_def hd_rev)
  moreover have "dropWhile is_space xs = xs" if "\<not> is_space (hd xs)" for xs
    using that by (cases xs) auto
  ultimately show ?thesis by (simp add: TrimSpace_def)
qed (simp add: TrimSpace_def)

lemma trimmed_TrimSpace: "trimmed (TrimSpace s)"
proof -
  define t where "t = dropWhile is_space s"
  have hd: "t \<noteq> [] \<Longrightarrow> \<not> is_space (hd t)" using hd_dropWhile[of is_space s] by (auto simp: t_def)
  define r where "r = dropWhile is_space (rev t)"
  have r: "r \<noteq> [] \<Longrightarrow> \<not> is_space (hd r)" using hd_dropWhile[of is_space "rev t"] by (auto simp: r_def)
  obtain p where "rev t = p @ r" unfolding r_def by (metis takeWhile_dropWhile_id)
  then have "rev (rev t) = rev (p @ r)" by simp
  then have t: "t = rev r @ rev p" by simp
  have trim: "TrimSpace s = rev r" by (simp add: TrimSpace_def t_def r_def)
  show ?thesis
  proof (cases "r = []")
    case False
    then have "hd t = hd (rev r)" "t \<noteq> []" by (simp_all add: t)
    with False hd r show ?thesis by (simp add: trim trimmed_def last_rev)
  qed (simp add: trim trimmed_def)
qed

lemma to_lower_space [simp]: "is_space (to_lower c) = is_space c"
proof (cases "65 \<le> (of_char c :: nat) \<and> (of_char c :: nat) \<le> 90")
  case True
  then have "of_char (to_lower c) = (of_char c :: nat) + 32" by (simp add: to_lower_def)
  with True have "of_char (to_lower c) \<ge> (97 :: nat)" "of_char c \<ge> (65 :: nat)" by auto
  then show ?thesis by (auto simp: is_space_def)
qed (auto simp: to_lower_def Let_def)

lemma trimmed_ToLower: "trimmed s \<Longrightarrow> trimmed (ToLower s)"
  by (auto simp: trimmed_def ToLower_def hd_map last_map)

lemma pep503_ends: "s \<noteq> [] \<Longrightarrow> hd (pep503 s) \<in> {hd s, CHR ''-''} \<and> last (pep503 s) \<in> {last s, CHR ''-''}"
proof (induction s rule: pep503.induct)
  case (2 c cs)
  have tail: "last (dropWhile separator cs) = last cs" if "dropWhile separator cs \<noteq> []"
    using that by (metis last_appendR takeWhile_dropWhile_id)
  have "pep503 xs = [] \<longleftrightarrow> xs = []" for xs by (cases xs) auto
  with 2 tail show ?case
    by (cases "separator c") (auto split: if_splits)
qed simp

lemma trimmed_pep503: "trimmed s \<Longrightarrow> trimmed (pep503 s)"
  using pep503_ends[of s] by (cases "s = []") (auto simp: trimmed_def is_space_def)

text \<open>
  The canonical form of a Python package name is the one that the package index defines, every run of
  separators as one dash and all letters small, and a canonical name is its own canonical form; the same
  holds of canonical names for every registry.
\<close>

theorem package_name_canonical:
  "canonicalPyPIName name = pep503 (ToLower name)
   \<and> CanonicalPackageName source (CanonicalPackageName source name) = CanonicalPackageName source name"
proof -
  have pypi: "canonicalPyPIName n = pep503 (ToLower n)" for n
    by (simp add: canonicalPyPIName_def pypi_loop_pep503)
  let ?n = "TrimSpace name"
  have "TrimSpace (ToLower ?n) = ToLower ?n" "TrimSpace (pep503 (ToLower ?n)) = pep503 (ToLower ?n)" "TrimSpace ?n = ?n"
    by (simp_all add: TrimSpace_trimmed trimmed_ToLower trimmed_pep503 trimmed_TrimSpace)
  moreover have "ToLower (pep503 (ToLower ?n)) = pep503 (ToLower ?n)" by (rule pep503_small) simp
  ultimately show ?thesis by (simp add: CanonicalPackageName_def pypi pep503_idem Let_def)
qed

section \<open>Path prefixes\<close>

text \<open>No escaped dot is left, so decoding twice changes nothing.\<close>

lemma decode_dots_Cons: "decode_dots (a # s) = a # decode_dots s" if "a \<noteq> CHR 0x25"
  using that by (cases "a # s" rule: decode_dots.cases) auto

lemma decode_dots_head: "decode_dots (c # s) = c # decode_dots s \<or> (\<exists>r. decode_dots (c # s) = CHR ''.'' # r)"
  by (cases "c # s" rule: decode_dots.cases) auto

lemma decode_dots_percent:
  assumes "\<not> (\<exists>c r. t = CHR ''2'' # c # r \<and> (c = CHR ''e'' \<or> c = CHR ''E''))"
  shows "decode_dots (CHR 0x25 # t) = CHR 0x25 # decode_dots t"
  using assms by (cases "CHR 0x25 # t" rule: decode_dots.cases) auto

lemma decode_dots_keeps:
  assumes "\<not> (a = CHR 0x25 \<and> b = CHR ''2'' \<and> (c = CHR ''e'' \<or> c = CHR ''E''))"
  shows "decode_dots (a # decode_dots (b # c # s)) = a # decode_dots (decode_dots (b # c # s))"
proof (cases "a = CHR 0x25")
  case True
  have "\<not> (\<exists>x r. decode_dots (b # c # s) = CHR ''2'' # x # r \<and> (x = CHR ''e'' \<or> x = CHR ''E''))"
  proof
    assume "\<exists>x r. decode_dots (b # c # s) = CHR ''2'' # x # r \<and> (x = CHR ''e'' \<or> x = CHR ''E'')"
    then obtain x r where x: "decode_dots (b # c # s) = CHR ''2'' # x # r" "x = CHR ''e'' \<or> x = CHR ''E''" by blast
    with decode_dots_head[of b "c # s"] have "b = CHR ''2''" "decode_dots (c # s) = x # r" by auto
    with decode_dots_head[of c s] x(2) True assms show False by auto
  qed
  with True show ?thesis by (simp add: decode_dots_percent)
qed (simp add: decode_dots_Cons)

lemma decode_dots_idem: "decode_dots (decode_dots s) = decode_dots s"
proof (induction s rule: decode_dots.induct)
  case (1 a b c s)
  show ?case
  proof (cases "a = CHR 0x25 \<and> b = CHR ''2'' \<and> (c = CHR ''e'' \<or> c = CHR ''E'')")
    case True
    with 1(1) show ?thesis by (simp add: decode_dots_Cons)
  next
    case False
    then have "decode_dots (a # b # c # s) = a # decode_dots (b # c # s)" by auto
    with 1(2) False decode_dots_keeps[OF False] show ?thesis by simp
  qed
qed auto

text \<open>The segments of a path, and which of them are relative.\<close>

definition dot_segment :: "string \<Rightarrow> bool" where "dot_segment s = (s = ''.'' \<or> s = ''..'')"

lemma resolve_plain: "list_all (\<lambda>s. \<not> dot_segment s) segs \<Longrightarrow> resolve_segments acc segs = acc @ segs"
  by (induction segs arbitrary: acc) (auto simp: dot_segment_def)

lemma resolve_no_dots:
  "list_all (\<lambda>s. \<not> dot_segment s) acc \<Longrightarrow> list_all (\<lambda>s. \<not> dot_segment s) (resolve_segments acc segs)"
proof (induction acc segs rule: resolve_segments.induct)
  case (2 acc seg segs)
  have "list_all (\<lambda>s. \<not> dot_segment s) (butlast acc)" using 2(2) by (auto simp: list_all_iff dest: in_set_butlastD)
  with 2 show ?case by (simp add: dot_segment_def Let_def)
qed simp

lemma resolve_no_slash:
  "list_all (\<lambda>s. slash \<notin> set s) acc \<Longrightarrow> list_all (\<lambda>s. slash \<notin> set s) segs \<Longrightarrow> list_all (\<lambda>s. slash \<notin> set s) (resolve_segments acc segs)"
proof (induction acc segs rule: resolve_segments.induct)
  case (2 acc seg segs)
  have "list_all (\<lambda>s. slash \<notin> set s) (butlast acc)" using 2(2) by (auto simp: list_all_iff dest: in_set_butlastD)
  with 2 show ?case by (simp add: Let_def)
qed simp

lemma resolve_nonempty: "segs \<noteq> [] \<Longrightarrow> resolve_segments acc segs \<noteq> []"
proof (induction segs arbitrary: acc)
  case (Cons seg segs)
  then show ?case by (cases "segs = []") (simp_all add: Let_def)
qed simp

lemma Split_Join: "segs \<noteq> [] \<Longrightarrow> list_all (\<lambda>s. c \<notin> set s) segs \<Longrightarrow> Split c (Join c segs) = segs"
  by (induction c segs rule: Join.induct) (auto simp: Split_append Split_none)

lemma Join_Split: "Join c (Split c s) = s"
proof (induction s)
  case (Cons x s)
  then show ?case by (cases "Split c s") (auto, (cases "tl (Split c s)"; simp)+)
qed simp

lemma Split_nonempty: "Split c s \<noteq> []"
  by (cases s) (auto split: list.split)

definition path_segments :: "string \<Rightarrow> string list" where
  "path_segments path = split_slash (tl (decode_dots path))"

text \<open>A trailing slash does not count.\<close>

definition trim_end :: "string list \<Rightarrow> string list" where
  "trim_end segs = (if segs \<noteq> [] \<and> last segs = [] then butlast segs else segs)"

lemma decode_dots_rooted: "HasPrefix (decode_dots p) ''/'' \<longleftrightarrow> HasPrefix p ''/''"
proof (cases p)
  case (Cons c s)
  with decode_dots_head[of c s] decode_dots_Cons[of c s] show ?thesis by (auto simp: HasPrefix_def)
qed simp

lemma segments_no_slash: "list_all (\<lambda>s. slash \<notin> set s) (path_segments p)"
  by (auto simp: path_segments_def list_all_iff dest: split_slash_no_slash)

lemma ResolvePath_rooted:
  assumes "HasPrefix p ''/''"
  shows "ResolvePath p = slash # Join slash (resolve_segments [] (path_segments p))"
    "decode_dots p = slash # Join slash (path_segments p)"
proof -
  obtain r where r: "decode_dots p = slash # r"
    using assms decode_dots_rooted[of p] by (auto simp: HasPrefix_iff slash_def)
  then show "decode_dots p = slash # Join slash (path_segments p)" by (simp add: path_segments_def Join_Split)
  show "ResolvePath p = slash # Join slash (resolve_segments [] (path_segments p))"
    using assms decode_dots_rooted[of p] by (simp add: ResolvePath_def Let_def path_segments_def)
qed

lemma dot_segments_iff:
  assumes "HasPrefix p ''/''"
  shows "HasDotSegments p \<longleftrightarrow> (\<exists>s\<in>set (path_segments p). dot_segment s)"
proof -
  let ?segs = "path_segments p" and ?res = "resolve_segments [] (path_segments p)"
  have ne: "?segs \<noteq> []" by (simp add: path_segments_def Split_nonempty)
  have "HasDotSegments p \<longleftrightarrow> Join slash ?res \<noteq> Join slash ?segs"
    by (simp add: HasDotSegments_def ResolvePath_rooted[OF assms])
  also have "\<dots> \<longleftrightarrow> ?res \<noteq> ?segs"
    using Split_Join[of ?res slash] Split_Join[of ?segs slash] ne resolve_nonempty[OF ne] resolve_no_slash[of "[]" ?segs] segments_no_slash
    by (metis list.pred_inject(1))
  also have "\<dots> \<longleftrightarrow> (\<exists>s\<in>set ?segs. dot_segment s)"
    using resolve_plain[of ?segs "[]"] resolve_no_dots[of "[]" ?segs] by (fastforce simp: list_all_iff)
  finally show ?thesis .
qed

text \<open>
  The test for relative segments reports them exactly: a path has one when one of its segments is a
  dot or two dots, written plainly or escaped.
\<close>

theorem HasDotSegments_iff:
  assumes "HasPrefix p ''/''"
  shows "HasDotSegments p \<longleftrightarrow> (\<exists>s\<in>set (path_segments p). dot_segment s)"
  using assms by (rule dot_segments_iff)

text \<open>Joined paths without their trailing slash, as the sequence of their segments.\<close>

lemma Join_concat: "segs \<noteq> [] \<Longrightarrow> slash # Join slash segs = concat (map (\<lambda>s. slash # s) segs)"
  by (induction slash segs rule: Join.induct) auto

lemma TrimSuffix_slash: "TrimSuffix (s @ ''/'') ''/'' = s" "(s = [] \<or> last s \<noteq> slash) \<Longrightarrow> TrimSuffix s ''/'' = s"
proof -
  show "TrimSuffix (s @ ''/'') ''/'' = s" by (simp add: TrimSuffix_def CutSuffix_def HasSuffix_def)
  assume "s = [] \<or> last s \<noteq> slash"
  then have "CutSuffix s ''/'' = None"
    by (auto simp: CutSuffix_def HasSuffix_iff slash_def)
  then show "TrimSuffix s ''/'' = s" by (simp add: TrimSuffix_def)
qed

lemma TrimSuffix_joined:
  assumes "segs \<noteq> []" "list_all (\<lambda>s. slash \<notin> set s) segs"
  shows "TrimSuffix (slash # Join slash segs) ''/'' = concat (map (\<lambda>s. slash # s) (trim_end segs))"
proof (cases segs rule: rev_cases)
  case (snoc xs x)
  show ?thesis
  proof (cases "x = []")
    case True
    then have "slash # Join slash segs = concat (map (\<lambda>s. slash # s) xs) @ ''/''"
      using Join_concat[OF assms(1)] snoc by (simp add: slash_def)
    with True snoc show ?thesis by (simp add: TrimSuffix_slash trim_end_def)
  next
    case False
    then have "last (slash # Join slash segs) = last x" using snoc assms(1) by (simp add: Join_concat)
    moreover have "last x \<noteq> slash" using snoc assms(2) False last_in_set[of x] by (metis list_all_append list.pred_inject(2))
    ultimately have "TrimSuffix (slash # Join slash segs) ''/'' = slash # Join slash segs" by (intro TrimSuffix_slash(2)) simp
    then show ?thesis using False snoc assms(1) by (simp add: Join_concat trim_end_def)
  qed
qed (use assms in simp)

lemma slash_free_append:
  assumes "slash \<notin> set x" "slash \<notin> set y" "r = [] \<or> hd r = slash" "s = [] \<or> hd s = slash" "x @ r = y @ s"
  shows "x = y \<and> r = s"
proof -
  have cut: "takeWhile (\<lambda>c. c \<noteq> slash) (u @ v) = u \<and> dropWhile (\<lambda>c. c \<noteq> slash) (u @ v) = v"
    if "slash \<notin> set u" "v = [] \<or> hd v = slash" for u v :: string
    using that by (cases v) (simp_all add: takeWhile_append dropWhile_append, auto)
  from cut[OF assms(1,3)] cut[OF assms(2,4)] assms(5) show ?thesis by metis
qed

lemma concat_segments_prefix:
  assumes "list_all (\<lambda>s. slash \<notin> set s) xs" "list_all (\<lambda>s. slash \<notin> set s) ys"
    "concat (map (\<lambda>s. slash # s) ys) = concat (map (\<lambda>s. slash # s) xs) @ rest" "rest = [] \<or> hd rest = slash"
  shows "\<exists>zs. ys = xs @ zs"
  using assms
proof (induction xs arbitrary: ys)
  case (Cons x xs)
  then obtain y ys' where ys: "ys = y # ys'" by (cases ys) auto
  have hd: "concat (map (\<lambda>s. slash # s) zs) = [] \<or> hd (concat (map (\<lambda>s. slash # s) zs)) = slash" for zs
    by (cases zs) auto
  have "y @ concat (map (\<lambda>s. slash # s) ys') = x @ (concat (map (\<lambda>s. slash # s) xs) @ rest)"
    using Cons.prems(3) ys by simp
  moreover have "slash \<notin> set y" "slash \<notin> set x" using Cons.prems(1,2) ys by simp_all
  moreover have "concat (map (\<lambda>s. slash # s) xs) @ rest = [] \<or> hd (concat (map (\<lambda>s. slash # s) xs) @ rest) = slash"
    using Cons.prems(4) hd[of xs] by (cases xs) auto
  ultimately have eq: "y = x" "concat (map (\<lambda>s. slash # s) ys') = concat (map (\<lambda>s. slash # s) xs) @ rest"
    using slash_free_append[OF _ _ hd] by blast+
  have "\<exists>zs. ys' = xs @ zs" by (rule Cons.IH[OF _ _ eq(2) Cons.prems(4)]) (use Cons.prems(1,2) ys in simp_all)
  then show ?case using ys eq(1) by auto
qed simp

lemma pathPrefixMatches_segments:
  assumes "as \<noteq> []" "bs \<noteq> []" "list_all (\<lambda>s. slash \<notin> set s) as" "list_all (\<lambda>s. slash \<notin> set s) bs"
    "pathPrefixMatches (slash # Join slash as) (slash # Join slash bs)"
  shows "\<exists>zs. trim_end bs = trim_end as @ zs"
proof -
  have free: "list_all (\<lambda>s. slash \<notin> set s) (trim_end cs)" if "list_all (\<lambda>s. slash \<notin> set s) cs" for cs
    using that by (auto simp: trim_end_def list_all_iff dest: in_set_butlastD)
  let ?C = "\<lambda>cs. concat (map (\<lambda>s. slash # s) cs)"
  have "?C (trim_end as) = [] \<or> ?C (trim_end bs) = ?C (trim_end as) \<or> HasPrefix (?C (trim_end bs)) (?C (trim_end as) @ ''/'')"
    using assms(5) unfolding pathPrefixMatches_def TrimSuffix_joined[OF assms(1,3)] TrimSuffix_joined[OF assms(2,4)] Let_def
    by (auto split: if_splits)
  moreover have "trim_end as = []" if "?C (trim_end as) = []" using that by (cases "trim_end as") auto
  moreover have "\<exists>rest. ?C (trim_end bs) = ?C (trim_end as) @ rest \<and> hd rest = slash"
    if "HasPrefix (?C (trim_end bs)) (?C (trim_end as) @ ''/'')"
  proof -
    from that obtain r where "?C (trim_end bs) = ?C (trim_end as) @ slash # r" by (auto simp: HasPrefix_iff slash_def)
    then show ?thesis by (intro exI[of _ "slash # r"]) simp
  qed
  ultimately show ?thesis
    using concat_segments_prefix[OF free[OF assms(3)] free[OF assms(4)]] by (metis append.right_neutral append_Nil)
qed

lemma HasPrefix_first: "HasPrefix s ''/'' \<longleftrightarrow> (\<exists>r. s = slash # r)"
  by (simp add: HasPrefix_iff slash_def)

lemma TrimSuffix_first: "p \<noteq> [] \<Longrightarrow> hd p \<noteq> slash \<Longrightarrow> TrimSuffix p ''/'' \<noteq> [] \<and> hd (TrimSuffix p ''/'') = hd p"
  by (cases p rule: rev_cases) (auto simp: TrimSuffix_def CutSuffix_def HasSuffix_def slash_def hd_append split: if_splits)

lemma TrimSuffix_HasPrefix: "HasPrefix (TrimSuffix p ''/'') ''/'' \<Longrightarrow> HasPrefix p ''/''"
  by (cases p rule: rev_cases) (auto simp: TrimSuffix_def CutSuffix_def HasSuffix_def HasPrefix_iff split: if_splits)

text \<open>A path that is rooted is matched only by rooted paths, unless it is the root; one that is not rooted only by paths that are not.\<close>

lemma matched_rooted:
  assumes "pathPrefixMatches (slash # Join slash segs) q" "segs \<noteq> []" "list_all (\<lambda>s. slash \<notin> set s) segs" "trim_end segs \<noteq> []"
  shows "HasPrefix q ''/''"
proof -
  have e: "TrimSuffix (slash # Join slash segs) ''/'' = concat (map (\<lambda>s. slash # s) (trim_end segs))"
    by (rule TrimSuffix_joined[OF assms(2,3)])
  obtain r where r: "concat (map (\<lambda>s. slash # s) (trim_end segs)) = slash # r" using assms(4) by (cases "trim_end segs") auto
  from assms(1) have "HasPrefix (TrimSuffix q ''/'') ''/''"
    unfolding pathPrefixMatches_def e r Let_def by (auto simp: HasPrefix_iff slash_def)
  then show ?thesis by (rule TrimSuffix_HasPrefix)
qed

lemma matched_unrooted:
  assumes "pathPrefixMatches p q" "p \<noteq> []" "\<not> HasPrefix p ''/''"
  shows "\<not> HasPrefix q ''/''" "\<exists>rest. TrimSuffix q ''/'' = TrimSuffix p ''/'' @ rest \<and> (rest = [] \<or> HasPrefix rest ''/'')"
proof -
  have first: "TrimSuffix p ''/'' \<noteq> []" "hd (TrimSuffix p ''/'') \<noteq> slash"
    using TrimSuffix_first[of p] assms(2,3) by (cases p; simp add: HasPrefix_first)+
  with assms(1) show rest: "\<exists>rest. TrimSuffix q ''/'' = TrimSuffix p ''/'' @ rest \<and> (rest = [] \<or> HasPrefix rest ''/'')"
    by (auto simp: pathPrefixMatches_def Let_def HasPrefix_iff)
  then have "TrimSuffix q ''/'' \<noteq> [] \<and> hd (TrimSuffix q ''/'') \<noteq> slash" using first by auto
  then show "\<not> HasPrefix q ''/''"
    by (cases q rule: rev_cases) (auto simp: TrimSuffix_def CutSuffix_def HasSuffix_def HasPrefix_first slash_def hd_append append_eq_Cons_conv split: if_splits)
qed

lemma ResolvePath_unrooted: "\<not> HasPrefix p ''/'' \<Longrightarrow> ResolvePath p = decode_dots p"
  by (simp add: ResolvePath_def decode_dots_rooted)

lemma decode_dots_Nil [simp]: "decode_dots p = [] \<longleftrightarrow> p = []"
  by (cases p rule: decode_dots.cases) auto

text \<open>
  C11: A URL entry confines the calls it matches: to its scheme, host and port, and to its path. An entry whose path is rooted
  has no relative segments, and unless it is the root, it matches only rooted paths that, once a
  client has resolved them, lie below the path of the entry segment by segment. A path that is not rooted, as of a relative
  reference, confines calls to paths that extend it at a slash, and also are not rooted. An entry with an empty path or the root does not constrain the
  path.
\<close>

theorem url_entry_confines:
  assumes "urlMatches parse entryURL callURL"
  shows "\<exists>entry entryPath actual actualPath.
    ParseClientURL parse entryURL = Some (entry, entryPath) \<and> ParseClientURL parse (before_query callURL) = Some (actual, actualPath)
    \<and> EqualFold (uScheme entry) (uScheme actual) \<and> EqualFold (uHostname entry) (uHostname actual)
    \<and> NormalizedPort entry = NormalizedPort actual
    \<and> (if HasPrefix entryPath ''/''
       then (\<forall>s\<in>set (path_segments entryPath). \<not> dot_segment s)
         \<and> (trim_end (path_segments entryPath) = []
            \<or> HasPrefix actualPath ''/''
              \<and> (\<exists>below. trim_end (resolve_segments [] (path_segments actualPath)) = trim_end (path_segments entryPath) @ below))
       else entryPath = []
         \<or> \<not> HasPrefix actualPath ''/''
           \<and> (\<exists>rest. TrimSuffix (decode_dots actualPath) ''/'' = TrimSuffix (decode_dots entryPath) ''/'' @ rest \<and> (rest = [] \<or> HasPrefix rest ''/'')))"
proof -
  obtain entry entryPath actual actualPath where parsed:
    "ParseClientURL parse entryURL = Some (entry, entryPath)" "ParseClientURL parse (before_query callURL) = Some (actual, actualPath)"
    and same: "EqualFold (uScheme entry) (uScheme actual)" "EqualFold (uHostname entry) (uHostname actual)" "NormalizedPort entry = NormalizedPort actual"
    and path: "\<not> HasDotSegments entryPath" "pathPrefixMatches (ResolvePath entryPath) (ResolvePath actualPath)"
    using assms by (auto simp: urlMatches_def Let_def split: if_splits option.splits prod.splits)
  have resolved: "HasPrefix (ResolvePath p) ''/'' \<longleftrightarrow> HasPrefix p ''/''" for p
    using ResolvePath_rooted(1)[of p] ResolvePath_unrooted[of p] decode_dots_rooted[of p] by (cases "HasPrefix p ''/''") (auto simp: HasPrefix_first)
  have ne: "path_segments q \<noteq> []" for q by (simp add: path_segments_def Split_nonempty)
  have confined: "(\<forall>s\<in>set (path_segments entryPath). \<not> dot_segment s)
        \<and> (trim_end (path_segments entryPath) = [] \<or> HasPrefix actualPath ''/''
            \<and> (\<exists>below. trim_end (resolve_segments [] (path_segments actualPath)) = trim_end (path_segments entryPath) @ below))"
    if rooted: "HasPrefix entryPath ''/''"
  proof -
    have plain: "\<forall>s\<in>set (path_segments entryPath). \<not> dot_segment s"
      using path(1) dot_segments_iff[OF rooted(1)] by blast
    have entry: "ResolvePath entryPath = slash # Join slash (path_segments entryPath)"
      using resolve_plain[of "path_segments entryPath" "[]"] plain by (simp add: ResolvePath_rooted(1)[OF rooted(1)] list_all_iff)
    have actual: "HasPrefix actualPath ''/''" if "trim_end (path_segments entryPath) \<noteq> []"
      using matched_rooted[OF path(2)[unfolded entry] ne segments_no_slash that] by (simp add: resolved)
    have "\<exists>below. trim_end (resolve_segments [] (path_segments actualPath)) = trim_end (path_segments entryPath) @ below"
      if "HasPrefix actualPath ''/''"
      using pathPrefixMatches_segments[OF ne resolve_nonempty[OF ne] segments_no_slash _ path(2)[unfolded entry ResolvePath_rooted(1)[OF that]]]
        resolve_no_slash[OF _ segments_no_slash, of "[]" actualPath] by simp
    with plain actual show ?thesis by blast
  qed
  have unrooted: "\<not> HasPrefix actualPath ''/''
      \<and> (\<exists>rest. TrimSuffix (decode_dots actualPath) ''/'' = TrimSuffix (decode_dots entryPath) ''/'' @ rest \<and> (rest = [] \<or> HasPrefix rest ''/''))"
    if "\<not> HasPrefix entryPath ''/''" "entryPath \<noteq> []"
  proof -
    have p: "ResolvePath entryPath = decode_dots entryPath" "decode_dots entryPath \<noteq> []" "\<not> HasPrefix (decode_dots entryPath) ''/''"
      using that by (simp_all add: ResolvePath_unrooted decode_dots_rooted)
    note matched = matched_unrooted[OF path(2)[unfolded p(1)] p(2,3)]
    then show ?thesis using ResolvePath_unrooted[of actualPath] by (simp add: resolved)
  qed
  show ?thesis using parsed same confined unrooted by (intro exI[of _ entry] exI[of _ entryPath] exI[of _ actual] exI[of _ actualPath]) auto
qed

text \<open>
  An entry that was accepted matches its own URL exactly when the whole URL, and not only its path,
  is within the limit of the engine.
\<close>

theorem accepted_entry_matches_itself:
  assumes "validateAllowlistURL parse raw = None" "raw \<noteq> []" "before_query raw = raw"
  shows "urlMatches parse raw raw \<longleftrightarrow> length raw \<le> MaxMatchedPathBytes"
proof -
  obtain u path where "ParseClientURL parse raw = Some (u, path)" "length path \<le> MaxMatchedPathBytes" "\<not> HasDotSegments path"
    using assms(1) by (auto simp: validateAllowlistURL_def split: option.splits if_splits)
  with assms(2,3) show ?thesis by (auto simp: urlMatches_def EqualFold_ToLower pathPrefixMatches_def Let_def)
qed

section \<open>Merging entries\<close>

definition entry_allows :: "url_parser \<Rightarrow> NormalizedCall \<Rightarrow> AllowlistServer \<Rightarrow> bool" where
  "entry_allows parse call s = (serverMatches parse call s \<and> toolMatches call s)"

text \<open>The parts of a package key cannot be confused when the source and the name have no colon.\<close>

definition plain_package :: "AllowlistServer \<Rightarrow> bool" where
  "plain_package s =
    (case alPackage s of None \<Rightarrow> True | Some p \<Rightarrow> CHR '':'' \<notin> set (pkSource p) \<and> CHR '':'' \<notin> set (pkName p))"

lemma colon_cut: "CHR '':'' \<notin> set a \<Longrightarrow> CHR '':'' \<notin> set b \<Longrightarrow> a @ CHR '':'' # r = b @ CHR '':'' # s \<Longrightarrow> a = b \<and> r = s"
  by (metis Cut_append option.inject prod.inject)

lemma same_package_key:
  fixes p q :: PackageIdentity
  assumes "pkSource p @ '':'' @ pkName p @ '':'' @ pkVersion p = pkSource q @ '':'' @ pkName q @ '':'' @ pkVersion q"
    "CHR '':'' \<notin> set (pkSource p)" "CHR '':'' \<notin> set (pkName p)" "CHR '':'' \<notin> set (pkSource q)" "CHR '':'' \<notin> set (pkName q)"
  shows "p = q"
  using colon_cut[of "pkSource p" "pkSource q" "pkName p @ '':'' @ pkVersion p" "pkName q @ '':'' @ pkVersion q"]
    colon_cut[of "pkName p" "pkName q" "pkVersion p" "pkVersion q"] assms
  by (auto intro!: PackageIdentity.equality)

lemma same_key_matches:
  assumes key: "fst (allowlistServerKey x) = fst (allowlistServerKey y)" "snd (allowlistServerKey x)" "snd (allowlistServerKey y)"
    and plain: "plain_package x" "plain_package y"
  shows "serverMatches parse call x = serverMatches parse call y"
proof (cases "alPackage x")
  case None
  with key show ?thesis
    by (cases "alPackage y")
       (auto simp: allowlistServerKey_def serverMatches_def hostnameMatches_def connectorMatches_def EqualFold_ToLower split: if_splits)
next
  case (Some p)
  show ?thesis
  proof (cases "alPackage y")
    case None
    with Some key show ?thesis by (auto simp: allowlistServerKey_def serverMatches_def split: if_splits)
  next
    case (Some q)
    with \<open>alPackage x = Some p\<close> key plain same_package_key[of p q] show ?thesis
      by (auto simp: allowlistServerKey_def serverMatches_def plain_package_def split: if_splits)
  qed
qed

lemma fold_add_unseen_set:
  "set (fold (\<lambda>tool acc. if tool \<in> set acc then acc else acc @ [tool]) ts acc) = set acc \<union> set ts"
  by (induction ts arbitrary: acc) auto

lemma merge_tools_matches:
  "toolMatches call (x\<lparr>alTools := merge_tools (alTools x) ts\<rparr>) \<longleftrightarrow> toolMatches call x \<or> ts = [] \<or> ncTool call \<in> set ts"
proof -
  let ?m = "fold (\<lambda>tool acc. if tool \<in> set acc then acc else acc @ [tool]) ts (alTools x)"
  have "?m = [] \<longleftrightarrow> alTools x = [] \<and> ts = []" by (simp add: fold_add_unseen_set flip: set_empty)
  then show ?thesis using fold_add_unseen_set[of ts "alTools x"] by (auto simp: toolMatches_def merge_tools_def)
qed

lemma key_tools [simp]: "allowlistServerKey (x\<lparr>alTools := ts\<rparr>) = allowlistServerKey x" "plain_package (x\<lparr>alTools := ts\<rparr>) = plain_package x"
  "serverMatches parse call (x\<lparr>alTools := ts\<rparr>) = serverMatches parse call x"
  by (simp_all add: allowlistServerKey_def plain_package_def serverMatches_def split: option.split)

lemma merge_into_allows:
  assumes "merge_into server out = Some out'" "snd (allowlistServerKey server)" "plain_package server" "list_all plain_package out"
  shows "list_ex (entry_allows parse call) out' \<longleftrightarrow> list_ex (entry_allows parse call) out \<or> entry_allows parse call server"
    "list_all plain_package out'"
  using assms
proof (induction server out arbitrary: out' rule: merge_into.induct)
  case (2 server x out)
  {
    case 1
    show ?case
    proof (cases "snd (allowlistServerKey x) \<and> fst (allowlistServerKey x) = fst (allowlistServerKey server)")
      case True
      then have "serverMatches parse call x = serverMatches parse call server"
        using 1 by (intro same_key_matches) auto
      with True 1 show ?thesis
        by (auto simp: entry_allows_def merge_tools_matches) (auto simp: toolMatches_def)
    next
      case False
      with 1 2(1)[OF False] show ?thesis by auto
    qed
  next
    case 2
    then show ?case using "2.IH"(2) by (auto split: if_splits)
  }
qed simp_all

lemma merge_step_allows:
  assumes "plain_package server" "list_all plain_package out"
  shows "list_ex (entry_allows parse call) (merge_step server out) \<longleftrightarrow> list_ex (entry_allows parse call) out \<or> entry_allows parse call server"
    "list_all plain_package (merge_step server out)"
  using assms merge_into_allows(1)[of server out _ parse call] merge_into_allows(2)[of server out]
  by (auto simp: merge_step_def split: option.splits)

lemma merge_fold_allows:
  assumes "list_all plain_package servers" "list_all plain_package out"
  shows "list_ex (entry_allows parse call) (fold merge_step servers out) \<longleftrightarrow>
    list_ex (entry_allows parse call) out \<or> list_ex (entry_allows parse call) servers"
  using assms
proof (induction servers arbitrary: out)
  case (Cons s servers)
  have "list_all plain_package (merge_step s out)" using Cons.prems merge_step_allows(2) by simp
  with Cons.IH[of "merge_step s out"] Cons.prems merge_step_allows(1)[of s out parse call] show ?case by auto
qed simp

text \<open>
  The names that are folded are ASCII. Beyond ASCII the key of an entry and the matching differ: the key lowers its name and the
  match folds it, and in Unicode two names may have the same lower case and not fold to each other.
\<close>

definition ascii_entry :: "AllowlistServer \<Rightarrow> bool" where
  "ascii_entry s = (ascii_text (alHostname s) \<and> ascii_text (alConnector s))"

definition ascii_call :: "url_parser \<Rightarrow> NormalizedCall \<Rightarrow> bool" where
  "ascii_call parse call = (ascii_text (callHostname parse call) \<and> ascii_text (siConnector (ncServer call)))"

text \<open>
  C28: Merging the entries of an allowlist changes no decision, with any other settings,
  when no package source or name has a colon and the hostnames and connectors of the entries and of the call are ASCII.
\<close>

theorem merge_preserves_decisions:
  assumes "list_all plain_package servers" "list_all ascii_entry servers" "ascii_call parse call"
  shows "Evaluate parse call (a\<lparr>eaServers := mergeAllowlistServers servers\<rparr>) = Evaluate parse call (a\<lparr>eaServers := servers\<rparr>)"
proof -
  have "list_ex (entry_allows parse call) (mergeAllowlistServers servers) = list_ex (entry_allows parse call) servers"
    using merge_fold_allows[OF assms(1), of "[]" parse call] by (simp add: mergeAllowlistServers_def)
  then show ?thesis by (simp add: Evaluate_def entry_allows_def[abs_def])
qed

definition package_entry :: "string \<Rightarrow> string \<Rightarrow> string \<Rightarrow> string list \<Rightarrow> AllowlistServer" where
  "package_entry source name version tools =
    \<lparr>alURL = [], alPackage = Some \<lparr>pkSource = source, pkName = name, pkVersion = version\<rparr>, alHostname = [], alConnector = [], alTools = tools\<rparr>"

definition package_call :: "string \<Rightarrow> string \<Rightarrow> string \<Rightarrow> string \<Rightarrow> NormalizedCall" where
  "package_call source name version tool =
    \<lparr>ncAgent = ''codex'', ncTool = tool, ncKind = ''mcp'', ncServerName = [],
     ncServer = \<lparr>siURL = [], siPackage = Some \<lparr>pkSource = source, pkName = name, pkVersion = version\<rparr>, siCommand = [], siHostname = [], siConnector = []\<rparr>,
     ncObotHosted = False, ncUnresolved = False, ncUnresolvedReason = []\<rparr>"

definition connector_entry :: "string \<Rightarrow> string list \<Rightarrow> AllowlistServer" where
  "connector_entry name tools = \<lparr>alURL = [], alPackage = None, alHostname = [], alConnector = name, alTools = tools\<rparr>"

theorem merge_preserves_decisions_witness:
  "length (mergeAllowlistServers [connector_entry ''Mail'' [''a''], connector_entry ''mail'' [''b'']]) = 1
   \<and> Evaluate (\<lambda>_. None) ((package_call [] [] [] ''b'')\<lparr>ncServer := \<lparr>siURL = [], siPackage = None, siCommand = [], siHostname = [], siConnector = ''MAIL''\<rparr>\<rparr>)
       (no_allowlist\<lparr>eaServers := mergeAllowlistServers [connector_entry ''Mail'' [''a''], connector_entry ''mail'' [''b'']]\<rparr>)
     = Evaluate (\<lambda>_. None) ((package_call [] [] [] ''b'')\<lparr>ncServer := \<lparr>siURL = [], siPackage = None, siCommand = [], siHostname = [], siConnector = ''MAIL''\<rparr>\<rparr>)
       (no_allowlist\<lparr>eaServers := [connector_entry ''Mail'' [''a''], connector_entry ''mail'' [''b'']]\<rparr>)"
proof -
  let ?s = "[connector_entry ''Mail'' [''a''], connector_entry ''mail'' [''b'']]"
  let ?call = "(package_call [] [] [] ''b'')\<lparr>ncServer := \<lparr>siURL = [], siPackage = None, siCommand = [], siHostname = [], siConnector = ''MAIL''\<rparr>\<rparr>"
  have "length (mergeAllowlistServers ?s) = 1" "list_all plain_package ?s" "list_all ascii_entry ?s" by code_simp+
  moreover have "ascii_call (\<lambda>_. None) ?call" by (simp add: ascii_call_def ascii_text_def callHostname_def package_call_def)
  ultimately show ?thesis using merge_preserves_decisions[of ?s "\<lambda>_. None" ?call no_allowlist] by blast
qed

text \<open>
  With a colon in a name the keys of two packages can coincide, and merging loses the second: the key of
  version \<open>y:z\<close> of \<open>x\<close> is the key of version \<open>z\<close> of \<open>x:y\<close>.
\<close>

lemma merge_key_collision:
  "dcAllow (Evaluate parse (package_call ''npm'' ''x:y'' ''z'' ''t'')
      (no_allowlist\<lparr>eaServers := [package_entry ''npm'' ''x'' ''y:z'' [], package_entry ''npm'' ''x:y'' ''z'' []]\<rparr>))
   \<and> \<not> dcAllow (Evaluate parse (package_call ''npm'' ''x:y'' ''z'' ''t'')
      (no_allowlist\<lparr>eaServers := mergeAllowlistServers [package_entry ''npm'' ''x'' ''y:z'' [], package_entry ''npm'' ''x:y'' ''z'' []]\<rparr>))"
  by (simp add: Evaluate_def no_allowlist_def package_call_def package_entry_def serverMatches_def packageMatches_def toolMatches_def
      mergeAllowlistServers_def merge_step_def allowlistServerKey_def merge_tools_def isBuiltinAgentToolKind_def builtinAgentToolKinds_def)

section \<open>Witnesses\<close>

definition example_parser :: url_parser where
  "example_parser url =
    (if HasPrefix url ''https://a/''
     then Some \<lparr>uScheme = ''https'', uHostname = ''a'', uPort = [], uEscapedPath = drop 9 url, uUser = False, uQuery = False, uFragment = False\<rparr>
     else None)"

lemmas path_simps = ParseClientURL_def before_query_def backslashes_def example_parser_def HasPrefix_def EqualFold_ToLower ToLower_def
  to_lower_def slash_def Let_def escapeClientPath_def needs_escape_def

theorem HasDotSegments_iff_witness:
  "HasDotSegments ''/a/%2E./b'' \<and> list_ex dot_segment (path_segments ''/a/%2E./b'')"
proof -
  have "list_ex dot_segment (path_segments ''/a/%2E./b'')"
    by (simp add: path_segments_def dot_segment_def slash_def)
  moreover have "HasPrefix ''/a/%2E./b'' ''/''" by (simp add: HasPrefix_def)
  ultimately show ?thesis using HasDotSegments_iff[of "''/a/%2E./b''"] by (auto simp: list_ex_iff)
qed

lemma example_match: "urlMatches example_parser ''https://a/x'' ''https://a/y/../x/z?q''"
  by (simp add: urlMatches_def path_simps MaxMatchedPathBytes_def NormalizedPort_def HasDotSegments_def ResolvePath_def pathPrefixMatches_def
      TrimSuffix_def CutSuffix_def HasSuffix_def)

theorem url_entry_confines_witness:
  "ParseClientURL example_parser ''https://a/x'' \<noteq> None \<and> urlMatches example_parser ''https://a/x'' ''https://a/y/../x/z?q''
   \<and> \<not> urlMatches example_parser ''https://a/x'' ''https://a/x/../z''"
proof -
  have no: "\<not> (\<exists>below. trim_end (resolve_segments [] (path_segments ''/x/../z'')) = trim_end (path_segments ''/x'') @ below)"
    by (simp add: path_segments_def trim_end_def slash_def)
  have "\<not> urlMatches example_parser ''https://a/x'' ''https://a/x/../z''"
  proof
    assume "urlMatches example_parser ''https://a/x'' ''https://a/x/../z''"
    from url_entry_confines[OF this] no show False
      by (simp add: path_simps)
  qed
  then show ?thesis using url_entry_confines[OF example_match] example_match by auto
qed

theorem accepted_entry_matches_itself_witness:
  "urlMatches example_parser ''https://a/x'' ''https://a/x''"
proof -
  have "validateAllowlistURL example_parser ''https://a/x'' = None"
    by (simp add: validateAllowlistURL_def path_simps MaxMatchedPathBytes_def HasDotSegments_def ResolvePath_def)
  then show ?thesis
    using accepted_entry_matches_itself[of example_parser "''https://a/x''"]
    by (simp add: before_query_def MaxMatchedPathBytes_def)
qed

end
