(* ===== verification/Duration.thy ===== *)
theory Duration
  imports Decimal Complex_Main "HOL-Library.Word" "HOL-Library.Log_Nat"
begin

text \<open>
  The parser of durations with days and weeks (pkg/gateway/time/duration.go), at the width of the source:
  unsigned 64-bit accumulators, of which a sum can wrap, and a result of 64 bits. Fractions go through
  \<open>float64\<close> arithmetic, whose rounding to the nearest number of 53 significant bits is written out.
\<close>

section \<open>Units\<close>

definition unitMap :: "(string \<times> 64 word) list" where
  "unitMap =
    [(''ns'', 1), (''us'', 1000), ([CHR 0xC2, CHR 0xB5, CHR ''s''], 1000), ([CHR 0xCE, CHR 0xBC, CHR ''s''], 1000),
     (''ms'', 1000000), (''s'', 1000000000), (''m'', 60000000000), (''h'', 3600000000000), (''d'', 86400000000000),
     (''w'', 604800000000000)]"

section \<open>Rounding\<close>

definition half_even :: "rat \<Rightarrow> int" where
  "half_even r =
    (let f = \<lfloor>r\<rfloor>; d = r - of_int f
     in if d < 1 / 2 then f else if d > 1 / 2 then f + 1 else if even f then f else f + 1)"

definition binary_exponent :: "rat \<Rightarrow> int" where
  "binary_exponent x =
    (let (n, d) = quotient_of x; e = int (floorlog 2 (nat n)) - int (floorlog 2 (nat d))
     in if x < 2 powi e then e - 1 else e)"

definition float64 :: "rat \<Rightarrow> rat" where
  "float64 x =
    (if x \<le> 0 then 0 else let e = binary_exponent x - 52 in of_int (half_even (x / 2 powi e)) * 2 powi e)"

text \<open>\<open>uint64(float64(f) * (float64(unit) / scale))\<close>.\<close>

definition fraction_term :: "64 word \<Rightarrow> 64 word \<Rightarrow> rat \<Rightarrow> 64 word" where
  "fraction_term f unit scale =
    of_int \<lfloor>float64 (float64 (of_nat (unat f)) * float64 (float64 (of_nat (unat unit)) / scale))\<rfloor>"

section \<open>Leading numbers\<close>

definition digit_word :: "char \<Rightarrow> 64 word" where "digit_word c = of_nat (of_char c) - 48"

fun leadingInt :: "64 word \<Rightarrow> string \<Rightarrow> (64 word \<times> string) option" where
  "leadingInt x [] = Some (x, [])"
| "leadingInt x (c # s) =
    (if \<not> digit c then Some (x, c # s)
     else if x > 922337203685477580 then None
     else let x' = x * 10 + digit_word c
          in if x' > 9223372036854775808 then None else leadingInt x' s)"

text \<open>The number, the scale, and whether precision was lost so far.\<close>

fun leadingFraction :: "64 word \<Rightarrow> rat \<Rightarrow> bool \<Rightarrow> string \<Rightarrow> 64 word \<times> rat \<times> string" where
  "leadingFraction x scale overflow [] = (x, scale, [])"
| "leadingFraction x scale overflow (c # s) =
    (if \<not> digit c then (x, scale, c # s)
     else if overflow then leadingFraction x scale True s
     else if x > 922337203685477580 then leadingFraction x scale True s
     else let y = x * 10 + digit_word c
          in if y > 9223372036854775808 then leadingFraction x scale True s
             else leadingFraction y (float64 (scale * 10)) False s)"

section \<open>Parsing\<close>

definition unit_char :: "char \<Rightarrow> bool" where "unit_char c = (c \<noteq> CHR ''.'' \<and> \<not> digit c)"

text \<open>The optional fraction: its number, its scale and what follows it.\<close>

definition parse_fraction :: "string \<Rightarrow> 64 word \<times> rat \<times> string" where
  "parse_fraction s = (if s \<noteq> [] \<and> hd s = CHR ''.'' then leadingFraction 0 1 False (tl s) else (0, 1, s))"

text \<open>Whether digits follow the point.\<close>

definition fraction_read :: "string \<Rightarrow> bool" where
  "fraction_read s =
    (s \<noteq> [] \<and> hd s = CHR ''.'' \<and> length (tl s) \<noteq> length (snd (snd (leadingFraction 0 1 False (tl s)))))"

text \<open>The unit, and the value of the term in nanoseconds.\<close>

definition parse_unit :: "64 word \<Rightarrow> 64 word \<Rightarrow> rat \<Rightarrow> string \<Rightarrow> (64 word \<times> string) option" where
  "parse_unit v f scale s =
    (let u = takeWhile unit_char s; rest = dropWhile unit_char s
     in if u = [] then None
        else case map_of unitMap u of
               None \<Rightarrow> None
             | Some unit \<Rightarrow>
                 if v > 9223372036854775808 div unit then None
                 else if f > 0
                      then let v' = v * unit + fraction_term f unit scale
                           in if v' > 9223372036854775808 then None else Some (v', rest)
                      else Some (v * unit, rest))"

text \<open>One term: a number with an optional fraction, and a unit. \<open>None\<close> is an error.\<close>

definition parse_term :: "string \<Rightarrow> (64 word \<times> string) option" where
  "parse_term s =
    (if s = [] \<or> (hd s \<noteq> CHR ''.'' \<and> \<not> digit (hd s)) then None
     else case leadingInt 0 s of
            None \<Rightarrow> None
          | Some (v, s1) \<Rightarrow>
              case parse_fraction s1 of (f, scale, s2) \<Rightarrow>
                if length s = length s1 \<and> \<not> fraction_read s1 then None else parse_unit v f scale s2)"

lemma leadingInt_length: "leadingInt x s = Some (v, r) \<Longrightarrow> length r \<le> length s"
  by (induction x s rule: leadingInt.induct) (auto simp: Let_def split: if_splits)

lemma leadingFraction_length: "length (snd (snd (leadingFraction x scale ov s))) \<le> length s"
  by (induction s arbitrary: x scale ov) (auto simp: Let_def le_SucI)

lemma parse_fraction_length: "parse_fraction s = (f, scale, r) \<Longrightarrow> length r \<le> length s"
  using leadingFraction_length[of 0 1 False "tl s"] by (auto simp: parse_fraction_def split: if_splits)

lemma parse_unit_length: "parse_unit v f scale s = Some (x, rest) \<Longrightarrow> length rest < length s"
  by (cases s) (auto simp: parse_unit_def Let_def less_Suc_eq_le length_dropWhile_le split: if_splits option.splits)

lemma parse_term_length:
  assumes "parse_term s = Some (v, rest)"
  shows "length rest < length s"
proof -
  obtain w s1 f scale s2 where "leadingInt 0 s = Some (w, s1)" "parse_fraction s1 = (f, scale, s2)"
    "parse_unit w f scale s2 = Some (v, rest)"
    using assms by (auto simp: parse_term_def split: if_splits option.splits prod.splits)
  then show ?thesis using leadingInt_length parse_fraction_length parse_unit_length by fastforce
qed

text \<open>The loop over the terms, with the sum so far.\<close>

function parse_terms :: "64 word \<Rightarrow> string \<Rightarrow> 64 word option" where
  "parse_terms d s =
    (if s = [] then Some d
     else case parse_term s of
            None \<Rightarrow> None
          | Some (v, rest) \<Rightarrow>
              let d' = d + v in if d' > 9223372036854775808 then None else parse_terms d' rest)"
  by pat_completeness auto
termination by (relation "measure (\<lambda>(d, s). length s)") (auto dest: parse_term_length)

declare parse_terms.simps [simp del]

text \<open>The duration in nanoseconds, as the signed value of its 64 bits.\<close>

definition ParseDuration :: "string \<Rightarrow> int option" where
  "ParseDuration orig =
    (let signed = (orig \<noteq> [] \<and> (hd orig = CHR ''-'' \<or> hd orig = CHR ''+''));
         neg = (orig \<noteq> [] \<and> hd orig = CHR ''-'');
         s = (if signed then tl orig else orig)
     in if s = ''0'' then Some 0
        else if s = [] then None
        else case parse_terms 0 s of
               None \<Rightarrow> None
             | Some d \<Rightarrow>
                 if neg then Some (sint (- d))
                 else if d > 9223372036854775807 then None
                 else Some (sint d))"

section \<open>Whole numbers of units\<close>

lemma digit_word_value: "digit c \<Longrightarrow> digit_word c = of_nat (digit_value c)"
  by (simp add: digit_def digit_word_def digit_value_def Let_def of_nat_diff)

lemma digit_value_less: "digit c \<Longrightarrow> digit_value c < 10"
  by (auto simp: digit_def digit_value_def Let_def)

lemma foldl_digits_ge: "(x::nat) \<le> foldl (\<lambda>n c. n * 10 + digit_value c) x ds"
proof (induction ds arbitrary: x)
  case (Cons d ds)
  have "x \<le> x * 10 + digit_value d" by simp
  also have "\<dots> \<le> foldl (\<lambda>n c. n * 10 + digit_value c) (x * 10 + digit_value d) ds" by (rule Cons.IH)
  finally show ?case by simp
qed simp

lemma word_less_of_nat: "n < 2 ^ 64 \<Longrightarrow> m < 2 ^ 64 \<Longrightarrow> (of_nat m < (of_nat n :: 64 word)) = (m < n)"
  by (simp add: word_less_nat_alt unat_of_nat take_bit_nat_eq_self)

lemma leadingInt_digits:
  assumes "\<forall>c\<in>set ds. digit c" "r = [] \<or> \<not> digit (hd r)" "x \<le> 2 ^ 63"
  shows "leadingInt (of_nat x) (ds @ r)
    = (let n = foldl (\<lambda>n c. n * 10 + digit_value c) x ds in if n \<le> 2 ^ 63 then Some (of_nat n, r) else None)"
  using assms
proof (induction ds arbitrary: x)
  case Nil
  then show ?case by (cases r) auto
next
  case (Cons d ds)
  let ?y = "x * 10 + digit_value d"
  have d: "digit d" "digit_value d < 10" using Cons.prems digit_value_less by auto
  have word: "of_nat x * 10 + digit_word d = (of_nat ?y :: 64 word)"
    using d by (simp add: digit_word_value)
  have big: "(922337203685477580 < (of_nat x :: 64 word)) = (922337203685477580 < x)"
    using word_less_of_nat[of x 922337203685477580] Cons.prems(3) by simp
  show ?case
  proof (cases "922337203685477580 < x")
    case True
    then have "2 ^ 63 < ?y" by simp
    with foldl_digits_ge[of ?y ds] have "2 ^ 63 < foldl (\<lambda>n c. n * 10 + digit_value c) ?y ds" by linarith
    with True d big show ?thesis by (simp add: Let_def)
  next
    case False
    then have "?y < 2 ^ 64" using d by simp
    then have next_big: "(9223372036854775808 < (of_nat ?y :: 64 word)) = (9223372036854775808 < ?y)"
      using word_less_of_nat[of ?y 9223372036854775808] by simp
    show ?thesis
    proof (cases "9223372036854775808 < ?y")
      case True
      with foldl_digits_ge[of ?y ds] have "2 ^ 63 < foldl (\<lambda>n c. n * 10 + digit_value c) ?y ds" by simp
      with True False d big next_big word show ?thesis by (simp add: Let_def)
    next
      case small: False
      with False d big next_big word Cons.IH[of ?y] Cons.prems show ?thesis by (simp add: Let_def)
    qed
  qed
qed

lemma leadingInt_decimal:
  "r = [] \<or> \<not> digit (hd r) \<Longrightarrow>
    leadingInt 0 (decimal n @ r) = (if n \<le> 2 ^ 63 then Some (of_nat n, r) else None)"
  using leadingInt_digits[of "decimal n" r 0] decimal_digits[of n] digits_value_decimal[of n]
  by (simp add: digits_value_def Let_def)

text \<open>The value of a unit, and the text of a term of \<open>n\<close> such units.\<close>

definition unit_value :: "string \<Rightarrow> nat" where
  "unit_value u = (case map_of unitMap u of None \<Rightarrow> 0 | Some w \<Rightarrow> unat w)"

definition term_text :: "nat \<times> string \<Rightarrow> string" where
  "term_text t = decimal (fst t) @ snd t"

definition term_value :: "nat \<times> string \<Rightarrow> nat" where
  "term_value t = fst t * unit_value (snd t)"

definition unit_names :: "string list" where
  "unit_names = map fst unitMap"

lemma unit_text:
  assumes "u \<in> set unit_names"
  shows "u \<noteq> []" "\<forall>c\<in>set u. unit_char c"
  using assms by (auto simp: unit_names_def unitMap_def unit_char_def digit_def)

lemma unit_lookup:
  assumes "u \<in> set unit_names"
  shows "\<exists>k. map_of unitMap u = Some (of_nat k) \<and> unit_value u = k \<and> 0 < k \<and> k < 2 ^ 63"
  using assms by (auto simp: unit_names_def unitMap_def unit_value_def)

lemma parse_unit_whole:
  assumes u: "u \<in> set unit_names" and r: "r = [] \<or> digit (hd r)" and n: "n \<le> 2 ^ 63"
  shows "parse_unit (of_nat n) 0 1 (u @ r)
    = (if n * unit_value u \<le> 2 ^ 63 then Some (of_nat (n * unit_value u), r) else None)"
proof -
  obtain k where k: "map_of unitMap u = Some (of_nat k)" "unit_value u = k" "0 < k" "k < 2 ^ 63"
    using unit_lookup[OF u] by blast
  have parts: "takeWhile unit_char (u @ r) = u" "dropWhile unit_char (u @ r) = r"
    using unit_text(2)[OF u] r by (cases r; auto simp: unit_char_def takeWhile_append dropWhile_append)+
  have quot: "(9223372036854775808 :: 64 word) div of_nat k = of_nat (2 ^ 63 div k)"
    using k by (simp add: word_arith_nat_div unat_of_nat take_bit_nat_eq_self)
  have small: "2 ^ 63 div k < (2 ^ 64 :: nat)" by (rule le_less_trans[OF div_le_dividend]) simp
  have "n < 2 ^ 64" using n by simp
  then have "((9223372036854775808 :: 64 word) div of_nat k < of_nat n) = (2 ^ 63 div k < n)"
    unfolding quot using small by (rule word_less_of_nat)
  also have "\<dots> = (\<not> n * k \<le> 2 ^ 63)"
    unfolding not_le[symmetric] less_eq_div_iff_mult_less_eq[OF k(3)] by (rule refl)
  finally have over: "((9223372036854775808 :: 64 word) div of_nat k < of_nat n) = (\<not> n * k \<le> 2 ^ 63)" .
  show ?thesis unfolding parse_unit_def Let_def parts k(1,2) option.case over using unit_text(1)[OF u] by simp
qed

lemma parse_term_whole:
  assumes u: "snd t \<in> set unit_names" and r: "r = [] \<or> digit (hd r)"
  shows "parse_term (term_text t @ r)
    = (if term_value t \<le> 2 ^ 63 then Some (of_nat (term_value t), r) else None)"
proof -
  obtain n unit where t: "t = (n, unit)" by (cases t)
  have unit: "unit \<noteq> []" "unit_char (hd unit)" using unit_text[OF u] t by auto
  have start: "digit (hd (decimal n))" using decimal_digits[of n] by simp
  have "n \<le> n * unit_value unit" using unit_lookup u t by fastforce
  then have "\<not> n \<le> 2 ^ 63 \<Longrightarrow> \<not> n * unit_value unit \<le> 2 ^ 63" by linarith
  with unit start leadingInt_decimal[of "unit @ r" n] parse_unit_whole[OF _ r, of unit n] u show ?thesis
    by (auto simp: t parse_term_def term_text_def term_value_def parse_fraction_def unit_char_def)
qed

lemma decimal_starts: "hd (term_text t @ r) \<noteq> CHR ''.''" "digit (hd (term_text t @ r))" "term_text t \<noteq> []"
proof -
  have "digit (hd (decimal (fst t)))" using decimal_digits[of "fst t"] by simp
  then show "hd (term_text t @ r) \<noteq> CHR ''.''" "digit (hd (term_text t @ r))" "term_text t \<noteq> []"
    by (auto simp: term_text_def digit_def)
qed

definition terms_text :: "(nat \<times> string) list \<Rightarrow> string" where
  "terms_text ts = concat (map term_text ts)"

lemma terms_text_start: "terms_text ts = [] \<or> digit (hd (terms_text ts))"
  using decimal_starts by (cases ts) (auto simp: terms_text_def)

lemma parse_terms_whole:
  assumes "\<forall>t\<in>set ts. snd t \<in> set unit_names \<and> term_value t \<noteq> 2 ^ 63" "d \<le> 2 ^ 63"
  shows "parse_terms (of_nat d) (terms_text ts)
    = (let ns = d + sum_list (map term_value ts) in if ns \<le> 2 ^ 63 then Some (of_nat ns) else None)"
  using assms
proof (induction ts arbitrary: d)
  case Nil
  then show ?case by (subst parse_terms.simps) (simp add: terms_text_def)
next
  case (Cons t ts)
  have whole: "terms_text (t # ts) = term_text t @ terms_text ts" by (simp add: terms_text_def)
  have step: "parse_term (terms_text (t # ts))
      = (if term_value t \<le> 2 ^ 63 then Some (of_nat (term_value t), terms_text ts) else None)"
    unfolding whole using Cons.prems terms_text_start by (intro parse_term_whole) auto
  have nonempty: "terms_text (t # ts) \<noteq> []" using whole decimal_starts(3) by simp
  show ?case
  proof (cases "term_value t \<le> 2 ^ 63")
    case False
    with nonempty step show ?thesis by (subst parse_terms.simps) (simp add: Let_def)
  next
    case True
    let ?d = "d + term_value t"
    have "?d < 2 ^ 64" using True Cons.prems by simp
    then have over: "(9223372036854775808 < (of_nat ?d :: 64 word)) = (9223372036854775808 < ?d)"
      using word_less_of_nat[of ?d 9223372036854775808] by simp
    have "parse_terms (of_nat d) (terms_text (t # ts))
        = (if 9223372036854775808 < ?d then None else parse_terms (of_nat ?d) (terms_text ts))"
      using True nonempty step over by (subst parse_terms.simps) (simp add: Let_def)
    then show ?thesis using Cons.IH[of ?d] Cons.prems by (simp add: Let_def add.assoc)
  qed
qed

lemma sint_of_duration: "n < 2 ^ 63 \<Longrightarrow> sint (of_nat n :: 64 word) = int n"
  by (simp add: signed_of_nat signed_take_bit_int_eq_self)

lemma sint_of_negative:
  assumes "n \<le> 2 ^ 63"
  shows "sint (- of_nat n :: 64 word) = - int n"
proof -
  have "sint (of_int (- int n) :: 64 word) = signed_take_bit 63 (- int n)"
    unfolding signed_of_int by simp
  also have "\<dots> = - int n" using assms by (intro signed_take_bit_int_eq_self) auto
  finally show ?thesis by simp
qed

lemma terms_text_longer:
  assumes "ts \<noteq> []" "\<forall>t\<in>set ts. snd t \<in> set unit_names"
  shows "1 < length (terms_text ts)"
proof -
  obtain t ts' where ts: "ts = t # ts'" using assms(1) by (cases ts) auto
  have "0 < length (decimal (fst t))" "0 < length (snd t)" using unit_text(1)[of "snd t"] assms(2) ts by auto
  then show ?thesis
    unfolding ts terms_text_def term_text_def list.map concat.simps length_append by linarith
qed

text \<open>
  C34: A duration written as whole numbers of units parses to exactly their sum, in nanoseconds, when the sum
  fits the 63 bits of a signed duration, and is refused when it does not; after a minus sign it parses to the negated
  sum, down to the smallest signed duration. Terms of exactly \<open>2 ^ 63\<close> nanoseconds are left out:
  for them the statement fails.
\<close>

theorem ParseDuration_exact:
  assumes "ts \<noteq> []" "\<forall>t\<in>set ts. snd t \<in> set unit_names \<and> term_value t \<noteq> 2 ^ 63"
    and "ns = sum_list (map term_value ts)"
  shows "ParseDuration (terms_text ts) = (if ns < 2 ^ 63 then Some (int ns) else None)
    \<and> ParseDuration (CHR ''-'' # terms_text ts) = (if ns \<le> 2 ^ 63 then Some (- int ns) else None)"
proof -
  have start: "terms_text ts \<noteq> []" "digit (hd (terms_text ts))"
    using assms(1) terms_text_start[of ts] decimal_starts(3) by (cases ts; auto simp: terms_text_def)+
  then have unsigned: "hd (terms_text ts) \<noteq> CHR ''-''" "hd (terms_text ts) \<noteq> CHR ''+''"
    by (auto simp: digit_def)
  have parsed: "parse_terms 0 (terms_text ts) = (if ns \<le> 2 ^ 63 then Some (of_nat ns) else None)"
    using parse_terms_whole[OF assms(2), of 0] assms(3) by (simp add: Let_def)
  have positive: "(9223372036854775807 < (of_nat ns :: 64 word)) = (\<not> ns < 2 ^ 63)" if "ns \<le> 2 ^ 63"
    using word_less_of_nat[of ns 9223372036854775807] that by auto
  have zero: "terms_text ts \<noteq> ''0''" using terms_text_longer[OF assms(1)] assms(2) by auto
  show ?thesis using start unsigned parsed positive sint_of_duration sint_of_negative zero
    by (simp add: ParseDuration_def Let_def)
qed

theorem ParseDuration_exact_witness:
  "ParseDuration (terms_text [(1, ''d''), (12, ''h'')]) = Some 129600000000000
    \<and> ParseDuration (terms_text [(15250, ''w''), (2, ''w'')]) = None"
proof -
  have "ParseDuration (terms_text [(1, ''d''), (12, ''h'')]) = Some 129600000000000"
    using ParseDuration_exact[of "[(1, ''d''), (12, ''h'')]" 129600000000000]
    by (simp add: unit_names_def unitMap_def term_value_def unit_value_def)
  moreover have "ParseDuration (terms_text [(15250, ''w''), (2, ''w'')]) = None"
    using ParseDuration_exact[of "[(15250, ''w''), (2, ''w'')]" 9224409600000000000]
    by (simp add: unit_names_def unitMap_def term_value_def unit_value_def)
  ultimately show ?thesis ..
qed

lemma parse_term_largest:
  assumes "r = [] \<or> digit (hd r)"
  shows "parse_term (''9223372036854775808ns'' @ r) = Some (9223372036854775808, r)"
proof -
  have "decimal 9223372036854775808 = ''9223372036854775808''" by (simp add: decimal.simps)
  then show ?thesis using parse_term_whole[of "(9223372036854775808, ''ns'')" r] assms
    by (simp add: term_text_def term_value_def unit_names_def unitMap_def unit_value_def)
qed

text \<open>
  The guard against overflow after each addition misses the one sum that wraps to zero. A single term of
  \<open>2 ^ 63\<close> nanoseconds is refused, and so is any larger sum of smaller terms, but two such terms are accepted
  as the duration zero.
\<close>

theorem ParseDuration_wraps:
  "ParseDuration ''9223372036854775808ns'' = None
    \<and> ParseDuration ''9223372036854775808ns9223372036854775808ns'' = Some 0"
  using parse_term_largest[of "[]"] parse_term_largest[of "''9223372036854775808ns''"]
  by (simp add: ParseDuration_def parse_terms.simps digit_def)

end
