(* ===== verification/Scim_Schema.thy ===== *)
theory Scim_Schema
  imports Prelude Complex_Main
begin

text \<open>
  The values and the schemas of the SCIM endpoint (pkg/scim/schema.go and the value helpers of
  pkg/scim/filter.go and patch.go). A JSON value is what \<open>encoding/json\<close> decodes into \<open>any\<close>; a Go map is an
  association list without duplicate keys, in the order in which a loop over the map visits it.
\<close>

section \<open>Values\<close>

text \<open>A \<open>float64\<close>; the sign of zero is never observed.\<close>

datatype go_float = Finite rat | PosInf | NegInf | NaN

fun float_less :: "go_float \<Rightarrow> go_float \<Rightarrow> bool" where
  "float_less NaN _ = False"
| "float_less _ NaN = False"
| "float_less PosInf _ = False"
| "float_less _ NegInf = False"
| "float_less NegInf _ = True"
| "float_less _ PosInf = True"
| "float_less (Finite x) (Finite y) = (x < y)"

definition float_eq :: "go_float \<Rightarrow> go_float \<Rightarrow> bool" where
  "float_eq x y = (x = y \<and> x \<noteq> NaN)"

text \<open>A \<open>json.Number\<close> keeps the text of the number.\<close>

datatype json =
    JNull
  | JBool bool
  | JNumber string
  | JFloat go_float
  | JStr string
  | JList "json list"
  | JObj "(string \<times> json) list"

type_synonym obj = "(string \<times> json) list"

text \<open>\<open>m[key]\<close>, which is \<open>nil\<close> for a key that is not there.\<close>

definition field :: "obj \<Rightarrow> string \<Rightarrow> json" where
  "field m k = (case map_of m k of None \<Rightarrow> JNull | Some v \<Rightarrow> v)"

definition has_field :: "obj \<Rightarrow> string \<Rightarrow> bool" where
  "has_field m k = (map_of m k \<noteq> None)"

text \<open>\<open>m[key] = v\<close>: a new key is visited last.\<close>

fun set_field :: "string \<Rightarrow> json \<Rightarrow> obj \<Rightarrow> obj" where
  "set_field k v [] = [(k, v)]"
| "set_field k v ((k', v') # m) = (if k = k' then (k, v) # m else (k', v') # set_field k v m)"

definition delete_field :: "string \<Rightarrow> obj \<Rightarrow> obj" where
  "delete_field k m = filter (\<lambda>e. fst e \<noteq> k) m"

text \<open>\<open>maps.Copy\<close>.\<close>

definition copy_fields :: "obj \<Rightarrow> obj \<Rightarrow> obj" where
  "copy_fields src dst = fold (\<lambda>(k, v). set_field k v) src dst"

lemma element_smaller: "x \<in> set xs \<Longrightarrow> size x < size (JList xs)"
  by (induction xs) auto

lemma member_smaller: "(k, x) \<in> set m \<Longrightarrow> size x < size (JObj m)"
  by (induction m) auto

text \<open>\<open>reflect.DeepEqual\<close>.\<close>

function DeepEqual :: "json \<Rightarrow> json \<Rightarrow> bool" where
  "DeepEqual a b =
    (case (a, b) of
       (JNull, JNull) \<Rightarrow> True
     | (JBool x, JBool y) \<Rightarrow> x = y
     | (JNumber x, JNumber y) \<Rightarrow> x = y
     | (JFloat x, JFloat y) \<Rightarrow> float_eq x y
     | (JStr x, JStr y) \<Rightarrow> x = y
     | (JList xs, JList ys) \<Rightarrow> length xs = length ys \<and> list_all (\<lambda>(x, y). DeepEqual x y) (zip xs ys)
     | (JObj m, JObj n) \<Rightarrow>
         length m = length n
         \<and> list_all (\<lambda>(k, x). case map_of n k of None \<Rightarrow> False | Some y \<Rightarrow> DeepEqual x y) m
     | _ \<Rightarrow> False)"
  by pat_completeness auto
termination by (relation "measure (\<lambda>(a, b). size a)") (auto dest!: set_zip_leftD dest: element_smaller member_smaller)

declare DeepEqual.simps [simp del]

section \<open>Fields\<close>

lemma map_of_set_field: "map_of (set_field k v m) = (map_of m)(k \<mapsto> v)"
  by (induction k v m rule: set_field.induct) auto

lemma map_of_delete_field: "map_of (delete_field k m) = (map_of m)(k := None)"
  by (induction m) (auto simp: delete_field_def)

lemma field_set_field [simp]: "field (set_field k v m) k' = (if k' = k then v else field m k')"
  by (simp add: field_def map_of_set_field)

lemma field_delete_field [simp]: "field (delete_field k m) k' = (if k' = k then JNull else field m k')"
  by (simp add: field_def map_of_delete_field)

lemma has_field_set_field [simp]: "has_field (set_field k v m) k' \<longleftrightarrow> k' = k \<or> has_field m k'"
  by (simp add: has_field_def map_of_set_field)

lemma has_field_delete_field [simp]: "has_field (delete_field k m) k' \<longleftrightarrow> k' \<noteq> k \<and> has_field m k'"
  by (simp add: has_field_def map_of_delete_field)

lemma map_of_copy_fields: "distinct (map fst src) \<Longrightarrow> map_of (copy_fields src dst) = map_of dst ++ map_of src"
proof (induction src arbitrary: dst)
  case (Cons e src)
  obtain k v where e: "e = (k, v)" by (cases e)
  have "map_of src k = None" using Cons.prems by (simp add: e map_of_eq_None_iff)
  then have "map_of (set_field k v dst) ++ map_of src = map_of dst ++ map_of (e # src)"
    by (auto simp: e map_of_set_field map_add_def fun_eq_iff split: option.split)
  moreover have "map_of (copy_fields (e # src) dst) = map_of (set_field k v dst) ++ map_of src"
    using Cons by (simp add: e copy_fields_def)
  ultimately show ?case by (rule trans[rotated])
qed (simp add: copy_fields_def)

lemma set_field_keys: "distinct (map fst m) \<Longrightarrow> distinct (map fst (set_field k v m))" "fst ` set (set_field k v m) = insert k (fst ` set m)"
proof -
  have keys: "fst ` set (set_field k v m) = insert k (fst ` set m)" for k v m
    by (induction k v m rule: set_field.induct) auto
  show "fst ` set (set_field k v m) = insert k (fst ` set m)" by (rule keys)
  show "distinct (map fst m) \<Longrightarrow> distinct (map fst (set_field k v m))"
  proof (induction k v m rule: set_field.induct)
    case (2 k v k' v' m)
    then have "k' \<notin> fst ` set (set_field k v m)" if "k \<noteq> k'" using that keys[of k v m] by simp
    with 2 show ?case by auto
  qed simp
qed

lemma set_field_new: "k \<notin> fst ` set m \<Longrightarrow> set_field k v m = m @ [(k, v)]"
  by (induction m) auto

lemma set_field_subset: "set (set_field k v m) \<subseteq> insert (k, v) (set m)"
  by (induction k v m rule: set_field.induct) auto

lemma copy_fields_keys: "distinct (map fst dst) \<Longrightarrow> distinct (map fst (copy_fields src dst))"
  unfolding copy_fields_def by (induction src arbitrary: dst) (auto simp: set_field_keys)

lemma copy_fields_subset: "set (copy_fields src dst) \<subseteq> set src \<union> set dst"
  unfolding copy_fields_def
proof (induction src arbitrary: dst)
  case (Cons e src)
  then show ?case using set_field_subset[of "fst e" "snd e" dst] by (fastforce simp: case_prod_unfold)
qed simp

lemma copy_fields_append: "distinct (map fst (dst @ src)) \<Longrightarrow> copy_fields src dst = dst @ src"
proof (induction src arbitrary: dst)
  case (Cons e src)
  then show ?case by (cases e) (simp add: copy_fields_def set_field_new)
qed (simp add: copy_fields_def)

lemma field_member: "distinct (map fst m) \<Longrightarrow> (k, v) \<in> set m \<Longrightarrow> field m k = v"
  by (simp add: field_def)

section \<open>Attributes\<close>

text \<open>
  An attribute, without the parts that only discovery shows. \<open>aUnremovable\<close> is the unexported field.
\<close>

datatype attribute = Attribute
  (aName: string) (aType: string) (aMultiValued: bool) (aRequired: bool) (aCaseExact: bool)
  (aMutability: string) (aUnremovable: bool) (aSubAttributes: "attribute list")

definition typeString :: string where "typeString = ''string''"
definition typeBoolean :: string where "typeBoolean = ''boolean''"
definition typeComplex :: string where "typeComplex = ''complex''"
definition typeReference :: string where "typeReference = ''reference''"
definition typeDateTime :: string where "typeDateTime = ''dateTime''"
definition mutabilityReadOnly :: string where "mutabilityReadOnly = ''readOnly''"
definition mutabilityReadWrite :: string where "mutabilityReadWrite = ''readWrite''"
definition mutabilityImmutable :: string where "mutabilityImmutable = ''immutable''"

definition stringAttribute :: "string \<Rightarrow> attribute" where
  "stringAttribute name = Attribute name typeString False False False mutabilityReadWrite False []"

definition with_mutability :: "string \<Rightarrow> attribute \<Rightarrow> attribute" where
  "with_mutability m a =
    Attribute (aName a) (aType a) (aMultiValued a) (aRequired a) (aCaseExact a) m (aUnremovable a) (aSubAttributes a)"

abbreviation readOnly :: "attribute \<Rightarrow> attribute" where
  "readOnly \<equiv> with_mutability mutabilityReadOnly"

definition required :: "attribute \<Rightarrow> attribute" where
  "required a =
    Attribute (aName a) (aType a) (aMultiValued a) True (aCaseExact a) (aMutability a) (aUnremovable a) (aSubAttributes a)"

definition caseExact :: "attribute \<Rightarrow> attribute" where
  "caseExact a =
    Attribute (aName a) (aType a) (aMultiValued a) (aRequired a) True (aMutability a) (aUnremovable a) (aSubAttributes a)"

definition referenceAttribute :: "string \<Rightarrow> (attribute \<Rightarrow> attribute) \<Rightarrow> attribute" where
  "referenceAttribute name opts =
    (let a = opts (stringAttribute name)
     in Attribute (aName a) typeReference (aMultiValued a) (aRequired a) True (aMutability a) (aUnremovable a) (aSubAttributes a))"

definition multiValuedAttribute :: "string \<Rightarrow> attribute" where
  "multiValuedAttribute name =
    Attribute name typeComplex True False False mutabilityReadWrite False
      [stringAttribute ''value'', stringAttribute ''display'', stringAttribute ''type'',
       Attribute ''primary'' typeBoolean False False False mutabilityReadWrite False []]"

section \<open>Schemas\<close>

record resourceSchema =
  rsID :: string
  rsAttributes :: "attribute list"
  rsIgnored :: "string list"

definition userSchema :: string where "userSchema = ''urn:ietf:params:scim:schemas:core:2.0:User''"
definition groupSchema :: string where "groupSchema = ''urn:ietf:params:scim:schemas:core:2.0:Group''"
definition patchOpSchema :: string where "patchOpSchema = ''urn:ietf:params:scim:api:messages:2.0:PatchOp''"

definition userResourceSchema :: resourceSchema where
  "userResourceSchema = \<lparr>
     rsID = userSchema,
     rsAttributes =
       [required (stringAttribute ''userName''),
        Attribute ''name'' typeComplex False False False mutabilityReadWrite False
          (map stringAttribute [''formatted'', ''familyName'', ''givenName'', ''middleName'', ''honorificPrefix'', ''honorificSuffix'']),
        stringAttribute ''displayName'', stringAttribute ''nickName'', referenceAttribute ''profileUrl'' (\<lambda>a. a),
        stringAttribute ''title'', stringAttribute ''userType'', stringAttribute ''preferredLanguage'', stringAttribute ''locale'',
        stringAttribute ''timezone'',
        Attribute ''active'' typeBoolean False False False mutabilityReadWrite True [],
        multiValuedAttribute ''emails'', multiValuedAttribute ''phoneNumbers'',
        Attribute ''groups'' typeComplex True False False mutabilityReadOnly False
          [readOnly (stringAttribute ''value''), referenceAttribute ''$ref'' readOnly, readOnly (stringAttribute ''display''),
           readOnly (stringAttribute ''type'')]],
     rsIgnored = [''password'']\<rparr>"

definition groupResourceSchema :: resourceSchema where
  "groupResourceSchema = \<lparr>
     rsID = groupSchema,
     rsAttributes =
       [required (stringAttribute ''displayName''),
        Attribute ''members'' typeComplex True False False mutabilityReadWrite False
          [with_mutability mutabilityImmutable (required (stringAttribute ''value'')),
           referenceAttribute ''$ref'' (with_mutability mutabilityImmutable), readOnly (stringAttribute ''display''),
           with_mutability mutabilityImmutable (stringAttribute ''type'')]],
     rsIgnored = []\<rparr>"

definition commonAttributes :: "attribute list" where
  "commonAttributes =
    [caseExact (readOnly (stringAttribute ''id'')), caseExact (stringAttribute ''externalId''),
     Attribute ''meta'' typeComplex False False False mutabilityReadOnly False
       [readOnly (stringAttribute ''resourceType''),
        Attribute ''created'' typeDateTime False False False mutabilityReadOnly False [],
        Attribute ''lastModified'' typeDateTime False False False mutabilityReadOnly False [],
        referenceAttribute ''location'' readOnly, readOnly (stringAttribute ''version'')],
     Attribute ''schemas'' typeReference True False False mutabilityReadOnly False []]"

definition schema_attribute :: "resourceSchema \<Rightarrow> string \<Rightarrow> attribute option" where
  "schema_attribute s name =
    (case find (\<lambda>a. EqualFold (aName a) name) (rsAttributes s) of
       Some a \<Rightarrow> Some a
     | None \<Rightarrow> find (\<lambda>a. EqualFold (aName a) name) commonAttributes)"

definition ignores :: "resourceSchema \<Rightarrow> string \<Rightarrow> bool" where
  "ignores s name = list_ex (\<lambda>ignored. EqualFold ignored name) (rsIgnored s)"

definition subAttribute :: "attribute \<Rightarrow> string \<Rightarrow> attribute option" where
  "subAttribute a name = find (\<lambda>sub. EqualFold (aName sub) name) (aSubAttributes a)"

section \<open>Errors\<close>

text \<open>The \<open>scimType\<close> of an error response; the texts are left out.\<close>

datatype scim_error =
    invalidFilter | invalidPath | invalidSyntax | invalidValue | mutability | noTarget | tooMany

type_synonym 'a scim_result = "scim_error + 'a"

definition bind_ok :: "'e + 'a \<Rightarrow> ('a \<Rightarrow> 'e + 'b) \<Rightarrow> 'e + 'b" where
  "bind_ok r f = (case r of Inl e \<Rightarrow> Inl e | Inr x \<Rightarrow> f x)"

lemma bind_ok_simps [simp]: "bind_ok (Inl e) f = Inl e" "bind_ok (Inr x) f = f x"
  by (simp_all add: bind_ok_def)

lemma bind_ok_Inr: "bind_ok r f = Inr y \<longleftrightarrow> (\<exists>x. r = Inr x \<and> f x = Inr y)"
  by (cases r) auto

lemma bind_ok_cong [fundef_cong]:
  "r = r' \<Longrightarrow> (\<And>x. r' = Inr x \<Longrightarrow> f x = g x) \<Longrightarrow> bind_ok r f = bind_ok r' g"
  by (cases r') auto

text \<open>A loop that ends at the first error.\<close>

fun map_ok :: "('a \<Rightarrow> 'e + 'b) \<Rightarrow> 'a list \<Rightarrow> 'e + 'b list" where
  "map_ok f [] = Inr []"
| "map_ok f (x # xs) = bind_ok (f x) (\<lambda>y. bind_ok (map_ok f xs) (\<lambda>ys. Inr (y # ys)))"

lemma map_ok_cong [fundef_cong]:
  "xs = ys \<Longrightarrow> (\<And>x. x \<in> set ys \<Longrightarrow> f x = g x) \<Longrightarrow> map_ok f xs = map_ok g ys"
  by (induction xs arbitrary: ys) auto

fun fold_ok :: "('a \<Rightarrow> 's \<Rightarrow> 'e + 's) \<Rightarrow> 'a list \<Rightarrow> 's \<Rightarrow> 'e + 's" where
  "fold_ok f [] s = Inr s"
| "fold_ok f (x # xs) s = bind_ok (f x s) (fold_ok f xs)"

lemma map_ok_Inr: "map_ok f xs = Inr ys \<longleftrightarrow> list_all2 (\<lambda>x y. f x = Inr y) xs ys"
  by (induction xs arbitrary: ys) (auto simp: bind_ok_Inr list_all2_Cons1)

lemma find_sound: "find P xs = Some x \<Longrightarrow> x \<in> set xs \<and> P x"
  by (induction xs) (auto split: if_splits)

lemma find_unique:
  assumes "a \<in> set xs" "P a" "\<And>b. b \<in> set xs \<Longrightarrow> P b \<Longrightarrow> b = a"
  shows "find P xs = Some a"
proof (cases "find P xs")
  case None
  with assms(1,2) show ?thesis by (auto simp: find_None_iff)
next
  case (Some b)
  with find_sound[OF Some] assms(3) show ?thesis by simp
qed

lemma map_ok_source: "map_ok f xs = Inr ys \<Longrightarrow> y \<in> set ys \<Longrightarrow> \<exists>x\<in>set xs. f x = Inr y"
  by (induction xs arbitrary: ys) (auto simp: bind_ok_Inr)

lemma map_ok_same: "(\<And>x. x \<in> set xs \<Longrightarrow> f x = Inr (g x)) \<Longrightarrow> map_ok f xs = Inr (map g xs)"
  by (induction xs) auto

end
