(* ===== verification/Scim_Filter.thy ===== *)
theory Scim_Filter
  imports Scim_Schema Paths
begin

text \<open>
  The filters of the SCIM endpoint (pkg/scim/filter.go): the tokenizer, the recursive descent parser and the
  evaluation of a filter on a value. The parser state of the source, the tokens and a position, is the list of
  the tokens that are left. \<open>strconv.ParseFloat\<close> is a parameter. Strings of filters are read as
  \<open>encoding/json\<close> reads them, where bytes that are not UTF-8 become U+FFFD.
\<close>

section \<open>Filters\<close>

record attrPath =
  apURN :: string
  apName :: string
  apSub :: string

datatype logical_operator = OpAnd | OpOr

datatype filter =
    Comparison attrPath string json
  | Logical logical_operator filter filter
  | Negated filter
  | ValuePath attrPath filter

type_synonym float_parser = "string \<Rightarrow> go_float option"

section \<open>Tokens\<close>

definition quote_mark :: char where "quote_mark = CHR 0x22"
definition backslash :: char where "backslash = CHR 0x5C"

definition blank :: "char \<Rightarrow> bool" where
  "blank c = (c \<in> set [CHR '' '', CHR 0x09, CHR 0x0A, CHR 0x0D])"

definition bracket :: "char \<Rightarrow> bool" where
  "bracket c = (c \<in> set ''()[]'')"

definition word_char :: "char \<Rightarrow> bool" where
  "word_char c = (\<not> blank c \<and> \<not> bracket c \<and> c \<noteq> quote_mark)"

text \<open>The rest of a quoted string up to its closing mark, and what follows.\<close>

fun scan_string :: "string \<Rightarrow> (string \<times> string) option" where
  "scan_string [] = None"
| "scan_string (c # s) =
    (if c = backslash
     then (case s of [] \<Rightarrow> None | d # s' \<Rightarrow> map_option (\<lambda>(t, r). (c # d # t, r)) (scan_string s'))
     else if c = quote_mark then Some ([c], s)
     else map_option (\<lambda>(t, r). (c # t, r)) (scan_string s))"

lemma scan_string_length: "scan_string s = Some (t, r) \<Longrightarrow> length r < length s"
proof (induction s arbitrary: t r rule: scan_string.induct)
  case (2 c s)
  then show ?case by (auto split: if_splits list.splits) fastforce+
qed simp

function tokenizeFilter :: "string \<Rightarrow> string list scim_result" where
  "tokenizeFilter [] = Inr []"
| "tokenizeFilter (c # s) =
    (if blank c then tokenizeFilter s
     else if bracket c then bind_ok (tokenizeFilter s) (\<lambda>ts. Inr ([c] # ts))
     else if c = quote_mark
     then (case scan_string s of
             None \<Rightarrow> Inl invalidFilter
           | Some (t, r) \<Rightarrow> bind_ok (tokenizeFilter r) (\<lambda>ts. Inr ((c # t) # ts)))
     else bind_ok (tokenizeFilter (dropWhile word_char s)) (\<lambda>ts. Inr ((c # takeWhile word_char s) # ts)))"
  by pat_completeness auto
termination
  by (relation "measure length") (auto dest: scan_string_length simp: less_Suc_eq_le length_dropWhile_le)

section \<open>Attribute paths\<close>

definition letter :: "char \<Rightarrow> bool" where
  "letter c = (let n = of_char c :: nat in (97 \<le> n \<and> n \<le> 122) \<or> (65 \<le> n \<and> n \<le> 90))"

definition digit_char :: "char \<Rightarrow> bool" where
  "digit_char c = (let n = of_char c :: nat in 48 \<le> n \<and> n \<le> 57)"

definition validAttributeName :: "string \<Rightarrow> bool" where
  "validAttributeName s =
    (case s of
       [] \<Rightarrow> False
     | c # cs \<Rightarrow> (letter c \<or> c = CHR ''$'') \<and> list_all (\<lambda>c. letter c \<or> digit_char c \<or> c = CHR ''-'' \<or> c = CHR ''_'') cs)"

text \<open>The part before the last colon and the part after it.\<close>

definition before_last_colon :: "string \<Rightarrow> string" where
  "before_last_colon s = rev (tl (dropWhile (\<lambda>c. c \<noteq> CHR '':'') (rev s)))"

definition after_last_colon :: "string \<Rightarrow> string" where
  "after_last_colon s = rev (takeWhile (\<lambda>c. c \<noteq> CHR '':'') (rev s))"

definition parseAttrPath :: "string \<Rightarrow> attrPath option" where
  "parseAttrPath s =
    (let urn = HasPrefix (ToLower s) ''urn:'';
         rest = (if urn then after_last_colon s else s);
         (name, sub, hasSub) = (case Cut rest (CHR ''.'') of None \<Rightarrow> (rest, [], False) | Some (a, b) \<Rightarrow> (a, b, True))
     in if \<not> validAttributeName name \<or> (hasSub \<and> \<not> validAttributeName sub) then None
        else Some \<lparr>apURN = (if urn then before_last_colon s else []), apName = name, apSub = sub\<rparr>)"

definition path_String :: "attrPath \<Rightarrow> string" where
  "path_String p =
    (if apURN p \<noteq> [] then apURN p @ '':'' else []) @ apName p @ (if apSub p \<noteq> [] then ''.'' @ apSub p else [])"

definition inSchema :: "attrPath \<Rightarrow> resourceSchema \<Rightarrow> bool" where
  "inSchema p schema = (apURN p = [] \<or> EqualFold (apURN p) (rsID schema))"

section \<open>Comparison values\<close>

definition utf8 :: "nat \<Rightarrow> string" where
  "utf8 r =
    (if r < 128 then [char_of r]
     else if r < 2048 then [char_of (192 + r div 64), char_of (128 + r mod 64)]
     else if r < 65536 then [char_of (224 + r div 4096), char_of (128 + r div 64 mod 64), char_of (128 + r mod 64)]
     else [char_of (240 + r div 262144), char_of (128 + r div 4096 mod 64), char_of (128 + r div 64 mod 64), char_of (128 + r mod 64)])"

definition hex4 :: "char \<Rightarrow> char \<Rightarrow> char \<Rightarrow> char \<Rightarrow> nat option" where
  "hex4 a b c d =
    (case (hex_digit a, hex_digit b, hex_digit c, hex_digit d) of
       (Some w, Some x, Some y, Some z) \<Rightarrow> Some (((w * 16 + x) * 16 + y) * 16 + z)
     | _ \<Rightarrow> None)"

definition surrogate :: "nat \<Rightarrow> bool" where "surrogate n = (0xD800 \<le> n \<and> n < 0xE000)"

text \<open>
  The bytes of a JSON string after the opening mark: \<open>None\<close> when it is malformed. A surrogate pair is one
  character; a surrogate of its own becomes U+FFFD, as does a byte that does not belong to a valid encoding.
\<close>

definition simple_escape :: "char \<Rightarrow> char option" where
  "simple_escape c =
    (if c = quote_mark \<or> c = backslash \<or> c = CHR ''/'' then Some c
     else if c = CHR ''b'' then Some (CHR 0x08) else if c = CHR ''f'' then Some (CHR 0x0C)
     else if c = CHR ''n'' then Some (CHR 0x0A) else if c = CHR ''r'' then Some (CHR 0x0D)
     else if c = CHR ''t'' then Some (CHR 0x09) else None)"

text \<open>The second half of a surrogate pair, if it follows.\<close>

fun low_surrogate :: "string \<Rightarrow> (nat \<times> string) option" where
  "low_surrogate (e # u # a # b # c # d # s) =
    (if e = backslash \<and> u = CHR ''u''
     then (case hex4 a b c d of Some n \<Rightarrow> if 0xDC00 \<le> n \<and> n < 0xE000 then Some (n, s) else None | None \<Rightarrow> None)
     else None)"
| "low_surrogate _ = None"

lemma low_surrogate_length: "low_surrogate s = Some (n, r) \<Longrightarrow> length r < length s"
  by (cases s rule: low_surrogate.cases) (auto split: if_splits option.splits)

function unquote :: "string \<Rightarrow> string option" where
  "unquote [] = None"
| "unquote (c # s) =
    (if c = quote_mark then (if s = [] then Some [] else None)
     else if of_char c < (32 :: nat) then None
     else if c \<noteq> backslash
     then (case rune_size (c # s) of
             0 \<Rightarrow> map_option ((@) (utf8 0xFFFD)) (unquote s)
           | Suc k \<Rightarrow> map_option ((@) (c # take k s)) (unquote (drop k s)))
     else case s of
            [] \<Rightarrow> None
          | e # s' \<Rightarrow>
              if e = CHR ''u''
              then (case s' of
                      a # b # c' # d # s'' \<Rightarrow>
                        (case hex4 a b c' d of
                           None \<Rightarrow> None
                         | Some n \<Rightarrow>
                             if \<not> surrogate n then map_option ((@) (utf8 n)) (unquote s'')
                             else (case (if n < 0xDC00 then low_surrogate s'' else None) of
                                     Some (m, r) \<Rightarrow>
                                       map_option ((@) (utf8 (65536 + (n - 0xD800) * 1024 + (m - 0xDC00)))) (unquote r)
                                   | None \<Rightarrow> map_option ((@) (utf8 0xFFFD)) (unquote s'')))
                    | _ \<Rightarrow> None)
              else (case simple_escape e of None \<Rightarrow> None | Some x \<Rightarrow> map_option ((#) x) (unquote s')))"
  by pat_completeness auto
termination by (relation "measure length") (auto dest!: low_surrogate_length split: if_splits)

definition parseFilterValue :: "float_parser \<Rightarrow> string \<Rightarrow> json scim_result" where
  "parseFilterValue pf token =
    (if token = [] then Inl invalidFilter
     else if hd token = quote_mark
     then (case unquote (tl token) of None \<Rightarrow> Inl invalidFilter | Some s \<Rightarrow> Inr (JStr s))
     else if EqualFold token ''true'' then Inr (JBool True)
     else if EqualFold token ''false'' then Inr (JBool False)
     else if EqualFold token ''null'' then Inr JNull
     else case pf token of None \<Rightarrow> Inl invalidFilter | Some f \<Rightarrow> Inr (JFloat f))"

section \<open>Parsing\<close>

definition peek :: "string list \<Rightarrow> string" where
  "peek ts = (case ts of [] \<Rightarrow> [] | t # _ \<Rightarrow> t)"

definition next_tokens :: "string list \<Rightarrow> string list" where
  "next_tokens ts = (if peek ts = [] then ts else tl ts)"

definition expect :: "string \<Rightarrow> string list \<Rightarrow> string list scim_result" where
  "expect token ts = (if peek ts \<noteq> token then Inl invalidFilter else Inr (next_tokens ts))"

definition comparison_operators :: "string list" where
  "comparison_operators = [''eq'', ''ne'', ''co'', ''sw'', ''ew'', ''gt'', ''ge'', ''lt'', ''le'']"

function parseOr :: "float_parser \<Rightarrow> string list \<Rightarrow> (filter \<times> string list) scim_result"
  and or_loop :: "float_parser \<Rightarrow> filter \<Rightarrow> string list \<Rightarrow> (filter \<times> string list) scim_result"
  and parseAnd :: "float_parser \<Rightarrow> string list \<Rightarrow> (filter \<times> string list) scim_result"
  and and_loop :: "float_parser \<Rightarrow> filter \<Rightarrow> string list \<Rightarrow> (filter \<times> string list) scim_result"
  and parseUnary :: "float_parser \<Rightarrow> string list \<Rightarrow> (filter \<times> string list) scim_result"
  and parseAttributeExpression :: "float_parser \<Rightarrow> string list \<Rightarrow> (filter \<times> string list) scim_result" where
  "parseOr pf ts = bind_ok (parseAnd pf ts) (\<lambda>(left, ts). or_loop pf left ts)"
| "or_loop pf left ts =
    (if EqualFold (peek ts) ''or''
     then bind_ok (parseAnd pf (next_tokens ts)) (\<lambda>(right, ts). or_loop pf (Logical OpOr left right) ts)
     else Inr (left, ts))"
| "parseAnd pf ts = bind_ok (parseUnary pf ts) (\<lambda>(left, ts). and_loop pf left ts)"
| "and_loop pf left ts =
    (if EqualFold (peek ts) ''and''
     then bind_ok (parseUnary pf (next_tokens ts)) (\<lambda>(right, ts). and_loop pf (Logical OpAnd left right) ts)
     else Inr (left, ts))"
| "parseUnary pf ts =
    (if EqualFold (peek ts) ''not''
     then bind_ok (expect ''('' (next_tokens ts)) (\<lambda>ts.
          bind_ok (parseOr pf ts) (\<lambda>(inner, ts).
          bind_ok (expect '')'' ts) (\<lambda>ts. Inr (Negated inner, ts))))
     else if peek ts = ''(''
     then bind_ok (parseOr pf (next_tokens ts)) (\<lambda>(inner, ts).
          bind_ok (expect '')'' ts) (\<lambda>ts. Inr (inner, ts)))
     else if peek ts = [] then Inl invalidFilter
     else parseAttributeExpression pf ts)"
| "parseAttributeExpression pf ts =
    (case parseAttrPath (peek ts) of
       None \<Rightarrow> Inl invalidFilter
     | Some path \<Rightarrow>
         let ts = next_tokens ts
         in if peek ts = ''[''
            then bind_ok (parseOr pf (next_tokens ts)) (\<lambda>(inner, ts).
                 bind_ok (expect '']'' ts) (\<lambda>ts.
                 if apSub path \<noteq> [] then Inl invalidFilter else Inr (ValuePath path inner, ts)))
            else let op = ToLower (peek ts); ts = next_tokens ts
                 in if op = ''pr'' then Inr (Comparison path op JNull, ts)
                    else if op \<in> set comparison_operators
                    then bind_ok (parseFilterValue pf (peek ts)) (\<lambda>value. Inr (Comparison path op value, next_tokens ts))
                    else Inl invalidFilter)"
  by pat_completeness auto

text \<open>Every parsing function consumes tokens, so the parser terminates.\<close>

lemma next_tokens_length: "length (next_tokens ts) \<le> length ts" "peek ts \<noteq> [] \<Longrightarrow> length (next_tokens ts) < length ts"
  by (cases ts; simp add: next_tokens_def peek_def)+

lemma expect_length: "expect token ts = Inr r \<Longrightarrow> length r \<le> length ts"
  by (auto simp: expect_def next_tokens_length split: if_splits)

lemma EqualFold_peek: "EqualFold (peek ts) w \<Longrightarrow> w \<noteq> [] \<Longrightarrow> length (next_tokens ts) < length ts"
  by (rule next_tokens_length(2)) (auto simp: EqualFold_ToLower ToLower_def)

lemma attr_path_token:
  assumes "parseAttrPath (peek ts) = Some p"
  shows "length (next_tokens ts) < length ts"
proof (rule next_tokens_length(2))
  show "peek ts \<noteq> []"
    using assms by (cases "peek ts") (auto simp: parseAttrPath_def Let_def validAttributeName_def HasPrefix_def ToLower_def)
qed

abbreviation parse_dom where
  "parse_dom \<equiv> parseOr_or_loop_parseAnd_and_loop_parseUnary_parseAttributeExpression_dom"

lemma parse_consumes:
  "parse_dom (Inl (Inl (pf, ts))) \<Longrightarrow> parseOr pf ts = Inr (f, r) \<Longrightarrow> length r < length ts"
  "parse_dom (Inl (Inr (Inl (pf, left, ts)))) \<Longrightarrow> or_loop pf left ts = Inr (f, r) \<Longrightarrow> length r \<le> length ts"
  "parse_dom (Inl (Inr (Inr (pf, ts)))) \<Longrightarrow> parseAnd pf ts = Inr (f, r) \<Longrightarrow> length r < length ts"
  "parse_dom (Inr (Inl (pf, left, ts))) \<Longrightarrow> and_loop pf left ts = Inr (f, r) \<Longrightarrow> length r \<le> length ts"
  "parse_dom (Inr (Inr (Inl (pf, ts)))) \<Longrightarrow> parseUnary pf ts = Inr (f, r) \<Longrightarrow> length r < length ts"
  "parse_dom (Inr (Inr (Inr (pf, ts)))) \<Longrightarrow> parseAttributeExpression pf ts = Inr (f, r) \<Longrightarrow> length r < length ts"
proof (induction arbitrary: f r and f r and f r and f r and f r and f r
    rule: parseOr_or_loop_parseAnd_and_loop_parseUnary_parseAttributeExpression.pinduct)
  case (1 pf ts)
  then show ?case by (fastforce simp: parseOr.psimps bind_ok_Inr)
next
  case (2 pf left ts)
  then show ?case using EqualFold_peek[of ts "''or''"] by (fastforce simp: or_loop.psimps bind_ok_Inr split: if_splits)
next
  case (3 pf ts)
  then show ?case by (fastforce simp: parseAnd.psimps bind_ok_Inr)
next
  case (4 pf left ts)
  then show ?case using EqualFold_peek[of ts "''and''"] by (fastforce simp: and_loop.psimps bind_ok_Inr split: if_splits)
next
  case (5 pf ts)
  from "5.prems" "5.hyps" consider
      (negated) t1 inner t2 where "EqualFold (peek ts) ''not''" "expect ''('' (next_tokens ts) = Inr t1" "parseOr pf t1 = Inr (inner, t2)"
        "expect '')'' t2 = Inr r"
    | (nested) t2 where "\<not> EqualFold (peek ts) ''not''" "peek ts = ''(''" "parseOr pf (next_tokens ts) = Inr (f, t2)" "expect '')'' t2 = Inr r"
    | (attribute) "\<not> EqualFold (peek ts) ''not''" "peek ts \<noteq> ''(''" "peek ts \<noteq> []" "parseAttributeExpression pf ts = Inr (f, r)"
    by (auto simp: parseUnary.psimps bind_ok_Inr split: if_splits)
  then show ?case
  proof cases
    case negated
    then show ?thesis
      using "5.IH"(1)[OF negated(1,2,3)] EqualFold_peek[of ts "''not''"] expect_length[of "''(''"] expect_length[of "'')''"] by fastforce
  next
    case nested
    then show ?thesis
      using "5.IH"(2)[OF nested(1,2,3)] next_tokens_length(1)[of ts] expect_length[of "'')''"] by fastforce
  next
    case attribute
    then show ?thesis by (rule "5.IH"(3))
  qed
next
  case (6 pf ts)
  from "6.prems" "6.hyps" consider
      (filtered) p t2 where "parseAttrPath (peek ts) = Some p" "peek (next_tokens ts) = ''[''"
        "\<exists>g. parseOr pf (next_tokens (next_tokens ts)) = Inr (g, t2)" "expect '']'' t2 = Inr r"
    | (compared) p where "parseAttrPath (peek ts) = Some p"
        "r = next_tokens (next_tokens ts) \<or> r = next_tokens (next_tokens (next_tokens ts))"
    by (auto simp: parseAttributeExpression.psimps bind_ok_Inr Let_def split: if_splits option.splits)
  note cases = this
  note shorter = next_tokens_length(1)[of "next_tokens ts"] next_tokens_length(1)[of "next_tokens (next_tokens ts)"]
  from cases show ?case
  proof cases
    case filtered
    then obtain g where g: "parseOr pf (next_tokens (next_tokens ts)) = Inr (g, t2)" by blast
    from "6.IH"[OF filtered(1) refl filtered(2) g] expect_length[OF filtered(4)] shorter attr_path_token[OF filtered(1)]
    show ?thesis by linarith
  next
    case compared
    from compared(2) shorter attr_path_token[OF compared(1)] show ?thesis by (elim disjE; simp)
  qed
qed

lemma nested_tokens:
  "EqualFold (peek ts) w \<Longrightarrow> w \<noteq> [] \<Longrightarrow> expect t (next_tokens ts) = Inr r \<Longrightarrow> length r < length ts"
  "parseAttrPath (peek ts) = Some p \<Longrightarrow> length (next_tokens (next_tokens ts)) < length ts"
  using EqualFold_peek[of ts w] expect_length[of t "next_tokens ts" r] attr_path_token[of ts p] next_tokens_length(1)[of "next_tokens ts"]
  by linarith+

lemma loop_shorter:
  "parseAnd pf (next_tokens ts) = Inr (a, b) \<Longrightarrow> parse_dom (Inl (Inr (Inr (pf, next_tokens ts)))) \<Longrightarrow> length b < length ts"
  "parseUnary pf (next_tokens ts) = Inr (a, b) \<Longrightarrow> parse_dom (Inr (Inr (Inl (pf, next_tokens ts)))) \<Longrightarrow> length b < length ts"
  using parse_consumes(3,5)[of pf "next_tokens ts" a b] next_tokens_length(1)[of ts] by linarith+

termination parseOr
  by (relation "measures
      [\<lambda>x. case x of Inl (Inl (pf, ts)) \<Rightarrow> length ts | Inl (Inr (Inl (pf, f, ts))) \<Rightarrow> length ts | Inl (Inr (Inr (pf, ts))) \<Rightarrow> length ts
         | Inr (Inl (pf, f, ts)) \<Rightarrow> length ts | Inr (Inr (Inl (pf, ts))) \<Rightarrow> length ts | Inr (Inr (Inr (pf, ts))) \<Rightarrow> length ts,
       \<lambda>x. case x of Inl (Inl _) \<Rightarrow> 3 | Inl (Inr (Inr _)) \<Rightarrow> 2 | Inr (Inr (Inl _)) \<Rightarrow> 1 | _ \<Rightarrow> 0]")
    (auto dest: parse_consumes(3,5) EqualFold_peek nested_tokens loop_shorter simp: next_tokens_length)
declare parseOr.simps [simp del] or_loop.simps [simp del] parseAnd.simps [simp del] and_loop.simps [simp del]
  parseUnary.simps [simp del] parseAttributeExpression.simps [simp del]

definition maxFilterLength :: nat where "maxFilterLength = 4096"

definition parseFilter :: "float_parser \<Rightarrow> string \<Rightarrow> filter scim_result" where
  "parseFilter pf s =
    (if length s > maxFilterLength then Inl invalidFilter
     else bind_ok (tokenizeFilter s) (\<lambda>tokens.
       if tokens = [] then Inl invalidFilter
       else bind_ok (parseOr pf tokens) (\<lambda>(f, rest). if rest \<noteq> [] then Inl invalidFilter else Inr f)))"

section \<open>Evaluation\<close>

definition lookupKey :: "obj \<Rightarrow> string \<Rightarrow> json" where
  "lookupKey m key =
    (case map_of m key of
       Some v \<Rightarrow> v
     | None \<Rightarrow> (case find (\<lambda>e. EqualFold (fst e) key) m of None \<Rightarrow> JNull | Some (_, v) \<Rightarrow> v))"

definition hasKey :: "obj \<Rightarrow> string \<Rightarrow> bool" where
  "hasKey m key = (has_field m key \<or> list_ex (\<lambda>e. EqualFold (fst e) key) m)"

definition lookupSubValue :: "attribute option \<Rightarrow> obj \<Rightarrow> attrPath \<Rightarrow> json \<times> attribute option" where
  "lookupSubValue parent value path =
    (let attr = Option.bind parent (\<lambda>p. subAttribute p (apName path));
         v = lookupKey value (apName path)
     in if apSub path = [] then (v, attr)
        else case v of
               JObj m \<Rightarrow> (lookupKey m (apSub path), Option.bind attr (\<lambda>a. subAttribute a (apSub path)))
             | _ \<Rightarrow> (JNull, None))"

definition present :: "json \<Rightarrow> bool" where
  "present v = (case v of JNull \<Rightarrow> False | JStr s \<Rightarrow> s \<noteq> [] | JList xs \<Rightarrow> xs \<noteq> [] | JObj m \<Rightarrow> m \<noteq> [] | _ \<Rightarrow> True)"

definition toFloat :: "float_parser \<Rightarrow> json \<Rightarrow> go_float option" where
  "toFloat pf v = (case v of JFloat f \<Rightarrow> Some f | JNumber s \<Rightarrow> pf s | _ \<Rightarrow> None)"

text \<open>The order of Go strings, byte by byte.\<close>

fun string_less :: "string \<Rightarrow> string \<Rightarrow> bool" where
  "string_less s [] = False"
| "string_less [] (_ # _) = True"
| "string_less (a # s) (b # t) = (if a = b then string_less s t else of_char a < (of_char b :: nat))"

definition Contains :: "string \<Rightarrow> string \<Rightarrow> bool" where
  "Contains s t = list_ex (\<lambda>i. HasPrefix (drop i s) t) [0..<Suc (length s)]"

definition compare_strings :: "string \<Rightarrow> string \<Rightarrow> string \<Rightarrow> bool" where
  "compare_strings op a b =
    (if op = ''eq'' then a = b else if op = ''ne'' then a \<noteq> b
     else if op = ''co'' then Contains a b else if op = ''sw'' then HasPrefix a b else if op = ''ew'' then HasSuffix a b
     else if op = ''gt'' then string_less b a else if op = ''ge'' then a = b \<or> string_less b a
     else if op = ''lt'' then string_less a b else if op = ''le'' then a = b \<or> string_less a b
     else False)"

definition compare_floats :: "string \<Rightarrow> go_float \<Rightarrow> go_float \<Rightarrow> bool" where
  "compare_floats op a b =
    (if op = ''eq'' then float_eq a b else if op = ''ne'' then \<not> float_eq a b
     else if op = ''gt'' then float_less b a else if op = ''ge'' then float_eq a b \<or> float_less b a
     else if op = ''lt'' then float_less a b else if op = ''le'' then float_eq a b \<or> float_less a b
     else False)"

definition compare :: "float_parser \<Rightarrow> string \<Rightarrow> json \<Rightarrow> json \<Rightarrow> bool \<Rightarrow> bool" where
  "compare pf op actual expected exact =
    (case expected of
       JNull \<Rightarrow> if op = ''eq'' then \<not> present actual else if op = ''ne'' then present actual else False
     | JBool e \<Rightarrow>
         if op = ''eq'' then actual = JBool e else if op = ''ne'' then actual \<noteq> JBool e else False
     | JFloat e \<Rightarrow> (case toFloat pf actual of None \<Rightarrow> op = ''ne'' | Some a \<Rightarrow> compare_floats op a e)
     | JStr e \<Rightarrow>
         (case actual of
            JStr a \<Rightarrow> if exact then compare_strings op a e else compare_strings op (ToLower a) (ToLower e)
          | _ \<Rightarrow> op = ''ne'')
     | _ \<Rightarrow> False)"

primrec matches :: "float_parser \<Rightarrow> filter \<Rightarrow> attribute option \<Rightarrow> obj \<Rightarrow> bool" where
  "matches pf (Comparison path op expected) parent value =
    (case lookupSubValue parent value path of (actual, attr) \<Rightarrow>
       let exact = (case attr of None \<Rightarrow> False | Some a \<Rightarrow> aCaseExact a)
       in if op = ''pr'' then present actual
          else (case actual of
                  JList items \<Rightarrow> list_ex (\<lambda>item. compare pf op item expected exact) items
                | _ \<Rightarrow> compare pf op actual expected exact))"
| "matches pf (Logical op left right) parent value =
    (if op = OpAnd then matches pf left parent value \<and> matches pf right parent value
     else matches pf left parent value \<or> matches pf right parent value)"
| "matches pf (Negated inner) parent value = (\<not> matches pf inner parent value)"
| "matches pf (ValuePath path f) parent value =
    (case lookupSubValue parent value path of (actual, attr) \<Rightarrow>
       let items = (case actual of JList items \<Rightarrow> items | JObj m \<Rightarrow> [JObj m] | _ \<Rightarrow> [])
       in list_ex (\<lambda>item. case item of JObj m \<Rightarrow> matches pf f attr m | _ \<Rightarrow> False) items)"

section \<open>List filters\<close>

definition parseListFilter :: "float_parser \<Rightarrow> resourceSchema \<Rightarrow> string \<Rightarrow> string list \<Rightarrow> (string \<times> string) option scim_result" where
  "parseListFilter pf schema s supported =
    (if TrimSpace s = [] then Inr None
     else bind_ok (parseFilter pf s) (\<lambda>f.
       case f of
         Comparison path op (JStr value) \<Rightarrow>
           if op \<noteq> ''eq'' \<or> apSub path \<noteq> [] \<or> \<not> inSchema path schema then Inl invalidFilter
           else (case find (\<lambda>name. EqualFold (apName path) name) supported of
                   Some name \<Rightarrow> Inr (Some (name, value))
                 | None \<Rightarrow> Inl invalidFilter)
       | _ \<Rightarrow> Inl invalidFilter))"

section \<open>Printing\<close>

text \<open>
  The text of a filter, with parentheses where the grammar needs them. The level is 0 where an \<open>or\<close> may
  stand, 1 where an \<open>and\<close> may stand, and 2 elsewhere.
\<close>

definition escape_char :: "char \<Rightarrow> string" where
  "escape_char c =
    (if c = quote_mark \<or> c = backslash then [backslash, c]
     else if of_char c < (32 :: nat) then backslash # ''u00'' @ [upper_hex (of_char c div 16), upper_hex (of_char c mod 16)]
     else [c])"

definition quote_string :: "string \<Rightarrow> string" where
  "quote_string s = quote_mark # concat (map escape_char s) @ [quote_mark]"

definition value_text :: "(go_float \<Rightarrow> string) \<Rightarrow> json \<Rightarrow> string" where
  "value_text show v =
    (case v of JStr s \<Rightarrow> quote_string s | JBool b \<Rightarrow> if b then ''true'' else ''false'' | JFloat f \<Rightarrow> show f | _ \<Rightarrow> ''null'')"

definition parenthesized :: "bool \<Rightarrow> string list \<Rightarrow> string list" where
  "parenthesized p ts = (if p then ''('' # ts @ ['')''] else ts)"

primrec filter_tokens :: "(go_float \<Rightarrow> string) \<Rightarrow> filter \<Rightarrow> nat \<Rightarrow> string list" where
  "filter_tokens show (Comparison path op v) level = [path_String path, op] @ (if op = ''pr'' then [] else [value_text show v])"
| "filter_tokens show (Logical op l r) level =
    (if op = OpAnd then parenthesized (level > 1) (filter_tokens show l 1 @ ''and'' # filter_tokens show r 2)
     else parenthesized (level > 0) (filter_tokens show l 0 @ ''or'' # filter_tokens show r 1))"
| "filter_tokens show (Negated f) level = [''not'', ''(''] @ filter_tokens show f 0 @ ['')'']"
| "filter_tokens show (ValuePath path f) level = [path_String path, ''[''] @ filter_tokens show f 0 @ ['']'']"

definition filter_text :: "(go_float \<Rightarrow> string) \<Rightarrow> filter \<Rightarrow> string" where
  "filter_text show f = concat (map (\<lambda>t. t @ '' '') (filter_tokens show f 0))"

text \<open>What a filter needs to be written: the paths and operators of the grammar, strings of UTF-8, and numbers that print as words that are read back.\<close>

definition path_ok :: "attrPath \<Rightarrow> bool" where
  "path_ok p =
    (validAttributeName (apName p) \<and> (apSub p = [] \<or> validAttributeName (apSub p))
     \<and> (apURN p = [] \<or> HasPrefix (ToLower (apURN p @ '':'')) ''urn:'' \<and> list_all word_char (apURN p))
     \<and> \<not> EqualFold (path_String p) ''not'')"

definition value_ok :: "float_parser \<Rightarrow> (go_float \<Rightarrow> string) \<Rightarrow> json \<Rightarrow> bool" where
  "value_ok pf show v =
    (case v of
       JNull \<Rightarrow> True | JBool _ \<Rightarrow> True | JStr s \<Rightarrow> valid_utf8 s
     | JFloat x \<Rightarrow> pf (show x) = Some x \<and> show x \<noteq> [] \<and> list_all word_char (show x)
                  \<and> ToLower (show x) \<notin> set [''true'', ''false'', ''null'']
     | _ \<Rightarrow> False)"

primrec filter_ok :: "float_parser \<Rightarrow> (go_float \<Rightarrow> string) \<Rightarrow> filter \<Rightarrow> bool" where
  "filter_ok pf show (Comparison path op v) =
    (path_ok path \<and> (if op = ''pr'' then v = JNull else op \<in> set comparison_operators \<and> value_ok pf show v))"
| "filter_ok pf show (Logical op l r) = (filter_ok pf show l \<and> filter_ok pf show r)"
| "filter_ok pf show (Negated f) = filter_ok pf show f"
| "filter_ok pf show (ValuePath path f) = (path_ok path \<and> apSub path = [] \<and> filter_ok pf show f)"

section \<open>Round trip\<close>

lemma valid_name_chars:
  assumes "validAttributeName s" "c \<in> set s"
  shows "word_char c" "c \<noteq> CHR ''.''" "c \<noteq> CHR '':''"
proof -
  have "letter c \<or> digit_char c \<or> c = CHR ''$'' \<or> c = CHR ''-'' \<or> c = CHR ''_''"
    using assms by (auto simp: validAttributeName_def list_all_iff split: list.splits)
  then show "word_char c" "c \<noteq> CHR ''.''" "c \<noteq> CHR '':''"
    by (auto simp: letter_def digit_char_def word_char_def blank_def bracket_def quote_mark_def)
qed

lemma last_colon: "CHR '':'' \<notin> set b \<Longrightarrow> before_last_colon (a @ CHR '':'' # b) = a \<and> after_last_colon (a @ CHR '':'' # b) = b"
  by (simp add: before_last_colon_def after_last_colon_def takeWhile_append dropWhile_append)

lemma parseAttrPath_String:
  assumes "path_ok p"
  shows "parseAttrPath (path_String p) = Some p"
proof -
  let ?rest = "apName p @ (if apSub p \<noteq> [] then ''.'' @ apSub p else [])"
  have names: "validAttributeName (apName p)" "apSub p \<noteq> [] \<Longrightarrow> validAttributeName (apSub p)"
    using assms by (auto simp: path_ok_def)
  have dots: "CHR ''.'' \<notin> set (apName p)" using valid_name_chars(2)[OF names(1)] by blast
  have colons: "CHR '':'' \<notin> set ?rest"
    using valid_name_chars(3)[OF names(1)] valid_name_chars(3)[OF names(2)] by auto
  have "CHR '':'' \<notin> set (ToLower ?rest)"
  proof
    assume "CHR '':'' \<in> set (ToLower ?rest)"
    then obtain c where "c \<in> set ?rest" "to_lower c = CHR '':''" unfolding ToLower_def by (metis (no_types) imageE image_set)
    moreover then have "c = CHR '':''"
      by (cases "(65::nat) \<le> of_char c \<and> of_char c \<le> (90::nat)")
         (auto simp: to_lower_def Let_def dest!: arg_cong[of _ _ "of_char :: char \<Rightarrow> nat"])
    ultimately show False using colons by blast
  qed
  then have plain: "\<not> HasPrefix (ToLower ?rest) ''urn:''" by (auto simp: HasPrefix_iff)
  have cut: "Cut ?rest (CHR ''.'') = (if apSub p \<noteq> [] then Some (apName p, apSub p) else None)"
    using dots by (auto simp: Cut_append Cut_None)
  show ?thesis
  proof (cases "apURN p = []")
    case True
    then have "path_String p = ?rest" by (simp add: path_String_def)
    with True plain cut names show ?thesis
      by (auto simp: parseAttrPath_def Let_def intro!: attrPath.equality)
  next
    case False
    then have whole: "path_String p = apURN p @ CHR '':'' # ?rest" by (simp add: path_String_def)
    have "ToLower (path_String p) = ToLower (apURN p @ '':'') @ ToLower ?rest" by (simp add: whole ToLower_def)
    then have "HasPrefix (ToLower (path_String p)) (ToLower (apURN p @ '':''))" by simp
    then have "HasPrefix (ToLower (path_String p)) ''urn:''"
      by (rule HasPrefix_trans) (use assms False in \<open>simp add: path_ok_def\<close>)
    moreover have "before_last_colon (path_String p) = apURN p" "after_last_colon (path_String p) = ?rest"
      unfolding whole using last_colon[OF colons, of "apURN p"] by blast+
    ultimately show ?thesis
      using cut names by (auto simp: parseAttrPath_def Let_def intro!: attrPath.equality)
  qed
qed

lemma hex_upper_hex: "n < 16 \<Longrightarrow> hex_digit (upper_hex n) = Some n"
proof -
  assume "n < 16"
  then have "n \<in> set [0, 1, 2, 3, 4, 5, 6, 7, 8, 9, 10, 11, 12, 13, 14, 15]"
    by (simp only: list.set insert_iff empty_iff) presburger
  then show ?thesis by (auto simp: upper_hex_def hex_digit_def)
qed

lemma scan_escaped:
  "scan_string (escape_char c @ s) = map_option (\<lambda>(t, r). (escape_char c @ t, r)) (scan_string s)"
proof -
  have upper: "upper_hex n \<noteq> quote_mark \<and> upper_hex n \<noteq> backslash" if "n < 16" for n
    using hex_upper_hex[OF that] by (auto simp: hex_digit_def quote_mark_def backslash_def)
  have "of_char c < (32 :: nat) \<Longrightarrow> of_char c div 16 < (16 :: nat)" by simp
  then show ?thesis
    using upper[of "of_char c div 16"] upper[of "of_char c mod 16"]
    by (auto simp: escape_char_def quote_mark_def backslash_def option.map_comp comp_def case_prod_unfold)
qed

lemma scan_quoted: "scan_string (concat (map escape_char s) @ quote_mark # r) = Some (concat (map escape_char s) @ [quote_mark], r)"
  by (induction s) (simp_all add: scan_escaped, simp add: quote_mark_def backslash_def)

lemma unquote_escaped:
  assumes "of_char c < (128 :: nat)"
  shows "unquote (escape_char c @ s) = map_option ((#) c) (unquote s)"
proof -
  have "of_char c < (32 :: nat) \<Longrightarrow> hex4 (CHR ''0'') (CHR ''0'') (upper_hex (of_char c div 16)) (upper_hex (of_char c mod 16)) = Some (of_char c)"
    by (simp add: hex4_def hex_upper_hex) (simp add: hex_digit_def)
  moreover have "(@) [c] = (#) c" by (rule ext) simp
  ultimately show ?thesis
    using assms by (auto simp: escape_char_def simple_escape_def quote_mark_def backslash_def surrogate_def utf8_def)
qed

lemma unescaped: "128 \<le> (of_char c :: nat) \<Longrightarrow> escape_char c = [c]"
  by (auto simp: escape_char_def quote_mark_def backslash_def)

lemma unquote_long:
  assumes "rune_size (c # s) = Suc k" "128 \<le> (of_char c :: nat)"
  shows "unquote (concat (map escape_char (c # take k s)) @ r) = map_option ((@) (c # take k s)) (unquote r)"
proof -
  note rune = rune_size_long[OF assms]
  have "concat (map escape_char t) = t" if "\<forall>x\<in>set t. 128 \<le> (of_char x :: nat)" for t
    using that by (induction t) (simp_all add: unescaped)
  with rune(3) have "concat (map escape_char (c # take k s)) = c # take k s" using assms(2) unescaped by simp
  moreover have "c \<noteq> quote_mark" "c \<noteq> backslash" "\<not> of_char c < (32 :: nat)" using assms(2) by (auto simp: quote_mark_def backslash_def)
  ultimately show ?thesis using rune(1) rune(2)[of r] by simp
qed

lemma unquote_quoted: "valid_utf8 s \<Longrightarrow> unquote (concat (map escape_char s) @ [quote_mark]) = Some s"
proof (induction s rule: valid_utf8.induct)
  case (2 c s)
  then obtain k where k: "rune_size (c # s) = Suc k" "valid_utf8 (drop k s)" by (auto split: nat.splits)
  note IH = 2(1)[OF k]
  show ?case
  proof (cases "of_char c < (128 :: nat)")
    case True
    with k IH show ?thesis by (simp add: unquote_escaped)
  next
    case False
    have "concat (map escape_char (c # s)) = concat (map escape_char (c # take k s)) @ concat (map escape_char (drop k s))"
      by (metis append_Cons append_take_drop_id concat_append map_append)
    with unquote_long[OF k(1), of "concat (map escape_char (drop k s)) @ [quote_mark]"] IH False show ?thesis by simp
  qed
qed simp

text \<open>Tokens that the tokenizer returns as they are.\<close>

definition token_ok :: "string \<Rightarrow> bool" where
  "token_ok t = ((\<exists>c. t = [c] \<and> bracket c) \<or> (t \<noteq> [] \<and> list_all word_char t) \<or> (\<exists>s. t = quote_string s))"

lemma tokenize_token:
  assumes "token_ok t" "tokenizeFilter r = Inr ts"
  shows "tokenizeFilter (t @ CHR '' '' # r) = Inr (t # ts)"
proof -
  have blank: "blank (CHR '' '')" "\<not> word_char (CHR '' '')" by (simp_all add: word_char_def blank_def)
  consider (bracket) c where "t = [c]" "bracket c" | (word) c w where "t = c # w" "word_char c" "\<forall>x\<in>set w. word_char x"
    | (quoted) s where "t = quote_string s"
    using assms(1) by (cases t) (auto simp: token_ok_def list_all_iff)
  then show ?thesis
  proof cases
    case bracket
    then have "\<not> blank c" by (auto simp: bracket_def blank_def)
    with bracket assms(2) blank show ?thesis by simp
  next
    case word
    then have "takeWhile word_char (w @ CHR '' '' # r) = w" "dropWhile word_char (w @ CHR '' '' # r) = CHR '' '' # r"
      using blank by (simp_all add: takeWhile_append dropWhile_append)
    with word assms(2) blank show ?thesis by (simp add: word_char_def)
  next
    case quoted
    have "\<not> blank quote_mark" "\<not> bracket quote_mark" by (simp_all add: blank_def bracket_def quote_mark_def)
    with quoted assms(2) blank scan_quoted[of s "CHR '' '' # r"] show ?thesis by (simp add: quote_string_def)
  qed
qed

lemma tokenize_text: "list_all token_ok ts \<Longrightarrow> tokenizeFilter (concat (map (\<lambda>t. t @ '' '') ts)) = Inr ts"
  by (induction ts) (simp_all add: tokenize_token)

lemma next_Cons [simp]: "t \<noteq> [] \<Longrightarrow> next_tokens (t # ts) = ts" "peek (t # ts) = t"
  by (simp_all add: next_tokens_def peek_def)

lemma expect_Cons [simp]: "t \<noteq> [] \<Longrightarrow> expect t (t # ts) = Inr ts"
  by (simp add: expect_def)

lemma keyword_folds [simp]:
  "EqualFold ''and'' ''and''" "EqualFold ''or'' ''or''" "EqualFold ''not'' ''not''"
  "\<not> EqualFold ''or'' ''and''" "\<not> EqualFold '')'' ''and''" "\<not> EqualFold '')'' ''or''" "\<not> EqualFold '']'' ''and''"
  "\<not> EqualFold '']'' ''or''" "\<not> EqualFold ''('' ''not''" "\<not> EqualFold [] ''and''" "\<not> EqualFold [] ''or''"
  by (simp_all add: EqualFold_ToLower ToLower_def to_lower_def)

lemma path_text_start:
  assumes "path_ok p"
  shows "path_String p \<noteq> []" "path_String p \<noteq> ''(''" "\<not> EqualFold (path_String p) ''not''" "list_all word_char (path_String p)"
proof -
  have name: "validAttributeName (apName p)" using assms by (simp add: path_ok_def)
  then show "path_String p \<noteq> []" by (auto simp: path_String_def validAttributeName_def)
  show "\<not> EqualFold (path_String p) ''not''" using assms by (simp add: path_ok_def)
  have "word_char (CHR '':'')" "word_char (CHR ''.'')" by (simp_all add: word_char_def blank_def bracket_def quote_mark_def)
  moreover have "list_all word_char (apName p)" "apSub p \<noteq> [] \<Longrightarrow> list_all word_char (apSub p)" "list_all word_char (apURN p)"
    using assms valid_name_chars(1) by (auto simp: path_ok_def list_all_iff)
  ultimately show chars: "list_all word_char (path_String p)" by (auto simp: path_String_def)
  then show "path_String p \<noteq> ''(''" by (auto simp: word_char_def bracket_def)
qed

lemma parseFilterValue_text:
  assumes "value_ok pf show v"
  shows "parseFilterValue pf (value_text show v) = Inr v"
proof (cases v)
  case (JStr s)
  with assms show ?thesis by (simp add: parseFilterValue_def value_text_def quote_string_def unquote_quoted value_ok_def)
next
  case (JFloat x)
  then have "hd (show x) \<noteq> quote_mark" using assms by (cases "show x") (auto simp: value_ok_def word_char_def)
  with JFloat assms show ?thesis
    by (auto simp: parseFilterValue_def value_text_def value_ok_def EqualFold_ToLower ToLower_def to_lower_def)
qed (use assms in \<open>auto simp: parseFilterValue_def value_text_def value_ok_def quote_mark_def EqualFold_ToLower ToLower_def to_lower_def\<close>)

lemma value_text_nonempty: "value_ok pf show v \<Longrightarrow> value_text show v \<noteq> []"
  by (auto simp: value_ok_def value_text_def quote_string_def split: json.splits)

lemma operator_lower: "op \<in> set comparison_operators \<Longrightarrow> ToLower op = op \<and> op \<noteq> [] \<and> op \<noteq> ''['' \<and> op \<noteq> ''pr'' \<and> list_all word_char op"
  by (auto simp: comparison_operators_def ToLower_def to_lower_def word_char_def blank_def bracket_def quote_mark_def)

lemma parse_comparison:
  assumes "filter_ok pf show (Comparison p op v)"
  shows "parseUnary pf (filter_tokens show (Comparison p op v) level @ rest) = Inr (Comparison p op v, rest)"
proof -
  have p: "path_ok p" using assms by simp
  note p_simps = path_text_start[OF p] parseAttrPath_String[OF p]
  show ?thesis
  proof (cases "op = ''pr''")
    case True
    then have "ToLower op = ''pr''" by (simp add: ToLower_def to_lower_def)
    with True p_simps assms show ?thesis by (simp add: parseUnary.simps parseAttributeExpression.simps)
  next
    case False
    with assms have op: "op \<in> set comparison_operators" and v: "value_ok pf show v" by auto
    from op v False p_simps operator_lower[OF op] value_text_nonempty[OF v] parseFilterValue_text[OF v] show ?thesis
      by (simp add: parseUnary.simps parseAttributeExpression.simps)
  qed
qed

lemma parse_levels:
  "parseUnary pf ts = Inr (f, rest) \<Longrightarrow> parseAnd pf ts = and_loop pf f rest"
  "parseAnd pf ts = and_loop pf f rest \<Longrightarrow> \<not> EqualFold (peek rest) ''and'' \<Longrightarrow> parseOr pf ts = or_loop pf f rest"
  by (simp_all add: parseAnd.simps parseOr.simps and_loop.simps)

lemma parse_parenthesized:
  assumes "parseOr pf (ts @ '')'' # rest) = or_loop pf f ('')'' # rest)"
  shows "parseUnary pf (''('' # ts @ '')'' # rest) = Inr (f, rest)"
  using assms by (simp add: parseUnary.simps or_loop.simps)

text \<open>What the parser makes of a printed filter that is followed by other tokens, at each level.\<close>

definition parses_back :: "float_parser \<Rightarrow> (go_float \<Rightarrow> string) \<Rightarrow> filter \<Rightarrow> bool" where
  "parses_back pf show f =
    (\<forall>rest. parseUnary pf (filter_tokens show f 2 @ rest) = Inr (f, rest)
       \<and> parseAnd pf (filter_tokens show f 1 @ rest) = and_loop pf f rest
       \<and> (\<not> EqualFold (peek rest) ''and'' \<longrightarrow> parseOr pf (filter_tokens show f 0 @ rest) = or_loop pf f rest))"

lemma parses_back_unary:
  assumes "\<And>level rest. parseUnary pf (filter_tokens show f level @ rest) = Inr (f, rest)"
  shows "parses_back pf show f"
  unfolding parses_back_def using assms parse_levels by blast

lemma parses_back_nested:
  assumes "parses_back pf show f"
  shows "parseOr pf (filter_tokens show f 0 @ '')'' # rest) = Inr (f, '')'' # rest)"
    "parseOr pf (filter_tokens show f 0 @ '']'' # rest) = Inr (f, '']'' # rest)"
  using assms by (simp_all add: parses_back_def or_loop.simps)

lemma parses_back_and:
  assumes "parses_back pf show l" "parses_back pf show r"
  shows "parses_back pf show (Logical OpAnd l r)"
proof -
  let ?ts = "filter_tokens show l 1 @ ''and'' # filter_tokens show r 2"
  have A: "parseAnd pf (?ts @ rest) = and_loop pf (Logical OpAnd l r) rest" for rest
    using assms by (simp add: parses_back_def and_loop.simps[of pf l])
  have O: "\<not> EqualFold (peek rest) ''and'' \<Longrightarrow> parseOr pf (?ts @ rest) = or_loop pf (Logical OpAnd l r) rest" for rest
    by (rule parse_levels(2)[OF A])
  have "parseUnary pf (''('' # ?ts @ '')'' # rest) = Inr (Logical OpAnd l r, rest)" for rest
    by (rule parse_parenthesized) (rule O, simp)
  with A O show ?thesis by (simp add: parses_back_def parenthesized_def)
qed

lemma parses_back_or:
  assumes "parses_back pf show l" "parses_back pf show r"
  shows "parses_back pf show (Logical OpOr l r)"
proof -
  let ?ts = "filter_tokens show l 0 @ ''or'' # filter_tokens show r 1"
  have O: "parseOr pf (?ts @ rest) = or_loop pf (Logical OpOr l r) rest" if "\<not> EqualFold (peek rest) ''and''" for rest
    using assms that by (simp add: parses_back_def or_loop.simps[of pf l] and_loop.simps)
  have U: "parseUnary pf (''('' # ?ts @ '')'' # rest) = Inr (Logical OpOr l r, rest)" for rest
    by (rule parse_parenthesized) (rule O, simp)
  then have "parseAnd pf (''('' # ?ts @ '')'' # rest) = and_loop pf (Logical OpOr l r) rest" for rest
    by (rule parse_levels(1))
  with U O show ?thesis by (simp add: parses_back_def parenthesized_def)
qed

lemma printed_parses_back: "filter_ok pf show f \<Longrightarrow> parses_back pf show f"
proof (induction f)
  case (Comparison p op v)
  then show ?case by (intro parses_back_unary parse_comparison)
next
  case (Logical op l r)
  then show ?case using parses_back_and parses_back_or by (cases op) auto
next
  case (Negated f)
  then have "parses_back pf show f" by simp
  then show ?case by (intro parses_back_unary) (simp add: parseUnary.simps parses_back_nested)
next
  case (ValuePath p f)
  then have p: "path_ok p" and "apSub p = []" "parses_back pf show f" by auto
  then show ?case
    using path_text_start[OF p] parseAttrPath_String[OF p]
    by (intro parses_back_unary) (simp add: parseUnary.simps parseAttributeExpression.simps parses_back_nested)
qed

lemma printed_tokens_ok: "filter_ok pf show f \<Longrightarrow> list_all token_ok (filter_tokens show f level)"
proof (induction f arbitrary: level)
  case (Comparison p op v)
  have "token_ok (value_text show v)" if "value_ok pf show v"
    using that by (cases v) (auto simp: token_ok_def value_text_def value_ok_def word_char_def blank_def bracket_def quote_mark_def)
  moreover have "token_ok (path_String p)" using path_text_start[of p] Comparison by (auto simp: token_ok_def)
  moreover have "token_ok ''pr''" by (auto simp: token_ok_def word_char_def blank_def bracket_def quote_mark_def)
  moreover have "token_ok op" if "op \<in> set comparison_operators" using operator_lower[OF that] by (simp add: token_ok_def)
  ultimately show ?case using Comparison by (auto split: if_splits)
next
  case (ValuePath p f)
  moreover have "token_ok (path_String p)" using path_text_start[of p] ValuePath by (auto simp: token_ok_def)
  ultimately show ?case by (simp add: token_ok_def bracket_def)
qed (auto simp: parenthesized_def, auto simp: token_ok_def word_char_def blank_def bracket_def quote_mark_def)

text \<open>
  C21: A filter that is written out, with parentheses where precedence needs them, is parsed back into the
  same filter: \<open>and\<close> binds more tightly than \<open>or\<close>, both associate to the left, and strings keep every character. The strings are valid UTF-8, as other bytes are replaced.
\<close>

theorem filter_roundtrip:
  assumes "filter_ok pf show f" "length (filter_text show f) \<le> maxFilterLength"
  shows "parseFilter pf (filter_text show f) = Inr f"
proof -
  have "tokenizeFilter (filter_text show f) = Inr (filter_tokens show f 0)"
    unfolding filter_text_def by (rule tokenize_text[OF printed_tokens_ok[OF assms(1)]])
  moreover have "parseOr pf (filter_tokens show f 0) = Inr (f, [])"
    using printed_parses_back[OF assms(1)] parses_back_def[of pf "show" f] by (auto simp: peek_def or_loop.simps dest!: spec[of _ "[]"])
  moreover have "filter_tokens show f 0 \<noteq> []" by (cases f) (auto simp: parenthesized_def)
  ultimately show ?thesis using assms(2) by (simp add: parseFilter_def)
qed

definition example_filter :: filter where
  "example_filter =
    Logical OpAnd
      (Logical OpOr (Comparison \<lparr>apURN = [], apName = ''type'', apSub = []\<rparr> ''eq'' (JStr [CHR ''w'', quote_mark, CHR 0x0A]))
        (Comparison \<lparr>apURN = ''urn:x'', apName = ''size'', apSub = ''max''\<rparr> ''gt'' (JFloat (Finite 5))))
      (Negated (ValuePath \<lparr>apURN = [], apName = ''emails'', apSub = []\<rparr> (Comparison \<lparr>apURN = [], apName = ''primary'', apSub = []\<rparr> ''pr'' JNull)))"

definition example_floats :: float_parser where
  "example_floats s = (if s = ''5'' then Some (Finite 5) else None)"

theorem filter_roundtrip_witness:
  "parseFilter example_floats (filter_text (\<lambda>_. ''5'') example_filter) = Inr example_filter
   \<and> hd (filter_tokens (\<lambda>_. ''5'') example_filter 0) = ''(''"
proof
  have "filter_ok example_floats (\<lambda>_. ''5'') example_filter"
    by (simp add: example_filter_def example_floats_def path_ok_def value_ok_def validAttributeName_def letter_def digit_char_def
        comparison_operators_def path_String_def EqualFold_ToLower ToLower_def to_lower_def HasPrefix_def word_char_def blank_def
        bracket_def quote_mark_def)
  moreover have "length (filter_text (\<lambda>_. ''5'') example_filter) \<le> maxFilterLength"
    by (simp add: filter_text_def example_filter_def maxFilterLength_def parenthesized_def path_String_def value_text_def
        quote_string_def escape_char_def quote_mark_def backslash_def)
  ultimately show "parseFilter example_floats (filter_text (\<lambda>_. ''5'') example_filter) = Inr example_filter"
    by (rule filter_roundtrip)
qed (simp add: example_filter_def parenthesized_def)

section \<open>Size\<close>

primrec nodes :: "filter \<Rightarrow> nat" where
  "nodes (Comparison _ _ _) = 1"
| "nodes (Logical _ l r) = nodes l + nodes r + 1"
| "nodes (Negated f) = nodes f + 1"
| "nodes (ValuePath _ f) = nodes f + 1"

lemma parse_nodes:
  "parseOr pf ts = Inr (f, r) \<Longrightarrow> nodes f + length r \<le> length ts"
  "or_loop pf left ts = Inr (f, r) \<Longrightarrow> nodes f + length r \<le> nodes left + length ts"
  "parseAnd pf ts = Inr (f, r) \<Longrightarrow> nodes f + length r \<le> length ts"
  "and_loop pf left ts = Inr (f, r) \<Longrightarrow> nodes f + length r \<le> nodes left + length ts"
  "parseUnary pf ts = Inr (f, r) \<Longrightarrow> nodes f + length r \<le> length ts"
  "parseAttributeExpression pf ts = Inr (f, r) \<Longrightarrow> nodes f + length r \<le> length ts"
proof (induction arbitrary: f r and f r and f r and f r and f r and f r
    rule: parseOr_or_loop_parseAnd_and_loop_parseUnary_parseAttributeExpression.induct)
  case (1 pf ts)
  then show ?case by (fastforce simp: parseOr.simps[of pf ts] bind_ok_Inr)
next
  case (2 pf left ts)
  then show ?case
    using EqualFold_peek[of ts "''or''"] by (fastforce simp: or_loop.simps[of pf left ts] bind_ok_Inr split: if_splits)
next
  case (3 pf ts)
  then show ?case by (fastforce simp: parseAnd.simps[of pf ts] bind_ok_Inr)
next
  case (4 pf left ts)
  then show ?case
    using EqualFold_peek[of ts "''and''"] by (fastforce simp: and_loop.simps[of pf left ts] bind_ok_Inr split: if_splits)
next
  case (5 pf ts)
  from "5.prems" consider
      (negated) t1 inner t2 where "EqualFold (peek ts) ''not''" "expect ''('' (next_tokens ts) = Inr t1" "parseOr pf t1 = Inr (inner, t2)"
        "expect '')'' t2 = Inr r" "f = Negated inner"
    | (nested) t2 where "\<not> EqualFold (peek ts) ''not''" "peek ts = ''(''" "parseOr pf (next_tokens ts) = Inr (f, t2)" "expect '')'' t2 = Inr r"
    | (attribute) "\<not> EqualFold (peek ts) ''not''" "peek ts \<noteq> ''(''" "peek ts \<noteq> []" "parseAttributeExpression pf ts = Inr (f, r)"
    by (auto simp: parseUnary.simps[of pf ts] bind_ok_Inr split: if_splits)
  then show ?case
  proof cases
    case negated
    then show ?thesis
      using "5.IH"(1)[OF negated(1,2,3)] EqualFold_peek[of ts "''not''"] expect_length[of "''(''"] expect_length[of "'')''"] by fastforce
  next
    case nested
    then show ?thesis
      using "5.IH"(2)[OF nested(1,2,3)] next_tokens_length(1)[of ts] expect_length[of "'')''"] by fastforce
  next
    case attribute
    then show ?thesis by (rule "5.IH"(3))
  qed
next
  case (6 pf ts)
  from "6.prems" consider
      (filtered) p g t2 where "parseAttrPath (peek ts) = Some p" "peek (next_tokens ts) = ''[''"
        "parseOr pf (next_tokens (next_tokens ts)) = Inr (g, t2)" "expect '']'' t2 = Inr r" "f = ValuePath p g"
    | (compared) p where "parseAttrPath (peek ts) = Some p" "nodes f = 1"
        "r = next_tokens (next_tokens ts) \<or> r = next_tokens (next_tokens (next_tokens ts))"
    by (auto simp: parseAttributeExpression.simps[of pf ts] bind_ok_Inr Let_def split: if_splits option.splits)
  note cases = this
  note shorter = next_tokens_length(1)[of "next_tokens ts"] next_tokens_length(1)[of "next_tokens (next_tokens ts)"]
  from cases show ?case
  proof cases
    case filtered
    from "6.IH"[OF filtered(1) refl filtered(2,3)] expect_length[OF filtered(4)] shorter attr_path_token[OF filtered(1)] filtered(5)
    show ?thesis by simp
  next
    case compared
    from compared(2,3) shorter attr_path_token[OF compared(1)] show ?thesis by (elim disjE; simp)
  qed
qed

lemma token_count: "tokenizeFilter s = Inr ts \<Longrightarrow> length ts \<le> length s"
proof (induction s arbitrary: ts rule: tokenizeFilter.induct)
  case (2 c s)
  have "length (dropWhile word_char s) \<le> length s" by (rule length_dropWhile_le)
  with 2 show ?case
    by (fastforce simp: bind_ok_Inr dest: scan_string_length split: if_splits option.splits)
qed simp

text \<open>
  The bound on the text of a filter bounds the filter: a parsed filter has at most as many nodes as the text
  has characters, and so at most the maximal length of a text.
\<close>

theorem parsed_filter_bounded:
  assumes "parseFilter pf s = Inr f"
  shows "nodes f \<le> length s \<and> length s \<le> maxFilterLength"
proof -
  obtain ts where "tokenizeFilter s = Inr ts" "parseOr pf ts = Inr (f, [])" "length s \<le> maxFilterLength"
    using assms by (auto simp: parseFilter_def bind_ok_Inr split: if_splits)
  with token_count[of s ts] parse_nodes(1)[of pf ts f "[]"] show ?thesis by auto
qed

theorem parsed_filter_bounded_witness:
  "nodes (Logical OpAnd (Comparison \<lparr>apURN = [], apName = ''a'', apSub = []\<rparr> ''pr'' JNull)
           (Comparison \<lparr>apURN = [], apName = ''b'', apSub = []\<rparr> ''eq'' (JBool True))) \<le> length ''a pr AND b eq true''"
proof -
  have "parseFilter (\<lambda>_. None) ''a pr AND b eq true'' =
    Inr (Logical OpAnd (Comparison \<lparr>apURN = [], apName = ''a'', apSub = []\<rparr> ''pr'' JNull)
           (Comparison \<lparr>apURN = [], apName = ''b'', apSub = []\<rparr> ''eq'' (JBool True)))"
    by code_simp
  from parsed_filter_bounded[OF this] show ?thesis by simp
qed

end
