(* ===== verification/Scim_Resource.thy ===== *)
theory Scim_Resource
  imports Scim_Schema
begin

text \<open>
  The representation of users and groups as SCIM resources and back (pkg/scim/resource.go). A resource is a
  JSON object; times are given as their RFC 3339 text. Every error of this file is \<open>invalidValue\<close>, so that the
  result does not depend on which member of a map a loop visits first.
\<close>

section \<open>Stored users and groups\<close>

record SCIMName =
  snFormatted :: string
  snFamilyName :: string
  snGivenName :: string
  snMiddleName :: string
  snHonorificPrefix :: string
  snHonorificSuffix :: string

record SCIMMultiValue =
  mvValue :: string
  mvDisplay :: string
  mvType :: string
  mvPrimary :: bool

record SCIMUserProfile =
  spName :: "SCIMName option"
  spDisplayName :: string
  spNickName :: string
  spProfileURL :: string
  spTitle :: string
  spUserType :: string
  spPreferredLanguage :: string
  spLocale :: string
  spTimezone :: string
  spEmails :: "SCIMMultiValue list"
  spPhoneNumbers :: "SCIMMultiValue list"

record SCIMGroupReference =
  grID :: string
  grDisplayName :: string

record SCIMUser =
  suID :: string
  suUserName :: string
  suExternalID :: string
  suActive :: bool
  suProfile :: SCIMUserProfile
  suGroups :: "SCIMGroupReference list"
  suCreatedAt :: string
  suUpdatedAt :: string

record SCIMUserInput =
  uiUserName :: string
  uiExternalID :: string
  uiActive :: "bool option"
  uiProfile :: SCIMUserProfile

record SCIMGroupMember =
  gmID :: string
  gmUserName :: string

record SCIMGroup =
  sgID :: string
  sgGroupID :: string
  sgDisplayName :: string
  sgMembers :: "SCIMGroupMember list option"
  sgRevision :: int
  sgCreatedAt :: string
  sgUpdatedAt :: string

record SCIMGroupInput =
  giDisplayName :: string
  giMemberIDs :: "string list"

section \<open>Representations\<close>

definition setString :: "string \<Rightarrow> string \<Rightarrow> obj \<Rightarrow> obj" where
  "setString key value m = (if value \<noteq> [] then set_field key (JStr value) m else m)"

definition stringValue :: "obj \<Rightarrow> string \<Rightarrow> string" where
  "stringValue m key = (case field m key of JStr s \<Rightarrow> s | _ \<Rightarrow> [])"

definition listValue :: "json \<Rightarrow> json list" where
  "listValue v = (case v of JList xs \<Rightarrow> xs | _ \<Rightarrow> [])"

definition as_object :: "json \<Rightarrow> obj" where
  "as_object v = (case v of JObj m \<Rightarrow> m | _ \<Rightarrow> [])"

definition meta :: "string \<Rightarrow> string \<Rightarrow> string \<Rightarrow> string \<Rightarrow> obj" where
  "meta resourceType created lastModified location =
    [(''resourceType'', JStr resourceType), (''created'', JStr created), (''lastModified'', JStr lastModified), (''location'', JStr location)]"

definition multi_value :: "SCIMMultiValue \<Rightarrow> obj" where
  "multi_value v =
    (let m = setString ''type'' (mvType v) (setString ''display'' (mvDisplay v) (setString ''value'' (mvValue v) []))
     in if mvPrimary v then set_field ''primary'' (JBool True) m else m)"

definition multiValues :: "SCIMMultiValue list \<Rightarrow> json list" where
  "multiValues values = map (\<lambda>v. JObj (multi_value v)) values"

definition multi_value_from :: "obj \<Rightarrow> SCIMMultiValue" where
  "multi_value_from m =
    \<lparr>mvValue = stringValue m ''value'', mvDisplay = stringValue m ''display'', mvType = stringValue m ''type'',
     mvPrimary = (field m ''primary'' = JBool True)\<rparr>"

definition empty_multi_value :: SCIMMultiValue where
  "empty_multi_value = \<lparr>mvValue = [], mvDisplay = [], mvType = [], mvPrimary = False\<rparr>"

definition multiValuesFrom :: "json \<Rightarrow> SCIMMultiValue list" where
  "multiValuesFrom value = filter (\<lambda>v. v \<noteq> empty_multi_value) (map (\<lambda>item. multi_value_from (as_object item)) (listValue value))"

definition name_fields :: "SCIMName \<Rightarrow> obj" where
  "name_fields n =
    (setString ''honorificSuffix'' (snHonorificSuffix n) \<circ> setString ''honorificPrefix'' (snHonorificPrefix n)
     \<circ> setString ''middleName'' (snMiddleName n) \<circ> setString ''givenName'' (snGivenName n)
     \<circ> setString ''familyName'' (snFamilyName n) \<circ> setString ''formatted'' (snFormatted n)) []"

definition set_list :: "string \<Rightarrow> json list \<Rightarrow> obj \<Rightarrow> obj" where
  "set_list key values m = (if values \<noteq> [] then set_field key (JList values) m else m)"

definition set_name :: "SCIMName option \<Rightarrow> obj \<Rightarrow> obj" where
  "set_name name m =
    (case name of
       None \<Rightarrow> m
     | Some n \<Rightarrow> if name_fields n \<noteq> [] then set_field ''name'' (JObj (name_fields n)) m else m)"

definition group_reference :: "string \<Rightarrow> SCIMGroupReference \<Rightarrow> json" where
  "group_reference baseURL g =
    JObj [(''value'', JStr (grID g)), (''$ref'', JStr (baseURL @ ''/Groups/'' @ grID g)), (''display'', JStr (grDisplayName g)),
          (''type'', JStr ''direct'')]"

definition userResource :: "SCIMUser \<Rightarrow> string \<Rightarrow> obj" where
  "userResource u baseURL =
    (let p = suProfile u
     in (set_list ''phoneNumbers'' (multiValues (spPhoneNumbers p)) \<circ> set_list ''emails'' (multiValues (spEmails p))
         \<circ> setString ''timezone'' (spTimezone p) \<circ> setString ''locale'' (spLocale p)
         \<circ> setString ''preferredLanguage'' (spPreferredLanguage p) \<circ> setString ''userType'' (spUserType p)
         \<circ> setString ''title'' (spTitle p) \<circ> setString ''profileUrl'' (spProfileURL p) \<circ> setString ''nickName'' (spNickName p)
         \<circ> setString ''displayName'' (spDisplayName p) \<circ> set_name (spName p) \<circ> setString ''externalId'' (suExternalID u))
         [(''schemas'', JList [JStr userSchema]), (''id'', JStr (suID u)), (''userName'', JStr (suUserName u)),
          (''active'', JBool (suActive u)), (''groups'', JList (map (group_reference baseURL) (suGroups u))),
          (''meta'', JObj (meta ''User'' (suCreatedAt u) (suUpdatedAt u) (baseURL @ ''/Users/'' @ suID u)))])"

definition member_value :: "string \<Rightarrow> SCIMGroupMember \<Rightarrow> json" where
  "member_value baseURL m =
    JObj [(''value'', JStr (gmID m)), (''$ref'', JStr (baseURL @ ''/Users/'' @ gmID m)), (''display'', JStr (gmUserName m)),
          (''type'', JStr ''User'')]"

definition groupResource :: "SCIMGroup \<Rightarrow> string \<Rightarrow> obj" where
  "groupResource g baseURL =
    (let m = [(''schemas'', JList [JStr groupSchema]), (''id'', JStr (sgID g)), (''displayName'', JStr (sgDisplayName g)),
              (''meta'', JObj (meta ''Group'' (sgCreatedAt g) (sgUpdatedAt g) (baseURL @ ''/Groups/'' @ sgID g)))]
     in case sgMembers g of
          None \<Rightarrow> m
        | Some members \<Rightarrow> set_field ''members'' (JList (map (member_value baseURL) members)) m)"

section \<open>Canonical values\<close>

function canonicalSingle :: "attribute \<Rightarrow> json \<Rightarrow> json scim_result" where
  "canonicalSingle attr value =
    (if aType attr = typeComplex
     then (case value of
             JObj m \<Rightarrow>
               bind_ok (map_ok (\<lambda>(key, subValue).
                   case subAttribute attr key of
                     None \<Rightarrow> Inr []
                   | Some sub \<Rightarrow>
                       if subValue = JNull then Inr []
                       else bind_ok (canonicalSingle sub subValue) (\<lambda>v. Inr [(aName sub, v)])) m)
                 (\<lambda>fields. Inr (JObj (copy_fields (concat fields) [])))
           | _ \<Rightarrow> Inl invalidValue)
     else if aType attr = typeBoolean
     then (case value of
             JBool b \<Rightarrow> Inr (JBool b)
           | JStr s \<Rightarrow>
               if EqualFold s ''true'' then Inr (JBool True)
               else if EqualFold s ''false'' then Inr (JBool False)
               else Inl invalidValue
           | _ \<Rightarrow> Inl invalidValue)
     else (case value of JStr s \<Rightarrow> Inr (JStr s) | _ \<Rightarrow> Inl invalidValue))"
  by pat_completeness auto
termination by (relation "measure (\<lambda>(attr, v). size v)") (auto dest: member_smaller)

declare canonicalSingle.simps [simp del]

definition canonicalList :: "attribute \<Rightarrow> json \<Rightarrow> json list scim_result" where
  "canonicalList attr value =
    (let items = (case value of JList xs \<Rightarrow> xs | _ \<Rightarrow> [value])
     in map_ok (canonicalSingle attr) (filter (\<lambda>item. item \<noteq> JNull) items))"

definition canonicalValue :: "attribute \<Rightarrow> json \<Rightarrow> json scim_result" where
  "canonicalValue attr value =
    (if aMultiValued attr then bind_ok (canonicalList attr value) (\<lambda>vs. Inr (JList vs)) else canonicalSingle attr value)"

definition canonical_member :: "resourceSchema \<Rightarrow> string \<times> json \<Rightarrow> obj scim_result" where
  "canonical_member schema e =
    (case schema_attribute schema (fst e) of
       None \<Rightarrow> Inr []
     | Some attr \<Rightarrow>
         if aMutability attr = mutabilityReadOnly \<or> snd e = JNull then Inr []
         else bind_ok (canonicalValue attr (snd e)) (\<lambda>v. Inr [(aName attr, v)]))"

definition canonicalResource :: "resourceSchema \<Rightarrow> obj \<Rightarrow> obj scim_result" where
  "canonicalResource schema body =
    bind_ok (map_ok (canonical_member schema) body) (\<lambda>fields. Inr (copy_fields (concat fields) []))"

section \<open>Inputs\<close>

definition primaryValues :: "json \<Rightarrow> nat" where
  "primaryValues value = length (filter (\<lambda>item. field (as_object item) ''primary'' = JBool True) (listValue value))"

definition name_from :: "obj \<Rightarrow> SCIMName" where
  "name_from n =
    \<lparr>snFormatted = stringValue n ''formatted'', snFamilyName = stringValue n ''familyName'', snGivenName = stringValue n ''givenName'',
     snMiddleName = stringValue n ''middleName'', snHonorificPrefix = stringValue n ''honorificPrefix'',
     snHonorificSuffix = stringValue n ''honorificSuffix''\<rparr>"

definition user_input :: "obj \<Rightarrow> SCIMUserInput" where
  "user_input m =
    \<lparr>uiUserName = stringValue m ''userName'', uiExternalID = stringValue m ''externalId'',
     uiActive = (case field m ''active'' of JBool b \<Rightarrow> Some b | _ \<Rightarrow> None),
     uiProfile =
       \<lparr>spName = (case field m ''name'' of JObj n \<Rightarrow> Some (name_from n) | _ \<Rightarrow> None),
        spDisplayName = stringValue m ''displayName'', spNickName = stringValue m ''nickName'',
        spProfileURL = stringValue m ''profileUrl'', spTitle = stringValue m ''title'', spUserType = stringValue m ''userType'',
        spPreferredLanguage = stringValue m ''preferredLanguage'', spLocale = stringValue m ''locale'',
        spTimezone = stringValue m ''timezone'', spEmails = multiValuesFrom (field m ''emails''),
        spPhoneNumbers = multiValuesFrom (field m ''phoneNumbers'')\<rparr>\<rparr>"

definition userInputFromResource :: "obj \<Rightarrow> SCIMUserInput scim_result" where
  "userInputFromResource body =
    bind_ok (canonicalResource userResourceSchema body) (\<lambda>m.
      if TrimSpace (uiUserName (user_input m)) = [] then Inl invalidValue
      else if list_ex (\<lambda>attr. primaryValues (field m attr) > 1) [''emails'', ''phoneNumbers''] then Inl invalidValue
      else Inr (user_input m))"

definition groupMemberIDs :: "json \<Rightarrow> string list scim_result" where
  "groupMemberIDs members =
    map_ok (\<lambda>v.
      let member = as_object v; mid = stringValue member ''value''; t = stringValue member ''type''
      in if mid = [] then Inl invalidValue
         else if t \<noteq> [] \<and> \<not> EqualFold t ''User'' then Inl invalidValue
         else Inr mid) (listValue members)"

definition groupInputFromResource :: "obj \<Rightarrow> SCIMGroupInput scim_result" where
  "groupInputFromResource body =
    bind_ok (canonicalResource groupResourceSchema body) (\<lambda>m.
      bind_ok (groupMemberIDs (field m ''members'')) (\<lambda>memberIDs.
        if TrimSpace (stringValue m ''displayName'') = [] then Inl invalidValue
        else Inr \<lparr>giDisplayName = stringValue m ''displayName'', giMemberIDs = memberIDs\<rparr>))"

section \<open>Typing\<close>

text \<open>A value of an attribute: objects have the sub-attributes of the schema under their canonical names.\<close>

function typed :: "attribute \<Rightarrow> json \<Rightarrow> bool" where
  "typed attr v =
    (if aType attr = typeComplex
     then (case v of
             JObj m \<Rightarrow>
               distinct (map fst m)
               \<and> list_all (\<lambda>(k, w). case find (\<lambda>sub. aName sub = k) (aSubAttributes attr) of None \<Rightarrow> False | Some sub \<Rightarrow> typed sub w) m
           | _ \<Rightarrow> False)
     else if aType attr = typeBoolean then (case v of JBool _ \<Rightarrow> True | _ \<Rightarrow> False)
     else (case v of JStr _ \<Rightarrow> True | _ \<Rightarrow> False))"
  by pat_completeness auto
termination by (relation "measure (\<lambda>(attr, v). size v)") (auto dest: member_smaller)

declare typed.simps [simp del]

definition typed_value :: "attribute \<Rightarrow> json \<Rightarrow> bool" where
  "typed_value attr v = (if aMultiValued attr then (case v of JList xs \<Rightarrow> list_all (typed attr) xs | _ \<Rightarrow> False) else typed attr v)"

text \<open>Attributes whose sub-attributes have different names, ignoring case.\<close>

definition fold_distinct :: "attribute list \<Rightarrow> bool" where
  "fold_distinct as = distinct (map (ToLower \<circ> aName) as)"

primrec attribute_ok :: "attribute \<Rightarrow> bool" where
  "attribute_ok (Attribute name t mv req exact m unrem subs) = (fold_distinct subs \<and> list_all (\<lambda>x. x) (map attribute_ok subs))"

definition schema_ok :: "resourceSchema \<Rightarrow> bool" where
  "schema_ok s = (list_all attribute_ok (rsAttributes s @ commonAttributes) \<and> fold_distinct (rsAttributes s @ commonAttributes))"

lemma fold_distinct_unique:
  "fold_distinct as \<Longrightarrow> a \<in> set as \<Longrightarrow> b \<in> set as \<Longrightarrow> EqualFold (aName b) (aName a) \<Longrightarrow> b = a"
  by (auto simp: fold_distinct_def distinct_map inj_on_def EqualFold_ToLower)

lemma find_by_name:
  assumes "fold_distinct as" "find (\<lambda>a. EqualFold (aName a) name) as = Some a"
  shows "find (\<lambda>b. aName b = aName a) as = Some a" "find (\<lambda>b. EqualFold (aName b) (aName a)) as = Some a" "a \<in> set as"
proof -
  show a: "a \<in> set as" using find_sound[OF assms(2)] by simp
  show "find (\<lambda>b. aName b = aName a) as = Some a" "find (\<lambda>b. EqualFold (aName b) (aName a)) as = Some a"
    by (rule find_unique[OF a]; use fold_distinct_unique[OF assms(1) a] in \<open>simp add: EqualFold_ToLower\<close>)+
qed

lemma find_exact_name:
  assumes "fold_distinct as" "find (\<lambda>a. aName a = name) as = Some a"
  shows "aName a = name" "find (\<lambda>b. EqualFold (aName b) name) as = Some a" "a \<in> set as"
proof -
  show name: "aName a = name" and a: "a \<in> set as" using find_sound[OF assms(2)] by auto
  show "find (\<lambda>b. EqualFold (aName b) name) as = Some a"
    by (rule find_unique[OF a]) (use fold_distinct_unique[OF assms(1) a] name in \<open>auto simp: EqualFold_ToLower\<close>)
qed

lemma attribute_ok_subs: "attribute_ok a \<Longrightarrow> fold_distinct (aSubAttributes a) \<and> (\<forall>sub\<in>set (aSubAttributes a). attribute_ok sub)"
  by (cases a) (auto simp: list_all_iff)

lemma canonicalSingle_typed:
  assumes "attribute_ok attr" "canonicalSingle attr v = Inr w"
  shows "typed attr w"
  using assms
proof (induction attr v arbitrary: w rule: canonicalSingle.induct)
  case (1 attr v)
  show ?case
  proof (cases "aType attr = typeComplex")
    case complex: True
    then obtain m fields where v: "v = JObj m" and w: "w = JObj (copy_fields (concat fields) [])"
      and fields: "map_ok (\<lambda>(key, subValue). case subAttribute attr key of None \<Rightarrow> Inr []
          | Some sub \<Rightarrow> if subValue = JNull then Inr [] else bind_ok (canonicalSingle sub subValue) (\<lambda>v. Inr [(aName sub, v)])) m = Inr fields"
      using "1.prems"(2) by (auto simp: canonicalSingle.simps[of attr v] bind_ok_Inr split: json.splits)
    have entry: "\<exists>sub. find (\<lambda>sub. aName sub = k) (aSubAttributes attr) = Some sub \<and> typed sub x" if "(k, x) \<in> set (copy_fields (concat fields) [])" for k x
    proof -
      have "(k, x) \<in> set (concat fields)" using copy_fields_subset[of "concat fields" "[]"] that by auto
      then obtain es where "es \<in> set fields" "(k, x) \<in> set es" by auto
      then obtain key subValue where mem: "(key, subValue) \<in> set m"
        and "(case subAttribute attr key of None \<Rightarrow> Inr [] | Some sub \<Rightarrow> if subValue = JNull then Inr []
            else bind_ok (canonicalSingle sub subValue) (\<lambda>v. Inr [(aName sub, v)])) = (Inr es :: obj scim_result)"
        using map_ok_source[OF fields] by fastforce
      with \<open>(k, x) \<in> set es\<close> obtain sub where sub: "subAttribute attr key = Some sub" "subValue \<noteq> JNull" "k = aName sub"
        "canonicalSingle sub subValue = Inr x"
        by (auto simp: bind_ok_Inr split: option.splits if_splits)
      have ok: "fold_distinct (aSubAttributes attr)" "\<forall>s\<in>set (aSubAttributes attr). attribute_ok s"
        using attribute_ok_subs[OF "1.prems"(1)] by auto
      note found = find_by_name[OF ok(1) sub(1)[unfolded subAttribute_def]]
      have "typed sub x" using "1.IH"[OF complex v mem refl sub(1,2)] ok(2) found(3) sub(4) by blast
      with found(1) sub(3) show ?thesis by blast
    qed
    then have "list_all (\<lambda>(k, x). case find (\<lambda>sub. aName sub = k) (aSubAttributes attr) of None \<Rightarrow> False | Some sub \<Rightarrow> typed sub x)
        (copy_fields (concat fields) [])"
      by (fastforce simp: list_all_iff)
    with complex copy_fields_keys[of "[]" "concat fields"] show ?thesis unfolding w by (subst typed.simps) simp
  next
    case False
    with "1.prems"(2) show ?thesis
      by (auto simp: canonicalSingle.simps[of attr v] typed.simps[of attr w] split: json.splits if_splits)
  qed
qed

lemma canonicalSingle_id:
  assumes "attribute_ok attr" "typed attr v"
  shows "canonicalSingle attr v = Inr v"
  using assms
proof (induction attr v rule: typed.induct)
  case (1 attr v)
  show ?case
  proof (cases "aType attr = typeComplex")
    case complex: True
    then obtain m where v: "v = JObj m" and keys: "distinct (map fst m)"
      and subs: "list_all (\<lambda>(k, w). case find (\<lambda>sub. aName sub = k) (aSubAttributes attr) of None \<Rightarrow> False | Some sub \<Rightarrow> typed sub w) m"
      using "1.prems"(2) by (auto simp: typed.simps[of attr v] split: json.splits)
    have ok: "fold_distinct (aSubAttributes attr)" "\<forall>s\<in>set (aSubAttributes attr). attribute_ok s"
      using attribute_ok_subs[OF "1.prems"(1)] by auto
    let ?f = "\<lambda>(key, subValue). case subAttribute attr key of None \<Rightarrow> Inr []
        | Some sub \<Rightarrow> if subValue = JNull then Inr [] else bind_ok (canonicalSingle sub subValue) (\<lambda>v. Inr [(aName sub, v)])"
    have "map_ok ?f m = Inr (map (\<lambda>e. [e]) m)"
    proof (rule map_ok_same)
      fix e assume e: "e \<in> set m"
      obtain k w where kw: "e = (k, w)" by (cases e)
      from subs e kw obtain sub where sub: "find (\<lambda>sub. aName sub = k) (aSubAttributes attr) = Some sub" "typed sub w"
        by (fastforce simp: list_all_iff split: option.splits)
      note found = find_exact_name[OF ok(1) sub(1)]
      have "w \<noteq> JNull" using sub(2) by (auto simp: typed.simps[of sub JNull] split: if_splits)
      moreover have "canonicalSingle sub w = Inr w"
        using "1.IH"[OF complex v e _ sub(1)] kw ok(2) found(3) sub(2) by simp
      ultimately show "?f e = Inr [e]" using found by (simp add: kw subAttribute_def)
    qed
    moreover have "copy_fields m [] = m" using copy_fields_append[of "[]" m] keys by simp
    ultimately show ?thesis using complex v by (simp add: canonicalSingle.simps[of attr "JObj m"])
  next
    case False
    with "1.prems"(2) show ?thesis
      by (auto simp: canonicalSingle.simps[of attr v] typed.simps[of attr v] split: json.splits if_splits)
  qed
qed

lemma typed_not_null: "typed attr v \<Longrightarrow> v \<noteq> JNull" "typed_value attr v \<Longrightarrow> v \<noteq> JNull"
  by (auto simp: typed_value_def typed.simps[of attr JNull] split: if_splits)

lemma canonicalValue_typed:
  assumes "attribute_ok attr" "canonicalValue attr v = Inr w"
  shows "typed_value attr w"
proof (cases "aMultiValued attr")
  case True
  then obtain vs where vs: "canonicalList attr v = Inr vs" "w = JList vs"
    using assms(2) by (auto simp: canonicalValue_def bind_ok_Inr)
  have "typed attr x" if "x \<in> set vs" for x
    using map_ok_source[OF vs(1)[unfolded canonicalList_def Let_def] that] canonicalSingle_typed[OF assms(1)] by blast
  with True vs(2) show ?thesis by (simp add: typed_value_def list_all_iff)
qed (use assms canonicalSingle_typed in \<open>auto simp: canonicalValue_def typed_value_def\<close>)

lemma canonicalValue_id:
  assumes "attribute_ok attr" "typed_value attr v"
  shows "canonicalValue attr v = Inr v"
proof (cases "aMultiValued attr")
  case True
  then obtain xs where xs: "v = JList xs" "\<forall>x\<in>set xs. typed attr x"
    using assms(2) by (auto simp: typed_value_def list_all_iff split: json.splits)
  then have "filter (\<lambda>item. item \<noteq> JNull) xs = xs" using typed_not_null(1) by (auto simp: filter_id_conv)
  moreover have "map_ok (canonicalSingle attr) xs = Inr (map (\<lambda>x. x) xs)"
    using xs(2) by (intro map_ok_same canonicalSingle_id[OF assms(1)]) blast
  ultimately show ?thesis using True xs(1) by (simp add: canonicalValue_def canonicalList_def)
qed (use assms canonicalSingle_id in \<open>auto simp: canonicalValue_def typed_value_def\<close>)

section \<open>Canonical resources\<close>

definition writable :: "resourceSchema \<Rightarrow> string \<Rightarrow> bool" where
  "writable schema k = (case schema_attribute schema k of None \<Rightarrow> False | Some attr \<Rightarrow> aMutability attr \<noteq> mutabilityReadOnly)"

text \<open>A member of a resource: a canonical name, and a value of its type unless it is read-only.\<close>

definition member_ok :: "resourceSchema \<Rightarrow> string \<times> json \<Rightarrow> bool" where
  "member_ok schema e =
    (case schema_attribute schema (fst e) of
       None \<Rightarrow> False
     | Some attr \<Rightarrow> aName attr = fst e \<and> (aMutability attr = mutabilityReadOnly \<or> typed_value attr (snd e)))"

definition resource_ok :: "resourceSchema \<Rightarrow> obj \<Rightarrow> bool" where
  "resource_ok schema m = (distinct (map fst m) \<and> list_all (member_ok schema) m)"

lemma schema_attribute_find: "schema_attribute s name = find (\<lambda>a. EqualFold (aName a) name) (rsAttributes s @ commonAttributes)"
proof -
  have "find P (xs @ ys) = (case find P xs of Some a \<Rightarrow> Some a | None \<Rightarrow> find P ys)" for P and xs ys :: "attribute list"
    by (induction xs) auto
  then show ?thesis by (simp add: schema_attribute_def)
qed

lemma schema_attribute_canonical:
  assumes "schema_ok s" "schema_attribute s name = Some attr"
  shows "attribute_ok attr" "schema_attribute s (aName attr) = Some attr" "EqualFold (aName attr) name"
proof -
  note found = find_by_name[OF _ assms(2)[unfolded schema_attribute_find]]
  show "attribute_ok attr" "schema_attribute s (aName attr) = Some attr"
    using assms(1) found by (auto simp: schema_ok_def list_all_iff schema_attribute_find)
  show "EqualFold (aName attr) name" using find_sound[OF assms(2)[unfolded schema_attribute_find]] by simp
qed

lemma user_schema_ok: "schema_ok userResourceSchema" and group_schema_ok: "schema_ok groupResourceSchema"
  by code_simp+

lemma canonicalResource_ok:
  assumes "schema_ok schema" "canonicalResource schema body = Inr m"
  shows "resource_ok schema m" "list_all (\<lambda>e. writable schema (fst e)) m"
proof -
  obtain fields where fields: "map_ok (canonical_member schema) body = Inr fields" and m: "m = copy_fields (concat fields) []"
    using assms(2) by (auto simp: canonicalResource_def bind_ok_Inr)
  have "member_ok schema (k, v) \<and> writable schema k" if "(k, v) \<in> set m" for k v
  proof -
    have "(k, v) \<in> set (concat fields)" using copy_fields_subset[of "concat fields" "[]"] that m by auto
    then obtain es e where "canonical_member schema e = Inr es" "(k, v) \<in> set es" using map_ok_source[OF fields] by fastforce
    then obtain attr where attr: "schema_attribute schema (fst e) = Some attr" "aMutability attr \<noteq> mutabilityReadOnly"
      "k = aName attr" "canonicalValue attr (snd e) = Inr v"
      by (auto simp: canonical_member_def bind_ok_Inr split: option.splits if_splits)
    with schema_attribute_canonical[OF assms(1) attr(1)] canonicalValue_typed show ?thesis
      by (simp add: member_ok_def writable_def)
  qed
  then show "resource_ok schema m" "list_all (\<lambda>e. writable schema (fst e)) m"
    using copy_fields_keys[of "[]" "concat fields"] m by (auto simp: resource_ok_def list_all_iff)
qed

lemma canonicalResource_of_ok:
  assumes "schema_ok schema" "resource_ok schema body"
  shows "canonicalResource schema body = Inr (filter (\<lambda>e. writable schema (fst e)) body)"
proof -
  have "canonical_member schema e = Inr (if writable schema (fst e) then [e] else [])" if "e \<in> set body" for e
  proof -
    have "member_ok schema e" using assms(2) that by (simp add: resource_ok_def list_all_iff)
    then obtain attr where attr: "schema_attribute schema (fst e) = Some attr" "aName attr = fst e"
      "aMutability attr = mutabilityReadOnly \<or> typed_value attr (snd e)"
      by (auto simp: member_ok_def split: option.splits)
    with canonicalValue_id[OF schema_attribute_canonical(1)[OF assms(1) attr(1)]] typed_not_null(2)[of attr "snd e"] show ?thesis
      by (auto simp: canonical_member_def writable_def)
  qed
  then have "map_ok (canonical_member schema) body = Inr (map (\<lambda>e. if writable schema (fst e) then [e] else []) body)"
    by (rule map_ok_same)
  moreover have "concat (map (\<lambda>e. if P e then [e] else []) xs) = filter P xs" for P and xs :: obj by (induction xs) auto
  moreover have "copy_fields (filter (\<lambda>e. writable schema (fst e)) body) [] = filter (\<lambda>e. writable schema (fst e)) body"
    using assms(2) copy_fields_append[of "[]"] by (simp add: resource_ok_def distinct_map_filter)
  ultimately show ?thesis by (simp add: canonicalResource_def)
qed

text \<open>
  C20: Reading a request body against a schema yields a well-typed resource: canonical names, each once, of writable
  attributes, with values of the attribute's type down to the sub-attributes. Reading the result again changes nothing.
\<close>

theorem canonical_resource_typed:
  assumes "schema \<in> {userResourceSchema, groupResourceSchema}" "canonicalResource schema body = Inr m"
  shows "resource_ok schema m \<and> list_all (\<lambda>e. writable schema (fst e)) m \<and> canonicalResource schema m = Inr m"
proof -
  have "schema_ok schema" using assms(1) user_schema_ok group_schema_ok by auto
  from canonicalResource_ok[OF this assms(2)] canonicalResource_of_ok[OF this] show ?thesis
    by (auto simp: list_all_iff filter_id_conv)
qed

theorem canonical_resource_typed_witness:
  "resource_ok groupResourceSchema
    [(''displayName'', JStr ''Ops''), (''members'', JList [JObj [(''value'', JStr ''u1'')]])]"
proof -
  have "canonicalResource groupResourceSchema
      [(''ID'', JStr ''g1''), (''DISPLAYNAME'', JStr ''Ops''), (''Members'', JObj [(''Value'', JStr ''u1''), (''other'', JBool True)])] =
    Inr [(''displayName'', JStr ''Ops''), (''members'', JList [JObj [(''value'', JStr ''u1'')]])]"
    by code_simp
  from canonical_resource_typed[OF _ this] show ?thesis by simp
qed

section \<open>Users as resources\<close>

lemma field_setString [simp]: "field (setString k v m) k' = (if k' = k \<and> v \<noteq> [] then JStr v else field m k')"
  by (simp add: setString_def)

lemma field_set_list [simp]: "field (set_list k vs m) k' = (if k' = k \<and> vs \<noteq> [] then JList vs else field m k')"
  by (simp add: set_list_def)

lemma field_set_name [simp]:
  "field (set_name n m) k =
    (case n of None \<Rightarrow> field m k | Some n \<Rightarrow> if k = ''name'' \<and> name_fields n \<noteq> [] then JObj (name_fields n) else field m k)"
  by (simp add: set_name_def split: option.split)

lemma field_filter: "field (filter (\<lambda>e. P (fst e)) m) k = (if P k then field m k else JNull)"
  by (induction m) (auto simp: field_def)

lemma resource_ok_set_field: "resource_ok s m \<Longrightarrow> member_ok s (k, v) \<Longrightarrow> resource_ok s (set_field k v m)"
  using set_field_subset[of k v m] by (auto simp: resource_ok_def set_field_keys list_all_iff)

definition user_strings :: "string list" where
  "user_strings = [''userName'', ''externalId'', ''displayName'', ''nickName'', ''profileUrl'', ''title'', ''userType'', ''preferredLanguage'',
     ''locale'', ''timezone'']"

definition plain_string :: "attribute \<Rightarrow> bool" where
  "plain_string a = (aType a \<noteq> typeComplex \<and> aType a \<noteq> typeBoolean \<and> \<not> aMultiValued a \<and> aMutability a \<noteq> mutabilityReadOnly)"

lemma user_attributes:
  "list_all (\<lambda>n. case schema_attribute userResourceSchema n of None \<Rightarrow> False | Some a \<Rightarrow> aName a = n \<and> plain_string a) user_strings"
  "list_all (\<lambda>n. case schema_attribute userResourceSchema n of None \<Rightarrow> False | Some a \<Rightarrow> aName a = n \<and> aMutability a = mutabilityReadOnly)
     [''schemas'', ''id'', ''groups'', ''meta'']"
  "schema_attribute userResourceSchema ''active'' = Some (Attribute ''active'' typeBoolean False False False mutabilityReadWrite True [])"
  "schema_attribute userResourceSchema ''name'' = Some (Attribute ''name'' typeComplex False False False mutabilityReadWrite False
     (map stringAttribute [''formatted'', ''familyName'', ''givenName'', ''middleName'', ''honorificPrefix'', ''honorificSuffix'']))"
  "schema_attribute userResourceSchema ''emails'' = Some (multiValuedAttribute ''emails'')"
  "schema_attribute userResourceSchema ''phoneNumbers'' = Some (multiValuedAttribute ''phoneNumbers'')"
  by code_simp+

lemma typed_string: "aType a \<noteq> typeComplex \<Longrightarrow> aType a \<noteq> typeBoolean \<Longrightarrow> typed a v \<longleftrightarrow> (\<exists>s. v = JStr s)"
  by (subst typed.simps) (auto split: json.splits)

lemma typed_boolean: "aType a = typeBoolean \<Longrightarrow> typed a v \<longleftrightarrow> (\<exists>b. v = JBool b)"
  by (subst typed.simps) (auto simp: typeBoolean_def typeComplex_def split: json.splits)

lemma typed_object:
  "aType a = typeComplex \<Longrightarrow> typed a (JObj m) \<longleftrightarrow> distinct (map fst m)
    \<and> (\<forall>(k, w)\<in>set m. case find (\<lambda>sub. aName sub = k) (aSubAttributes a) of None \<Rightarrow> False | Some sub \<Rightarrow> typed sub w)"
  by (subst typed.simps) (simp add: list_all_iff)

lemma attribute_fields [simp]:
  "aName (stringAttribute n) = n" "aType (stringAttribute n) = typeString" "mutabilityReadWrite \<noteq> mutabilityReadOnly"
  "typeString \<noteq> typeComplex" "typeString \<noteq> typeBoolean" "typeBoolean \<noteq> typeComplex" "typeComplex \<noteq> typeBoolean"
  by (simp_all add: stringAttribute_def mutabilityReadWrite_def mutabilityReadOnly_def typeString_def typeComplex_def typeBoolean_def)

lemma typed_stringAttribute [simp]: "typed (stringAttribute n) v \<longleftrightarrow> (\<exists>s. v = JStr s)"
  by (rule typed_string) simp_all

lemma string_member:
  assumes "n \<in> set user_strings"
  shows "member_ok userResourceSchema (n, JStr s)" "writable userResourceSchema n"
proof -
  obtain a where "schema_attribute userResourceSchema n = Some a" "aName a = n" "plain_string a"
    using user_attributes(1) assms by (fastforce simp: list_all_iff split: option.splits)
  then show "member_ok userResourceSchema (n, JStr s)" "writable userResourceSchema n"
    by (simp_all add: member_ok_def typed_value_def plain_string_def typed_string writable_def)
qed

lemma read_only_member:
  assumes "n \<in> set [''schemas'', ''id'', ''groups'', ''meta'']"
  shows "member_ok userResourceSchema (n, v)"
  using user_attributes(2) assms by (fastforce simp: list_all_iff member_ok_def split: option.splits)

lemma active_member: "member_ok userResourceSchema (''active'', JBool b)" "writable userResourceSchema ''active''"
  using user_attributes(3) by (simp_all add: member_ok_def typed_value_def typed_boolean writable_def)

lemma name_member: "member_ok userResourceSchema (''name'', JObj (name_fields n))" "writable userResourceSchema ''name''"
  using user_attributes(4)
  by (simp_all add: member_ok_def typed_value_def typed_object writable_def) (auto simp: name_fields_def setString_def)

lemma multi_value_typed: "typed (multiValuedAttribute n) (JObj (multi_value v))"
  by (subst typed_object) (auto simp: multiValuedAttribute_def multi_value_def setString_def Let_def typed_boolean)

lemma multi_member:
  assumes "n = ''emails'' \<or> n = ''phoneNumbers''"
  shows "member_ok userResourceSchema (n, JList (multiValues vs))" "writable userResourceSchema n"
proof -
  have n: "schema_attribute userResourceSchema n = Some (multiValuedAttribute n)" using user_attributes(5,6) assms by auto
  have "aMultiValued (multiValuedAttribute n)" "aName (multiValuedAttribute n) = n" "aMutability (multiValuedAttribute n) \<noteq> mutabilityReadOnly"
    by (simp_all add: multiValuedAttribute_def)
  with n show "member_ok userResourceSchema (n, JList (multiValues vs))" "writable userResourceSchema n"
    by (simp_all add: member_ok_def typed_value_def writable_def multiValues_def list_all_iff multi_value_typed)
qed

lemma resource_ok_setters:
  "resource_ok userResourceSchema m \<Longrightarrow> n \<in> set user_strings \<Longrightarrow> resource_ok userResourceSchema (setString n s m)"
  "resource_ok userResourceSchema m \<Longrightarrow> resource_ok userResourceSchema (set_name name m)"
  "resource_ok userResourceSchema m \<Longrightarrow> n = ''emails'' \<or> n = ''phoneNumbers'' \<Longrightarrow> resource_ok userResourceSchema (set_list n (multiValues vs) m)"
  by (auto simp: setString_def set_name_def set_list_def string_member name_member multi_member intro!: resource_ok_set_field split: option.split)

lemma userResource_ok: "resource_ok userResourceSchema (userResource u baseURL)"
  unfolding userResource_def Let_def comp_def
  by (intro resource_ok_setters)
     (simp_all add: user_strings_def resource_ok_def read_only_member active_member string_member)

text \<open>A stored user whose representation loses nothing: what a write that passed validation stores.\<close>

definition values_ok :: "SCIMMultiValue list \<Rightarrow> bool" where
  "values_ok vs = (empty_multi_value \<notin> set vs \<and> length (filter mvPrimary vs) \<le> 1)"

definition user_ok :: "SCIMUser \<Rightarrow> bool" where
  "user_ok u =
    (TrimSpace (suUserName u) \<noteq> [] \<and> (case spName (suProfile u) of None \<Rightarrow> True | Some n \<Rightarrow> name_fields n \<noteq> [])
     \<and> values_ok (spEmails (suProfile u)) \<and> values_ok (spPhoneNumbers (suProfile u)))"

lemma field_Nil [simp]: "field [] k = JNull"
  by (simp add: field_def)

lemma field_Cons: "field ((k, v) # m) k' = (if k' = k then v else field m k')"
  by (simp add: field_def)

lemma multi_value_fields:
  "field (multi_value v) ''value'' = (if mvValue v = [] then JNull else JStr (mvValue v))"
  "field (multi_value v) ''display'' = (if mvDisplay v = [] then JNull else JStr (mvDisplay v))"
  "field (multi_value v) ''type'' = (if mvType v = [] then JNull else JStr (mvType v))"
  "field (multi_value v) ''primary'' = (if mvPrimary v then JBool True else JNull)"
  by (simp_all add: multi_value_def Let_def)

lemma multi_value_from_multi_value [simp]: "multi_value_from (multi_value v) = v"
  by (simp add: multi_value_from_def stringValue_def multi_value_fields)

lemma name_from_name_fields [simp]: "name_from (name_fields n) = n"
  by (simp add: name_from_def name_fields_def stringValue_def)

lemma multiValuesFrom_multiValues: "empty_multi_value \<notin> set vs \<Longrightarrow> multiValuesFrom (JList (multiValues vs)) = vs"
  by (auto simp: multiValuesFrom_def multiValues_def listValue_def as_object_def comp_def filter_id_conv)

lemma primaryValues_multiValues: "primaryValues (JList (multiValues vs)) = length (filter mvPrimary vs)"
  by (induction vs) (auto simp: primaryValues_def multiValues_def listValue_def as_object_def multi_value_fields)

lemma userResource_fields:
  "field (userResource u b) ''userName'' = JStr (suUserName u)" "field (userResource u b) ''active'' = JBool (suActive u)"
  "stringValue (userResource u b) ''externalId'' = suExternalID u"
  "field (userResource u b) ''name'' = (case spName (suProfile u) of None \<Rightarrow> JNull
     | Some n \<Rightarrow> if name_fields n = [] then JNull else JObj (name_fields n))"
  "stringValue (userResource u b) ''displayName'' = spDisplayName (suProfile u)"
  "stringValue (userResource u b) ''nickName'' = spNickName (suProfile u)"
  "stringValue (userResource u b) ''profileUrl'' = spProfileURL (suProfile u)"
  "stringValue (userResource u b) ''title'' = spTitle (suProfile u)"
  "stringValue (userResource u b) ''userType'' = spUserType (suProfile u)"
  "stringValue (userResource u b) ''preferredLanguage'' = spPreferredLanguage (suProfile u)"
  "stringValue (userResource u b) ''locale'' = spLocale (suProfile u)"
  "stringValue (userResource u b) ''timezone'' = spTimezone (suProfile u)"
  "field (userResource u b) ''emails'' = (if spEmails (suProfile u) = [] then JNull else JList (multiValues (spEmails (suProfile u))))"
  "field (userResource u b) ''phoneNumbers'' = (if spPhoneNumbers (suProfile u) = [] then JNull else JList (multiValues (spPhoneNumbers (suProfile u))))"
  by (simp_all add: userResource_def Let_def field_Cons stringValue_def multiValues_def split: option.split)

lemma user_input_userResource:
  assumes "user_ok u" "\<And>k. writable userResourceSchema k \<Longrightarrow> field m k = field (userResource u b) k"
  shows "user_input m = \<lparr>uiUserName = suUserName u, uiExternalID = suExternalID u, uiActive = Some (suActive u), uiProfile = suProfile u\<rparr>"
proof -
  have strings: "stringValue m k = stringValue (userResource u b) k" if "k \<in> set user_strings" for k
    using assms(2)[OF string_member(2)[OF that]] by (simp add: stringValue_def)
  have emails: "multiValuesFrom (field m ''emails'') = spEmails (suProfile u)"
    and phones: "multiValuesFrom (field m ''phoneNumbers'') = spPhoneNumbers (suProfile u)"
    using assms(1) assms(2)[OF multi_member(2)] multiValuesFrom_multiValues[of "[]"]
    by (simp_all add: userResource_fields user_ok_def values_ok_def multiValuesFrom_multiValues)
       (auto simp: multiValuesFrom_def listValue_def)
  have name: "(case field m ''name'' of JObj n \<Rightarrow> Some (name_from n) | _ \<Rightarrow> None) = spName (suProfile u)"
    using assms(1) assms(2)[OF name_member(2)] by (auto simp: userResource_fields user_ok_def split: option.splits)
  have active: "field m ''active'' = JBool (suActive u)" using assms(2)[OF active_member(2)] by (simp add: userResource_fields)
  show ?thesis
    by (simp add: user_input_def strings[unfolded user_strings_def] emails phones name active userResource_fields)
       (simp add: stringValue_def userResource_fields)
qed

text \<open>
  A user survives the round trip through its representation: a client that sends back the resource it was given
  writes the user name, the external identifier, the status and the profile that are stored.
\<close>

theorem user_resource_roundtrip:
  assumes "user_ok u"
  shows "userInputFromResource (userResource u baseURL) =
    Inr \<lparr>uiUserName = suUserName u, uiExternalID = suExternalID u, uiActive = Some (suActive u), uiProfile = suProfile u\<rparr>"
proof -
  let ?m = "filter (\<lambda>e. writable userResourceSchema (fst e)) (userResource u baseURL)"
  have fields: "writable userResourceSchema k \<Longrightarrow> field ?m k = field (userResource u baseURL) k" for k
    by (simp add: field_filter)
  have input: "user_input ?m =
      \<lparr>uiUserName = suUserName u, uiExternalID = suExternalID u, uiActive = Some (suActive u), uiProfile = suProfile u\<rparr>"
    by (rule user_input_userResource[OF assms fields])
  have "primaryValues JNull = 0" by (simp add: primaryValues_def listValue_def)
  then have "primaryValues (field ?m attr) \<le> 1" if "attr \<in> set [''emails'', ''phoneNumbers'']" for attr
    using that assms fields[OF multi_member(2)[of attr]]
    by (auto simp: userResource_fields primaryValues_multiValues user_ok_def values_ok_def)
  then have "\<not> list_ex (\<lambda>attr. primaryValues (field ?m attr) > 1) [''emails'', ''phoneNumbers'']" by force
  with assms show ?thesis
    unfolding userInputFromResource_def canonicalResource_of_ok[OF user_schema_ok userResource_ok] bind_ok_simps input
    by (simp add: user_ok_def)
qed

definition sample_profile :: SCIMUserProfile where
  "sample_profile =
    \<lparr>spName = Some \<lparr>snFormatted = [], snFamilyName = ''Doe'', snGivenName = ''Ann'', snMiddleName = [], snHonorificPrefix = [],
       snHonorificSuffix = []\<rparr>,
     spDisplayName = ''Ann'', spNickName = [], spProfileURL = [], spTitle = [], spUserType = [], spPreferredLanguage = ''en'', spLocale = [],
     spTimezone = [],
     spEmails = [\<lparr>mvValue = ''ann@x.org'', mvDisplay = [], mvType = ''work'', mvPrimary = True\<rparr>,
                 \<lparr>mvValue = ''a@y.org'', mvDisplay = [], mvType = [], mvPrimary = False\<rparr>],
     spPhoneNumbers = []\<rparr>"

definition sample_user :: SCIMUser where
  "sample_user = \<lparr>suID = ''u1'', suUserName = ''ann'', suExternalID = ''x1'', suActive = True, suProfile = sample_profile, suGroups = [],
     suCreatedAt = ''2024'', suUpdatedAt = ''2025''\<rparr>"

theorem user_resource_roundtrip_witness:
  "map_sum (\<lambda>e. e) uiProfile (userInputFromResource (userResource sample_user ''https://h/scim'')) = Inr sample_profile"
proof -
  have "user_ok sample_user" by code_simp
  from user_resource_roundtrip[OF this] show ?thesis by (simp add: sample_user_def)
qed

end
