(* ===== verification/Scim_Patch.thy ===== *)
theory Scim_Patch
  imports Scim_Filter Scim_Resource
begin

text \<open>
  PATCH requests of the SCIM endpoint (pkg/scim/patch.go). The source changes the resource in place and its callers
  drop it when an operation fails; here an operation returns the new resource or the error. The values of a
  multi-valued attribute are separate maps, so an update of one leaves the others alone. A loop over a map visits
  the members in the order of the association list.
\<close>

section \<open>Operations\<close>

datatype patch_op = patchAdd | patchReplace | patchRemove

definition maxPatchOperations :: nat where "maxPatchOperations = 100"

record patchOperation =
  poOp :: patch_op
  poPath :: string
  poValue :: json
  poHasValue :: bool

record patchPath =
  ppAttr :: attrPath
  ppFilter :: "filter option"
  ppSub :: string

record pathlessMember =
  pmKey :: string
  pmPath :: patchPath
  pmValue :: json

text \<open>How the provider of a connection departs from RFC 7644 (adapter.PatchRules).\<close>

record PatchRules =
  ReplaceAddsUnmatched :: bool

definition containsFold :: "json list \<Rightarrow> string \<Rightarrow> bool" where
  "containsFold values s = list_ex (\<lambda>v. case v of JStr str \<Rightarrow> EqualFold str s | _ \<Rightarrow> False) values"

definition decode_op :: "string \<Rightarrow> patch_op option" where
  "decode_op s =
    (if s = ''add'' then Some patchAdd else if s = ''replace'' then Some patchReplace
     else if s = ''remove'' then Some patchRemove else None)"

definition decode_operation :: "json \<Rightarrow> patchOperation scim_result" where
  "decode_operation item =
    (case item of
       JObj m \<Rightarrow>
         (case decode_op (ToLower (case lookupKey m ''op'' of JStr s \<Rightarrow> s | _ \<Rightarrow> [])) of
            None \<Rightarrow> Inl invalidSyntax
          | Some op \<Rightarrow>
              let operation = (\<lambda>path. Inr \<lparr>poOp = op, poPath = TrimSpace path, poValue = lookupKey m ''value'', poHasValue = hasKey m ''value''\<rparr>)
              in (case lookupKey m ''path'' of JStr path \<Rightarrow> operation path | JNull \<Rightarrow> operation [] | _ \<Rightarrow> Inl invalidPath))
     | _ \<Rightarrow> Inl invalidSyntax)"

definition decodePatchOperations :: "obj \<Rightarrow> patchOperation list scim_result" where
  "decodePatchOperations body =
    (if (case lookupKey body ''schemas'' of JList schemas \<Rightarrow> \<not> containsFold schemas patchOpSchema | _ \<Rightarrow> False) then Inl invalidSyntax
     else case lookupKey body ''Operations'' of
            JList raw \<Rightarrow>
              if raw = [] then Inl invalidSyntax
              else if length raw > maxPatchOperations then Inl invalidSyntax
              else map_ok decode_operation raw
          | _ \<Rightarrow> Inl invalidSyntax)"

section \<open>Paths\<close>

text \<open>The text before and after the last closing bracket.\<close>

definition before_last_bracket :: "string \<Rightarrow> string" where
  "before_last_bracket s = rev (tl (dropWhile (\<lambda>c. c \<noteq> CHR '']'') (rev s)))"

definition after_last_bracket :: "string \<Rightarrow> string" where
  "after_last_bracket s = rev (takeWhile (\<lambda>c. c \<noteq> CHR '']'') (rev s))"

definition parsePatchPath :: "float_parser \<Rightarrow> string \<Rightarrow> patchPath scim_result" where
  "parsePatchPath pf s =
    (case Cut s (CHR ''['') of
       None \<Rightarrow>
         (case parseAttrPath s of
            None \<Rightarrow> Inl invalidPath
          | Some attr \<Rightarrow> Inr \<lparr>ppAttr = attr, ppFilter = None, ppSub = []\<rparr>)
     | Some (front, back) \<Rightarrow>
         if CHR '']'' \<notin> set back then Inl invalidPath
         else (case parseAttrPath front of
                 None \<Rightarrow> Inl invalidPath
               | Some attr \<Rightarrow>
                   if apSub attr \<noteq> [] then Inl invalidPath
                   else (case parseFilter pf (before_last_bracket back) of
                           Inl _ \<Rightarrow> Inl invalidFilter
                         | Inr f \<Rightarrow>
                             (case after_last_bracket back of
                                [] \<Rightarrow> Inr \<lparr>ppAttr = attr, ppFilter = Some f, ppSub = []\<rparr>
                              | c # sub \<Rightarrow>
                                  if c \<noteq> CHR ''.'' \<or> \<not> validAttributeName sub then Inl invalidPath
                                  else Inr \<lparr>ppAttr = attr, ppFilter = Some f, ppSub = sub\<rparr>))))"

text \<open>The members of a value without a path, sorted. Members with the same key have the same position.\<close>

definition member_part :: "patchPath \<Rightarrow> nat" where
  "member_part p = (if ppFilter p = None \<and> apSub (ppAttr p) = [] then 0 else 1)"

definition member_less :: "pathlessMember \<Rightarrow> pathlessMember \<Rightarrow> bool" where
  "member_less a b =
    (let x = ToLower (apName (ppAttr (pmPath a))); y = ToLower (apName (ppAttr (pmPath b)))
     in if x \<noteq> y then string_less x y
        else if member_part (pmPath a) \<noteq> member_part (pmPath b) then member_part (pmPath a) < member_part (pmPath b)
        else string_less (pmKey a) (pmKey b))"

fun insert_member :: "pathlessMember \<Rightarrow> pathlessMember list \<Rightarrow> pathlessMember list" where
  "insert_member a [] = [a]"
| "insert_member a (b # bs) = (if member_less b a then b # insert_member a bs else a # b # bs)"

definition pathless_member :: "float_parser \<Rightarrow> string \<times> json \<Rightarrow> pathlessMember scim_result" where
  "pathless_member pf e = bind_ok (parsePatchPath pf (fst e)) (\<lambda>path. Inr \<lparr>pmKey = fst e, pmPath = path, pmValue = snd e\<rparr>)"

definition pathlessMembers :: "float_parser \<Rightarrow> resourceSchema \<Rightarrow> obj \<Rightarrow> pathlessMember list scim_result" where
  "pathlessMembers pf schema values =
    bind_ok (map_ok (\<lambda>(key, value).
        if \<not> EqualFold key (rsID schema) then bind_ok (pathless_member pf (key, value)) (\<lambda>m. Inr [m])
        else (case value of
                JObj nested \<Rightarrow> map_ok (\<lambda>(nestedKey, value). pathless_member pf (key @ '':'' @ nestedKey, value)) nested
              | _ \<Rightarrow> Inl invalidValue)) values)
      (\<lambda>members. Inr (foldr insert_member (concat members) []))"

section \<open>Values\<close>

definition absent :: "json \<Rightarrow> bool" where
  "absent v = (v = JNull \<or> v = JStr [] \<or> v = JBool False)"

definition subValuesEqual :: "attribute \<Rightarrow> json \<Rightarrow> json \<Rightarrow> bool" where
  "subValuesEqual sub a b =
    (if absent a \<or> absent b then absent a \<and> absent b
     else case (a, b) of
            (JStr s, JStr t) \<Rightarrow> if \<not> aCaseExact sub then EqualFold s t else DeepEqual a b
          | _ \<Rightarrow> DeepEqual a b)"

definition sameValue :: "attribute \<Rightarrow> json \<Rightarrow> json \<Rightarrow> bool" where
  "sameValue attr a b =
    (case (a, b) of
       (JObj am, JObj bm) \<Rightarrow>
         list_all (\<lambda>sub. aName sub = ''primary'' \<or> subValuesEqual sub (field am (aName sub)) (field bm (aName sub))) (aSubAttributes attr)
     | _ \<Rightarrow> DeepEqual a b)"

definition selects :: "attribute \<Rightarrow> obj \<Rightarrow> obj \<Rightarrow> bool" where
  "selects attr selector value =
    (\<not> absent (field selector ''value'')
     \<and> list_all (\<lambda>sub. aName sub = ''primary'' \<or> absent (field selector (aName sub))
          \<or> subValuesEqual sub (field selector (aName sub)) (field value (aName sub))) (aSubAttributes attr))"

text \<open>\<open>vsByValue\<close> is \<open>None\<close> for a nil map; its keys are a list that may repeat.\<close>

record valueSet =
  vsAttr :: attribute
  vsByValue :: "string list option"
  vsOthers :: "obj list"

definition identifiedByValue :: "attribute \<Rightarrow> bool" where
  "identifiedByValue attr = (subAttribute attr ''$ref'' \<noteq> None \<and> subAttribute attr ''value'' \<noteq> None)"

definition value_key :: "attribute \<Rightarrow> obj \<Rightarrow> string option" where
  "value_key attr m =
    (case field m ''value'' of
       JStr value \<Rightarrow>
         if value = [] then None
         else (case subAttribute attr ''value'' of
                 None \<Rightarrow> Some (ToLower value)
               | Some sub \<Rightarrow> Some (if aCaseExact sub then value else ToLower value))
     | _ \<Rightarrow> None)"

definition set_add :: "json \<Rightarrow> valueSet \<Rightarrow> valueSet" where
  "set_add v s =
    (case v of
       JObj m \<Rightarrow>
         (case vsByValue s of
            None \<Rightarrow> s\<lparr>vsOthers := vsOthers s @ [m]\<rparr>
          | Some keys \<Rightarrow> (case value_key (vsAttr s) m of None \<Rightarrow> s | Some key \<Rightarrow> s\<lparr>vsByValue := Some (key # keys)\<rparr>))
     | _ \<Rightarrow> s)"

definition set_contains :: "valueSet \<Rightarrow> json \<Rightarrow> bool" where
  "set_contains s v =
    (case v of
       JObj m \<Rightarrow>
         (case vsByValue s of
            None \<Rightarrow> list_ex (\<lambda>other. selects (vsAttr s) other m) (vsOthers s)
          | Some keys \<Rightarrow> (case value_key (vsAttr s) m of None \<Rightarrow> False | Some key \<Rightarrow> key \<in> set keys))
     | _ \<Rightarrow> False)"

definition newValueSet :: "attribute \<Rightarrow> json list \<Rightarrow> valueSet" where
  "newValueSet attr values =
    fold set_add values \<lparr>vsAttr = attr, vsByValue = (if identifiedByValue attr then Some [] else None), vsOthers = []\<rparr>"

definition is_primary :: "json \<Rightarrow> bool" where
  "is_primary v = (field (as_object v) ''primary'' = JBool True)"

definition unset_primary :: "json \<Rightarrow> json" where
  "unset_primary v = (case v of JObj m \<Rightarrow> JObj (delete_field ''primary'' m) | _ \<Rightarrow> v)"

definition make_primary :: "json \<Rightarrow> json" where
  "make_primary v = JObj (set_field ''primary'' (JBool True) (as_object v))"

fun IndexFunc :: "('a \<Rightarrow> bool) \<Rightarrow> 'a list \<Rightarrow> nat option" where
  "IndexFunc p [] = None"
| "IndexFunc p (x # xs) = (if p x then Some 0 else map_option Suc (IndexFunc p xs))"

definition add_value :: "attribute \<Rightarrow> json \<Rightarrow> json list \<times> valueSet \<Rightarrow> json list \<times> valueSet" where
  "add_value attr v st =
    (case st of (existing, s) \<Rightarrow>
       if vsByValue s \<noteq> None \<and> set_contains s v then (existing, s)
       else let i = (if vsByValue s \<noteq> None then None else IndexFunc (\<lambda>e. sameValue attr e v) existing);
                existing = (if is_primary v then map unset_primary existing else existing)
            in (case i of
                  Some i \<Rightarrow> (if is_primary v then existing[i := make_primary (existing ! i)] else existing, s)
                | None \<Rightarrow> (existing @ [v], set_add v s)))"

definition addValues :: "attribute \<Rightarrow> json list \<Rightarrow> json list \<Rightarrow> json list" where
  "addValues attr existing added = fst (fold (add_value attr) added (existing, newValueSet attr existing))"

definition removeValues :: "attribute \<Rightarrow> json \<Rightarrow> obj \<Rightarrow> obj scim_result" where
  "removeValues attr value resource =
    bind_ok (canonicalList attr value) (\<lambda>remove.
      let s = newValueSet attr remove
      in Inr (set_field (aName attr) (JList (filter (\<lambda>v. \<not> set_contains s v) (listValue (field resource (aName attr))))) resource))"

definition keepOnePrimary :: "nat list \<Rightarrow> json list \<Rightarrow> json list" where
  "keepOnePrimary changed values =
    (case find (\<lambda>i. is_primary (values ! i)) changed of
       None \<Rightarrow> values
     | Some primary \<Rightarrow> map (\<lambda>i. if i = primary then values ! i else unset_primary (values ! i)) [0..<length values])"

primrec collect_equalities :: "attribute \<Rightarrow> filter \<Rightarrow> obj \<Rightarrow> obj option" where
  "collect_equalities attr (Comparison path op v) value =
    (case subAttribute attr (apName path) of
       None \<Rightarrow> None
     | Some sub \<Rightarrow> if op \<noteq> ''eq'' \<or> apSub path \<noteq> [] then None else Some (set_field (aName sub) v value))"
| "collect_equalities attr (Logical op l r) value =
    (if op = OpAnd then Option.bind (collect_equalities attr l value) (collect_equalities attr r) else None)"
| "collect_equalities attr (Negated f) value = None"
| "collect_equalities attr (ValuePath path f) value = None"

definition valueFromEqualityFilter :: "attribute \<Rightarrow> filter \<Rightarrow> obj option" where
  "valueFromEqualityFilter attr f = collect_equalities attr f []"

section \<open>Applying operations\<close>

definition alreadyHeld :: "obj \<Rightarrow> attribute \<Rightarrow> json \<Rightarrow> bool" where
  "alreadyHeld resource attr value =
    (case canonicalList attr value of
       Inl _ \<Rightarrow> False
     | Inr added \<Rightarrow>
         let existing = listValue (field resource (aName attr)); s = newValueSet attr existing
         in list_all (\<lambda>v. if vsByValue s \<noteq> None then set_contains s v else list_ex (\<lambda>e. sameValue attr e v) existing) added)"

definition unchanged :: "obj \<Rightarrow> attribute \<Rightarrow> json \<Rightarrow> bool" where
  "unchanged resource attr value =
    (if value = JNull then \<not> has_field resource (aName attr)
     else case canonicalValue attr value of Inl _ \<Rightarrow> False | Inr v \<Rightarrow> DeepEqual v (field resource (aName attr)))"

definition applyToAttribute :: "attribute \<Rightarrow> patch_op \<Rightarrow> json \<Rightarrow> obj \<Rightarrow> obj scim_result" where
  "applyToAttribute attr op value resource =
    (if op = patchRemove
     then (if aMultiValued attr \<and> value \<noteq> JNull then removeValues attr value resource else Inr (delete_field (aName attr) resource))
     else if value = JNull then Inr (delete_field (aName attr) resource)
     else if aMultiValued attr
     then bind_ok (canonicalList attr value) (\<lambda>values.
            if op = patchReplace then Inr (set_field (aName attr) (JList values) resource)
            else Inr (set_field (aName attr) (JList (addValues attr (listValue (field resource (aName attr))) values)) resource))
     else if aType attr = typeComplex
     then bind_ok (canonicalValue attr value) (\<lambda>v.
            Inr (set_field (aName attr) (JObj (copy_fields (as_object v) (as_object (field resource (aName attr))))) resource))
     else bind_ok (canonicalValue attr value) (\<lambda>v. Inr (set_field (aName attr) v resource)))"

definition applyToSubAttribute :: "attribute \<Rightarrow> attribute \<Rightarrow> patch_op \<Rightarrow> json \<Rightarrow> obj \<Rightarrow> obj scim_result" where
  "applyToSubAttribute attr sub op value resource =
    (if op = patchRemove \<or> value = JNull
     then (case field resource (aName attr) of
             JObj m \<Rightarrow>
               let m' = delete_field (aName sub) m
               in Inr (if m' = [] then delete_field (aName attr) resource else set_field (aName attr) (JObj m') resource)
           | _ \<Rightarrow> Inr resource)
     else bind_ok (canonicalValue sub value) (\<lambda>v.
            Inr (set_field (aName attr) (JObj (set_field (aName sub) v (as_object (field resource (aName attr))))) resource)))"

definition addForFilter :: "float_parser \<Rightarrow> attribute \<Rightarrow> filter \<Rightarrow> json \<Rightarrow> obj \<Rightarrow> obj scim_result" where
  "addForFilter pf attr f value resource =
    bind_ok (canonicalSingle attr value) (\<lambda>v.
      let created = copy_fields (as_object v) (case valueFromEqualityFilter attr f of None \<Rightarrow> [] | Some created \<Rightarrow> created)
      in if \<not> matches pf f (Some attr) created then Inl noTarget
         else applyToAttribute attr patchAdd (JObj created) resource)"

text \<open>The removal of a sub-attribute from the selected values.\<close>

definition remove_sub :: "attribute \<Rightarrow> nat \<Rightarrow> json list \<Rightarrow> json list scim_result" where
  "remove_sub sub i values =
    (let existing = as_object (values ! i)
     in if has_field existing (aName sub) \<and> aMutability sub = mutabilityImmutable then Inl mutability
        else Inr (values[i := JObj (delete_field (aName sub) existing)]))"

text \<open>An add or a replacement of a sub-attribute of one selected value.\<close>

definition update_sub :: "float_parser \<Rightarrow> attribute \<Rightarrow> filter \<Rightarrow> attribute \<Rightarrow> json \<Rightarrow> bool \<Rightarrow> nat \<Rightarrow> json list \<Rightarrow> json list scim_result" where
  "update_sub pf attr f sub value created i values =
    (let existing = as_object (values ! i)
     in bind_ok (canonicalValue sub value) (\<lambda>v.
          if has_field existing (aName sub) \<and> aMutability sub = mutabilityImmutable \<and> \<not> DeepEqual (field existing (aName sub)) v
          then Inl mutability
          else if created \<and> \<not> matches pf f (Some attr) (set_field (aName sub) v existing) then Inl noTarget
          else Inr (values[i := JObj (set_field (aName sub) v existing)])))"

text \<open>An add to or a replacement of one selected value.\<close>

definition changes_immutable :: "attribute \<Rightarrow> patch_op \<Rightarrow> obj \<Rightarrow> obj \<Rightarrow> bool" where
  "changes_immutable attr op existing new =
    list_ex (\<lambda>sub. aMutability sub = mutabilityImmutable \<and> has_field existing (aName sub)
        \<and> (has_field new (aName sub) \<and> \<not> DeepEqual (field existing (aName sub)) (field new (aName sub))
           \<or> \<not> has_field new (aName sub) \<and> op = patchReplace)) (aSubAttributes attr)"

definition update_value :: "attribute \<Rightarrow> patch_op \<Rightarrow> json \<Rightarrow> nat \<Rightarrow> json list \<Rightarrow> json list scim_result" where
  "update_value attr op value i values =
    (let existing = as_object (values ! i)
     in bind_ok (canonicalSingle attr value) (\<lambda>v.
          let new = as_object v
          in if changes_immutable attr op existing new then Inl mutability
             else Inr (values[i := JObj (if op = patchReplace then new else copy_fields new existing)])))"

definition filter_sub :: "attribute \<Rightarrow> patchPath \<Rightarrow> attribute option scim_result" where
  "filter_sub attr path =
    (if ppSub path = [] then Inr None
     else case subAttribute attr (ppSub path) of
            None \<Rightarrow> Inl invalidPath
          | Some sub \<Rightarrow> if aMutability sub = mutabilityReadOnly then Inl mutability else Inr (Some sub))"

definition matched_values :: "float_parser \<Rightarrow> attribute \<Rightarrow> filter \<Rightarrow> json list \<Rightarrow> nat list" where
  "matched_values pf attr f values =
    filter (\<lambda>i. case values ! i of JObj m \<Rightarrow> matches pf f (Some attr) m | _ \<Rightarrow> False) [0..<length values]"

definition remove_filtered :: "attribute \<Rightarrow> attribute option \<Rightarrow> nat list \<Rightarrow> json list \<Rightarrow> obj \<Rightarrow> obj scim_result" where
  "remove_filtered attr sub matched values resource =
    (case sub of
       None \<Rightarrow>
         Inr (set_field (aName attr) (JList (map ((!) values) (filter (\<lambda>i. i \<notin> set matched) [0..<length values]))) resource)
     | Some sub \<Rightarrow>
         bind_ok (fold_ok (remove_sub sub) matched values) (\<lambda>values. Inr (set_field (aName attr) (JList values) resource)))"

definition update_filtered ::
  "float_parser \<Rightarrow> attribute \<Rightarrow> filter \<Rightarrow> attribute option \<Rightarrow> patch_op \<Rightarrow> json \<Rightarrow> bool \<Rightarrow> nat list \<Rightarrow> json list \<Rightarrow> obj \<Rightarrow> obj scim_result" where
  "update_filtered pf attr f sub op value created matched values resource =
    bind_ok (fold_ok (\<lambda>i. case sub of
                            Some sub \<Rightarrow> update_sub pf attr f sub value created i
                          | None \<Rightarrow> update_value attr op value i) matched values) (\<lambda>values.
      Inr (set_field (aName attr) (JList (keepOnePrimary matched values)) resource))"

definition applyFiltered ::
  "float_parser \<Rightarrow> attribute \<Rightarrow> filter \<Rightarrow> patchPath \<Rightarrow> patch_op \<Rightarrow> json \<Rightarrow> PatchRules \<Rightarrow> obj \<Rightarrow> obj scim_result" where
  "applyFiltered pf attr f path op value rules resource =
    bind_ok (filter_sub attr path) (\<lambda>sub.
      let values = listValue (field resource (aName attr));
          matched = matched_values pf attr f values
      in if op = patchReplace \<and> value = JNull \<and> matched = [] \<and> \<not> ReplaceAddsUnmatched rules then Inl noTarget
         else if op = patchRemove \<or> op = patchReplace \<and> value = JNull then remove_filtered attr sub matched values resource
         else if matched \<noteq> [] then update_filtered pf attr f sub op value False matched values resource
         else if op = patchReplace \<and> \<not> ReplaceAddsUnmatched rules then Inl noTarget
         else if sub = None then addForFilter pf attr f value resource
         else case valueFromEqualityFilter attr f of
                None \<Rightarrow> Inl noTarget
              | Some newValue \<Rightarrow>
                  update_filtered pf attr f sub op value True [length values] (values @ [JObj newValue]) resource)"

definition applyToPath :: "float_parser \<Rightarrow> attribute \<Rightarrow> patchPath \<Rightarrow> patch_op \<Rightarrow> json \<Rightarrow> PatchRules \<Rightarrow> obj \<Rightarrow> obj scim_result" where
  "applyToPath pf attr path op value rules resource =
    (case ppFilter path of
       Some f \<Rightarrow>
         if \<not> aMultiValued attr \<or> aType attr \<noteq> typeComplex then Inl invalidPath
         else applyFiltered pf attr f path op value rules resource
     | None \<Rightarrow>
         if apSub (ppAttr path) \<noteq> []
         then (if aMultiValued attr \<or> aType attr \<noteq> typeComplex then Inl invalidPath
               else case subAttribute attr (apSub (ppAttr path)) of
                      None \<Rightarrow> Inl invalidPath
                    | Some sub \<Rightarrow>
                        if aMutability sub = mutabilityReadOnly then Inl mutability
                        else applyToSubAttribute attr sub op value resource)
         else applyToAttribute attr op value resource)"

definition applyToTarget :: "float_parser \<Rightarrow> resourceSchema \<Rightarrow> patch_op \<Rightarrow> patchPath \<Rightarrow> json \<Rightarrow> PatchRules \<Rightarrow> obj \<Rightarrow> obj scim_result" where
  "applyToTarget pf schema op path value rules resource =
    (if \<not> inSchema (ppAttr path) schema then Inl invalidPath
     else if ignores schema (apName (ppAttr path)) then Inr resource
     else case schema_attribute schema (apName (ppAttr path)) of
            None \<Rightarrow> Inl invalidPath
          | Some attr \<Rightarrow>
              let whole = (ppFilter path = None \<and> apSub (ppAttr path) = [])
              in if value = JNull \<and> op = patchAdd \<and> aMultiValued attr \<and> apSub (ppAttr path) = [] \<and> ppSub path = [] then Inr resource
                 else if aMutability attr = mutabilityReadOnly
                 then (if op \<noteq> patchRemove \<and> whole \<and> unchanged resource attr value then Inr resource
                       else if op = patchAdd \<and> aMultiValued attr \<and> whole \<and> alreadyHeld resource attr value then Inr resource
                       else Inl mutability)
                 else let op = (if value = JNull \<and> (op \<noteq> patchReplace \<or> ppFilter path = None) then patchRemove else op)
                      in if (aRequired attr \<or> aUnremovable attr) \<and> whole \<and> op = patchRemove then Inl mutability
                         else applyToPath pf attr path op value rules resource)"

definition applyOperation :: "float_parser \<Rightarrow> resourceSchema \<Rightarrow> PatchRules \<Rightarrow> patchOperation \<Rightarrow> obj \<Rightarrow> obj scim_result" where
  "applyOperation pf schema rules op resource =
    (if poPath op = []
     then (if poOp op = patchRemove then Inl noTarget
           else case poValue op of
                  JObj values \<Rightarrow>
                    bind_ok (pathlessMembers pf schema values) (\<lambda>members.
                      fold_ok (\<lambda>m. applyToTarget pf schema (poOp op) (pmPath m) (pmValue m) rules) members resource)
                | _ \<Rightarrow> Inl invalidValue)
     else bind_ok (parsePatchPath pf (poPath op)) (\<lambda>path.
            if poOp op \<noteq> patchRemove \<and> \<not> poHasValue op then Inl invalidValue
            else applyToTarget pf schema (poOp op) path (poValue op) rules resource))"

definition applyPatch :: "float_parser \<Rightarrow> resourceSchema \<Rightarrow> obj \<Rightarrow> patchOperation list \<Rightarrow> PatchRules \<Rightarrow> obj scim_result" where
  "applyPatch pf schema resource ops rules = fold_ok (applyOperation pf schema rules) ops resource"

section \<open>What a patch leaves alone\<close>

lemma fold_ok_induct:
  assumes "fold_ok f xs s = Inr s'" "P s" "\<And>x s s'. x \<in> set xs \<Longrightarrow> f x s = Inr s' \<Longrightarrow> P s \<Longrightarrow> P s'"
  shows "P s'"
  using assms
proof (induction xs arbitrary: s)
  case (Cons x xs)
  then obtain t where "f x s = Inr t" "fold_ok f xs t = Inr s'" by (auto simp: bind_ok_Inr)
  with Cons show ?case by (metis list.set_intros)
qed simp

lemma applyToAttribute_frame: "applyToAttribute attr op v r = Inr r' \<Longrightarrow> k \<noteq> aName attr \<Longrightarrow> map_of r' k = map_of r k"
  by (auto simp: applyToAttribute_def removeValues_def bind_ok_Inr Let_def map_of_set_field map_of_delete_field split: if_splits)

lemma applyToSubAttribute_frame: "applyToSubAttribute attr sub op v r = Inr r' \<Longrightarrow> k \<noteq> aName attr \<Longrightarrow> map_of r' k = map_of r k"
  by (auto simp: applyToSubAttribute_def bind_ok_Inr Let_def map_of_set_field map_of_delete_field split: if_splits json.splits)

lemma filtered_frame:
  "remove_filtered attr sub matched values r = Inr r' \<Longrightarrow> k \<noteq> aName attr \<Longrightarrow> map_of r' k = map_of r k"
  "update_filtered pf attr f sub op v created matched values r = Inr r' \<Longrightarrow> k \<noteq> aName attr \<Longrightarrow> map_of r' k = map_of r k"
  by (auto simp: remove_filtered_def update_filtered_def bind_ok_Inr map_of_set_field split: option.splits)

lemma applyFiltered_frame:
  assumes "applyFiltered pf attr f path op v rules r = Inr r'" "k \<noteq> aName attr"
  shows "map_of r' k = map_of r k"
  using assms(1) unfolding applyFiltered_def bind_ok_Inr Let_def addForFilter_def
  by (auto simp: bind_ok_Inr split: if_splits option.splits dest: filtered_frame[OF _ assms(2)] applyToAttribute_frame[OF _ assms(2)])

lemma applyToPath_frame: "applyToPath pf attr path op v rules r = Inr r' \<Longrightarrow> k \<noteq> aName attr \<Longrightarrow> map_of r' k = map_of r k"
  by (auto simp: applyToPath_def split: if_splits option.splits
      dest: applyToSubAttribute_frame applyFiltered_frame applyToAttribute_frame)

text \<open>An operation leaves the resource alone, or applies to the path of one writable attribute that it does not remove.\<close>

lemma applyToTarget_cases:
  assumes "applyToTarget pf schema op path v rules r = Inr r'"
  obtains "r' = r"
  | attr op' where "schema_attribute schema (apName (ppAttr path)) = Some attr" "aMutability attr \<noteq> mutabilityReadOnly"
      "applyToPath pf attr path op' v rules r = Inr r'"
      "aRequired attr \<or> aUnremovable attr \<Longrightarrow> ppFilter path = None \<Longrightarrow> apSub (ppAttr path) = [] \<Longrightarrow> op' \<noteq> patchRemove \<and> v \<noteq> JNull"
  using assms unfolding applyToTarget_def Let_def by (auto split: if_splits option.splits)

lemma applyPatch_induct:
  assumes "applyPatch pf schema r ops rules = Inr r'" "P r"
    "\<And>r r' op path v. applyToTarget pf schema op path v rules r = Inr r' \<Longrightarrow> P r \<Longrightarrow> P r'"
  shows "P r'"
proof (rule fold_ok_induct[where P = P, OF assms(1)[unfolded applyPatch_def] assms(2)])
  fix op r r'
  assume op: "applyOperation pf schema rules op r = Inr r'" and r: "P r"
  show "P r'"
  proof (cases "poPath op = []")
    case True
    then obtain members :: "pathlessMember list"
      where "fold_ok (\<lambda>m. applyToTarget pf schema (poOp op) (pmPath m) (pmValue m) rules) members r = Inr r'"
      using op by (auto simp: applyOperation_def bind_ok_Inr split: if_splits json.splits)
    then show ?thesis by (rule fold_ok_induct[where P = P]) (use r assms(3) in blast)+
  next
    case False
    then show ?thesis using op r assms(3) by (auto simp: applyOperation_def bind_ok_Inr split: if_splits)
  qed
qed

lemma applyToPath_keeps_simple:
  assumes "applyToPath pf attr path op v rules r = Inr r'" "aType attr \<noteq> typeComplex" "\<not> aMultiValued attr"
    "ppFilter path = None \<Longrightarrow> apSub (ppAttr path) = [] \<Longrightarrow> op \<noteq> patchRemove \<and> v \<noteq> JNull"
  shows "has_field r' (aName attr)"
  using assms by (auto simp: applyToPath_def applyToAttribute_def bind_ok_Inr split: option.splits if_splits)

text \<open>
  C18: A PATCH that is accepted changes only writable attributes: the identifier, the metadata, the schemas and the groups
  of a user stay as they are, whatever the operations. It leaves every attribute that must have a value, the name of a user
  or group and the status of a user, with one.
\<close>

theorem patch_respects_schema:
  assumes "schema \<in> {userResourceSchema, groupResourceSchema}" "applyPatch pf schema resource ops rules = Inr resource'"
  shows "(\<not> writable schema k \<longrightarrow> map_of resource' k = map_of resource k)
    \<and> (k \<in> set [''userName'', ''active''] \<and> schema = userResourceSchema \<or> k = ''displayName'' \<and> schema = groupResourceSchema \<longrightarrow>
       has_field resource k \<longrightarrow> has_field resource' k)"
proof -
  let ?must = "k \<in> set [''userName'', ''active''] \<and> schema = userResourceSchema \<or> k = ''displayName'' \<and> schema = groupResourceSchema"
  let ?P = "\<lambda>r. (\<not> writable schema k \<longrightarrow> map_of r k = map_of resource k) \<and> (?must \<longrightarrow> has_field resource k \<longrightarrow> has_field r k)"
  have ok: "schema_ok schema" using assms(1) user_schema_ok group_schema_ok by auto
  have simple: "case schema_attribute schema k of None \<Rightarrow> False | Some a \<Rightarrow> aName a = k \<and> aType a \<noteq> typeComplex \<and> \<not> aMultiValued a
      \<and> (aRequired a \<or> aUnremovable a)" if ?must
  proof -
    have "list_all (\<lambda>(s, k). case schema_attribute s k of None \<Rightarrow> False | Some a \<Rightarrow> aName a = k \<and> aType a \<noteq> typeComplex \<and> \<not> aMultiValued a
      \<and> (aRequired a \<or> aUnremovable a)) [(userResourceSchema, ''userName''), (userResourceSchema, ''active''), (groupResourceSchema, ''displayName'')]"
      by code_simp
    with that show ?thesis by auto
  qed
  show ?thesis
  proof (rule applyPatch_induct[OF assms(2), of ?P])
    fix r r' op path v
    assume "applyToTarget pf schema op path v rules r = Inr r'" and P: "?P r"
    then show "?P r'"
    proof (cases rule: applyToTarget_cases)
      case (2 attr op')
      note attr = schema_attribute_canonical[OF ok 2(1)]
      show ?thesis
      proof (cases "k = aName attr")
        case False
        with applyToPath_frame[OF 2(3)] P show ?thesis by (simp add: has_field_def)
      next
        case True
        with attr 2(2) have "writable schema k" by (simp add: writable_def)
        moreover have "has_field r' k" if ?must
          using applyToPath_keeps_simple[OF 2(3)] simple[OF that] 2(4) attr(2) True by auto
        ultimately show ?thesis by blast
      qed
    qed simp
  qed simp
qed

theorem patch_respects_schema_witness:
  "map_of (set_field ''title'' (JStr ''Lead'') (set_field ''active'' (JBool False) (userResource sample_user []))) ''id'' = Some (JStr ''u1'')"
proof -
  let ?r = "userResource sample_user []"
  have "applyPatch (\<lambda>_. None) userResourceSchema ?r
      [\<lparr>poOp = patchReplace, poPath = ''Active'', poValue = JStr ''False'', poHasValue = True\<rparr>,
       \<lparr>poOp = patchAdd, poPath = [], poValue = JObj [(''title'', JStr ''Lead''), (''id'', JStr ''u1'')], poHasValue = True\<rparr>]
      \<lparr>ReplaceAddsUnmatched = False\<rparr>
    = Inr (set_field ''title'' (JStr ''Lead'') (set_field ''active'' (JBool False) ?r))"
    by code_simp
  note result = patch_respects_schema[OF _ this, of "''id''"]
  have "\<not> writable userResourceSchema ''id''" "map_of ?r ''id'' = Some (JStr ''u1'')" by code_simp+
  with result show ?thesis by simp
qed

section \<open>Adding values\<close>

text \<open>
  The abstract view of the values of \<open>emails\<close> and \<open>phoneNumbers\<close>: what a write stores of them. Values are the same
  when they agree apart from the flag, ignoring case.
\<close>

abbreviation stored :: "json \<Rightarrow> SCIMMultiValue" where
  "stored v \<equiv> multi_value_from (as_object v)"

definition ident :: "SCIMMultiValue \<Rightarrow> string \<times> string \<times> string" where
  "ident v = (ToLower (mvValue v), ToLower (mvDisplay v), ToLower (mvType v))"

definition only_primary :: "(string \<times> string \<times> string) \<Rightarrow> SCIMMultiValue list \<Rightarrow> SCIMMultiValue list" where
  "only_primary k es =
    (case IndexFunc (\<lambda>e. ident e = k) es of
       None \<Rightarrow> map (mvPrimary_update (\<lambda>_. False)) es
     | Some i \<Rightarrow> (map (mvPrimary_update (\<lambda>_. False)) es)[i := (es ! i)\<lparr>mvPrimary := True\<rparr>])"

definition add_stored :: "SCIMMultiValue \<Rightarrow> SCIMMultiValue list \<Rightarrow> SCIMMultiValue list" where
  "add_stored v es =
    (if ident v \<in> ident ` set es then (if mvPrimary v then only_primary (ident v) es else es)
     else (if mvPrimary v then map (mvPrimary_update (\<lambda>_. False)) es else es) @ [v])"

lemma IndexFunc_None: "IndexFunc p xs = None \<longleftrightarrow> (\<forall>x\<in>set xs. \<not> p x)"
  by (induction xs) auto

lemma IndexFunc_Some: "IndexFunc p xs = Some i \<Longrightarrow> i < length xs \<and> p (xs ! i) \<and> (\<forall>j<i. \<not> p (xs ! j))"
proof (induction xs arbitrary: i)
  case (Cons x xs)
  then show ?case by (auto split: if_splits simp: less_Suc_eq_0_disj)
qed simp

lemma IndexFunc_map: "IndexFunc p (map f xs) = IndexFunc (p \<circ> f) xs"
  by (induction xs) auto

lemma IndexFunc_append: "x \<in> set xs \<Longrightarrow> p x \<Longrightarrow> IndexFunc p (xs @ ys) = IndexFunc p xs"
  by (induction xs) auto

lemma IndexFunc_cong: "(\<And>x. x \<in> set xs \<Longrightarrow> p x = q x) \<Longrightarrow> IndexFunc p xs = IndexFunc q xs"
  by (induction xs) auto

lemma ident_primary [simp]: "ident (v\<lparr>mvPrimary := b\<rparr>) = ident v"
  by (simp add: ident_def)

lemma idents_unset [simp]: "map (ident \<circ> mvPrimary_update (\<lambda>_. False)) es = map ident es"
  by simp

lemma idents_only_primary [simp]: "map ident (only_primary k es) = map ident es"
  by (auto simp: only_primary_def map_update list_update_same_conv dest!: IndexFunc_Some split: option.split)

lemma ident_set_only_primary [simp]: "ident ` set (only_primary k es) = ident ` set es"
  by (metis idents_only_primary set_map)

lemma idents_add_stored: "map ident (add_stored v es) = map ident es @ (if ident v \<in> ident ` set es then [] else [ident v])"
  by (simp add: add_stored_def)

lemma index_of_idents: "IndexFunc (\<lambda>e. ident e = k) es = IndexFunc (\<lambda>x. x = k) (map ident es)"
  by (simp add: IndexFunc_map comp_def)

lemma only_primary_again [simp]: "only_primary k (only_primary k' es) = only_primary k es"
proof -
  have "IndexFunc (\<lambda>e. ident e = k) (only_primary k' es) = IndexFunc (\<lambda>e. ident e = k) es"
    by (simp add: index_of_idents)
  then show ?thesis
    by (auto simp: only_primary_def map_update comp_def list_update_same_conv intro!: nth_equalityI
        dest!: IndexFunc_Some split: option.split) (auto simp: nth_list_update)
qed

text \<open>The last primary value of a list decides which one is primary.\<close>

definition decided :: "SCIMMultiValue list \<Rightarrow> SCIMMultiValue list \<Rightarrow> bool" where
  "decided vs es =
    (ident ` set vs \<subseteq> ident ` set es
     \<and> (case find mvPrimary (rev vs) of None \<Rightarrow> True | Some u \<Rightarrow> only_primary (ident u) es = es))"

lemma only_primary_append:
  assumes "only_primary k es = es" "k \<in> ident ` set es" "\<not> mvPrimary v"
  shows "only_primary k (es @ [v]) = es @ [v]"
proof -
  obtain i where i: "IndexFunc (\<lambda>e. ident e = k) es = Some i" using assms(2) by (cases "IndexFunc (\<lambda>e. ident e = k) es") (auto simp: IndexFunc_None)
  moreover have "IndexFunc (\<lambda>e. ident e = k) (es @ [v]) = Some i"
    using i IndexFunc_append[of "es ! i" es "\<lambda>e. ident e = k" "[v]"] IndexFunc_Some[OF i] by simp
  ultimately show ?thesis
    using assms(1,3) IndexFunc_Some[OF i] by (simp add: only_primary_def list_update_append nth_append)
qed

lemma decided_add: "decided vs es \<Longrightarrow> decided (vs @ [v]) (add_stored v es)"
proof -
  assume d: "decided vs es"
  have idents: "ident ` set (add_stored v es) = insert (ident v) (ident ` set es)"
    using arg_cong[OF idents_add_stored[of v es], of set] by (auto simp: insert_absorb)
  have "only_primary (ident v) (map (mvPrimary_update (\<lambda>_. False)) es @ [v]) = map (mvPrimary_update (\<lambda>_. False)) es @ [v]"
    if "mvPrimary v" "ident v \<notin> ident ` set es"
  proof -
    have "IndexFunc (\<lambda>e. ident e = ident v) (map (mvPrimary_update (\<lambda>_. False)) es @ [v]) = Some (length es)"
      using that(2) by (induction es) auto
    with that(1) show ?thesis by (simp add: only_primary_def comp_def list_update_append nth_append)
  qed
  moreover have "only_primary (ident u) (add_stored v es) = add_stored v es"
    if u: "find mvPrimary (rev vs) = Some u" "\<not> mvPrimary v" for u
  proof -
    have "ident u \<in> ident ` set es" using d find_sound[OF u(1)] by (auto simp: decided_def)
    with d u show ?thesis by (auto simp: decided_def add_stored_def intro!: only_primary_append)
  qed
  ultimately show ?thesis
    using d idents by (auto simp: decided_def add_stored_def split: option.split)
qed

lemma decided_fold: "decided vs (fold add_stored vs es)"
proof (induction vs rule: rev_induct)
  case (snoc v vs)
  then show ?case using decided_add by simp
qed (simp add: decided_def)

lemma fold_present:
  assumes "ident ` set vs \<subseteq> ident ` set es"
  shows "fold add_stored vs es = (case find mvPrimary (rev vs) of None \<Rightarrow> es | Some u \<Rightarrow> only_primary (ident u) es)"
  using assms
proof (induction vs rule: rev_induct)
  case (snoc v vs)
  then have "ident v \<in> ident ` set es" by simp
  with snoc show ?case by (auto simp: add_stored_def split: option.split)
qed simp

lemma repeated_add_stored: "fold add_stored vs (fold add_stored vs es) = fold add_stored vs es"
  using decided_fold[of vs es] fold_present[of vs "fold add_stored vs es"] by (auto simp: decided_def split: option.splits)

lemma only_primary_count: "k \<in> ident ` set es \<Longrightarrow> length (filter mvPrimary (only_primary k es)) = 1"
proof -
  assume "k \<in> ident ` set es"
  then obtain i where i: "IndexFunc (\<lambda>e. ident e = k) es = Some i" by (cases "IndexFunc (\<lambda>e. ident e = k) es") (auto simp: IndexFunc_None)
  then have "i < length es" using IndexFunc_Some by blast
  then have "length (filter mvPrimary ((map (mvPrimary_update (\<lambda>_. False)) es)[i := x])) = 1" if "mvPrimary x" for x
    using that by (simp add: upd_conv_take_nth_drop take_map drop_map)
  with i show ?thesis by (simp add: only_primary_def)
qed

lemma add_stored_one_primary:
  "length (filter mvPrimary es) \<le> 1 \<Longrightarrow> length (filter mvPrimary (add_stored v es)) \<le> 1"
  by (simp add: add_stored_def only_primary_count comp_def)

text \<open>Adding values to \<open>emails\<close> or \<open>phoneNumbers\<close> implements the abstract view.\<close>

lemma stored_sub:
  assumes "typed (multiValuedAttribute n) v"
  obtains m where "v = JObj m" "field m ''value'' = JNull \<or> (\<exists>s. field m ''value'' = JStr s)"
    "field m ''display'' = JNull \<or> (\<exists>s. field m ''display'' = JStr s)" "field m ''type'' = JNull \<or> (\<exists>s. field m ''type'' = JStr s)"
proof -
  have complex: "aType (multiValuedAttribute n) = typeComplex" by (simp add: multiValuedAttribute_def)
  obtain m where m: "v = JObj m"
    using assms unfolding typed.simps[of "multiValuedAttribute n" v] if_P[OF complex] by (auto split: json.splits)
  have "field m k = JNull \<or> (\<exists>s. field m k = JStr s)" if "k \<in> {''value'', ''display'', ''type''}" for k
  proof (cases "map_of m k")
    case (Some w)
    then have "(k, w) \<in> set m" by (rule map_of_SomeD)
    then have "\<exists>s. w = JStr s" using assms that unfolding m typed_object[OF complex] by (fastforce simp: multiValuedAttribute_def)
    with Some show ?thesis by (auto simp: field_def)
  qed (simp add: field_def)
  with that m show ?thesis by simp
qed

lemma EqualFold_Nil [simp]: "EqualFold [] s \<longleftrightarrow> s = []" "EqualFold s [] \<longleftrightarrow> s = []"
  by (auto simp: EqualFold_ToLower ToLower_def)

lemma sameValue_ident:
  assumes "typed (multiValuedAttribute n) a" "typed (multiValuedAttribute n) b"
  shows "sameValue (multiValuedAttribute n) a b \<longleftrightarrow> ident (stored a) = ident (stored b)"
proof -
  have same: "subValuesEqual (stringAttribute k) (field x k) (field y k) \<longleftrightarrow> ToLower (stringValue x k) = ToLower (stringValue y k)"
    if "field x k = JNull \<or> (\<exists>s. field x k = JStr s)" "field y k = JNull \<or> (\<exists>s. field y k = JStr s)" for x y k
    using that by (auto simp: subValuesEqual_def absent_def stringValue_def stringAttribute_def EqualFold_ToLower ToLower_def)
  from assms(1) show ?thesis
  proof (rule stored_sub)
    fix x
    assume x: "a = JObj x" "field x ''value'' = JNull \<or> (\<exists>s. field x ''value'' = JStr s)"
      "field x ''display'' = JNull \<or> (\<exists>s. field x ''display'' = JStr s)" "field x ''type'' = JNull \<or> (\<exists>s. field x ''type'' = JStr s)"
    from assms(2) show ?thesis
    proof (rule stored_sub)
      fix y
      assume y: "b = JObj y" "field y ''value'' = JNull \<or> (\<exists>s. field y ''value'' = JStr s)"
        "field y ''display'' = JNull \<or> (\<exists>s. field y ''display'' = JStr s)" "field y ''type'' = JNull \<or> (\<exists>s. field y ''type'' = JStr s)"
      show ?thesis
        using same[OF x(2) y(2)] same[OF x(3) y(3)] same[OF x(4) y(4)]
        by (simp add: x(1) y(1) sameValue_def multiValuedAttribute_def as_object_def multi_value_from_def ident_def)
    qed
  qed
qed

lemma stored_primary [simp]:
  "stored (unset_primary v) = (stored v)\<lparr>mvPrimary := False\<rparr>" "stored (make_primary v) = (stored v)\<lparr>mvPrimary := True\<rparr>"
  "mvPrimary (stored v) = is_primary v"
  by (auto simp: unset_primary_def make_primary_def multi_value_from_def as_object_def stringValue_def is_primary_def split: json.split)

lemma typed_primary:
  assumes "typed (multiValuedAttribute n) v"
  shows "typed (multiValuedAttribute n) (unset_primary v)" "typed (multiValuedAttribute n) (make_primary v)"
proof -
  have complex: "aType (multiValuedAttribute n) = typeComplex" by (simp add: multiValuedAttribute_def)
  obtain m where m: "v = JObj m" using assms by (rule stored_sub)
  note ok = assms[unfolded m typed_object[OF complex]]
  have "distinct (map fst (delete_field ''primary'' m))" using ok by (simp add: delete_field_def distinct_map_filter)
  with ok show "typed (multiValuedAttribute n) (unset_primary v)"
    by (auto simp: m unset_primary_def typed_object[OF complex] delete_field_def)
  have "distinct (map fst (set_field ''primary'' (JBool True) m))" using ok by (simp add: set_field_keys)
  with ok set_field_subset[of "''primary''" "JBool True" m] show "typed (multiValuedAttribute n) (make_primary v)"
    unfolding m make_primary_def as_object_def typed_object[OF complex]
    by (auto simp: multiValuedAttribute_def typed_boolean dest!: subsetD)
qed

lemma not_by_value: "\<not> identifiedByValue (multiValuedAttribute n)"
  by (simp add: identifiedByValue_def subAttribute_def multiValuedAttribute_def stringAttribute_def EqualFold_ToLower ToLower_def to_lower_def)

lemma set_add_by_value [simp]: "vsByValue (set_add v s) = None \<longleftrightarrow> vsByValue s = None"
  by (simp add: set_add_def split: json.split option.split)

lemma set_fold_by_value [simp]: "vsByValue (fold set_add vs s) = None \<longleftrightarrow> vsByValue s = None"
  by (induction vs arbitrary: s) auto

lemma add_value_stored:
  assumes "list_all (typed (multiValuedAttribute n)) es" "typed (multiValuedAttribute n) v" "vsByValue s = None"
  shows "map stored (fst (add_value (multiValuedAttribute n) v (es, s))) = add_stored (stored v) (map stored es)"
    "list_all (typed (multiValuedAttribute n)) (fst (add_value (multiValuedAttribute n) v (es, s)))"
    "vsByValue (snd (add_value (multiValuedAttribute n) v (es, s))) = None"
proof -
  let ?i = "IndexFunc (\<lambda>e. sameValue (multiValuedAttribute n) e v) es"
  have i: "?i = IndexFunc (\<lambda>e. ident e = ident (stored v)) (map stored es)"
    unfolding IndexFunc_map by (rule IndexFunc_cong) (use assms sameValue_ident in \<open>simp add: list_all_iff\<close>)
  have none: "?i = None \<longleftrightarrow> ident (stored v) \<notin> ident ` set (map stored es)" unfolding i IndexFunc_None by (auto simp: image_iff)
  show "map stored (fst (add_value (multiValuedAttribute n) v (es, s))) = add_stored (stored v) (map stored es)"
  proof (cases ?i)
    case None
    with none show ?thesis using assms(3) by (auto simp: add_value_def add_stored_def)
  next
    case (Some j)
    with none IndexFunc_Some[OF Some] i show ?thesis using assms(3)
      by (auto simp: add_value_def add_stored_def only_primary_def map_update comp_def)
  qed
  show "list_all (typed (multiValuedAttribute n)) (fst (add_value (multiValuedAttribute n) v (es, s)))"
    using assms typed_primary by (auto simp: add_value_def Let_def list_all_iff split: option.split dest!: set_update_subset_insert[THEN subsetD] IndexFunc_Some)
  show "vsByValue (snd (add_value (multiValuedAttribute n) v (es, s))) = None"
    using assms(3) by (simp add: add_value_def Let_def split: option.split)
qed

lemma addValues_stored:
  assumes "list_all (typed (multiValuedAttribute n)) es" "list_all (typed (multiValuedAttribute n)) vs"
  shows "map stored (addValues (multiValuedAttribute n) es vs) = fold add_stored (map stored vs) (map stored es)
    \<and> list_all (typed (multiValuedAttribute n)) (addValues (multiValuedAttribute n) es vs)"
proof -
  have "map stored (fst (fold (add_value (multiValuedAttribute n)) vs st)) = fold add_stored (map stored vs) (map stored (fst st))
      \<and> list_all (typed (multiValuedAttribute n)) (fst (fold (add_value (multiValuedAttribute n)) vs st))"
    if "list_all (typed (multiValuedAttribute n)) (fst st)" "vsByValue (snd st) = None" for st
    using assms(2) that
  proof (induction vs arbitrary: st)
    case (Cons v vs)
    obtain es s where "st = (es, s)" by (cases st)
    with Cons add_value_stored[of n es v s] show ?case by simp
  qed simp
  from this[of "(es, newValueSet (multiValuedAttribute n) es)"] assms(1) show ?thesis
    by (simp add: addValues_def newValueSet_def not_by_value)
qed

lemma fold_one_primary: "length (filter mvPrimary es) \<le> 1 \<Longrightarrow> length (filter mvPrimary (fold add_stored vs es)) \<le> 1"
  by (induction vs arbitrary: es) (use add_stored_one_primary in auto)

lemma values_stored: "multiValuesFrom v = filter (\<lambda>v. v \<noteq> empty_multi_value) (map stored (listValue v))"
  by (simp add: multiValuesFrom_def)

lemma primary_stored: "primaryValues v = length (filter mvPrimary (map stored (listValue v)))"
  by (simp add: primaryValues_def is_primary_def filter_map comp_def)

text \<open>
  C19: Repeating an add of email addresses or phone numbers changes nothing: once it was applied, the same add is accepted
  again and leaves the stored values as they are. The values keep at most one primary value.
\<close>

theorem repeated_add_changes_nothing:
  assumes "n \<in> {''emails'', ''phoneNumbers''}" "resource_ok userResourceSchema resource"
    "applyToAttribute (multiValuedAttribute n) patchAdd value resource = Inr resource'"
  shows "(\<exists>again. applyToAttribute (multiValuedAttribute n) patchAdd value resource' = Inr again
      \<and> multiValuesFrom (field again n) = multiValuesFrom (field resource' n))
    \<and> (primaryValues (field resource n) \<le> 1 \<longrightarrow> primaryValues (field resource' n) \<le> 1)"
proof -
  have a: "aName (multiValuedAttribute n) = n" "aMultiValued (multiValuedAttribute n)" "attribute_ok (multiValuedAttribute n)"
    using assms(1) by (auto simp: multiValuedAttribute_def stringAttribute_def fold_distinct_def ToLower_def to_lower_def)
  show ?thesis
  proof (cases "value = JNull")
    case True
    then have "resource' = delete_field n resource" using assms(3) a by (simp add: applyToAttribute_def)
    with True a show ?thesis by (simp add: applyToAttribute_def primaryValues_def listValue_def)
  next
    case False
    let ?es = "listValue (field resource n)"
    obtain vs where vs: "canonicalList (multiValuedAttribute n) value = Inr vs"
      and r': "resource' = set_field n (JList (addValues (multiValuedAttribute n) ?es vs)) resource"
      using assms(3) False a by (auto simp: applyToAttribute_def bind_ok_Inr)
    have typed_vs: "list_all (typed (multiValuedAttribute n)) vs"
      using canonicalValue_typed[OF a(3), of "value" "JList vs"] vs a(2) by (simp add: canonicalValue_def typed_value_def)
    have n: "schema_attribute userResourceSchema n = Some (multiValuedAttribute n)" using user_attributes(5,6) assms(1) by auto
    have typed_es: "list_all (typed (multiValuedAttribute n)) ?es"
    proof (cases "map_of resource n")
      case (Some w)
      then have "member_ok userResourceSchema (n, w)" using assms(2) by (auto simp: resource_ok_def list_all_iff dest: map_of_SomeD)
      with n a(2) Some show ?thesis
        by (auto simp: member_ok_def typed_value_def field_def listValue_def multiValuedAttribute_def split: json.splits)
    qed (simp add: field_def listValue_def)
    note once = addValues_stored[OF typed_es typed_vs]
    note twice = addValues_stored[OF once[THEN conjunct2] typed_vs]
    have same: "map stored (addValues (multiValuedAttribute n) (addValues (multiValuedAttribute n) ?es vs) vs)
        = map stored (addValues (multiValuedAttribute n) ?es vs)"
      using once twice repeated_add_stored by simp
    have "primaryValues (field resource' n) \<le> 1" if "primaryValues (field resource n) \<le> 1"
      using fold_one_primary[OF that[unfolded primary_stored], of "map stored vs"] once
      unfolding primary_stored r' field_set_field by (simp only: listValue_def json.case if_True refl)
    moreover have "applyToAttribute (multiValuedAttribute n) patchAdd value resource'
        = Inr (set_field n (JList (addValues (multiValuedAttribute n) (addValues (multiValuedAttribute n) ?es vs) vs)) resource')"
      using False a vs by (simp add: applyToAttribute_def r' listValue_def)
    ultimately show ?thesis using same by (simp add: r' values_stored listValue_def)
  qed
qed

theorem repeated_add_changes_nothing_witness:
  "primaryValues (field (set_field ''emails''
      (JList (addValues (multiValuedAttribute ''emails'') (multiValues (spEmails sample_profile))
        [JObj [(''value'', JStr ''A@Y.org''), (''primary'', JBool True)]])) (userResource sample_user [])) ''emails'') \<le> 1"
proof -
  let ?v = "JObj [(''value'', JStr ''A@Y.org''), (''primary'', JBool True)]"
  have "applyToAttribute (multiValuedAttribute ''emails'') patchAdd ?v (userResource sample_user []) =
    Inr (set_field ''emails'' (JList (addValues (multiValuedAttribute ''emails'') (multiValues (spEmails sample_profile)) [?v]))
      (userResource sample_user []))"
    by code_simp
  moreover have "primaryValues (field (userResource sample_user []) ''emails'') \<le> 1" by code_simp
  ultimately show ?thesis using repeated_add_changes_nothing[OF _ userResource_ok] by blast
qed

end
