(* ===== verification/Scim_Group_Patch.thy ===== *)
theory Scim_Group_Patch
  imports Scim_Patch
begin

text \<open>
  The fast path of group patches (pkg/scim/grouppatch.go): the operations of a request that name the members they
  change become one \<open>SCIMGroupPatch\<close>, which is applied without reading the members. The main result is that the
  fast path does what applying the operations to the whole group does.
\<close>

section \<open>Planning\<close>

record SCIMGroupPatch =
  gpDisplayName :: string
  gpReplaceMembers :: bool
  gpMemberIDs :: "string list"
  gpRemovedMemberIDs :: "string list"

record memberChange =
  mcID :: string
  mcMember :: bool

text \<open>The variables of the loop: the name, the replacement, and the changes after it with the order of their keys.\<close>

record plan =
  plName :: string
  plReplace :: bool
  plReplaced :: "string list"
  plChanges :: "string \<rightharpoonup> memberChange"
  plOrder :: "string list"

definition change :: "bool \<Rightarrow> string \<Rightarrow> plan \<Rightarrow> plan" where
  "change member memberID st =
    (let key = ToLower memberID
     in st\<lparr>plOrder := (if plChanges st key = None then plOrder st @ [key] else plOrder st),
           plChanges := (plChanges st)(key \<mapsto> \<lparr>mcID = memberID, mcMember = member\<rparr>)\<rparr>)"

fun rename_loop :: "string \<Rightarrow> obj \<Rightarrow> string \<Rightarrow> string option" where
  "rename_loop groupID [] name = Some name"
| "rename_loop groupID ((key, value) # values) name =
    (if EqualFold key ''id'' then (if value \<noteq> JStr groupID then None else rename_loop groupID values name)
     else if EqualFold key ''displayName''
     then (case value of
             JStr s \<Rightarrow> if TrimSpace s = [] then None else rename_loop groupID values s
           | _ \<Rightarrow> None)
     else None)"

definition pathlessGroupRename :: "string \<Rightarrow> patchOperation \<Rightarrow> string option" where
  "pathlessGroupRename groupID op =
    (case poValue op of
       JObj values \<Rightarrow>
         if poOp op \<noteq> patchReplace then None
         else (case rename_loop groupID values [] of None \<Rightarrow> None | Some name \<Rightarrow> if name = [] then None else Some name)
     | _ \<Rightarrow> None)"

definition patchMemberIDs :: "json \<Rightarrow> string list option" where
  "patchMemberIDs value =
    (if value = JNull then None
     else case schema_attribute groupResourceSchema ''members'' of
            None \<Rightarrow> None
          | Some attr \<Rightarrow>
              (case bind_ok (canonicalValue attr value) groupMemberIDs of Inl _ \<Rightarrow> None | Inr ids \<Rightarrow> Some ids))"

definition memberValueEquals :: "filter \<Rightarrow> string option" where
  "memberValueEquals f =
    (case f of
       Comparison path op (JStr s) \<Rightarrow>
         if op \<noteq> ''eq'' \<or> apURN path \<noteq> [] \<or> apSub path \<noteq> [] \<or> \<not> EqualFold (apName path) ''value'' \<or> s = [] then None else Some s
     | _ \<Rightarrow> None)"

definition plan_operation :: "float_parser \<Rightarrow> string \<Rightarrow> patchOperation \<Rightarrow> plan \<Rightarrow> plan option" where
  "plan_operation pf groupID op st =
    (if poPath op = [] then map_option (\<lambda>name. st\<lparr>plName := name\<rparr>) (pathlessGroupRename groupID op)
     else case parsePatchPath pf (poPath op) of
            Inl _ \<Rightarrow> None
          | Inr path \<Rightarrow>
              if \<not> inSchema (ppAttr path) groupResourceSchema \<or> apSub (ppAttr path) \<noteq> [] \<or> ppSub path \<noteq> [] then None
              else if EqualFold (apName (ppAttr path)) ''displayName'' \<and> ppFilter path = None \<and> poOp op = patchReplace
              then (case poValue op of JStr name \<Rightarrow> if TrimSpace name = [] then None else Some (st\<lparr>plName := name\<rparr>) | _ \<Rightarrow> None)
              else if EqualFold (apName (ppAttr path)) ''members''
              then (case ppFilter path of
                      None \<Rightarrow>
                        if poOp op = patchReplace
                        then map_option (\<lambda>ids. st\<lparr>plReplace := True, plReplaced := ids, plChanges := Map.empty, plOrder := []\<rparr>)
                               (patchMemberIDs (poValue op))
                        else if poOp op = patchAdd then map_option (\<lambda>ids. fold (change True) ids st) (patchMemberIDs (poValue op))
                        else None
                    | Some f \<Rightarrow>
                        if poOp op = patchRemove then map_option (\<lambda>mid. change False mid st) (memberValueEquals f) else None)
              else None)"

fun plan_loop :: "float_parser \<Rightarrow> string \<Rightarrow> patchOperation list \<Rightarrow> plan \<Rightarrow> plan option" where
  "plan_loop pf groupID [] st = Some st"
| "plan_loop pf groupID (op # ops) st = Option.bind (plan_operation pf groupID op st) (plan_loop pf groupID ops)"

definition is_member :: "plan \<Rightarrow> string \<Rightarrow> bool" where
  "is_member st key = (case plChanges st key of None \<Rightarrow> False | Some c \<Rightarrow> mcMember c)"

definition changed_id :: "plan \<Rightarrow> string \<Rightarrow> string" where
  "changed_id st key = (case plChanges st key of None \<Rightarrow> [] | Some c \<Rightarrow> mcID c)"

definition finish_plan :: "plan \<Rightarrow> SCIMGroupPatch" where
  "finish_plan st =
    (if plReplace st
     then \<lparr>gpDisplayName = plName st, gpReplaceMembers = True,
           gpMemberIDs =
             filter (\<lambda>mid. plChanges st (ToLower mid) = None \<or> is_member st (ToLower mid)) (plReplaced st)
             @ map (changed_id st) (filter (\<lambda>key. key \<notin> ToLower ` set (plReplaced st) \<and> is_member st key) (plOrder st)),
           gpRemovedMemberIDs = []\<rparr>
     else \<lparr>gpDisplayName = plName st, gpReplaceMembers = False,
           gpMemberIDs = map (changed_id st) (filter (is_member st) (plOrder st)),
           gpRemovedMemberIDs = filter (\<lambda>key. \<not> is_member st key) (plOrder st)\<rparr>)"

definition planGroupPatch :: "float_parser \<Rightarrow> string \<Rightarrow> patchOperation list \<Rightarrow> SCIMGroupPatch option" where
  "planGroupPatch pf groupID ops =
    map_option finish_plan
      (plan_loop pf groupID ops \<lparr>plName = [], plReplace = False, plReplaced = [], plChanges = Map.empty, plOrder = []\<rparr>)"

section \<open>The members a plan leaves\<close>

text \<open>The members after a patch, by their lower-case identifiers: what PatchSCIMGroup does with it.\<close>

definition patched_members :: "SCIMGroupPatch \<Rightarrow> string set \<Rightarrow> string set" where
  "patched_members p old =
    (if gpReplaceMembers p then ToLower ` set (gpMemberIDs p)
     else old - ToLower ` set (gpRemovedMemberIDs p) \<union> ToLower ` set (gpMemberIDs p))"

definition plan_members :: "plan \<Rightarrow> string set \<Rightarrow> string set" where
  "plan_members st old =
    {k. case plChanges st k of Some c \<Rightarrow> mcMember c | None \<Rightarrow> k \<in> (if plReplace st then ToLower ` set (plReplaced st) else old)}"

definition plan_ok :: "plan \<Rightarrow> bool" where
  "plan_ok st \<longleftrightarrow> set (plOrder st) = dom (plChanges st) \<and> (\<forall>k c. plChanges st k = Some c \<longrightarrow> ToLower (mcID c) = k \<and> ToLower k = k)"

text \<open>
  A name given twice, in different case: the one that is visited last is taken, and a Go map is visited in any order.
\<close>

lemma rename_order_matters:
  "pathlessGroupRename ''g'' \<lparr>poOp = patchReplace, poPath = [], poValue = JObj [(''displayName'', JStr ''A''), (''displayname'', JStr ''B'')], poHasValue = True\<rparr> = Some ''B''"
  "pathlessGroupRename ''g'' \<lparr>poOp = patchReplace, poPath = [], poValue = JObj [(''displayname'', JStr ''B''), (''displayName'', JStr ''A'')], poHasValue = True\<rparr> = Some ''A''"
  by code_simp+


lemma to_lower_again [simp]: "to_lower (to_lower c) = to_lower c"
  by (simp add: to_lower_def Let_def)

lemma ToLower_again [simp]: "ToLower (ToLower s) = ToLower s"
  by (simp add: ToLower_def)

lemma change_fields [simp]:
  "plChanges (change b mid st) = (plChanges st)(ToLower mid \<mapsto> \<lparr>mcID = mid, mcMember = b\<rparr>)" "plName (change b mid st) = plName st"
  "plReplace (change b mid st) = plReplace st" "plReplaced (change b mid st) = plReplaced st"
  by (simp_all add: change_def Let_def)

lemma change_ok: "plan_ok st \<Longrightarrow> plan_ok (change b mid st)"
  by (auto simp: plan_ok_def change_def Let_def)

lemma change_members:
  "plan_members (change b mid st) old = (if b then insert (ToLower mid) (plan_members st old) else plan_members st old - {ToLower mid})"
  by (auto simp: plan_members_def split: if_splits option.splits)

lemma changes_ok: "plan_ok st \<Longrightarrow> plan_ok (fold (change b) ids st)"
  by (induction ids arbitrary: st) (auto simp: change_ok)

lemma changes_members: "plan_members (fold (change True) ids st) old = plan_members st old \<union> ToLower ` set ids"
  by (induction ids arbitrary: st) (auto simp: change_members)

lemma changes_name [simp]: "plName (fold (change b) ids st) = plName st"
  by (induction ids arbitrary: st) auto

lemma finish_plan_members:
  assumes "plan_ok st"
  shows "patched_members (finish_plan st) old = plan_members st old" "gpDisplayName (finish_plan st) = plName st"
proof -
  have order: "set (plOrder st) = dom (plChanges st)" using assms by (simp add: plan_ok_def)
  have ids: "ToLower ` changed_id st ` {k \<in> set (plOrder st). P k \<and> is_member st k} = {k. P k \<and> is_member st k}" for P
    using assms by (force simp: plan_ok_def changed_id_def is_member_def image_iff split: option.splits)
  have removed: "ToLower ` {k \<in> set (plOrder st). \<not> is_member st k} = {k. plChanges st k \<noteq> None \<and> \<not> is_member st k}"
    using assms by (force simp: plan_ok_def image_iff)
  show "patched_members (finish_plan st) old = plan_members st old"
  proof (cases "plReplace st")
    case True
    with ids[of "\<lambda>k. k \<notin> ToLower ` set (plReplaced st)"] show ?thesis
      by (auto simp: patched_members_def finish_plan_def plan_members_def image_Un is_member_def image_iff split: option.splits)
  next
    case False
    with ids[of "\<lambda>_. True"] removed show ?thesis
      by (auto simp: patched_members_def finish_plan_def plan_members_def is_member_def split: option.splits)
  qed
  show "gpDisplayName (finish_plan st) = plName st" by (simp add: finish_plan_def)
qed

section \<open>Members of a resource\<close>

definition members_attr :: attribute where
  "members_attr = Attribute ''members'' typeComplex True False False mutabilityReadWrite False
     [with_mutability mutabilityImmutable (required (stringAttribute ''value'')),
      referenceAttribute ''$ref'' (with_mutability mutabilityImmutable), readOnly (stringAttribute ''display''),
      with_mutability mutabilityImmutable (stringAttribute ''type'')]"

definition name_attr :: attribute where "name_attr = required (stringAttribute ''displayName'')"

lemma schema_attribute_fold: "EqualFold name n \<Longrightarrow> schema_attribute s name = schema_attribute s n"
proof -
  assume "EqualFold name n"
  then have "(\<lambda>a. EqualFold (aName a) name) = (\<lambda>a. EqualFold (aName a) n)" by (simp add: EqualFold_ToLower)
  then show ?thesis by (simp only: schema_attribute_def)
qed

lemma group_attributes:
  "EqualFold name ''members'' \<Longrightarrow> schema_attribute groupResourceSchema name = Some members_attr"
  "EqualFold name ''displayName'' \<Longrightarrow> schema_attribute groupResourceSchema name = Some name_attr"
  "EqualFold name ''id'' \<Longrightarrow> schema_attribute groupResourceSchema name = Some (caseExact (readOnly (stringAttribute ''id'')))"
  "\<not> ignores groupResourceSchema name"
proof -
  have "schema_attribute groupResourceSchema ''members'' = Some members_attr" "schema_attribute groupResourceSchema ''displayName'' = Some name_attr"
    "schema_attribute groupResourceSchema ''id'' = Some (caseExact (readOnly (stringAttribute ''id'')))"
    by code_simp+
  then show "EqualFold name ''members'' \<Longrightarrow> schema_attribute groupResourceSchema name = Some members_attr"
    "EqualFold name ''displayName'' \<Longrightarrow> schema_attribute groupResourceSchema name = Some name_attr"
    "EqualFold name ''id'' \<Longrightarrow> schema_attribute groupResourceSchema name = Some (caseExact (readOnly (stringAttribute ''id'')))"
    by (simp_all add: schema_attribute_fold)
  show "\<not> ignores groupResourceSchema name" by (simp add: ignores_def groupResourceSchema_def)
qed

lemma members_attr_fields [simp]:
  "aName members_attr = ''members''" "aMultiValued members_attr" "aType members_attr = typeComplex" "\<not> aRequired members_attr"
  "\<not> aUnremovable members_attr" "aMutability members_attr \<noteq> mutabilityReadOnly" "attribute_ok members_attr" "identifiedByValue members_attr"
  by (simp add: members_attr_def; fail | code_simp)+

lemma name_attr_fields [simp]:
  "aName name_attr = ''displayName''" "\<not> aMultiValued name_attr" "aType name_attr = typeString" "aMutability name_attr \<noteq> mutabilityReadOnly"
  by code_simp+

definition member_id :: "json \<Rightarrow> string" where
  "member_id v = stringValue (as_object v) ''value''"

definition good_member :: "json \<Rightarrow> bool" where
  "good_member v =
    (typed members_attr v \<and> member_id v \<noteq> []
     \<and> (stringValue (as_object v) ''type'' = [] \<or> EqualFold (stringValue (as_object v) ''type'') ''User''))"

lemma typed_member:
  assumes "typed members_attr v"
  obtains m where "v = JObj m" "distinct (map fst m)" "\<And>k w. (k, w) \<in> set m \<Longrightarrow> k \<in> {''value'', ''$ref'', ''display'', ''type''} \<and> (\<exists>s. w = JStr s)"
proof -
  obtain m where m: "v = JObj m"
    using assms unfolding typed.simps[of members_attr v] if_P[OF members_attr_fields(3)] by (auto split: json.splits)
  note ok = assms[unfolded m typed_object[OF members_attr_fields(3)]]
  have "k \<in> {''value'', ''$ref'', ''display'', ''type''} \<and> (\<exists>s. w = JStr s)" if kw: "(k, w) \<in> set m" for k w
  proof -
    obtain sub where sub: "find (\<lambda>sub. aName sub = k) (aSubAttributes members_attr) = Some sub" "typed sub w"
      using ok kw by (fastforce split: option.splits)
    have "sub \<in> set (aSubAttributes members_attr)" "aName sub = k" using find_sound[OF sub(1)] by auto
    moreover have "list_all (\<lambda>sub. aName sub \<in> set [''value'', ''$ref'', ''display'', ''type''] \<and> aType sub \<noteq> typeComplex \<and> aType sub \<noteq> typeBoolean)
        (aSubAttributes members_attr)"
      by code_simp
    ultimately show ?thesis using sub(2) typed_string[of sub w] by (auto simp: list_all_iff)
  qed
  with m ok that show ?thesis by blast
qed

lemma groupMemberIDs_good:
  assumes "list_all good_member vs"
  shows "groupMemberIDs (JList vs) = Inr (map member_id vs)"
  unfolding groupMemberIDs_def Let_def
  by (subst map_ok_same[where g = member_id]) (use assms in \<open>auto simp: listValue_def list_all_iff good_member_def member_id_def\<close>)

lemma groupMemberIDs_Cons:
  "groupMemberIDs (JList (v # vs)) =
    (if member_id v = [] \<or> stringValue (as_object v) ''type'' \<noteq> [] \<and> \<not> EqualFold (stringValue (as_object v) ''type'') ''User'' then Inl invalidValue
     else bind_ok (groupMemberIDs (JList vs)) (\<lambda>ids. Inr (member_id v # ids)))"
  by (simp add: groupMemberIDs_def listValue_def member_id_def Let_def)

lemma groupMemberIDs_Inr:
  assumes "groupMemberIDs (JList vs) = Inr ids" "list_all (typed members_attr) vs"
  shows "list_all good_member vs \<and> ids = map member_id vs"
  using assms
proof (induction vs arbitrary: ids)
  case (Cons v vs)
  then obtain rest where rest: "groupMemberIDs (JList vs) = Inr rest" "ids = member_id v # rest" and v: "member_id v \<noteq> []"
    "stringValue (as_object v) ''type'' = [] \<or> EqualFold (stringValue (as_object v) ''type'') ''User''"
    unfolding groupMemberIDs_Cons bind_ok_def by (auto split: if_splits sum.splits)
  have "good_member v" using v Cons.prems(2) by (simp add: good_member_def)
  with Cons.IH[OF rest(1)] Cons.prems(2) rest(2) show ?case by simp
qed (simp add: groupMemberIDs_def listValue_def)

lemma patchMemberIDs_good:
  assumes "patchMemberIDs v = Some ids"
  obtains vs where "v \<noteq> JNull" "canonicalList members_attr v = Inr vs" "list_all good_member vs" "ids = map member_id vs"
proof -
  obtain vs where vs: "v \<noteq> JNull" "canonicalList members_attr v = Inr vs" "groupMemberIDs (JList vs) = Inr ids"
    using assms group_attributes(1)[of "''members''"]
    by (auto simp: patchMemberIDs_def EqualFold_ToLower canonicalValue_def bind_ok_Inr split: if_splits sum.splits)
  then have "typed_value members_attr (JList vs)"
    using canonicalValue_typed[of members_attr v "JList vs"] by (simp add: canonicalValue_def)
  with vs groupMemberIDs_Inr[OF vs(3)] that show ?thesis by (simp add: typed_value_def)
qed

text \<open>A filter on the value of a member, in whatever case its attribute is written.\<close>

lemma lookupKey_value:
  assumes "typed members_attr (JObj m)" "EqualFold name ''value''"
  shows "lookupKey m name = field m ''value''"
proof -
  obtain keys: "distinct (map fst m)" "\<And>k w. (k, w) \<in> set m \<Longrightarrow> k \<in> {''value'', ''$ref'', ''display'', ''type''}"
    using assms(1) by (rule typed_member) auto
  have fold: "EqualFold k name \<longleftrightarrow> k = ''value''" if "(k, w) \<in> set m" for k w
    using keys(2)[OF that] assms(2) by (auto simp: EqualFold_ToLower ToLower_def to_lower_def)
  show ?thesis
  proof (cases "map_of m ''value''")
    case None
    then have none: "(''value'', w) \<notin> set m" for w by (auto simp: map_of_eq_None_iff image_iff)
    have "map_of m name = None" using none fold[of name] by (cases "map_of m name") (auto simp: EqualFold_ToLower dest: map_of_SomeD)
    moreover have "find (\<lambda>e. EqualFold (fst e) name) m = None" using none fold by (auto simp: find_None_iff)
    ultimately show ?thesis using None by (simp add: lookupKey_def field_def)
  next
    case (Some w)
    then have w: "(''value'', w) \<in> set m" by (rule map_of_SomeD)
    have "find (\<lambda>e. EqualFold (fst e) name) m = Some (''value'', w)"
      by (rule find_unique[OF w]) (use fold w keys(1) in \<open>auto simp: eq_key_imp_eq_value EqualFold_ToLower\<close>)
    moreover have "map_of m name = Some w \<or> map_of m name = None"
    proof (cases "map_of m name")
      case (Some x)
      then have "name = ''value''" using fold by (auto simp: EqualFold_ToLower dest: map_of_SomeD)
      with w keys(1) show ?thesis by simp
    qed simp
    ultimately show ?thesis using Some by (auto simp: lookupKey_def field_def)
  qed
qed

lemma member_filter_matches:
  assumes "good_member v" "memberValueEquals f = Some s"
  shows "(case v of JObj m \<Rightarrow> matches pf f (Some members_attr) m | _ \<Rightarrow> False) \<longleftrightarrow> ToLower (member_id v) = ToLower s"
proof -
  obtain m where m: "v = JObj m" using assms(1) by (auto simp: good_member_def elim: typed_member)
  obtain path where f: "f = Comparison path ''eq'' (JStr s)" "apSub path = []" "EqualFold (apName path) ''value''"
    using assms(2) by (auto simp: memberValueEquals_def split: filter.splits json.splits if_splits)
  have "subAttribute members_attr ''value'' = Some (with_mutability mutabilityImmutable (required (stringAttribute ''value'')))" by code_simp
  then have sub: "subAttribute members_attr (apName path) = Some (with_mutability mutabilityImmutable (required (stringAttribute ''value'')))"
    using f(3) by (simp add: subAttribute_def EqualFold_ToLower)
  have "lookupKey m (apName path) = JStr (member_id v)"
    using lookupKey_value[of m "apName path"] assms(1) f(3) m
    by (auto simp: good_member_def member_id_def as_object_def stringValue_def split: json.splits)
  with f sub m show ?thesis
    by (simp add: lookupSubValue_def compare_def compare_strings_def with_mutability_def required_def stringAttribute_def)
qed

lemma filter_by_index: "map ((!) xs) (filter (\<lambda>i. P (xs ! i)) [0..<length xs]) = filter P xs"
proof -
  have "filter P xs = filter P (map ((!) xs) [0..<length xs])" by (simp add: map_nth)
  then show ?thesis by (simp add: filter_map comp_def)
qed

text \<open>Adding members: the set of identifiers is the union, each identifier added once.\<close>

lemma member_key: "good_member v \<Longrightarrow> value_key members_attr (as_object v) = Some (ToLower (member_id v)) \<and> (\<exists>m. v = JObj m) \<and> \<not> is_primary v"
proof -
  assume v: "good_member v"
  then obtain m where m: "v = JObj m" "distinct (map fst m)" "\<And>k w. (k, w) \<in> set m \<Longrightarrow> k \<in> {''value'', ''$ref'', ''display'', ''type''}"
    by (auto simp: good_member_def elim!: typed_member)
  have "map_of m ''primary'' = None" using m(3)[of "''primary''"] by (auto simp: map_of_eq_None_iff)
  moreover have "subAttribute members_attr ''value'' = Some (with_mutability mutabilityImmutable (required (stringAttribute ''value'')))" by code_simp
  ultimately show ?thesis
    using v m(1) by (auto simp: value_key_def good_member_def member_id_def stringValue_def as_object_def is_primary_def field_def
        with_mutability_def required_def stringAttribute_def split: json.splits option.splits)
qed

definition set_of_members :: "valueSet \<Rightarrow> json list \<Rightarrow> bool" where
  "set_of_members s es \<longleftrightarrow> vsAttr s = members_attr \<and> (\<exists>keys. vsByValue s = Some keys \<and> set keys = (ToLower \<circ> member_id) ` set es)"

lemma set_add_member: "good_member v \<Longrightarrow> set_of_members s es \<Longrightarrow> set_of_members (set_add v s) (es @ [v])"
  using member_key[of v] by (auto simp: set_of_members_def set_add_def as_object_def)

lemma set_contains_member: "good_member v \<Longrightarrow> set_of_members s es \<Longrightarrow> set_contains s v \<longleftrightarrow> ToLower (member_id v) \<in> (ToLower \<circ> member_id) ` set es"
  using member_key[of v] by (auto simp: set_of_members_def set_contains_def as_object_def)

lemma new_set_of_members: "list_all good_member es \<Longrightarrow> set_of_members (newValueSet members_attr es) es"
proof (induction es rule: rev_induct)
  case (snoc v es)
  then show ?case using set_add_member[of v] by (simp add: newValueSet_def)
qed (simp add: newValueSet_def set_of_members_def)

lemma add_members:
  assumes "list_all good_member es" "list_all good_member vs"
  shows "list_all good_member (addValues members_attr es vs)
    \<and> (ToLower \<circ> member_id) ` set (addValues members_attr es vs) = (ToLower \<circ> member_id) ` (set es \<union> set vs)"
proof -
  have "list_all good_member (fst (fold (add_value members_attr) vs (es, s)))
      \<and> (ToLower \<circ> member_id) ` set (fst (fold (add_value members_attr) vs (es, s))) = (ToLower \<circ> member_id) ` (set es \<union> set vs)"
    if "set_of_members s es" "list_all good_member es" for s
    using assms(2) that
  proof (induction vs arbitrary: es s)
    case (Cons v vs)
    have v: "good_member v" and vs: "list_all good_member vs" using Cons.prems(1) by auto
    have by_value: "vsByValue s \<noteq> None" using Cons.prems(2) by (auto simp: set_of_members_def)
    show ?case
    proof (cases "set_contains s v")
      case True
      then have "ToLower (member_id v) \<in> (ToLower \<circ> member_id) ` set es" using set_contains_member[OF v Cons.prems(2)] by simp
      with Cons.IH[OF vs Cons.prems(2,3)] True by_value show ?thesis by (auto simp: add_value_def)
    next
      case False
      with member_key[OF v] by_value have step: "add_value members_attr v (es, s) = (es @ [v], set_add v s)"
        by (simp add: add_value_def)
      have "list_all good_member (es @ [v])" using v Cons.prems(3) by simp
      from Cons.IH[OF vs set_add_member[OF v Cons.prems(2)] this] show ?thesis by (auto simp: step)
    qed
  qed auto
  from this[OF new_set_of_members[OF assms(1)] assms(1)] show ?thesis by (simp add: addValues_def)
qed

section \<open>The plan and the operations agree\<close>

definition plan_name :: "string \<Rightarrow> plan \<Rightarrow> string" where
  "plan_name name st = (if plName st = [] then name else plName st)"

definition group_sim :: "string \<Rightarrow> string \<Rightarrow> string set \<Rightarrow> plan \<Rightarrow> obj \<Rightarrow> bool" where
  "group_sim gid name old st r \<longleftrightarrow>
    resource_ok groupResourceSchema r \<and> field r ''id'' = JStr gid \<and> plan_ok st
    \<and> field r ''displayName'' = JStr (plan_name name st) \<and> TrimSpace (plan_name name st) \<noteq> []
    \<and> list_all good_member (listValue (field r ''members''))
    \<and> (ToLower \<circ> member_id) ` set (listValue (field r ''members'')) = plan_members st old"

text \<open>An operation whose value has no two members with the same name, ignoring case.\<close>

definition unambiguous :: "patchOperation \<Rightarrow> bool" where
  "unambiguous op = (case poValue op of JObj values \<Rightarrow> distinct (map (ToLower \<circ> fst) values) | _ \<Rightarrow> True)"

definition plain_operation :: "patchOperation \<Rightarrow> bool" where
  "plain_operation op = ((poValue op = JNull \<or> poHasValue op) \<and> unambiguous op)"

lemma sim_set_members:
  assumes "group_sim gid name old st r" "list_all good_member vs" "(ToLower \<circ> member_id) ` set vs = plan_members st' old"
    "plan_ok st'" "plName st' = plName st"
  shows "group_sim gid name old st' (set_field ''members'' (JList vs) r)"
proof -
  have "typed_value members_attr (JList vs)" using assms(2) by (auto simp: typed_value_def list_all_iff good_member_def)
  then have "member_ok groupResourceSchema (''members'', JList vs)"
    using group_attributes(1)[of "''members''"] by (simp add: member_ok_def EqualFold_ToLower)
  moreover have "plan_name name st' = plan_name name st" using assms(5) by (simp add: plan_name_def)
  ultimately show ?thesis using assms by (simp add: group_sim_def resource_ok_set_field listValue_def)
qed

lemma sim_set_name:
  assumes "group_sim gid name old st r" "TrimSpace n \<noteq> []"
  shows "group_sim gid name old (st\<lparr>plName := n\<rparr>) (set_field ''displayName'' (JStr n) r)"
proof -
  have "n \<noteq> []" using assms(2) by (auto simp: TrimSpace_def)
  moreover have "member_ok groupResourceSchema (''displayName'', JStr n)"
    using group_attributes(2)[of "''displayName''"] by (simp add: member_ok_def EqualFold_ToLower typed_value_def typed_string)
  moreover have "plan_members (st\<lparr>plName := n\<rparr>) old = plan_members st old" "plan_ok (st\<lparr>plName := n\<rparr>) = plan_ok st"
    by (auto simp: plan_members_def plan_ok_def split: option.splits if_splits)
  ultimately show ?thesis using assms by (simp add: group_sim_def resource_ok_set_field plan_name_def)
qed

lemma rename_target:
  assumes "EqualFold (apName (ppAttr path)) ''displayName''" "inSchema (ppAttr path) groupResourceSchema" "ppFilter path = None"
    "apSub (ppAttr path) = []"
  shows "applyToTarget pf groupResourceSchema patchReplace path (JStr n) rules r = Inr (set_field ''displayName'' (JStr n) r)"
proof -
  have "canonicalValue name_attr (JStr n) = Inr (JStr n)" by (simp add: canonicalValue_def canonicalSingle.simps)
  with assms group_attributes show ?thesis by (simp add: applyToTarget_def applyToPath_def applyToAttribute_def)
qed

lemma id_target:
  assumes "EqualFold (apName (ppAttr path)) ''id''" "inSchema (ppAttr path) groupResourceSchema" "ppFilter path = None"
    "apSub (ppAttr path) = []" "field r ''id'' = JStr gid"
  shows "applyToTarget pf groupResourceSchema patchReplace path (JStr gid) rules r = Inr r"
proof -
  let ?a = "caseExact (readOnly (stringAttribute ''id''))"
  have a: "aName ?a = ''id''" "aMutability ?a = mutabilityReadOnly" "\<not> aMultiValued ?a" "aType ?a = typeString" by code_simp+
  then have "canonicalValue ?a (JStr gid) = Inr (JStr gid)" by (simp add: canonicalValue_def canonicalSingle.simps)
  then have "unchanged r ?a (JStr gid)" using assms(5) a(1) by (simp add: unchanged_def DeepEqual.simps)
  with assms group_attributes a show ?thesis by (simp add: applyToTarget_def)
qed

lemma members_target:
  assumes "EqualFold (apName (ppAttr path)) ''members''" "inSchema (ppAttr path) groupResourceSchema" "ppFilter path = None"
    "apSub (ppAttr path) = []" "v \<noteq> JNull" "op \<noteq> patchRemove" "canonicalList members_attr v = Inr vs"
  shows "applyToTarget pf groupResourceSchema op path v rules r =
    Inr (set_field ''members'' (JList (if op = patchReplace then vs else addValues members_attr (listValue (field r ''members'')) vs)) r)"
  using assms group_attributes by (simp add: applyToTarget_def applyToPath_def applyToAttribute_def)

lemma remove_target:
  assumes "EqualFold (apName (ppAttr path)) ''members''" "inSchema (ppAttr path) groupResourceSchema" "ppFilter path = Some f"
    "apSub (ppAttr path) = []" "ppSub path = []"
  shows "applyToTarget pf groupResourceSchema patchRemove path v rules r =
    Inr (set_field ''members''
      (JList (filter (\<lambda>v. \<not> (case v of JObj m \<Rightarrow> matches pf f (Some members_attr) m | _ \<Rightarrow> False)) (listValue (field r ''members'')))) r)"
proof -
  let ?vs = "listValue (field r ''members'')"
  let ?P = "\<lambda>v. \<not> (case v of JObj m \<Rightarrow> matches pf f (Some members_attr) m | _ \<Rightarrow> False)"
  have "filter (\<lambda>i. i \<notin> set (matched_values pf members_attr f ?vs)) [0..<length ?vs] = filter (\<lambda>i. ?P (?vs ! i)) [0..<length ?vs]"
    by (rule filter_cong) (auto simp: matched_values_def)
  then have "map ((!) ?vs) (filter (\<lambda>i. i \<notin> set (matched_values pf members_attr f ?vs)) [0..<length ?vs]) = filter ?P ?vs"
    using filter_by_index[of ?vs ?P] by simp
  with assms group_attributes show ?thesis
    by (simp add: applyToTarget_def applyToPath_def applyFiltered_def filter_sub_def remove_filtered_def)
qed

text \<open>Renames without a path.\<close>

lemma letter_fold: "letter (to_lower c) \<Longrightarrow> letter c"
  by (auto simp: letter_def to_lower_def Let_def split: if_splits)

lemma lower_names: "ToLower ''id'' = ''id''" "ToLower ''displayName'' = ''displayname''" "ToLower groupSchema = ''urn:ietf:params:scim:schemas:core:2.0:group''"
  by code_simp+

lemma simple_path:
  assumes "EqualFold key n" "n = ''id'' \<or> n = ''displayName''"
  shows "parsePatchPath pf key = Inr \<lparr>ppAttr = \<lparr>apURN = [], apName = key, apSub = []\<rparr>, ppFilter = None, ppSub = []\<rparr>"
    "\<not> EqualFold key (rsID groupResourceSchema)"
proof -
  have lower: "ToLower key = ''id'' \<or> ToLower key = ''displayname''" using assms by (auto simp: EqualFold_ToLower lower_names)
  have "letter c" if "c \<in> set key" for c
  proof -
    have "to_lower c \<in> set (ToLower key)" using that by (simp add: ToLower_def)
    then have "letter (to_lower c)" using lower by (auto simp: letter_def)
    then show ?thesis by (rule letter_fold)
  qed
  then have chars: "list_all letter key" by (simp add: list_all_iff)
  have "CHR ''['' \<notin> set key" "CHR ''.'' \<notin> set key" using chars by (auto simp: list_all_iff letter_def)
  then have cut: "Cut key (CHR ''['') = None" "Cut key (CHR ''.'') = None" by (simp_all add: Cut_None)
  have "key \<noteq> []" using lower by (auto simp: ToLower_def)
  with chars have "validAttributeName key" by (auto simp: validAttributeName_def list_all_iff split: list.split)
  moreover have "\<not> HasPrefix (ToLower key) ''urn:''" using lower by (auto simp: HasPrefix_def)
  ultimately show "parsePatchPath pf key = Inr \<lparr>ppAttr = \<lparr>apURN = [], apName = key, apSub = []\<rparr>, ppFilter = None, ppSub = []\<rparr>"
    by (simp add: parsePatchPath_def parseAttrPath_def cut Let_def)
  show "\<not> EqualFold key (rsID groupResourceSchema)"
    using lower by (auto simp: EqualFold_ToLower groupResourceSchema_def lower_names)
qed

definition rename_member :: "string \<Rightarrow> string \<Rightarrow> string \<times> json \<Rightarrow> bool" where
  "rename_member gid n e \<longleftrightarrow>
    EqualFold (fst e) ''id'' \<and> snd e = JStr gid \<or> EqualFold (fst e) ''displayName'' \<and> snd e = JStr n"

lemma rename_loop_members:
  assumes "rename_loop gid vals name0 = Some name" "distinct (map (ToLower \<circ> fst) vals)"
  shows "list_all (rename_member gid name) vals
    \<and> (if list_ex (\<lambda>e. EqualFold (fst e) ''displayName'') vals then TrimSpace name \<noteq> [] else name = name0)"
  using assms
proof (induction gid vals name0 rule: rename_loop.induct)
  case (2 gid key v vals name0)
  have other: "\<not> EqualFold (fst e) ''displayName''" if "EqualFold key ''displayName''" "e \<in> set vals" for e
    using 2(4) that by (auto simp: EqualFold_ToLower image_iff)
  have ids: "\<not> EqualFold key ''displayName''" if "EqualFold key ''id''" using that by (simp add: EqualFold_ToLower lower_names)
  show ?case
  proof (cases "EqualFold key ''id''")
    case True
    with 2 ids show ?thesis by (auto simp: rename_member_def split: if_splits)
  next
    case False
    with 2(3) obtain s where s: "EqualFold key ''displayName''" "v = JStr s" "TrimSpace s \<noteq> []" "rename_loop gid vals s = Some name"
      by (auto split: if_splits json.splits)
    from 2(2)[OF False s(1,2)] s(3,4) 2(4) have IH: "list_all (rename_member gid name) vals"
      "if list_ex (\<lambda>e. EqualFold (fst e) ''displayName'') vals then TrimSpace name \<noteq> [] else name = s"
      by simp_all
    have "\<not> list_ex (\<lambda>e. EqualFold (fst e) ''displayName'') vals" using other[OF s(1)] by (auto simp: list_ex_iff)
    moreover have "rename_member gid s (key, v)" using s by (simp add: rename_member_def)
    ultimately show ?thesis using IH s by simp
  qed
qed simp

lemma set_insert_member: "set (insert_member a bs) = insert a (set bs)"
  by (induction a bs rule: insert_member.induct) auto

lemma set_sorted_members: "set (foldr insert_member ms []) = set ms"
  by (induction ms) (auto simp: set_insert_member)

lemma rename_pathless:
  assumes "list_all (rename_member gid n) values"
  obtains ms where "pathlessMembers pf groupResourceSchema values = Inr ms"
    "set ms = (\<lambda>e. \<lparr>pmKey = fst e, pmPath = \<lparr>ppAttr = \<lparr>apURN = [], apName = fst e, apSub = []\<rparr>, ppFilter = None, ppSub = []\<rparr>, pmValue = snd e\<rparr>) ` set values"
proof -
  let ?g = "\<lambda>e. \<lparr>pmKey = fst e, pmPath = \<lparr>ppAttr = \<lparr>apURN = [], apName = fst e, apSub = []\<rparr>, ppFilter = None, ppSub = []\<rparr>, pmValue = snd e\<rparr>"
  have "map_ok (\<lambda>(key, value).
        if \<not> EqualFold key (rsID groupResourceSchema) then bind_ok (pathless_member pf (key, value)) (\<lambda>m. Inr [m])
        else (case value of
                JObj nested \<Rightarrow> map_ok (\<lambda>(nestedKey, value). pathless_member pf (key @ '':'' @ nestedKey, value)) nested
              | _ \<Rightarrow> Inl invalidValue)) values = Inr (map (\<lambda>e. [?g e]) values)"
  proof (rule map_ok_same)
    fix e
    assume "e \<in> set values"
    then have "EqualFold (fst e) ''id'' \<or> EqualFold (fst e) ''displayName''" using assms by (auto simp: list_all_iff rename_member_def)
    with simple_path show "(case e of (key, value) \<Rightarrow>
        if \<not> EqualFold key (rsID groupResourceSchema) then bind_ok (pathless_member pf (key, value)) (\<lambda>m. Inr [m])
        else (case value of
                JObj nested \<Rightarrow> map_ok (\<lambda>(nestedKey, value). pathless_member pf (key @ '':'' @ nestedKey, value)) nested
              | _ \<Rightarrow> Inl invalidValue)) = Inr [?g e]"
      by (cases e) (auto simp: pathless_member_def)
  qed
  moreover have "concat (map (\<lambda>e. [?g e]) values) = map ?g values" by (induction "values") auto
  ultimately show ?thesis using that by (simp add: pathlessMembers_def set_sorted_members)
qed

lemma rename_members_apply:
  assumes "\<And>m. m \<in> set ms \<Longrightarrow> ppFilter (pmPath m) = None \<and> apSub (ppAttr (pmPath m)) = [] \<and> apURN (ppAttr (pmPath m)) = []
      \<and> rename_member gid n (apName (ppAttr (pmPath m)), pmValue m)" "field r ''id'' = JStr gid"
  shows "fold_ok (\<lambda>m. applyToTarget pf groupResourceSchema patchReplace (pmPath m) (pmValue m) rules) ms r =
    Inr (if \<exists>m\<in>set ms. EqualFold (apName (ppAttr (pmPath m))) ''displayName'' then set_field ''displayName'' (JStr n) r else r)"
  using assms
proof (induction ms arbitrary: r)
  case (Cons m ms)
  have again: "set_field k v (set_field k v r) = set_field k v r" for k v and r :: obj by (induction k v r rule: set_field.induct) auto
  have m: "ppFilter (pmPath m) = None" "apSub (ppAttr (pmPath m)) = []" "inSchema (ppAttr (pmPath m)) groupResourceSchema"
    "rename_member gid n (apName (ppAttr (pmPath m)), pmValue m)"
    using Cons.prems(1)[of m] by (simp_all add: inSchema_def)
  show ?case
  proof (cases "EqualFold (apName (ppAttr (pmPath m))) ''displayName''")
    case True
    then have "\<not> EqualFold (apName (ppAttr (pmPath m))) ''id''" by (simp add: EqualFold_ToLower lower_names)
    then have "pmValue m = JStr n" using m(4) by (simp add: rename_member_def)
    with rename_target[OF True m(3,1,2)] Cons True show ?thesis by (simp add: again)
  next
    case False
    then have "EqualFold (apName (ppAttr (pmPath m))) ''id''" "pmValue m = JStr gid" using m(4) by (auto simp: rename_member_def)
    with id_target[OF _ m(3,1,2) Cons.prems(2)] Cons False show ?thesis by simp
  qed
qed simp

text \<open>Each planned operation has the same effect on the whole group.\<close>

lemma pathless_simulated:
  assumes "group_sim gid name old st r" "plain_operation op" "poPath op = []" "pathlessGroupRename gid op = Some n"
  shows "\<exists>r'. applyOperation pf groupResourceSchema rules op r = Inr r' \<and> group_sim gid name old (st\<lparr>plName := n\<rparr>) r'"
proof -
  obtain vals where op: "poValue op = JObj vals" "poOp op = patchReplace" "rename_loop gid vals [] = Some n" "n \<noteq> []"
    using assms(4) by (auto simp: pathlessGroupRename_def split: json.splits if_splits option.splits)
  have "distinct (map (ToLower \<circ> fst) vals)" using assms(2) op(1) by (simp add: plain_operation_def unambiguous_def)
  from rename_loop_members[OF op(3) this] op(4) have members: "list_all (rename_member gid n) vals" "TrimSpace n \<noteq> []"
    and named: "\<exists>e\<in>set vals. EqualFold (fst e) ''displayName''"
    by (auto simp: list_ex_iff split: if_splits)
  obtain ms where ms: "pathlessMembers pf groupResourceSchema vals = Inr ms"
    "set ms = (\<lambda>e. \<lparr>pmKey = fst e, pmPath = \<lparr>ppAttr = \<lparr>apURN = [], apName = fst e, apSub = []\<rparr>, ppFilter = None, ppSub = []\<rparr>, pmValue = snd e\<rparr>) ` set vals"
    by (rule rename_pathless[OF members(1)])
  have "fold_ok (\<lambda>m. applyToTarget pf groupResourceSchema patchReplace (pmPath m) (pmValue m) rules) ms r =
      Inr (if \<exists>m\<in>set ms. EqualFold (apName (ppAttr (pmPath m))) ''displayName'' then set_field ''displayName'' (JStr n) r else r)"
    by (rule rename_members_apply) (use ms(2) members(1) assms(1) in \<open>auto simp: list_all_iff group_sim_def\<close>)
  moreover have "\<exists>m\<in>set ms. EqualFold (apName (ppAttr (pmPath m))) ''displayName''" using named by (simp add: ms(2))
  ultimately have "applyOperation pf groupResourceSchema rules op r = Inr (set_field ''displayName'' (JStr n) r)"
    using assms(3) op ms(1) by (simp add: applyOperation_def)
  with sim_set_name[OF assms(1) members(2)] show ?thesis by blast
qed

lemma plan_operation_cases:
  assumes "plan_operation pf gid op st = Some st'" "poPath op \<noteq> []"
  obtains
    (rename) path n where "parsePatchPath pf (poPath op) = Inr path" "inSchema (ppAttr path) groupResourceSchema" "apSub (ppAttr path) = []"
      "EqualFold (apName (ppAttr path)) ''displayName''" "ppFilter path = None" "poOp op = patchReplace" "poValue op = JStr n" "TrimSpace n \<noteq> []"
      "st' = st\<lparr>plName := n\<rparr>"
  | (replace) path ids where "parsePatchPath pf (poPath op) = Inr path" "inSchema (ppAttr path) groupResourceSchema" "apSub (ppAttr path) = []"
      "EqualFold (apName (ppAttr path)) ''members''" "ppFilter path = None" "poOp op = patchReplace" "patchMemberIDs (poValue op) = Some ids"
      "st' = st\<lparr>plReplace := True, plReplaced := ids, plChanges := Map.empty, plOrder := []\<rparr>"
  | (add) path ids where "parsePatchPath pf (poPath op) = Inr path" "inSchema (ppAttr path) groupResourceSchema" "apSub (ppAttr path) = []"
      "EqualFold (apName (ppAttr path)) ''members''" "ppFilter path = None" "poOp op = patchAdd" "patchMemberIDs (poValue op) = Some ids"
      "st' = fold (change True) ids st"
  | (remove) path f s where "parsePatchPath pf (poPath op) = Inr path" "inSchema (ppAttr path) groupResourceSchema" "apSub (ppAttr path) = []"
      "EqualFold (apName (ppAttr path)) ''members''" "ppFilter path = Some f" "ppSub path = []" "poOp op = patchRemove" "memberValueEquals f = Some s"
      "st' = change False s st"
  using assms unfolding plan_operation_def by (auto split: if_splits sum.splits json.splits option.splits)

lemma operation_simulated:
  assumes "group_sim gid name old st r" "plain_operation op" "plan_operation pf gid op st = Some st'"
  shows "\<exists>r'. applyOperation pf groupResourceSchema rules op r = Inr r' \<and> group_sim gid name old st' r'"
proof (cases "poPath op = []")
  case True
  then obtain n where "pathlessGroupRename gid op = Some n" "st' = st\<lparr>plName := n\<rparr>" using assms(3) by (auto simp: plan_operation_def)
  with pathless_simulated[OF assms(1,2) True] show ?thesis by blast
next
  case path: False
  have has_value: "poValue op \<noteq> JNull \<Longrightarrow> poHasValue op" using assms(2) by (auto simp: plain_operation_def)
  have sim: "plan_ok st" "list_all good_member (listValue (field r ''members''))"
    "(ToLower \<circ> member_id) ` set (listValue (field r ''members'')) = plan_members st old"
    using assms(1) by (simp_all add: group_sim_def)
  from assms(3) path show ?thesis
  proof (cases rule: plan_operation_cases)
    case (rename path n)
    with rename_target[of path pf n rules r] has_value path sim_set_name[OF assms(1) rename(8)] show ?thesis
      by (simp add: applyOperation_def)
  next
    case (replace path ids)
    obtain vs where vs: "poValue op \<noteq> JNull" "canonicalList members_attr (poValue op) = Inr vs" "list_all good_member vs" "ids = map member_id vs"
      by (rule patchMemberIDs_good[OF replace(7)])
    have "applyOperation pf groupResourceSchema rules op r = Inr (set_field ''members'' (JList vs) r)"
      using members_target[of path "poValue op" "poOp op" vs] replace vs has_value path by (simp add: applyOperation_def)
    moreover have "group_sim gid name old st' (set_field ''members'' (JList vs) r)"
      by (rule sim_set_members[OF assms(1) vs(3)]) (auto simp: replace(8) plan_members_def vs(4) plan_ok_def)
    ultimately show ?thesis by blast
  next
    case (add path ids)
    obtain vs where vs: "poValue op \<noteq> JNull" "canonicalList members_attr (poValue op) = Inr vs" "list_all good_member vs" "ids = map member_id vs"
      by (rule patchMemberIDs_good[OF add(7)])
    let ?new = "addValues members_attr (listValue (field r ''members'')) vs"
    have "applyOperation pf groupResourceSchema rules op r = Inr (set_field ''members'' (JList ?new) r)"
      using members_target[of path "poValue op" "poOp op" vs] add vs has_value path by (simp add: applyOperation_def)
    moreover have "group_sim gid name old st' (set_field ''members'' (JList ?new) r)"
      using add_members[OF sim(2) vs(3)] sim(3)
      by (intro sim_set_members[OF assms(1)]) (auto simp: add(8) changes_members changes_ok sim(1) vs(4))
    ultimately show ?thesis by blast
  next
    case (remove path f s)
    let ?P = "\<lambda>v. \<not> (case v of JObj m \<Rightarrow> matches pf f (Some members_attr) m | _ \<Rightarrow> False)"
    let ?new = "filter ?P (listValue (field r ''members''))"
    have "applyOperation pf groupResourceSchema rules op r = Inr (set_field ''members'' (JList ?new) r)"
      using remove_target[of path f pf "poValue op" rules r] remove path by (simp add: applyOperation_def)
    moreover have "?P v \<longleftrightarrow> ToLower (member_id v) \<noteq> ToLower s" if "v \<in> set (listValue (field r ''members''))" for v
      using member_filter_matches[OF _ remove(8), of v] sim(2) that by (simp add: list_all_iff)
    then have "?new = filter (\<lambda>v. ToLower (member_id v) \<noteq> ToLower s) (listValue (field r ''members''))" by (rule filter_cong[OF refl])
    then have "(ToLower \<circ> member_id) ` set ?new = (ToLower \<circ> member_id) ` set (listValue (field r ''members'')) - {ToLower s}" by auto
    then have keys: "(ToLower \<circ> member_id) ` set ?new = plan_members st' old" unfolding remove(9) change_members sim(3) by simp
    have good: "list_all good_member ?new" using sim(2) by (simp add: list_all_iff)
    have "group_sim gid name old st' (set_field ''members'' (JList ?new) r)"
      by (rule sim_set_members[OF assms(1) good keys]) (simp_all add: remove(9) change_ok sim(1))
    ultimately show ?thesis by blast
  qed
qed

lemma plan_simulated:
  assumes "group_sim gid name old st r" "list_all plain_operation ops" "plan_loop pf gid ops st = Some st'"
  shows "\<exists>r'. applyPatch pf groupResourceSchema r ops rules = Inr r' \<and> group_sim gid name old st' r'"
  using assms
proof (induction ops arbitrary: st r)
  case (Cons op ops)
  then obtain st1 where st1: "plan_operation pf gid op st = Some st1" "plan_loop pf gid ops st1 = Some st'"
    by (auto simp: bind_eq_Some_conv)
  have op: "plain_operation op" and ops: "list_all plain_operation ops" using Cons.prems(2) by simp_all
  obtain r1 where r1: "applyOperation pf groupResourceSchema rules op r = Inr r1" "group_sim gid name old st1 r1"
    using operation_simulated[OF Cons.prems(1) op st1(1)] by blast
  from Cons.IH[OF r1(2) ops st1(2)] r1(1) show ?case by (simp add: applyPatch_def)
qed (simp add: applyPatch_def)

lemma decoded_plain:
  assumes "decodePatchOperations body = Inr ops" "list_all unambiguous ops"
  shows "list_all plain_operation ops"
proof -
  have has: "hasKey m k" if "lookupKey m k \<noteq> JNull" for m k
    using that by (auto simp: lookupKey_def hasKey_def has_field_def list_ex_iff dest: find_sound split: option.splits)
  have "poValue op = JNull \<or> poHasValue op" if op: "op \<in> set ops" for op
  proof -
    obtain raw where "map_ok decode_operation raw = Inr ops"
      using assms(1) by (auto simp: decodePatchOperations_def split: if_splits json.splits)
    from map_ok_source[OF this op] obtain item where "decode_operation item = Inr op" by blast
    then obtain m where "poValue op = lookupKey m ''value''" "poHasValue op = hasKey m ''value''"
      by (auto simp: decode_operation_def Let_def split: json.splits option.splits)
    then show ?thesis using has[of m "''value''"] by auto
  qed
  with assms(2) show ?thesis by (simp add: list_all_iff plain_operation_def)
qed

lemma groupResource_fields:
  "field (groupResource g b) ''id'' = JStr (sgID g)" "field (groupResource g b) ''displayName'' = JStr (sgDisplayName g)"
  "sgMembers g = Some ms \<Longrightarrow> field (groupResource g b) ''members'' = JList (map (member_value b) ms)"
  by (simp_all add: groupResource_def Let_def field_Cons split: option.split)

lemma member_value_good: "gmID m \<noteq> [] \<Longrightarrow> good_member (member_value b m) \<and> member_id (member_value b m) = gmID m"
proof -
  have "list_all (\<lambda>k. case find (\<lambda>sub. aName sub = k) (aSubAttributes members_attr) of None \<Rightarrow> False
      | Some sub \<Rightarrow> aType sub \<noteq> typeComplex \<and> aType sub \<noteq> typeBoolean) [''value'', ''$ref'', ''display'', ''type'']"
    by code_simp
  then have "typed members_attr (member_value b m)"
    unfolding member_value_def typed_object[OF members_attr_fields(3)] by (auto simp: typed_string split: option.splits)
  then show "gmID m \<noteq> [] \<Longrightarrow> ?thesis"
    by (simp add: good_member_def member_id_def member_value_def as_object_def stringValue_def field_Cons EqualFold_ToLower)
qed

lemma groupResource_sim:
  assumes "sgMembers g = Some ms" "\<forall>m\<in>set ms. gmID m \<noteq> []" "TrimSpace (sgDisplayName g) \<noteq> []"
  shows "group_sim (sgID g) (sgDisplayName g) (ToLower ` gmID ` set ms)
    \<lparr>plName = [], plReplace = False, plReplaced = [], plChanges = Map.empty, plOrder = []\<rparr> (groupResource g b)"
proof -
  have good: "list_all good_member (map (member_value b) ms)" using assms(2) member_value_good by (simp add: list_all_iff)
  have "list_all (\<lambda>k. case schema_attribute groupResourceSchema k of None \<Rightarrow> False | Some a \<Rightarrow> aName a = k \<and> aMutability a = mutabilityReadOnly)
      [''schemas'', ''id'', ''meta'']"
    by code_simp
  then have read_only: "member_ok groupResourceSchema (k, v)" if "k \<in> {''schemas'', ''id'', ''meta''}" for k v
    using that by (auto simp: member_ok_def split: option.splits)
  have "member_ok groupResourceSchema (''displayName'', JStr (sgDisplayName g))"
    using group_attributes(2)[of "''displayName''"] by (simp add: member_ok_def EqualFold_ToLower typed_value_def typed_string)
  moreover have "member_ok groupResourceSchema (''members'', JList (map (member_value b) ms))"
    using group_attributes(1)[of "''members''"] good by (auto simp: member_ok_def EqualFold_ToLower typed_value_def list_all_iff good_member_def)
  ultimately have "resource_ok groupResourceSchema (groupResource g b)"
    using assms(1) read_only by (simp add: groupResource_def Let_def resource_ok_def)
  moreover have "(ToLower \<circ> member_id) ` set (map (member_value b) ms) = ToLower ` gmID ` set ms"
    using assms(2) member_value_good by (force simp: image_iff)
  ultimately show ?thesis
    using good assms by (simp add: group_sim_def groupResource_fields listValue_def plan_ok_def plan_name_def plan_members_def)
qed

lemma sim_input:
  assumes "group_sim gid name old st r"
  obtains inp where "groupInputFromResource r = Inr inp" "giDisplayName inp = plan_name name st"
    "ToLower ` set (giMemberIDs inp) = plan_members st old"
proof -
  let ?m = "filter (\<lambda>e. writable groupResourceSchema (fst e)) r"
  let ?vs = "listValue (field r ''members'')"
  have "writable groupResourceSchema ''displayName''" "writable groupResourceSchema ''members''" by code_simp+
  then have fields: "field ?m ''displayName'' = JStr (plan_name name st)" "field ?m ''members'' = field r ''members''"
    using assms by (simp_all add: field_filter group_sim_def)
  have good: "list_all good_member ?vs" using assms by (simp add: group_sim_def)
  have "groupMemberIDs (field r ''members'') = groupMemberIDs (JList ?vs)" by (simp add: groupMemberIDs_def listValue_def)
  then have "groupInputFromResource r = Inr \<lparr>giDisplayName = plan_name name st, giMemberIDs = map member_id ?vs\<rparr>"
    using assms canonicalResource_of_ok[OF group_schema_ok, of r] groupMemberIDs_good[OF good] fields
    by (simp add: groupInputFromResource_def group_sim_def stringValue_def)
  moreover have "ToLower ` set (map member_id ?vs) = plan_members st old" using assms by (simp add: group_sim_def image_comp)
  ultimately show ?thesis using that by simp
qed

lemma group_plan_refines:
  assumes "decodePatchOperations body = Inr ops" "list_all unambiguous ops" "planGroupPatch pf (sgID g) ops = Some p"
    "sgMembers g = Some ms" "\<forall>m\<in>set ms. gmID m \<noteq> []" "TrimSpace (sgDisplayName g) \<noteq> []"
  shows "\<exists>r inp. applyPatch pf groupResourceSchema (groupResource g baseURL) ops rules = Inr r \<and> groupInputFromResource r = Inr inp
    \<and> giDisplayName inp = (if gpDisplayName p = [] then sgDisplayName g else gpDisplayName p)
    \<and> ToLower ` set (giMemberIDs inp) = patched_members p (ToLower ` gmID ` set ms)"
proof -
  let ?init = "\<lparr>plName = [], plReplace = False, plReplaced = [], plChanges = Map.empty, plOrder = []\<rparr>"
  obtain st where st: "plan_loop pf (sgID g) ops ?init = Some st" "p = finish_plan st"
    using assms(3) by (auto simp: planGroupPatch_def)
  obtain r where r: "applyPatch pf groupResourceSchema (groupResource g baseURL) ops rules = Inr r"
    and sim: "group_sim (sgID g) (sgDisplayName g) (ToLower ` gmID ` set ms) st r"
    using plan_simulated[OF groupResource_sim[OF assms(4-6)] decoded_plain[OF assms(1,2)] st(1)] by blast
  obtain inp where "groupInputFromResource r = Inr inp" "giDisplayName inp = plan_name (sgDisplayName g) st"
    "ToLower ` set (giMemberIDs inp) = plan_members st (ToLower ` gmID ` set ms)"
    by (rule sim_input[OF sim])
  moreover have "plan_ok st" using sim by (simp add: group_sim_def)
  ultimately show ?thesis using r finish_plan_members[of st] by (auto simp: st(2) plan_name_def)
qed

text \<open>
  The fast path of a group PATCH does what the operations do. Whenever the operations of a request can be planned,
  applying them to the group's full representation is accepted too, and what it would store has the planned name, or the
  present one when the plan has none, and the planned members, compared as the store compares them, ignoring case. Values
  that name a member of an object twice in different case are excluded, since the order of the members of an object is not
  defined.
\<close>

theorem group_plan_refines_patch:
  assumes "decodePatchOperations body = Inr ops" "list_all unambiguous ops" "planGroupPatch pf (sgID g) ops = Some p"
    "sgMembers g = Some ms" "\<forall>m\<in>set ms. gmID m \<noteq> []" "TrimSpace (sgDisplayName g) \<noteq> []"
  shows "\<exists>r inp. applyPatch pf groupResourceSchema (groupResource g baseURL) ops rules = Inr r \<and> groupInputFromResource r = Inr inp
    \<and> giDisplayName inp = (if gpDisplayName p = [] then sgDisplayName g else gpDisplayName p)
    \<and> ToLower ` set (giMemberIDs inp) = patched_members p (ToLower ` gmID ` set ms)"
  using group_plan_refines[OF assms] .

definition sample_group :: SCIMGroup where
  "sample_group = \<lparr>sgID = ''g1'', sgGroupID = ''x1'', sgDisplayName = ''Ops'',
     sgMembers = Some [\<lparr>gmID = ''u1'', gmUserName = ''ann''\<rparr>, \<lparr>gmID = ''u2'', gmUserName = ''bob''\<rparr>], sgRevision = 1, sgCreatedAt = [], sgUpdatedAt = []\<rparr>"

definition sample_body :: obj where
  "sample_body =
    [(''schemas'', JList [JStr patchOpSchema]),
     (''operations'', JList
        [JObj [(''op'', JStr ''Replace''), (''value'', JObj [(''id'', JStr ''g1''), (''displayName'', JStr ''Operations'')])],
         JObj [(''op'', JStr ''add''), (''path'', JStr ''members''), (''value'', JList [JObj [(''value'', JStr ''U3'')]])],
         JObj [(''op'', JStr ''remove''), (''path'', JStr (''members[value eq '' @ [quote_mark] @ ''U1'' @ [quote_mark] @ '']''))]])]"

definition sample_plan :: SCIMGroupPatch where
  "sample_plan = \<lparr>gpDisplayName = ''Operations'', gpReplaceMembers = False, gpMemberIDs = [''U3''], gpRemovedMemberIDs = [''u1'']\<rparr>"

theorem group_plan_refines_patch_witness:
  "\<exists>ops r inp. decodePatchOperations sample_body = Inr ops
    \<and> applyPatch (\<lambda>_. None) groupResourceSchema (groupResource sample_group []) ops \<lparr>ReplaceAddsUnmatched = False\<rparr> = Inr r
    \<and> groupInputFromResource r = Inr inp \<and> giDisplayName inp = ''Operations'' \<and> ToLower ` set (giMemberIDs inp) = {''u2'', ''u3''}"
proof -
  have "case decodePatchOperations sample_body of Inl _ \<Rightarrow> False
      | Inr ops \<Rightarrow> list_all unambiguous ops \<and> planGroupPatch (\<lambda>_. None) ''g1'' ops = Some sample_plan"
    by code_simp
  then obtain ops where ops: "decodePatchOperations sample_body = Inr ops" "list_all unambiguous ops"
    "planGroupPatch (\<lambda>_. None) (sgID sample_group) ops = Some sample_plan"
    by (auto simp: sample_group_def split: sum.splits)
  obtain ms where ms: "sgMembers sample_group = Some ms" "\<forall>m\<in>set ms. gmID m \<noteq> []" "ToLower ` gmID ` set ms = {''u1'', ''u2''}"
    by (auto simp: sample_group_def ToLower_def to_lower_def)
  have "TrimSpace (sgDisplayName sample_group) \<noteq> []" by code_simp
  moreover have "patched_members sample_plan {''u1'', ''u2''} = {''u2'', ''u3''}" by code_simp
  moreover have "gpDisplayName sample_plan = ''Operations''" by (simp add: sample_plan_def)
  ultimately show ?thesis
    using group_plan_refines_patch[OF ops ms(1,2), of "[]" "\<lparr>ReplaceAddsUnmatched = False\<rparr>"] ops(1) ms(3) by auto
qed

end
