(* ===== verification/Scim_Group_Store.thy ===== *)
theory Scim_Group_Store
  imports Scim_Group_Patch
begin

text \<open>
  The groups of the SCIM endpoint in the gateway database (pkg/gateway/client/scimgroup.go). A database is the
  record of its tables; a transaction returns the new database, or an error that leaves it as it was. Writes are
  serialized by the SCIM write lock, so a transaction is one step. Queries in batches are the queries they make up.
  Times are natural numbers, given by the caller, as are the new SCIM identifiers. The decryption of user names and
  the text of a time are parameters. An update that needs lifecycle events to be delivered says so in its result.
\<close>

section \<open>Tables\<close>

datatype SCIMConnectionState = SCIMConnectionStateConnected | SCIMConnectionStateEnforced
datatype SCIMConnectionOrigin = SCIMConnectionOriginSCIMFirst | SCIMConnectionOriginMigrated
datatype SCIMGroupBindingOrigin = SCIMGroupBindingOriginExisting | SCIMGroupBindingOriginCreated

record SCIMConnection =
  scID :: string
  scAdapterType :: string
  scNamespace :: string
  scName :: string
  scGroupIDPrefix :: string
  scState :: SCIMConnectionState
  scOrigin :: SCIMConnectionOrigin
  scTokenVerifier :: string
  scTokenIssuedAt :: "nat option"
  scPreviousTokenVerifier :: string
  scPreviousTokenExpiresAt :: "nat option"

record SCIMUserBinding =
  ubID :: string
  ubConnectionID :: string
  ubUserID :: nat
  ubUserName :: string
  ubEncrypted :: bool
  ubCreatedAt :: nat
  ubRetiredAt :: "nat option"

record Group =
  grpID :: string
  grpNamespace :: string
  grpAuthProviderName :: string
  grpName :: string

record SCIMGroupBinding =
  gbID :: string
  gbConnectionID :: string
  gbGroupID :: string
  gbNormalizedDisplayName :: string
  gbOrigin :: SCIMGroupBindingOrigin
  gbRevision :: int
  gbCreatedAt :: nat
  gbUpdatedAt :: nat
  gbRetiredAt :: "nat option"

record SCIMGroupSubjectCleanup =
  gcGroupID :: string
  gcNamespace :: string
  gcCreatedAt :: nat
  gcClaimedUntil :: "nat option"
  gcAttempts :: int
  gcLastError :: string

record SCIMPendingGroupDeletion =
  pdGroupID :: string
  pdConnectionID :: string
  pdRunID :: string
  pdCreatedAt :: nat

record SCIMReferenceWrite =
  rwID :: string
  rwExpiresAt :: nat

record db =
  dbConnections :: "SCIMConnection list"
  dbUserBindings :: "SCIMUserBinding list"
  dbGroups :: "Group list"
  dbGroupBindings :: "SCIMGroupBinding list"
  dbMemberships :: "(nat \<times> string) list"
  dbEvents :: "(nat \<times> bool) list"
  dbPendingDeletions :: "SCIMPendingGroupDeletion list"
  dbReferenceWrites :: "SCIMReferenceWrite list"
  dbRoleAssignments :: "string list"
  dbCleanups :: "SCIMGroupSubjectCleanup list"

datatype store_error =
    SCIMNotFoundError | SCIMConflictError | SCIMInvalidValueError | ErrSCIMConnectionNotFound | Refused scim_error | Failed
  | SCIMConnectionExistsError string | SCIMResidualGroupDataError | ErrMultipleSCIMConnections | SCIMAuthenticationError
  | ErrSCIMConnectionHasToken | SCIMGroupReferenceError "string list" "string list"

type_synonym 'a store_result = "store_error + 'a"

record scim_env =
  decryptField :: "string \<Rightarrow> string \<Rightarrow> string option"
  formatTime :: "nat \<Rightarrow> string"

definition live_user :: "SCIMUserBinding \<Rightarrow> bool" where
  "live_user b = (ubRetiredAt b = None)"

definition live_group :: "SCIMGroupBinding \<Rightarrow> bool" where
  "live_group b = (gbRetiredAt b = None)"

definition NormalizeSCIMGroupName :: "string \<Rightarrow> string" where
  "NormalizeSCIMGroupName name = ToLower (TrimSpace name)"

fun insert_by :: "('a \<Rightarrow> 'a \<Rightarrow> bool) \<Rightarrow> 'a \<Rightarrow> 'a list \<Rightarrow> 'a list" where
  "insert_by before x [] = [x]"
| "insert_by before x (y # ys) = (if before y x then y # insert_by before x ys else x # y # ys)"

definition order_by :: "('a \<Rightarrow> 'a \<Rightarrow> bool) \<Rightarrow> 'a list \<Rightarrow> 'a list" where
  "order_by before xs = foldr (insert_by before) xs []"

definition created_before :: "nat \<times> string \<Rightarrow> nat \<times> string \<Rightarrow> bool" where
  "created_before a b = (fst a < fst b \<or> fst a = fst b \<and> string_less (snd a) (snd b))"

section \<open>Reading groups\<close>

definition scimGroupQuery :: "db \<Rightarrow> string \<Rightarrow> (SCIMGroupBinding \<times> string) list" where
  "scimGroupQuery s connectionID =
    [(b, grpName g). b \<leftarrow> dbGroupBindings s, g \<leftarrow> dbGroups s,
       grpID g = gbGroupID b \<and> gbConnectionID b = connectionID \<and> live_group b]"

definition member_rows :: "db \<Rightarrow> string \<Rightarrow> string list \<Rightarrow> (SCIMUserBinding \<times> string) list" where
  "member_rows s connectionID groupIDs =
    order_by (\<lambda>a b. created_before (ubCreatedAt (fst a), ubID (fst a)) (ubCreatedAt (fst b), ubID (fst b)))
      [(b, gid). (u, gid) \<leftarrow> dbMemberships s, gid \<in> set groupIDs, b \<leftarrow> dbUserBindings s,
         ubUserID b = u \<and> ubConnectionID b = connectionID \<and> live_user b]"

definition scimGroupMembersTx :: "scim_env \<Rightarrow> db \<Rightarrow> string \<Rightarrow> string list \<Rightarrow> (string \<times> SCIMGroupMember) list store_result" where
  "scimGroupMembersTx env s connectionID groupIDs =
    map_ok (\<lambda>(b, gid).
      if ubEncrypted b
      then (case decryptField env (ubID b) (ubUserName b) of
              None \<Rightarrow> Inl Failed
            | Some name \<Rightarrow> Inr (gid, \<lparr>gmID = ubID b, gmUserName = name\<rparr>))
      else Inr (gid, \<lparr>gmID = ubID b, gmUserName = ubUserName b\<rparr>)) (member_rows s connectionID groupIDs)"

definition scimGroupFromRow :: "scim_env \<Rightarrow> SCIMGroupBinding \<times> string \<Rightarrow> (string \<times> SCIMGroupMember) list \<Rightarrow> bool \<Rightarrow> SCIMGroup" where
  "scimGroupFromRow env row members includeMembers =
    \<lparr>sgID = gbID (fst row), sgGroupID = gbGroupID (fst row), sgDisplayName = snd row,
     sgMembers = (if includeMembers then Some (map snd (filter (\<lambda>m. fst m = gbGroupID (fst row)) members)) else None),
     sgRevision = gbRevision (fst row), sgCreatedAt = formatTime env (gbCreatedAt (fst row)), sgUpdatedAt = formatTime env (gbUpdatedAt (fst row))\<rparr>"

definition scimGroupTx :: "scim_env \<Rightarrow> db \<Rightarrow> string \<Rightarrow> string \<Rightarrow> bool \<Rightarrow> SCIMGroup store_result" where
  "scimGroupTx env s connectionID scimID includeMembers =
    (case filter (\<lambda>row. gbID (fst row) = scimID) (scimGroupQuery s connectionID) of
       [] \<Rightarrow> Inl SCIMNotFoundError
     | row # _ \<Rightarrow>
         bind_ok (if includeMembers then scimGroupMembersTx env s connectionID [gbGroupID (fst row)] else Inr [])
           (\<lambda>members. Inr (scimGroupFromRow env row members includeMembers)))"

definition GetSCIMGroup :: "scim_env \<Rightarrow> db \<Rightarrow> string \<Rightarrow> string \<Rightarrow> bool \<Rightarrow> SCIMGroup store_result" where
  "GetSCIMGroup = scimGroupTx"

record SCIMGroupFilter =
  gfID :: string
  gfDisplayName :: string

record SCIMPage =
  pgOffset :: int
  pgLimit :: int

definition ListSCIMGroups :: "scim_env \<Rightarrow> db \<Rightarrow> string \<Rightarrow> SCIMGroupFilter \<Rightarrow> SCIMPage \<Rightarrow> bool \<Rightarrow> (SCIMGroup list \<times> int) store_result" where
  "ListSCIMGroups env s connectionID flt page includeMembers =
    (let rows = filter (\<lambda>row. (gfID flt = [] \<or> gbID (fst row) = gfID flt)
                          \<and> (gfDisplayName flt = [] \<or> gbNormalizedDisplayName (fst row) = NormalizeSCIMGroupName (gfDisplayName flt)))
                  (scimGroupQuery s connectionID);
         matches = int (length rows)
     in if pgLimit page \<le> 0 \<or> pgOffset page \<ge> matches then Inr ([], matches)
        else let ordered = order_by (\<lambda>a b. created_before (gbCreatedAt (fst a), gbID (fst a)) (gbCreatedAt (fst b), gbID (fst b))) rows;
                 listed = take (nat (pgLimit page)) (drop (nat (pgOffset page)) ordered)
             in bind_ok (if includeMembers then scimGroupMembersTx env s connectionID (map (gbGroupID \<circ> fst) listed) else Inr [])
                  (\<lambda>members. Inr (map (\<lambda>row. scimGroupFromRow env row members includeMembers) listed, matches)))"

section \<open>Members\<close>

definition scimIDs :: "string list \<Rightarrow> string list" where
  "scimIDs memberIDs = map ToLower memberIDs"

definition resolveSCIMMembersTx :: "db \<Rightarrow> string \<Rightarrow> string list \<Rightarrow> nat list store_result" where
  "resolveSCIMMembersTx s connectionID memberIDs =
    (let ids = remdups (scimIDs memberIDs);
         bindings = filter (\<lambda>b. ubConnectionID b = connectionID \<and> ubID b \<in> set ids) (dbUserBindings s)
     in if \<not> list_all (\<lambda>mid. mid \<in> ubID ` set bindings) ids then Inl SCIMInvalidValueError
        else Inr (map ubUserID (filter live_user bindings)))"

definition scimMemberUserIDsTx :: "db \<Rightarrow> string \<Rightarrow> string list \<Rightarrow> nat list" where
  "scimMemberUserIDsTx s connectionID memberIDs =
    map ubUserID (filter (\<lambda>b. ubConnectionID b = connectionID \<and> live_user b \<and> ubID b \<in> set (scimIDs memberIDs)) (dbUserBindings s))"

definition group_users :: "db \<Rightarrow> string \<Rightarrow> nat list" where
  "group_users s groupID = map fst (filter (\<lambda>m. snd m = groupID) (dbMemberships s))"

text \<open>The changes of a map from users to whether they left the group, by user.\<close>

definition changes_of :: "nat list \<Rightarrow> nat list \<Rightarrow> (nat \<times> bool) list" where
  "changes_of changed current = map (\<lambda>u. (u, u \<in> set current)) (sort (remdups changed))"

definition writeGroupMembershipChangesTx :: "string \<Rightarrow> (nat \<times> bool) list \<Rightarrow> db \<Rightarrow> db" where
  "writeGroupMembershipChangesTx groupID changes s =
    (let removed = map fst (filter snd changes);
         kept = filter (\<lambda>m. \<not> (snd m = groupID \<and> fst m \<in> set removed)) (dbMemberships s);
         added = map (\<lambda>c. (fst c, groupID)) (filter (\<lambda>c. \<not> snd c) changes)
     in s\<lparr>dbMemberships := kept @ filter (\<lambda>m. m \<notin> set kept) added\<rparr>)"

definition replaceGroupMembershipsTx :: "string \<Rightarrow> nat list \<Rightarrow> db \<Rightarrow> db \<times> (nat \<times> bool) list" where
  "replaceGroupMembershipsTx groupID users s =
    (let current = group_users s groupID;
         changes = changes_of (filter (\<lambda>u. u \<notin> set users) current @ filter (\<lambda>u. u \<notin> set current) users) current
     in (writeGroupMembershipChangesTx groupID changes s, changes))"

definition changeGroupMembershipsTx :: "string \<Rightarrow> nat list \<Rightarrow> nat list \<Rightarrow> db \<Rightarrow> db \<times> (nat \<times> bool) list" where
  "changeGroupMembershipsTx groupID added removed s =
    (let named = added @ filter (\<lambda>u. u \<notin> set added) removed;
         members = filter (\<lambda>u. u \<in> set named) (group_users s groupID);
         changes = changes_of (filter (\<lambda>u. (u \<in> set added) \<noteq> (u \<in> set members)) named) members
     in (writeGroupMembershipChangesTx groupID changes s, changes))"

definition recordMembershipReconcileEventsTx :: "(nat \<times> bool) list \<Rightarrow> db \<Rightarrow> db" where
  "recordMembershipReconcileEventsTx changes s = s\<lparr>dbEvents := dbEvents s @ changes\<rparr>"

section \<open>Names\<close>

definition checkSCIMGroupNameTx :: "db \<Rightarrow> string \<Rightarrow> string \<Rightarrow> string \<Rightarrow> bool" where
  "checkSCIMGroupNameTx s connectionID normalized exceptID =
    (\<not> list_ex (\<lambda>b. gbConnectionID b = connectionID \<and> live_group b \<and> gbNormalizedDisplayName b = normalized
                     \<and> (exceptID = [] \<or> gbID b \<noteq> exceptID)) (dbGroupBindings s))"

definition unboundGroupsNamedTx :: "db \<Rightarrow> SCIMConnection \<Rightarrow> string \<Rightarrow> Group list" where
  "unboundGroupsNamedTx s conn normalized =
    filter (\<lambda>g. grpNamespace g = scNamespace conn \<and> grpAuthProviderName g = scName conn
        \<and> \<not> list_ex (\<lambda>b. live_group b \<and> gbGroupID b = grpID g) (dbGroupBindings s)
        \<and> grpID g \<notin> pdGroupID ` set (dbPendingDeletions s) \<and> NormalizeSCIMGroupName (grpName g) = normalized) (dbGroups s)"

definition renameGroupTx :: "string \<Rightarrow> string \<Rightarrow> db \<Rightarrow> db" where
  "renameGroupTx groupID name s = s\<lparr>dbGroups := map (\<lambda>g. if grpID g = groupID then g\<lparr>grpName := name\<rparr> else g) (dbGroups s)\<rparr>"

definition update_binding :: "string \<Rightarrow> (SCIMGroupBinding \<Rightarrow> SCIMGroupBinding) \<Rightarrow> db \<Rightarrow> db" where
  "update_binding scimID f s = s\<lparr>dbGroupBindings := map (\<lambda>b. if gbID b = scimID then f b else b) (dbGroupBindings s)\<rparr>"

section \<open>Writing groups\<close>

definition connection_tx :: "db \<Rightarrow> string \<Rightarrow> SCIMConnection store_result" where
  "connection_tx s connectionID =
    (case find (\<lambda>c. scID c = connectionID) (dbConnections s) of None \<Rightarrow> Inl ErrSCIMConnectionNotFound | Some c \<Rightarrow> Inr c)"

text \<open>The adapters by type; Okta's is the only one.\<close>

definition connectionAdapter :: "SCIMConnection \<Rightarrow> bool" where
  "connectionAdapter conn = (scAdapterType conn = ''okta'')"

definition NewGroupID :: "string \<Rightarrow> string \<Rightarrow> string" where
  "NewGroupID groupIDPrefix scimID = groupIDPrefix @ scimID"

definition set_members :: "string \<Rightarrow> nat list \<Rightarrow> db \<Rightarrow> db \<times> (nat \<times> bool) list" where
  "set_members groupID users s =
    (case replaceGroupMembershipsTx groupID users s of (s, changes) \<Rightarrow> (recordMembershipReconcileEventsTx changes s, changes))"

definition add_group :: "Group \<Rightarrow> db \<Rightarrow> db store_result" where
  "add_group g s = (if grpID g \<in> grpID ` set (dbGroups s) then Inl Failed else Inr (s\<lparr>dbGroups := dbGroups s @ [g]\<rparr>))"

definition add_binding :: "SCIMGroupBinding \<Rightarrow> db \<Rightarrow> db store_result" where
  "add_binding b s =
    (if gbID b \<in> gbID ` set (dbGroupBindings s) then Inl Failed else Inr (s\<lparr>dbGroupBindings := dbGroupBindings s @ [b]\<rparr>))"

text \<open>The group a new binding refers to: the one unbound group with the name, or a new one.\<close>

definition bind_group :: "SCIMConnection \<Rightarrow> string \<Rightarrow> string \<Rightarrow> string \<Rightarrow> db \<Rightarrow> (db \<times> string \<times> SCIMGroupBindingOrigin) store_result" where
  "bind_group conn normalized displayName newID s =
    (case unboundGroupsNamedTx s conn normalized of
       [] \<Rightarrow>
         let groupID = NewGroupID (scGroupIDPrefix conn) newID
         in bind_ok (add_group \<lparr>grpID = groupID, grpNamespace = scNamespace conn, grpAuthProviderName = scName conn, grpName = displayName\<rparr> s)
              (\<lambda>s. Inr (s, groupID, SCIMGroupBindingOriginCreated))
     | [g] \<Rightarrow>
         Inr (if grpName g \<noteq> displayName then renameGroupTx (grpID g) displayName s else s, grpID g, SCIMGroupBindingOriginExisting)
     | _ \<Rightarrow> Inl SCIMConflictError)"

text \<open>The group is read again once it is written; a failure to read it leaves it written.\<close>

definition CreateSCIMGroup ::
  "scim_env \<Rightarrow> SCIMConnection \<Rightarrow> SCIMGroupInput \<Rightarrow> string \<Rightarrow> nat \<Rightarrow> db \<Rightarrow> (db \<times> bool \<times> SCIMGroup store_result) store_result" where
  "CreateSCIMGroup env conn inp newID now s =
    (if \<not> connectionAdapter conn then Inl Failed
     else let normalized = NormalizeSCIMGroupName (giDisplayName inp)
          in if normalized = [] then Inl SCIMInvalidValueError
             else bind_ok (connection_tx s (scID conn)) (\<lambda>conn.
               if \<not> checkSCIMGroupNameTx s (scID conn) normalized [] then Inl SCIMConflictError
               else bind_ok (resolveSCIMMembersTx s (scID conn) (giMemberIDs inp)) (\<lambda>members.
                    bind_ok (bind_group conn normalized (giDisplayName inp) newID s) (\<lambda>(s, groupID, origin).
                    bind_ok (add_binding \<lparr>gbID = newID, gbConnectionID = scID conn, gbGroupID = groupID,
                        gbNormalizedDisplayName = normalized, gbOrigin = origin, gbRevision = 1, gbCreatedAt = now, gbUpdatedAt = now,
                        gbRetiredAt = None\<rparr> s) (\<lambda>s.
                      case set_members groupID members s of (s, changes) \<Rightarrow>
                        Inr (s, changes \<noteq> [], GetSCIMGroup env s (scID conn) newID True))))))"

definition UpdateSCIMGroup ::
  "scim_env \<Rightarrow> SCIMConnection \<Rightarrow> string \<Rightarrow> (SCIMGroup \<Rightarrow> SCIMGroupInput scim_result) \<Rightarrow> nat \<Rightarrow> db \<Rightarrow> (db \<times> bool) store_result" where
  "UpdateSCIMGroup env conn scimID mutate now s =
    bind_ok (scimGroupTx env s (scID conn) scimID True) (\<lambda>current.
      case mutate current of
        Inl e \<Rightarrow> Inl (Refused e)
      | Inr inp \<Rightarrow>
          let normalized = NormalizeSCIMGroupName (giDisplayName inp)
          in if normalized = [] then Inl SCIMInvalidValueError
             else bind_ok (resolveSCIMMembersTx s (scID conn) (giMemberIDs inp)) (\<lambda>members.
                  let renamed = (giDisplayName inp \<noteq> sgDisplayName current)
                  in if renamed \<and> \<not> checkSCIMGroupNameTx s (scID conn) normalized scimID then Inl SCIMConflictError
                     else let s = (if renamed then renameGroupTx (sgGroupID current) (giDisplayName inp) s else s)
                          in case set_members (sgGroupID current) members s of (s, changes) \<Rightarrow>
                               Inr (if renamed \<or> changes \<noteq> []
                                    then update_binding scimID
                                           (\<lambda>b. b\<lparr>gbNormalizedDisplayName := normalized, gbRevision := gbRevision b + 1, gbUpdatedAt := now\<rparr>) s
                                    else s, changes \<noteq> [])))"

definition patch_members :: "string \<Rightarrow> string \<Rightarrow> SCIMGroupPatch \<Rightarrow> db \<Rightarrow> (db \<times> (nat \<times> bool) list) store_result" where
  "patch_members connectionID groupID patch s =
    (if gpReplaceMembers patch
     then bind_ok (resolveSCIMMembersTx s connectionID (gpMemberIDs patch)) (\<lambda>members. Inr (replaceGroupMembershipsTx groupID members s))
     else bind_ok (resolveSCIMMembersTx s connectionID (gpMemberIDs patch)) (\<lambda>added.
            Inr (changeGroupMembershipsTx groupID added (scimMemberUserIDsTx s connectionID (gpRemovedMemberIDs patch)) s)))"

definition PatchSCIMGroup :: "scim_env \<Rightarrow> SCIMConnection \<Rightarrow> string \<Rightarrow> SCIMGroupPatch \<Rightarrow> nat \<Rightarrow> db \<Rightarrow> (db \<times> bool) store_result" where
  "PatchSCIMGroup env conn scimID patch now s =
    bind_ok (scimGroupTx env s (scID conn) scimID False) (\<lambda>current.
      let renamed = (gpDisplayName patch \<noteq> [] \<and> gpDisplayName patch \<noteq> sgDisplayName current);
          normalized = NormalizeSCIMGroupName (gpDisplayName patch)
      in if renamed \<and> normalized = [] then Inl SCIMInvalidValueError
         else if renamed \<and> \<not> checkSCIMGroupNameTx s (scID conn) normalized scimID then Inl SCIMConflictError
         else let s = (if renamed then renameGroupTx (sgGroupID current) (gpDisplayName patch) s else s)
              in bind_ok (patch_members (scID conn) (sgGroupID current) patch s) (\<lambda>(s, changes).
                   let s = recordMembershipReconcileEventsTx changes s
                   in if \<not> renamed \<and> changes = [] then Inr (s, False)
                      else Inr (update_binding scimID
                             (\<lambda>b. b\<lparr>gbNormalizedDisplayName := (if renamed then normalized else gbNormalizedDisplayName b),
                                    gbRevision := gbRevision b + 1, gbUpdatedAt := now\<rparr>) s, changes \<noteq> [])))"

definition deleteGroupsTx :: "SCIMConnection \<Rightarrow> string list \<Rightarrow> db \<Rightarrow> db" where
  "deleteGroupsTx conn groupIDs s =
    s\<lparr>dbMemberships := filter (\<lambda>m. snd m \<notin> set groupIDs) (dbMemberships s),
      dbGroups := filter (\<lambda>g. \<not> (grpNamespace g = scNamespace conn \<and> grpAuthProviderName g = scName conn \<and> grpID g \<in> set groupIDs)) (dbGroups s)\<rparr>"

definition deleteSCIMGroupTx :: "SCIMConnection \<Rightarrow> string \<Rightarrow> nat \<Rightarrow> db \<Rightarrow> db" where
  "deleteSCIMGroupTx conn groupID now s =
    (let s = s\<lparr>dbRoleAssignments := filter (\<lambda>g. g \<noteq> groupID) (dbRoleAssignments s),
               dbPendingDeletions := filter (\<lambda>m. pdGroupID m \<noteq> groupID) (dbPendingDeletions s)\<rparr>;
         s = deleteGroupsTx conn [groupID] s
     in if groupID \<in> gcGroupID ` set (dbCleanups s) then s
        else s\<lparr>dbCleanups := dbCleanups s @ [\<lparr>gcGroupID = groupID, gcNamespace = scNamespace conn, gcCreatedAt = now,
                 gcClaimedUntil = None, gcAttempts = 0, gcLastError = []\<rparr>]\<rparr>)"

definition DeleteSCIMGroup :: "SCIMConnection \<Rightarrow> string \<Rightarrow> nat \<Rightarrow> db \<Rightarrow> (db \<times> bool) store_result" where
  "DeleteSCIMGroup conn scimID now s =
    bind_ok (connection_tx s (scID conn)) (\<lambda>conn.
      case find (\<lambda>b. gbID b = scimID \<and> gbConnectionID b = scID conn \<and> live_group b) (dbGroupBindings s) of
        None \<Rightarrow> Inl SCIMNotFoundError
      | Some binding \<Rightarrow>
          let s = update_binding scimID (\<lambda>b. b\<lparr>gbRetiredAt := Some now, gbUpdatedAt := now\<rparr>) s
          in case set_members (gbGroupID binding) [] s of (s, changes) \<Rightarrow>
               Inr (if scState conn = SCIMConnectionStateEnforced then deleteSCIMGroupTx conn (gbGroupID binding) now s else s, changes \<noteq> []))"

section \<open>Cleanups\<close>

definition scimGroupSubjectCleanupClaimDuration :: nat where
  "scimGroupSubjectCleanupClaimDuration = 5 * 60"

definition claimable :: "nat \<Rightarrow> SCIMGroupSubjectCleanup \<Rightarrow> bool" where
  "claimable now c = (case gcClaimedUntil c of None \<Rightarrow> True | Some t \<Rightarrow> t < now)"

definition ClaimSCIMGroupSubjectCleanups :: "nat \<Rightarrow> nat \<Rightarrow> db \<Rightarrow> db \<times> SCIMGroupSubjectCleanup list" where
  "ClaimSCIMGroupSubjectCleanups limit now s =
    (let due = take limit (order_by (\<lambda>a b. created_before (gcCreatedAt a, gcGroupID a) (gcCreatedAt b, gcGroupID b))
                 (filter (claimable now) (dbCleanups s)))
     in (s\<lparr>dbCleanups := map (\<lambda>c. if gcGroupID c \<in> gcGroupID ` set due \<and> claimable now c
                               then c\<lparr>gcClaimedUntil := Some (now + scimGroupSubjectCleanupClaimDuration)\<rparr> else c) (dbCleanups s)\<rparr>, due))"

definition CompleteSCIMGroupSubjectCleanup :: "string \<Rightarrow> db \<Rightarrow> db" where
  "CompleteSCIMGroupSubjectCleanup groupID s = s\<lparr>dbCleanups := filter (\<lambda>c. gcGroupID c \<noteq> groupID) (dbCleanups s)\<rparr>"

definition FailSCIMGroupSubjectCleanup :: "string \<Rightarrow> string \<Rightarrow> db \<Rightarrow> db" where
  "FailSCIMGroupSubjectCleanup groupID cause s =
    s\<lparr>dbCleanups := map (\<lambda>c. if gcGroupID c = groupID then c\<lparr>gcAttempts := gcAttempts c + 1, gcLastError := cause\<rparr> else c) (dbCleanups s)\<rparr>"

section \<open>Invariant\<close>

text \<open>The bindings of users, which the group operations only read.\<close>

definition users_ok :: "db \<Rightarrow> bool" where
  "users_ok s \<longleftrightarrow>
    distinct (map ubID (dbUserBindings s)) \<and> (\<forall>b\<in>set (dbUserBindings s). ubID b \<noteq> [] \<and> ToLower (ubID b) = ubID b)
    \<and> (\<forall>b\<in>set (dbUserBindings s). \<forall>b'\<in>set (dbUserBindings s). live_user b \<longrightarrow> live_user b' \<longrightarrow>
         ubConnectionID b = ubConnectionID b' \<longrightarrow> ubUserID b = ubUserID b' \<longrightarrow> b = b')"

text \<open>
  Group bindings: each has its own identifier. A binding that is not retired refers to a group that exists, under
  the normalized name of that group; no other one refers to the group, or has the name in the connection; and the
  members of the group are bound users of the connection.
\<close>

definition bindings_ok :: "db \<Rightarrow> bool" where
  "bindings_ok s \<longleftrightarrow>
    distinct (map gbID (dbGroupBindings s)) \<and> distinct (map grpID (dbGroups s))
    \<and> (\<forall>b\<in>set (dbGroupBindings s). live_group b \<longrightarrow>
         gbNormalizedDisplayName b \<noteq> [] \<and>
         (\<exists>g\<in>set (dbGroups s). grpID g = gbGroupID b \<and> NormalizeSCIMGroupName (grpName g) = gbNormalizedDisplayName b))
    \<and> (\<forall>b\<in>set (dbGroupBindings s). \<forall>b'\<in>set (dbGroupBindings s). live_group b \<longrightarrow> live_group b' \<longrightarrow>
         gbGroupID b = gbGroupID b' \<or> gbConnectionID b = gbConnectionID b' \<and> gbNormalizedDisplayName b = gbNormalizedDisplayName b' \<longrightarrow>
         gbID b = gbID b')"

definition members_ok :: "db \<Rightarrow> bool" where
  "members_ok s \<longleftrightarrow>
    distinct (dbMemberships s)
    \<and> (\<forall>b\<in>set (dbGroupBindings s). live_group b \<longrightarrow> (\<forall>u. (u, gbGroupID b) \<in> set (dbMemberships s) \<longrightarrow>
         (\<exists>ub\<in>set (dbUserBindings s). live_user ub \<and> ubConnectionID ub = gbConnectionID b \<and> ubUserID ub = u)))"

section \<open>Memberships\<close>

definition known :: "db \<Rightarrow> string \<Rightarrow> string set" where
  "known s c = ubID ` {b \<in> set (dbUserBindings s). ubConnectionID b = c}"

definition users_of :: "db \<Rightarrow> string \<Rightarrow> string set \<Rightarrow> nat set" where
  "users_of s c ids = ubUserID ` {b \<in> set (dbUserBindings s). ubConnectionID b = c \<and> live_user b \<and> ubID b \<in> ids}"

lemma resolve_members:
  "resolveSCIMMembersTx s c ids =
    (if ToLower ` set ids \<subseteq> known s c
     then Inr (map ubUserID (filter live_user (filter (\<lambda>b. ubConnectionID b = c \<and> ubID b \<in> ToLower ` set ids) (dbUserBindings s))))
     else Inl SCIMInvalidValueError)"
proof -
  have self: "(\<forall>m\<in>X. m \<in> ubID ` {b \<in> set (dbUserBindings s). ubConnectionID b = c \<and> ubID b \<in> X})
      \<longleftrightarrow> X \<subseteq> ubID ` {b \<in> set (dbUserBindings s). ubConnectionID b = c}" for X
    by blast
  have "list_all (\<lambda>mid. mid \<in> ubID ` set (filter (\<lambda>b. ubConnectionID b = c \<and> ubID b \<in> set (remdups (scimIDs ids))) (dbUserBindings s)))
      (remdups (scimIDs ids)) \<longleftrightarrow> ToLower ` set ids \<subseteq> known s c"
    using self[of "ToLower ` set ids"] by (simp add: list_all_iff scimIDs_def known_def)
  then show ?thesis by (simp add: resolveSCIMMembersTx_def scimIDs_def Let_def)
qed

lemma resolved_users:
  "set (map ubUserID (filter live_user (filter (\<lambda>b. ubConnectionID b = c \<and> ubID b \<in> ids) (dbUserBindings s)))) = users_of s c ids"
  by (auto simp: users_of_def)

lemma removed_users: "set (scimMemberUserIDsTx s c ids) = users_of s c (ToLower ` set ids)"
  by (auto simp: scimMemberUserIDsTx_def users_of_def scimIDs_def)

lemma users_of_diff:
  assumes "users_ok s"
  shows "users_of s c (X - Y) = users_of s c X - users_of s c Y"
proof -
  let ?B = "{b \<in> set (dbUserBindings s). ubConnectionID b = c \<and> live_user b}"
  have split: "users_of s c Z = ubUserID ` {b \<in> ?B. ubID b \<in> Z}" for Z by (auto simp: users_of_def)
  have "inj_on ubUserID ?B" using assms by (auto simp: users_ok_def inj_on_def)
  then have "ubUserID ` ({b \<in> ?B. ubID b \<in> X} - {b \<in> ?B. ubID b \<in> Y}) = users_of s c X - users_of s c Y"
    unfolding split by (rule inj_on_image_set_diff) auto
  moreover have "{b \<in> ?B. ubID b \<in> X - Y} = {b \<in> ?B. ubID b \<in> X} - {b \<in> ?B. ubID b \<in> Y}" by auto
  ultimately show ?thesis unfolding split by simp
qed

lemma users_of_Un: "users_of s c (X \<union> Y) = users_of s c X \<union> users_of s c Y"
  by (auto simp: users_of_def)

lemma changes_of_cong:
  assumes "set xs = set ys" "\<And>u. u \<in> set xs \<Longrightarrow> u \<in> set c \<longleftrightarrow> u \<in> set c'"
  shows "changes_of xs c = changes_of ys c'"
proof -
  have "sort (remdups xs) = sort (remdups ys)"
    using assms(1) by (simp flip: sorted_list_of_set_sort_remdups)
  moreover have "map (\<lambda>u. (u, u \<in> set c)) (sort (remdups xs)) = map (\<lambda>u. (u, u \<in> set c')) (sort (remdups xs))"
    using assms(2) by simp
  ultimately show ?thesis by (simp add: changes_of_def)
qed

lemma replace_cong:
  assumes "set users = set users'"
  shows "replaceGroupMembershipsTx groupID users s = replaceGroupMembershipsTx groupID users' s"
proof -
  have "changes_of (filter (\<lambda>u. u \<notin> set users) cur @ filter (\<lambda>u. u \<notin> set cur) users) cur
      = changes_of (filter (\<lambda>u. u \<notin> set users') cur @ filter (\<lambda>u. u \<notin> set cur) users') cur" for cur
    using assms by (intro changes_of_cong) auto
  then show ?thesis by (simp add: replaceGroupMembershipsTx_def Let_def)
qed

text \<open>Naming the members that change has the effect of replacing all of them.\<close>

lemma change_is_replace:
  assumes "set users = set (group_users s groupID) - set removed \<union> set added"
  shows "changeGroupMembershipsTx groupID added removed s = replaceGroupMembershipsTx groupID users s"
proof -
  let ?cur = "group_users s groupID" and ?named = "added @ filter (\<lambda>u. u \<notin> set added) removed"
  have "changes_of (filter (\<lambda>u. (u \<in> set added) \<noteq> (u \<in> set (filter (\<lambda>u. u \<in> set ?named) ?cur))) ?named) (filter (\<lambda>u. u \<in> set ?named) ?cur)
      = changes_of (filter (\<lambda>u. u \<notin> set users) ?cur @ filter (\<lambda>u. u \<notin> set ?cur) users) ?cur"
    using assms by (intro changes_of_cong) auto
  then show ?thesis unfolding changeGroupMembershipsTx_def replaceGroupMembershipsTx_def Let_def by simp
qed

section \<open>Rows\<close>

lemma set_order_by [simp]: "set (order_by before xs) = set xs"
proof -
  have "set (insert_by before x ys) = insert x (set ys)" for x and ys by (induction ys) auto
  then show ?thesis unfolding order_by_def by (induction xs) auto
qed

lemma set_member_rows:
  "set (member_rows s c gids) = {(b, g). g \<in> set gids \<and> b \<in> set (dbUserBindings s) \<and> ubConnectionID b = c \<and> live_user b \<and> (ubUserID b, g) \<in> set (dbMemberships s)}"
  by (auto simp: member_rows_def)

definition decryptable :: "scim_env \<Rightarrow> db \<Rightarrow> bool" where
  "decryptable env s = list_all (\<lambda>b. ubEncrypted b \<longrightarrow> decryptField env (ubID b) (ubUserName b) \<noteq> None) (dbUserBindings s)"

lemma group_members:
  assumes "decryptable env s"
  obtains ms where "scimGroupMembersTx env s c [gid] = Inr ms" "fst ` set ms \<subseteq> {gid}"
    "gmID ` snd ` set ms = {ubID b | b. b \<in> set (dbUserBindings s) \<and> ubConnectionID b = c \<and> live_user b \<and> (ubUserID b, gid) \<in> set (dbMemberships s)}"
proof -
  let ?name = "\<lambda>b. if ubEncrypted b then the (decryptField env (ubID b) (ubUserName b)) else ubUserName b"
  let ?g = "\<lambda>(b, gid). (gid, \<lparr>gmID = ubID b, gmUserName = ?name b\<rparr>)"
  have members: "scimGroupMembersTx env s c [gid] = Inr (map ?g (member_rows s c [gid]))"
    unfolding scimGroupMembersTx_def
    by (rule map_ok_same) (use assms set_member_rows[of s c "[gid]"] in \<open>fastforce simp: decryptable_def list_all_iff\<close>)
  have ids: "gmID ` snd ` set (map ?g (member_rows s c [gid])) = ubID ` fst ` set (member_rows s c [gid])"
    by (simp add: image_image case_prod_unfold)
  have rows: "ubID ` fst ` set (member_rows s c [gid])
      = {ubID b | b. b \<in> set (dbUserBindings s) \<and> ubConnectionID b = c \<and> live_user b \<and> (ubUserID b, gid) \<in> set (dbMemberships s)}"
    unfolding set_member_rows by force
  have "fst ` set (map ?g (member_rows s c [gid])) \<subseteq> {gid}" by (auto simp: set_member_rows)
  then show ?thesis by (rule that[OF members]) (simp only: ids rows)
qed

lemma group_row:
  assumes "filter (\<lambda>row. gbID (fst row) = scimID) (scimGroupQuery s c) = row # rows"
  shows "fst row \<in> set (dbGroupBindings s)" "gbID (fst row) = scimID" "gbConnectionID (fst row) = c" "live_group (fst row)"
    "\<exists>g\<in>set (dbGroups s). grpID g = gbGroupID (fst row) \<and> grpName g = snd row"
proof -
  have "row \<in> set (filter (\<lambda>row. gbID (fst row) = scimID) (scimGroupQuery s c))" by (simp add: assms)
  then show "fst row \<in> set (dbGroupBindings s)" "gbID (fst row) = scimID" "gbConnectionID (fst row) = c" "live_group (fst row)"
    "\<exists>g\<in>set (dbGroups s). grpID g = gbGroupID (fst row) \<and> grpName g = snd row"
    by (auto simp: scimGroupQuery_def)
qed

lemma row_name:
  assumes "bindings_ok s" "filter (\<lambda>row. gbID (fst row) = scimID) (scimGroupQuery s c) = row # rows"
  shows "NormalizeSCIMGroupName (snd row) = gbNormalizedDisplayName (fst row)" "gbNormalizedDisplayName (fst row) \<noteq> []" "TrimSpace (snd row) \<noteq> []"
proof -
  note row = group_row[OF assms(2)]
  obtain g where g: "g \<in> set (dbGroups s)" "grpID g = gbGroupID (fst row)" "grpName g = snd row" using row(5) by blast
  obtain g' where g': "g' \<in> set (dbGroups s)" "grpID g' = gbGroupID (fst row)" "NormalizeSCIMGroupName (grpName g') = gbNormalizedDisplayName (fst row)"
    using assms(1) row(1,4) by (auto simp: bindings_ok_def)
  have "g = g'" using assms(1) g g' by (auto simp: bindings_ok_def distinct_map inj_on_def)
  with g g' show "NormalizeSCIMGroupName (snd row) = gbNormalizedDisplayName (fst row)" by simp
  moreover show "gbNormalizedDisplayName (fst row) \<noteq> []" using assms(1) row(1,4) by (auto simp: bindings_ok_def)
  ultimately show "TrimSpace (snd row) \<noteq> []" by (auto simp: NormalizeSCIMGroupName_def ToLower_def)
qed

section \<open>The two ways to patch a group\<close>

text \<open>What the handler of a group PATCH makes of the current group when the operations are not planned (handler.go).\<close>

definition patch_group_input :: "float_parser \<Rightarrow> PatchRules \<Rightarrow> string \<Rightarrow> patchOperation list \<Rightarrow> SCIMGroup \<Rightarrow> SCIMGroupInput scim_result" where
  "patch_group_input pf rules baseURL ops current =
    bind_ok (applyPatch pf groupResourceSchema (groupResource current baseURL) ops rules) groupInputFromResource"

definition ok_value :: "'e + 'a \<Rightarrow> 'a option" where
  "ok_value r = (case r of Inl _ \<Rightarrow> None | Inr x \<Rightarrow> Some x)"

lemma ok_value_simps [simp]: "ok_value (Inl e) = None" "ok_value (Inr x) = Some x"
  by (simp_all add: ok_value_def)

lemma rename_fields [simp]:
  "dbUserBindings (renameGroupTx g n s) = dbUserBindings s" "dbMemberships (renameGroupTx g n s) = dbMemberships s"
  "dbGroupBindings (renameGroupTx g n s) = dbGroupBindings s" "dbConnections (renameGroupTx g n s) = dbConnections s"
  "dbPendingDeletions (renameGroupTx g n s) = dbPendingDeletions s" "dbCleanups (renameGroupTx g n s) = dbCleanups s"
  by (simp_all add: renameGroupTx_def)

lemma patch_members_replace:
  assumes "users_ok s" "set (group_users s gid) = users_of s c old" "old \<subseteq> known s c" "ToLower ` set ids = patched_members p old"
  shows "patch_members c gid p s = bind_ok (resolveSCIMMembersTx s c ids) (\<lambda>members. Inr (replaceGroupMembershipsTx gid members s))"
proof (cases "gpReplaceMembers p")
  case True
  then show ?thesis using assms(4) by (simp add: patch_members_def patched_members_def resolve_members)
next
  case False
  let ?A = "ToLower ` set (gpMemberIDs p)" and ?R = "ToLower ` set (gpRemovedMemberIDs p)"
  let ?users = "\<lambda>X. map ubUserID (filter live_user (filter (\<lambda>b. ubConnectionID b = c \<and> ubID b \<in> X) (dbUserBindings s)))"
  have all: "ToLower ` set ids = old - ?R \<union> ?A" using assms(4) False by (simp add: patched_members_def)
  then have known: "ToLower ` set ids \<subseteq> known s c \<longleftrightarrow> ?A \<subseteq> known s c" using assms(3) by auto
  have "set (?users (ToLower ` set ids)) = set (group_users s gid) - set (scimMemberUserIDsTx s c (gpRemovedMemberIDs p)) \<union> set (?users ?A)"
    unfolding resolved_users removed_users assms(2) all users_of_Un users_of_diff[OF assms(1)] ..
  from change_is_replace[OF this] show ?thesis
    using False known by (simp add: patch_members_def resolve_members)
qed

lemma group_users_bound:
  assumes "members_ok s" "users_ok s" "b \<in> set (dbGroupBindings s)" "live_group b"
  defines "old \<equiv> {ubID ub | ub. ub \<in> set (dbUserBindings s) \<and> ubConnectionID ub = gbConnectionID b \<and> live_user ub \<and> (ubUserID ub, gbGroupID b) \<in> set (dbMemberships s)}"
  shows "set (group_users s (gbGroupID b)) = users_of s (gbConnectionID b) old" "old \<subseteq> known s (gbConnectionID b)" "ToLower ` old = old"
proof -
  have ids: "ub = ub'" if "ub \<in> set (dbUserBindings s)" "ub' \<in> set (dbUserBindings s)" "ubID ub = ubID ub'" for ub ub'
    using assms(2) that by (auto simp: users_ok_def distinct_map inj_on_def)
  have members: "set (group_users s (gbGroupID b)) = {u. (u, gbGroupID b) \<in> set (dbMemberships s)}" by (force simp: group_users_def)
  have "u \<in> users_of s (gbConnectionID b) old" if u: "(u, gbGroupID b) \<in> set (dbMemberships s)" for u
  proof -
    obtain ub where "ub \<in> set (dbUserBindings s)" "live_user ub" "ubConnectionID ub = gbConnectionID b" "ubUserID ub = u"
      using assms(1,3,4) u unfolding members_ok_def by blast
    with u show ?thesis by (auto simp: users_of_def old_def)
  qed
  moreover have "(u, gbGroupID b) \<in> set (dbMemberships s)" if u: "u \<in> users_of s (gbConnectionID b) old" for u
  proof -
    obtain ub where ub: "ub \<in> set (dbUserBindings s)" "ubID ub \<in> old" "ubUserID ub = u" using u by (auto simp: users_of_def)
    then obtain ub' where "ub' \<in> set (dbUserBindings s)" "ubID ub = ubID ub'" "(ubUserID ub', gbGroupID b) \<in> set (dbMemberships s)"
      by (auto simp: old_def)
    with ids[OF ub(1)] ub(3) show ?thesis by blast
  qed
  ultimately show "set (group_users s (gbGroupID b)) = users_of s (gbConnectionID b) old" unfolding members by blast
  show "old \<subseteq> known s (gbConnectionID b)" by (auto simp: old_def known_def)
  have "ToLower x = x" if "x \<in> old" for x using assms(2) that by (auto simp: users_ok_def old_def)
  then have "ToLower ` old = (\<lambda>x. x) ` old" by (rule image_cong[OF refl])
  then show "ToLower ` old = old" by simp
qed

lemma update_binding_cong:
  assumes "\<And>b. b \<in> set (dbGroupBindings s) \<Longrightarrow> gbID b = scimID \<Longrightarrow> f b = g b"
  shows "update_binding scimID f s = update_binding scimID g s"
  using assms by (auto simp: update_binding_def)

lemma planned_input:
  assumes "bindings_ok s" "members_ok s" "users_ok s" "decryptable env s"
    "decodePatchOperations body = Inr ops" "list_all unambiguous ops" "planGroupPatch pf scimID ops = Some p"
    "filter (\<lambda>row. gbID (fst row) = scimID) (scimGroupQuery s c) = row # rows"
  obtains cur inp where "scimGroupTx env s c scimID True = Inr cur" "sgDisplayName cur = snd row" "sgGroupID cur = gbGroupID (fst row)"
    "patch_group_input pf rules baseURL ops cur = Inr inp" "NormalizeSCIMGroupName (giDisplayName inp) \<noteq> []"
    "giDisplayName inp = (if gpDisplayName p = [] then snd row else gpDisplayName p)"
    "\<And>t. dbUserBindings t = dbUserBindings s \<Longrightarrow> dbMemberships t = dbMemberships s \<Longrightarrow>
       patch_members c (gbGroupID (fst row)) p t =
         bind_ok (resolveSCIMMembersTx s c (giMemberIDs inp)) (\<lambda>m. Inr (replaceGroupMembershipsTx (gbGroupID (fst row)) m t))"
proof -
  let ?gid = "gbGroupID (fst row)"
  note row = group_row[OF assms(8)] and name = row_name[OF assms(1,8)]
  let ?old = "{ubID ub | ub. ub \<in> set (dbUserBindings s) \<and> ubConnectionID ub = c \<and> live_user ub \<and> (ubUserID ub, ?gid) \<in> set (dbMemberships s)}"
  note bound = group_users_bound[OF assms(2,3) row(1,4), unfolded row(3)]
  obtain ms where ms: "scimGroupMembersTx env s c [?gid] = Inr ms" "fst ` set ms \<subseteq> {?gid}" "gmID ` snd ` set ms = ?old"
    by (rule group_members[OF assms(4)])
  let ?cur = "scimGroupFromRow env row ms True"
  have all: "filter (\<lambda>m. fst m = ?gid) ms = ms" using ms(2) by (auto simp: filter_id_conv)
  have cur: "sgID ?cur = scimID" "sgMembers ?cur = Some (map snd ms)" "sgDisplayName ?cur = snd row" "sgGroupID ?cur = ?gid"
    by (simp_all add: scimGroupFromRow_def all row(2))
  have "gmID m \<noteq> []" if "m \<in> set (map snd ms)" for m
  proof -
    have "gmID m \<in> gmID ` snd ` set ms" using that by simp
    then have "gmID m \<in> ?old" by (simp only: ms(3))
    with assms(3) show ?thesis by (auto simp: users_ok_def)
  qed
  then obtain inp where inp: "patch_group_input pf rules baseURL ops ?cur = Inr inp"
    "giDisplayName inp = (if gpDisplayName p = [] then snd row else gpDisplayName p)"
    "ToLower ` set (giMemberIDs inp) = patched_members p (ToLower ` gmID ` set (map snd ms))"
    using group_plan_refines[OF assms(5,6) assms(7)[folded cur(1)] cur(2), of baseURL rules] name(3) cur(3)
    by (auto simp: patch_group_input_def)
  have ids: "ToLower ` set (giMemberIDs inp) = patched_members p ?old" using inp(3) unfolding set_map ms(3) bound(3) .
  have "TrimSpace (giDisplayName inp) \<noteq> []"
    using inp(1) by (auto simp: patch_group_input_def bind_ok_Inr groupInputFromResource_def split: if_splits)
  then have normalized: "NormalizeSCIMGroupName (giDisplayName inp) \<noteq> []" by (simp add: NormalizeSCIMGroupName_def ToLower_def)
  have members: "patch_members c ?gid p t = bind_ok (resolveSCIMMembersTx s c (giMemberIDs inp)) (\<lambda>m. Inr (replaceGroupMembershipsTx ?gid m t))"
    if t: "dbUserBindings t = dbUserBindings s" "dbMemberships t = dbMemberships s" for t
  proof -
    have same: "users_ok t = users_ok s" "group_users t = group_users s" "users_of t = users_of s" "known t = known s"
      "resolveSCIMMembersTx t = resolveSCIMMembersTx s"
      using t by (simp_all add: users_ok_def group_users_def users_of_def known_def resolveSCIMMembersTx_def fun_eq_iff)
    show ?thesis using patch_members_replace[of t ?gid c ?old "giMemberIDs inp" p] assms(3) bound(1,2) ids by (simp only: same)
  qed
  have "scimGroupTx env s c scimID True = Inr ?cur" by (simp add: scimGroupTx_def assms(8) ms(1))
  from that[OF this cur(3,4) inp(1) normalized inp(2) members] show ?thesis by blast
qed

lemma paths_write_the_same:
  assumes "\<And>b. b \<in> set (dbGroupBindings t) \<Longrightarrow> gbID b = scimID \<Longrightarrow> \<not> renamed \<Longrightarrow> gbNormalizedDisplayName b = normalized"
  shows "(if \<not> renamed \<and> changes = [] then Inr (t, False)
      else Inr (update_binding scimID (\<lambda>b. b\<lparr>gbNormalizedDisplayName := (if renamed then normalized else gbNormalizedDisplayName b),
             gbRevision := gbRevision b + 1, gbUpdatedAt := now\<rparr>) t, changes \<noteq> []))
    = Inr (if renamed \<or> changes \<noteq> []
           then update_binding scimID (\<lambda>b. b\<lparr>gbNormalizedDisplayName := normalized, gbRevision := gbRevision b + 1, gbUpdatedAt := now\<rparr>) t
           else t, changes \<noteq> [])"
proof -
  have "update_binding scimID (\<lambda>b. b\<lparr>gbNormalizedDisplayName := (if renamed then normalized else gbNormalizedDisplayName b),
          gbRevision := gbRevision b + 1, gbUpdatedAt := now\<rparr>) t
      = update_binding scimID (\<lambda>b. b\<lparr>gbNormalizedDisplayName := normalized, gbRevision := gbRevision b + 1, gbUpdatedAt := now\<rparr>) t"
    by (rule update_binding_cong) (use assms in auto)
  then show ?thesis by simp
qed

lemma members_fields [simp]:
  "dbGroupBindings (fst (replaceGroupMembershipsTx g us s)) = dbGroupBindings s" "dbUserBindings (fst (replaceGroupMembershipsTx g us s)) = dbUserBindings s"
  "dbGroups (fst (replaceGroupMembershipsTx g us s)) = dbGroups s" "dbConnections (fst (replaceGroupMembershipsTx g us s)) = dbConnections s"
  "dbGroupBindings (recordMembershipReconcileEventsTx c s) = dbGroupBindings s" "dbUserBindings (recordMembershipReconcileEventsTx c s) = dbUserBindings s"
  "dbGroups (recordMembershipReconcileEventsTx c s) = dbGroups s" "dbMemberships (recordMembershipReconcileEventsTx c s) = dbMemberships s"
  "dbConnections (recordMembershipReconcileEventsTx c s) = dbConnections s"
  by (simp_all add: recordMembershipReconcileEventsTx_def replaceGroupMembershipsTx_def writeGroupMembershipChangesTx_def Let_def)

text \<open>
  C16: Patching a group through the fast path has exactly the outcome that applying the operations to the whole group has:
  either both are refused, or both leave the same database, with the same name, members, revision and lifecycle events, and
  deliver events in the same cases.
\<close>

theorem group_patch_paths_agree:
  assumes "bindings_ok s" "members_ok s" "users_ok s" "decryptable env s"
    "decodePatchOperations body = Inr ops" "list_all unambiguous ops" "planGroupPatch pf scimID ops = Some p"
  shows "ok_value (PatchSCIMGroup env conn scimID p now s)
    = ok_value (UpdateSCIMGroup env conn scimID (patch_group_input pf rules baseURL ops) now s)"
proof (cases "filter (\<lambda>row. gbID (fst row) = scimID) (scimGroupQuery s (scID conn))")
  case Nil
  then show ?thesis by (simp add: PatchSCIMGroup_def UpdateSCIMGroup_def scimGroupTx_def)
next
  case (Cons row rows)
  let ?c = "scID conn" and ?gid = "gbGroupID (fst row)"
  note row = group_row[OF Cons]
  obtain cur inp where slow: "scimGroupTx env s ?c scimID True = Inr cur" "sgDisplayName cur = snd row" "sgGroupID cur = ?gid"
    and inp: "patch_group_input pf rules baseURL ops cur = Inr inp" "NormalizeSCIMGroupName (giDisplayName inp) \<noteq> []"
      "giDisplayName inp = (if gpDisplayName p = [] then snd row else gpDisplayName p)"
    and members: "\<And>t. dbUserBindings t = dbUserBindings s \<Longrightarrow> dbMemberships t = dbMemberships s \<Longrightarrow>
       patch_members ?c ?gid p t = bind_ok (resolveSCIMMembersTx s ?c (giMemberIDs inp)) (\<lambda>m. Inr (replaceGroupMembershipsTx ?gid m t))"
    by (rule planned_input[OF assms Cons, of rules baseURL]) blast
  have fast: "scimGroupTx env s ?c scimID False = Inr (scimGroupFromRow env row [] False)" "sgDisplayName (scimGroupFromRow env row [] False) = snd row"
    "sgGroupID (scimGroupFromRow env row [] False) = ?gid"
    by (simp_all add: scimGroupTx_def Cons scimGroupFromRow_def)
  let ?renamed = "gpDisplayName p \<noteq> [] \<and> gpDisplayName p \<noteq> snd row"
  let ?n = "NormalizeSCIMGroupName (gpDisplayName p)"
  have renamed: "giDisplayName inp \<noteq> snd row \<longleftrightarrow> ?renamed" "?renamed \<Longrightarrow> giDisplayName inp = gpDisplayName p" using inp(3) by auto
  let ?s = "if ?renamed then renameGroupTx ?gid (gpDisplayName p) s else s"
  have patched: "patch_members ?c ?gid p ?s = bind_ok (resolveSCIMMembersTx s ?c (giMemberIDs inp)) (\<lambda>m. Inr (replaceGroupMembershipsTx ?gid m ?s))"
    by (rule members) simp_all
  have columns: "gbNormalizedDisplayName b = NormalizeSCIMGroupName (giDisplayName inp)"
    if "b \<in> set (dbGroupBindings ?s)" "gbID b = scimID" "\<not> ?renamed" for b
  proof -
    have "b = fst row" using assms(1) that(1,2) row(1,2) by (auto simp: bindings_ok_def distinct_map inj_on_def split: if_splits)
    with that(3) row_name(1)[OF assms(1) Cons] renamed(1) show ?thesis by auto
  qed
  show ?thesis
  proof (cases "resolveSCIMMembersTx s ?c (giMemberIDs inp)")
    case (Inl e)
    with patched inp(2) renamed show ?thesis
      unfolding PatchSCIMGroup_def UpdateSCIMGroup_def fast slow bind_ok_simps inp(1) Let_def by (auto split: if_splits)
  next
    case (Inr m)
    let ?w = "replaceGroupMembershipsTx ?gid m ?s"
    note same = paths_write_the_same[of "recordMembershipReconcileEventsTx (snd ?w) (fst ?w)" scimID ?renamed
        "NormalizeSCIMGroupName (giDisplayName inp)" "snd ?w" now]
    show ?thesis
    proof (cases "?renamed \<and> \<not> checkSCIMGroupNameTx s ?c ?n scimID")
      case True
      with Inr inp(2) renamed show ?thesis
        unfolding PatchSCIMGroup_def UpdateSCIMGroup_def fast slow bind_ok_simps inp(1) Let_def by auto
    next
      case False
      with Inr patched inp(2) renamed same columns show ?thesis
        unfolding PatchSCIMGroup_def UpdateSCIMGroup_def fast slow bind_ok_simps inp(1) Let_def set_members_def
        by (auto simp: case_prod_unfold)
    qed
  qed
qed

definition sample_user_binding :: "string \<Rightarrow> nat \<Rightarrow> SCIMUserBinding" where
  "sample_user_binding i u = \<lparr>ubID = i, ubConnectionID = ''c'', ubUserID = u, ubUserName = i, ubEncrypted = False, ubCreatedAt = u, ubRetiredAt = None\<rparr>"

definition sample_connection :: SCIMConnection where
  "sample_connection = \<lparr>scID = ''c'', scAdapterType = ''okta'', scNamespace = ''ns'', scName = ''okta'', scGroupIDPrefix = ''okta/'',
     scState = SCIMConnectionStateConnected, scOrigin = SCIMConnectionOriginMigrated, scTokenVerifier = [], scTokenIssuedAt = None,
     scPreviousTokenVerifier = [], scPreviousTokenExpiresAt = None\<rparr>"

definition sample_db :: db where
  "sample_db = \<lparr>dbConnections = [sample_connection],
     dbUserBindings = [sample_user_binding ''u1'' 1, sample_user_binding ''u2'' 2, sample_user_binding ''u3'' 3],
     dbGroups = [\<lparr>grpID = ''x1'', grpNamespace = ''ns'', grpAuthProviderName = ''okta'', grpName = ''Ops''\<rparr>],
     dbGroupBindings = [\<lparr>gbID = ''g1'', gbConnectionID = ''c'', gbGroupID = ''x1'', gbNormalizedDisplayName = ''ops'',
       gbOrigin = SCIMGroupBindingOriginExisting, gbRevision = 1, gbCreatedAt = 0, gbUpdatedAt = 0, gbRetiredAt = None\<rparr>],
     dbMemberships = [(1, ''x1''), (2, ''x1'')], dbEvents = [], dbPendingDeletions = [], dbReferenceWrites = [], dbRoleAssignments = [], dbCleanups = []\<rparr>"

definition sample_env :: scim_env where
  "sample_env = \<lparr>decryptField = (\<lambda>_ _. None), formatTime = (\<lambda>_. [])\<rparr>"

theorem group_patch_paths_agree_witness:
  "\<exists>ops. decodePatchOperations sample_body = Inr ops
    \<and> ok_value (UpdateSCIMGroup sample_env sample_connection ''g1''
          (patch_group_input (\<lambda>_. None) \<lparr>ReplaceAddsUnmatched = False\<rparr> [] ops) 5 sample_db)
      = ok_value (PatchSCIMGroup sample_env sample_connection ''g1'' sample_plan 5 sample_db)
    \<and> map_option (dbMemberships \<circ> fst) (ok_value (PatchSCIMGroup sample_env sample_connection ''g1'' sample_plan 5 sample_db))
      = Some [(2, ''x1''), (3, ''x1'')]"
proof -
  have "case decodePatchOperations sample_body of Inl _ \<Rightarrow> False
      | Inr ops \<Rightarrow> list_all unambiguous ops \<and> planGroupPatch (\<lambda>_. None) ''g1'' ops = Some sample_plan"
    by code_simp
  then obtain ops where ops: "decodePatchOperations sample_body = Inr ops" "list_all unambiguous ops"
    "planGroupPatch (\<lambda>_. None) ''g1'' ops = Some sample_plan"
    by (auto split: sum.splits)
  have db: "bindings_ok sample_db" "users_ok sample_db" "decryptable sample_env sample_db" by code_simp+
  have members: "members_ok sample_db" by (auto simp: members_ok_def sample_db_def sample_user_binding_def live_user_def)
  have "map_option (dbMemberships \<circ> fst) (ok_value (PatchSCIMGroup sample_env sample_connection ''g1'' sample_plan 5 sample_db))
      = Some [(2, ''x1''), (3, ''x1'')]"
    by code_simp
  with group_patch_paths_agree[OF db(1) members db(2,3) ops, of sample_connection 5 "\<lparr>ReplaceAddsUnmatched = False\<rparr>" "[]"] ops(1)
  show ?thesis by auto
qed

end
