(* ===== verification/Scim_Connection.thy ===== *)
theory Scim_Connection
  imports Scim_Group_Store Base64
begin

text \<open>
  The SCIM connection and its bearer tokens (pkg/gateway/client/scimconnection.go, pkg/gateway/types/scim.go, and the
  deletion of a connection in scimsetup.go). Times are natural numbers in seconds. The digest \<open>hash.String\<close>, random bytes, new
  identifiers and the time are arguments. Identities and recorded request failures are not in the tables.
\<close>

section \<open>Tokens\<close>

definition SCIMTokenLifetime :: nat where
  "SCIMTokenLifetime = 365 * 24 * 60 * 60"

definition scimPreviousTokenLifetime :: nat where
  "scimPreviousTokenLifetime = 24 * 60 * 60"

definition HasToken :: "SCIMConnection \<Rightarrow> bool" where
  "HasToken c = (scTokenVerifier c \<noteq> [])"

definition TokenExpiresAt :: "SCIMConnection \<Rightarrow> nat option" where
  "TokenExpiresAt c = (if \<not> HasToken c then None else map_option (\<lambda>t. t + SCIMTokenLifetime) (scTokenIssuedAt c))"

definition TokenAccepted :: "SCIMConnection \<Rightarrow> nat \<Rightarrow> bool" where
  "TokenAccepted c now = (case TokenExpiresAt c of None \<Rightarrow> False | Some e \<Rightarrow> now < e)"

definition PreviousTokenAccepted :: "SCIMConnection \<Rightarrow> nat \<Rightarrow> bool" where
  "PreviousTokenAccepted c now =
    (scPreviousTokenVerifier c \<noteq> [] \<and> (case scPreviousTokenExpiresAt c of None \<Rightarrow> False | Some e \<Rightarrow> now < e))"

text \<open>A new token and its verifier, from random bytes that may fail to be read.\<close>

definition newSCIMToken :: "(string \<Rightarrow> string) \<Rightarrow> string option \<Rightarrow> (string \<times> string) store_result" where
  "newSCIMToken h random =
    (case random of
       None \<Rightarrow> Inl Failed
     | Some b \<Rightarrow> let token = ''obot_scim_'' @ RawURLEncoding_EncodeToString b in Inr (token, h token))"

section \<open>The connection\<close>

definition left_join :: "'a list \<Rightarrow> 'a option list" where
  "left_join xs = (if xs = [] then [None] else map Some xs)"

record SCIMProviderGroup =
  pgID :: string
  pgName :: string
  pgSCIMID :: string
  pgPendingDeletion :: bool
  pgPendingRunID :: string

definition named_before :: "SCIMProviderGroup \<Rightarrow> SCIMProviderGroup \<Rightarrow> bool" where
  "named_before a b = (string_less (pgName a) (pgName b) \<or> pgName a = pgName b \<and> string_less (pgID a) (pgID b))"

definition scimProviderGroupsTx :: "db \<Rightarrow> string \<Rightarrow> string \<Rightarrow> SCIMProviderGroup list" where
  "scimProviderGroupsTx s namespace name =
    order_by named_before
      [\<lparr>pgID = grpID g, pgName = grpName g, pgSCIMID = (case b of None \<Rightarrow> [] | Some b \<Rightarrow> gbID b),
        pgPendingDeletion = (m \<noteq> None), pgPendingRunID = (case m of None \<Rightarrow> [] | Some m \<Rightarrow> pdRunID m)\<rparr>.
       g \<leftarrow> filter (\<lambda>g. grpNamespace g = namespace \<and> grpAuthProviderName g = name) (dbGroups s),
       b \<leftarrow> left_join (filter (\<lambda>b. gbGroupID b = grpID g \<and> live_group b) (dbGroupBindings s)),
       m \<leftarrow> left_join (filter (\<lambda>m. pdGroupID m = grpID g) (dbPendingDeletions s))]"

record AuthProviderGroupData =
  gdGroups :: "SCIMProviderGroup list"
  gdMembershipCount :: nat
  gdRoleAssignmentGroupIDs :: "string list"

definition GroupData_Empty :: "AuthProviderGroupData \<Rightarrow> bool" where
  "GroupData_Empty d = (gdGroups d = [] \<and> gdMembershipCount d = 0 \<and> gdRoleAssignmentGroupIDs d = [])"

definition authProviderGroupDataTx :: "db \<Rightarrow> string \<Rightarrow> string \<Rightarrow> string \<Rightarrow> AuthProviderGroupData" where
  "authProviderGroupDataTx s namespace name groupIDPrefix =
    (let groups = scimProviderGroupsTx s namespace name
     in if groupIDPrefix = [] then \<lparr>gdGroups = groups, gdMembershipCount = 0, gdRoleAssignmentGroupIDs = []\<rparr>
        else \<lparr>gdGroups = groups,
              gdMembershipCount = length (filter (\<lambda>m. HasPrefix (snd m) groupIDPrefix) (dbMemberships s)),
              gdRoleAssignmentGroupIDs = order_by string_less (filter (\<lambda>g. HasPrefix g groupIDPrefix) (dbRoleAssignments s))\<rparr>)"

record CreateSCIMConnectionOptions =
  coNamespace :: string
  coName :: string
  coGroupIDPrefix :: string
  coOrigin :: SCIMConnectionOrigin
  coIssueToken :: bool
  coRequireNoGroupData :: bool

definition ForAuthProvider :: "string \<Rightarrow> string option" where
  "ForAuthProvider authProviderName = (if authProviderName = ''okta-auth-provider'' then Some ''okta'' else None)"

definition CreateSCIMConnection ::
  "(string \<Rightarrow> string) \<Rightarrow> CreateSCIMConnectionOptions \<Rightarrow> string \<Rightarrow> string option \<Rightarrow> nat \<Rightarrow> db \<Rightarrow> (db \<times> SCIMConnection \<times> string) store_result" where
  "CreateSCIMConnection h opts newID random now s =
    (if coNamespace opts = [] \<or> coName opts = [] then Inl Failed
     else case ForAuthProvider (coName opts) of
            None \<Rightarrow> Inl Failed
          | Some adapterType \<Rightarrow>
              if coGroupIDPrefix opts = [] then Inl Failed
              else bind_ok (if coIssueToken opts then newSCIMToken h random else Inr ([], [])) (\<lambda>(token, verifier).
                let conn = \<lparr>scID = newID, scAdapterType = adapterType, scNamespace = coNamespace opts, scName = coName opts,
                      scGroupIDPrefix = coGroupIDPrefix opts, scState = SCIMConnectionStateConnected, scOrigin = coOrigin opts,
                      scTokenVerifier = verifier, scTokenIssuedAt = (if coIssueToken opts then Some now else None),
                      scPreviousTokenVerifier = [], scPreviousTokenExpiresAt = None\<rparr>
                in case dbConnections s of
                     existing # _ \<Rightarrow> Inl (SCIMConnectionExistsError (scID existing))
                   | [] \<Rightarrow>
                       if coRequireNoGroupData opts
                          \<and> \<not> GroupData_Empty (authProviderGroupDataTx s (coNamespace opts) (coName opts) (coGroupIDPrefix opts))
                       then Inl SCIMResidualGroupDataError
                       else Inr (s\<lparr>dbConnections := dbConnections s @ [conn]\<rparr>, conn, token)))"

definition scimConnectionForAuthProviderTx :: "db \<Rightarrow> string \<Rightarrow> string \<Rightarrow> SCIMConnection option" where
  "scimConnectionForAuthProviderTx s namespace name =
    (if namespace = [] \<or> name = [] then None else find (\<lambda>c. scNamespace c = namespace \<and> scName c = name) (dbConnections s))"

definition AuthenticateSCIMConnection :: "(string \<Rightarrow> string) \<Rightarrow> string \<Rightarrow> nat \<Rightarrow> db \<Rightarrow> SCIMConnection store_result" where
  "AuthenticateSCIMConnection h token now s =
    (case take 2 (dbConnections s) of
       [] \<Rightarrow> Inl ErrSCIMConnectionNotFound
     | conn # others \<Rightarrow>
         if others \<noteq> [] then Inl ErrMultipleSCIMConnections
         else let verifier = h token;
                  current = (verifier = scTokenVerifier conn);
                  previous = (verifier = scPreviousTokenVerifier conn);
                  accepted = (current \<and> TokenAccepted conn now \<or> previous \<and> PreviousTokenAccepted conn now)
              in if token = [] \<or> \<not> HasToken conn \<or> \<not> accepted then Inl SCIMAuthenticationError else Inr conn)"

definition update_connection :: "string \<Rightarrow> (SCIMConnection \<Rightarrow> SCIMConnection) \<Rightarrow> db \<Rightarrow> db" where
  "update_connection cid f s = s\<lparr>dbConnections := map (\<lambda>c. if scID c = cid then f c else c) (dbConnections s)\<rparr>"

definition IssueFirstSCIMConnectionToken :: "(string \<Rightarrow> string) \<Rightarrow> string \<Rightarrow> string option \<Rightarrow> nat \<Rightarrow> db \<Rightarrow> (db \<times> string) store_result" where
  "IssueFirstSCIMConnectionToken h cid random now s =
    bind_ok (newSCIMToken h random) (\<lambda>(token, verifier).
    bind_ok (connection_tx s cid) (\<lambda>conn.
      if HasToken conn then Inl ErrSCIMConnectionHasToken
      else Inr (update_connection cid (\<lambda>c. c\<lparr>scTokenVerifier := verifier, scTokenIssuedAt := Some now\<rparr>) s, token)))"

text \<open>The previous token and the end of its acceptance, when a token is replaced.\<close>

definition kept_token :: "SCIMConnection \<Rightarrow> bool \<Rightarrow> nat \<Rightarrow> string \<times> nat option" where
  "kept_token conn keepPrevious now =
    (if keepPrevious \<and> HasToken conn
     then let expiresAt = now + scimPreviousTokenLifetime;
              expiresAt = (case TokenExpiresAt conn of None \<Rightarrow> expiresAt | Some e \<Rightarrow> if e < expiresAt then e else expiresAt)
          in if now < expiresAt then (scTokenVerifier conn, Some expiresAt) else ([], None)
     else ([], None))"

definition replaceSCIMConnectionToken :: "(string \<Rightarrow> string) \<Rightarrow> string \<Rightarrow> bool \<Rightarrow> string option \<Rightarrow> nat \<Rightarrow> db \<Rightarrow> (db \<times> string) store_result" where
  "replaceSCIMConnectionToken h cid keepPrevious random now s =
    bind_ok (newSCIMToken h random) (\<lambda>(token, verifier).
    bind_ok (connection_tx s cid) (\<lambda>conn.
      case kept_token conn keepPrevious now of (previousTokenVerifier, previousTokenExpiresAt) \<Rightarrow>
        Inr (update_connection cid
               (\<lambda>c. c\<lparr>scTokenVerifier := verifier, scTokenIssuedAt := Some now,
                      scPreviousTokenVerifier := previousTokenVerifier, scPreviousTokenExpiresAt := previousTokenExpiresAt\<rparr>) s, token)))"

definition RotateSCIMConnectionToken :: "(string \<Rightarrow> string) \<Rightarrow> string \<Rightarrow> string option \<Rightarrow> nat \<Rightarrow> db \<Rightarrow> (db \<times> string) store_result" where
  "RotateSCIMConnectionToken h cid = replaceSCIMConnectionToken h cid True"

definition RevokeCurrentSCIMConnectionToken :: "(string \<Rightarrow> string) \<Rightarrow> string \<Rightarrow> string option \<Rightarrow> nat \<Rightarrow> db \<Rightarrow> (db \<times> string) store_result" where
  "RevokeCurrentSCIMConnectionToken h cid = replaceSCIMConnectionToken h cid False"

definition RevokePreviousSCIMConnectionToken :: "string \<Rightarrow> db \<Rightarrow> db store_result" where
  "RevokePreviousSCIMConnectionToken cid s =
    bind_ok (connection_tx s cid) (\<lambda>conn.
      Inr (update_connection cid (\<lambda>c. c\<lparr>scPreviousTokenVerifier := [], scPreviousTokenExpiresAt := None\<rparr>) s))"

definition deleteAuthProviderGroupDataTx :: "string \<Rightarrow> string \<Rightarrow> string \<Rightarrow> db \<Rightarrow> db" where
  "deleteAuthProviderGroupDataTx namespace name groupIDPrefix s =
    s\<lparr>dbRoleAssignments := filter (\<lambda>g. \<not> HasPrefix g groupIDPrefix) (dbRoleAssignments s),
      dbMemberships := filter (\<lambda>m. \<not> HasPrefix (snd m) groupIDPrefix) (dbMemberships s),
      dbGroups := filter (\<lambda>g. \<not> (grpNamespace g = namespace \<and> grpAuthProviderName g = name)) (dbGroups s)\<rparr>"

definition deleteSCIMConnectionTx :: "SCIMConnection \<Rightarrow> db \<Rightarrow> db" where
  "deleteSCIMConnectionTx conn s =
    (let s = s\<lparr>dbUserBindings := filter (\<lambda>b. ubConnectionID b \<noteq> scID conn) (dbUserBindings s),
               dbGroupBindings := filter (\<lambda>b. gbConnectionID b \<noteq> scID conn) (dbGroupBindings s),
               dbPendingDeletions := filter (\<lambda>m. pdConnectionID m \<noteq> scID conn) (dbPendingDeletions s)\<rparr>;
         s = s\<lparr>dbCleanups := filter (\<lambda>c. \<not> HasPrefix (gcGroupID c) (scGroupIDPrefix conn)) (dbCleanups s)\<rparr>;
         s = deleteAuthProviderGroupDataTx (scNamespace conn) (scName conn) (scGroupIDPrefix conn) s
     in s\<lparr>dbConnections := filter (\<lambda>c. scID c \<noteq> scID conn) (dbConnections s)\<rparr>)"

text \<open>The connection that was deleted, if any; \<open>allowed\<close> is the check of the caller.\<close>

definition deleteSCIMConnection :: "string \<Rightarrow> string \<Rightarrow> (db \<Rightarrow> bool) option \<Rightarrow> db \<Rightarrow> (db \<times> string option) store_result" where
  "deleteSCIMConnection namespace name allowed s =
    (case scimConnectionForAuthProviderTx s namespace name of
       None \<Rightarrow> Inr (s, None)
     | Some conn \<Rightarrow>
         bind_ok (connection_tx s (scID conn)) (\<lambda>conn.
           if (case allowed of None \<Rightarrow> False | Some p \<Rightarrow> \<not> p s) then Inr (s, None)
           else Inr (deleteSCIMConnectionTx conn s, Some (scID conn))))"

section \<open>The history of the tokens\<close>

text \<open>
  What happened to the tokens of a connection, latest first: a token was issued, with the digest it is verified by,
  replacing the current one, which stays accepted for a while or not; or the previous token was revoked.
\<close>

datatype token_event = Issued nat string bool | PreviousRevoked

fun current_issue :: "token_event list \<Rightarrow> (nat \<times> string) option" where
  "current_issue [] = None"
| "current_issue (Issued t v keep # es) = Some (t, v)"
| "current_issue (PreviousRevoked # es) = current_issue es"

text \<open>The token that the last rotation replaced, with the times of its issue and of the rotation, unless it was revoked.\<close>

fun rotated_issue :: "token_event list \<Rightarrow> (nat \<times> string \<times> nat) option" where
  "rotated_issue [] = None"
| "rotated_issue (Issued r v keep # es) = (if keep then map_option (\<lambda>(t, v). (t, v, r)) (current_issue es) else None)"
| "rotated_issue (PreviousRevoked # es) = None"

text \<open>
  A token is valid for a year when it was issued last, and for a day of that year when a rotation replaced it
  and it was not revoked since.
\<close>

definition token_valid :: "token_event list \<Rightarrow> nat \<Rightarrow> string \<Rightarrow> bool" where
  "token_valid es now v \<longleftrightarrow>
    (\<exists>t. current_issue es = Some (t, v) \<and> now < t + SCIMTokenLifetime)
    \<or> (\<exists>t r. rotated_issue es = Some (t, v, r) \<and> now < t + SCIMTokenLifetime \<and> now < r + scimPreviousTokenLifetime)"

text \<open>
  The operations on tokens and connections, with the clock and the histories of the connections by their identifiers.
  Identifiers of connections are new. Every other operation leaves the token columns alone.
\<close>

definition token_columns :: "SCIMConnection \<Rightarrow> string \<times> string \<times> nat option \<times> string \<times> nat option" where
  "token_columns c = (scID c, scTokenVerifier c, scTokenIssuedAt c, scPreviousTokenVerifier c, scPreviousTokenExpiresAt c)"

type_synonym token_world = "nat \<times> db \<times> (string \<Rightarrow> token_event list)"

inductive token_step :: "(string \<Rightarrow> string) \<Rightarrow> token_world \<Rightarrow> token_world \<Rightarrow> bool" for h where
  create: "clock \<le> now \<Longrightarrow> hist newID = [] \<Longrightarrow> CreateSCIMConnection h opts newID random now s = Inr (t, conn, token) \<Longrightarrow>
    token_step h (clock, s, hist) (now, t, if coIssueToken opts then hist(newID := [Issued now (h token) False]) else hist)"
| issue_first: "clock \<le> now \<Longrightarrow> IssueFirstSCIMConnectionToken h cid random now s = Inr (t, token) \<Longrightarrow>
    token_step h (clock, s, hist) (now, t, hist(cid := Issued now (h token) False # hist cid))"
| rotate: "clock \<le> now \<Longrightarrow> RotateSCIMConnectionToken h cid random now s = Inr (t, token) \<Longrightarrow>
    token_step h (clock, s, hist) (now, t, hist(cid := Issued now (h token) True # hist cid))"
| revoke_current: "clock \<le> now \<Longrightarrow> RevokeCurrentSCIMConnectionToken h cid random now s = Inr (t, token) \<Longrightarrow>
    token_step h (clock, s, hist) (now, t, hist(cid := Issued now (h token) False # hist cid))"
| revoke_previous: "clock \<le> now \<Longrightarrow> RevokePreviousSCIMConnectionToken cid s = Inr t \<Longrightarrow>
    token_step h (clock, s, hist) (now, t, hist(cid := PreviousRevoked # hist cid))"
| delete: "clock \<le> now \<Longrightarrow> deleteSCIMConnection namespace name allowed s = Inr (t, deleted) \<Longrightarrow> token_step h (clock, s, hist) (now, t, hist)"
| other: "clock \<le> now \<Longrightarrow> map token_columns (dbConnections t) = map token_columns (dbConnections s) \<Longrightarrow> token_step h (clock, s, hist) (now, t, hist)"

definition columns_match :: "token_event list \<Rightarrow> SCIMConnection \<Rightarrow> bool" where
  "columns_match es c \<longleftrightarrow>
    (case current_issue es of
       None \<Rightarrow> scTokenVerifier c = []
     | Some (t, v) \<Rightarrow> v \<noteq> [] \<and> scTokenVerifier c = v \<and> scTokenIssuedAt c = Some t)
    \<and> (case rotated_issue es of
         None \<Rightarrow> scPreviousTokenVerifier c = []
       | Some (t, v, r) \<Rightarrow>
           if r < t + SCIMTokenLifetime
           then v \<noteq> [] \<and> scPreviousTokenVerifier c = v \<and> scPreviousTokenExpiresAt c = Some (min (r + scimPreviousTokenLifetime) (t + SCIMTokenLifetime))
           else scPreviousTokenVerifier c = [])"

definition times_before :: "nat \<Rightarrow> token_event list \<Rightarrow> bool" where
  "times_before clock es \<longleftrightarrow> (\<forall>t v keep. Issued t v keep \<in> set es \<longrightarrow> t \<le> clock)"

definition tokens_ok :: "token_world \<Rightarrow> bool" where
  "tokens_ok w \<longleftrightarrow> (case w of (clock, s, hist) \<Rightarrow>
     length (dbConnections s) \<le> 1 \<and> (\<forall>c\<in>set (dbConnections s). columns_match (hist (scID c)) c) \<and> (\<forall>cid. times_before clock (hist cid)))"

lemma single_connection:
  assumes "length (dbConnections s) \<le> 1" "connection_tx s cid = Inr conn"
  shows "dbConnections s = [conn]" "scID conn = cid" "dbConnections (update_connection cid f s) = [f conn]"
proof -
  have "find (\<lambda>c. scID c = cid) (dbConnections s) = Some conn" using assms(2) by (simp add: connection_tx_def split: option.splits)
  then show "dbConnections s = [conn]" "scID conn = cid" "dbConnections (update_connection cid f s) = [f conn]"
    using assms(1) by (cases "dbConnections s"; auto simp: update_connection_def split: if_splits)+
qed

lemma newSCIMToken_Inr: "newSCIMToken h random = Inr (token, verifier) \<Longrightarrow> verifier = h token \<and> token \<noteq> []"
  by (auto simp: newSCIMToken_def Let_def split: option.splits)

lemma times_before_later: "times_before clock es \<Longrightarrow> clock \<le> now \<Longrightarrow> times_before now es"
  unfolding times_before_def by (meson le_trans)

lemma times_before_simps [simp]:
  "times_before clock []" "times_before clock (PreviousRevoked # es) = times_before clock es"
  "times_before clock (Issued t v keep # es) \<longleftrightarrow> t \<le> clock \<and> times_before clock es"
  by (auto simp: times_before_def)

lemma current_issue_time: "current_issue es = Some (t, v) \<Longrightarrow> times_before clock es \<Longrightarrow> t \<le> clock"
  by (induction es rule: current_issue.induct) auto

lemma rotated_issue_time: "rotated_issue es = Some (t, v, r) \<Longrightarrow> times_before clock es \<Longrightarrow> r \<le> clock"
  by (induction es rule: rotated_issue.induct) (auto split: if_splits)

text \<open>Each operation on the tokens of a connection keeps its columns in step with its history.\<close>

lemma replaced_columns:
  assumes "columns_match es c" "h token \<noteq> []" "kept_token c keep now = (pv, pe)"
  shows "columns_match (Issued now (h token) keep # es)
    (c\<lparr>scTokenVerifier := h token, scTokenIssuedAt := Some now, scPreviousTokenVerifier := pv, scPreviousTokenExpiresAt := pe\<rparr>)"
proof (cases "current_issue es")
  case None
  then show ?thesis using assms by (simp add: columns_match_def kept_token_def HasToken_def)
next
  case (Some i)
  then obtain t v where "current_issue es = Some (t, v)" by (cases i) auto
  moreover have "0 < scimPreviousTokenLifetime" by (simp add: scimPreviousTokenLifetime_def)
  ultimately show ?thesis
    using assms by (auto simp: columns_match_def kept_token_def HasToken_def TokenExpiresAt_def Let_def min_def split: if_splits)
qed

lemma first_columns:
  assumes "columns_match es c" "h token \<noteq> []" "\<not> HasToken c"
  shows "columns_match (Issued now (h token) False # es) (c\<lparr>scTokenVerifier := h token, scTokenIssuedAt := Some now\<rparr>)"
proof -
  have "current_issue es = None" using assms(1,3) by (auto simp: columns_match_def HasToken_def split: option.splits)
  moreover from this have "rotated_issue es = None" by (induction es rule: rotated_issue.induct) auto
  ultimately show ?thesis using assms by (simp add: columns_match_def)
qed

lemma revoked_columns:
  "columns_match es c \<Longrightarrow> columns_match (PreviousRevoked # es) (c\<lparr>scPreviousTokenVerifier := [], scPreviousTokenExpiresAt := None\<rparr>)"
  by (auto simp: columns_match_def split: option.splits)

lemma columns_match_cong: "token_columns c = token_columns c' \<Longrightarrow> scID c = scID c' \<and> columns_match es c = columns_match es c'"
  by (auto simp: token_columns_def columns_match_def split: option.splits)

lemma tokens_ok_update:
  assumes "tokens_ok (clock, s, hist)" "clock \<le> now" "connection_tx s cid = Inr conn"
    "columns_match (hist cid) conn \<Longrightarrow> columns_match es (f conn)" "scID (f conn) = scID conn"
    "times_before now (hist cid) \<Longrightarrow> times_before now es"
  shows "tokens_ok (now, update_connection cid f s, hist(cid := es))"
proof -
  have one: "length (dbConnections s) \<le> 1" using assms(1) by (simp add: tokens_ok_def)
  note c = single_connection[OF one assms(3)]
  have "times_before now (hist i)" for i using assms(1,2) by (auto simp: tokens_ok_def intro: times_before_later)
  moreover have "columns_match (hist cid) conn" using assms(1) c(1,2) by (simp add: tokens_ok_def)
  ultimately show ?thesis using assms(4-6) c by (simp add: tokens_ok_def)
qed

lemma replace_keeps:
  assumes ok: "tokens_ok (clock, s, hist)" "clock \<le> now" and h: "\<forall>x. h x \<noteq> []"
    and replaced: "replaceSCIMConnectionToken h cid keep random now s = Inr (t, token)"
  shows "tokens_ok (now, t, hist(cid := Issued now (h token) keep # hist cid))"
proof -
  obtain conn where found: "connection_tx s cid = Inr conn"
    using replaced by (auto simp: replaceSCIMConnectionToken_def bind_ok_Inr)
  obtain pv pe where kept: "kept_token conn keep now = (pv, pe)" by (cases "kept_token conn keep now")
  have t: "t = update_connection cid (\<lambda>c. c\<lparr>scTokenVerifier := h token, scTokenIssuedAt := Some now, scPreviousTokenVerifier := pv,
       scPreviousTokenExpiresAt := pe\<rparr>) s"
    using replaced by (auto simp: replaceSCIMConnectionToken_def bind_ok_Inr found kept dest!: newSCIMToken_Inr)
  show ?thesis unfolding t by (rule tokens_ok_update[OF ok found]) (use h kept in \<open>simp_all add: replaced_columns\<close>)
qed

lemma create_connection_keeps:
  assumes ok: "tokens_ok (clock, s, hist)" "clock \<le> now" and h: "\<forall>x. h x \<noteq> []" and new: "hist newID = []"
    and created: "CreateSCIMConnection h opts newID random now s = Inr (t, conn, token)"
  shows "tokens_ok (now, t, if coIssueToken opts then hist(newID := [Issued now (h token) False]) else hist)"
proof -
  have later: "times_before now (hist i)" for i using ok by (auto simp: tokens_ok_def intro: times_before_later)
  obtain verifier where c: "dbConnections t = [conn]" "scID conn = newID" "scTokenVerifier conn = verifier" "scPreviousTokenVerifier conn = []"
      "scTokenIssuedAt conn = (if coIssueToken opts then Some now else None)"
    and v: "(if coIssueToken opts then newSCIMToken h random else Inr ([], [])) = Inr (token, verifier)"
    using created by (auto simp: CreateSCIMConnection_def bind_ok_Inr Let_def split: if_splits option.splits list.splits)
  show ?thesis using c v h new later by (auto simp: tokens_ok_def columns_match_def dest!: newSCIMToken_Inr split: if_splits)
qed

lemma delete_connection_rows: "deleteSCIMConnection ns name allowed s = Inr (t, d) \<Longrightarrow> \<exists>P. dbConnections t = filter P (dbConnections s)"
  by (auto simp: deleteSCIMConnection_def deleteSCIMConnectionTx_def deleteAuthProviderGroupDataTx_def Let_def bind_ok_Inr
      split: option.splits if_splits intro: exI[of _ "\<lambda>_. True"])

lemma token_step_keeps:
  assumes "token_step h w w'" "tokens_ok w" and h: "\<forall>x. h x \<noteq> []"
  shows "tokens_ok w'"
  using assms(1,2)
proof (induction rule: token_step.induct)
  case (create clock now hist newID opts random s t conn token)
  then show ?case using create_connection_keeps[OF _ _ h] by blast
next
  case (issue_first clock now cid random s t token hist)
  obtain conn where conn: "connection_tx s cid = Inr conn" "\<not> HasToken conn"
    "t = update_connection cid (\<lambda>c. c\<lparr>scTokenVerifier := h token, scTokenIssuedAt := Some now\<rparr>) s"
    using issue_first(2) by (auto simp: IssueFirstSCIMConnectionToken_def bind_ok_Inr dest!: newSCIMToken_Inr split: if_splits)
  show ?case unfolding conn(3) by (rule tokens_ok_update[OF issue_first(3,1) conn(1)]) (use h conn(2) in \<open>simp_all add: first_columns\<close>)
next
  case (rotate clock now cid random s t token hist)
  then show ?case using replace_keeps[OF _ _ h] by (simp add: RotateSCIMConnectionToken_def)
next
  case (revoke_current clock now cid random s t token hist)
  then show ?case using replace_keeps[OF _ _ h] by (simp add: RevokeCurrentSCIMConnectionToken_def)
next
  case (revoke_previous clock now cid s t hist)
  obtain conn where conn: "connection_tx s cid = Inr conn"
    "t = update_connection cid (\<lambda>c. c\<lparr>scPreviousTokenVerifier := [], scPreviousTokenExpiresAt := None\<rparr>) s"
    using revoke_previous(2) by (auto simp: RevokePreviousSCIMConnectionToken_def bind_ok_Inr)
  show ?case unfolding conn(2) by (rule tokens_ok_update[OF revoke_previous(3,1) conn(1)]) (simp_all add: revoked_columns)
next
  case (delete clock now ns name allowed s t d hist)
  obtain P where "dbConnections t = filter P (dbConnections s)" using delete_connection_rows[OF delete(2)] by blast
  with delete(1,3) show ?case by (auto simp: tokens_ok_def intro: times_before_later le_trans[OF length_filter_le])
next
  case (other clock now t s hist)
  have "columns_match (hist (scID c)) c" if c: "c \<in> set (dbConnections t)" for c
  proof -
    have "token_columns c \<in> set (map token_columns (dbConnections s))" unfolding other(2)[symmetric] using c by simp
    then obtain c' where "c' \<in> set (dbConnections s)" "token_columns c = token_columns c'" by auto
    with other(3) columns_match_cong[of c c'] show ?thesis by (simp add: tokens_ok_def)
  qed
  moreover have "length (dbConnections t) = length (dbConnections s)" using arg_cong[OF other(2), of length] by simp
  ultimately show ?case using other(1,3) by (auto simp: tokens_ok_def intro: times_before_later)
qed

interpretation tokens: invariant_steps "token_step h" "\<lambda>w. (\<forall>x. h x \<noteq> []) \<longrightarrow> tokens_ok w" for h
  by unfold_locales (blast intro: token_step_keeps)

lemma authenticate_match:
  assumes "columns_match es c" "times_before now es" "v \<noteq> []"
  shows "(v = scTokenVerifier c \<and> TokenAccepted c now \<or> v = scPreviousTokenVerifier c \<and> PreviousTokenAccepted c now) \<and> HasToken c
    \<longleftrightarrow> token_valid es now v"
proof (cases "current_issue es")
  case None
  then have "rotated_issue es = None" by (induction es rule: rotated_issue.induct) auto
  with None assms show ?thesis by (simp add: columns_match_def token_valid_def HasToken_def)
next
  case (Some i)
  then obtain t u where cur: "current_issue es = Some (t, u)" by (cases i) auto
  show ?thesis
  proof (cases "rotated_issue es")
    case None
    with cur assms show ?thesis
      by (auto simp: columns_match_def token_valid_def HasToken_def TokenAccepted_def TokenExpiresAt_def PreviousTokenAccepted_def)
  next
    case (Some p)
    then obtain t' u' r where rot: "rotated_issue es = Some (t', u', r)" by (cases p) auto
    with rotated_issue_time[OF rot assms(2)] cur assms show ?thesis
      by (auto simp: columns_match_def token_valid_def HasToken_def TokenAccepted_def TokenExpiresAt_def PreviousTokenAccepted_def split: if_splits)
  qed
qed

lemma authenticate_exact:
  assumes "\<forall>x. h x \<noteq> []" "dbConnections start = []" "(token_step h)\<^sup>*\<^sup>* (begun, start, \<lambda>_. []) (clock, s, hist)" "clock \<le> now"
  shows "AuthenticateSCIMConnection h token now s =
    (case dbConnections s of
       [] \<Rightarrow> Inl ErrSCIMConnectionNotFound
     | conn # _ \<Rightarrow> if token \<noteq> [] \<and> token_valid (hist (scID conn)) now (h token) then Inr conn else Inl SCIMAuthenticationError)"
proof -
  have "tokens_ok (begun, start, \<lambda>_. [])" using assms(2) by (simp add: tokens_ok_def)
  with tokens.reachable_keeps[OF assms(3)] assms(1) have ok: "tokens_ok (clock, s, hist)" by blast
  show ?thesis
  proof (cases "dbConnections s")
    case Nil
    then show ?thesis by (simp add: AuthenticateSCIMConnection_def)
  next
    case (Cons conn cs)
    with ok have c: "cs = []" "columns_match (hist (scID conn)) conn" "times_before now (hist (scID conn))"
      using assms(4) by (auto simp: tokens_ok_def intro: times_before_later)
    from authenticate_match[OF c(2,3), of "h token"] assms(1) Cons c(1) show ?thesis
      by (auto simp: AuthenticateSCIMConnection_def Let_def)
  qed
qed

text \<open>
  C9: Bearer tokens live exactly as documented. Whatever sequence of operations has created, rotated, revoked and deleted
  connections and tokens, there is at most one connection, and a token authenticates it exactly when it was issued last and is less
  than a year old, or was replaced by the last rotation less than a day ago, is less than a year old and has not been revoked.
\<close>

theorem scim_token_lifetimes:
  assumes "\<forall>x. h x \<noteq> []" "dbConnections start = []" "(token_step h)\<^sup>*\<^sup>* (begun, start, \<lambda>_. []) (clock, s, hist)" "clock \<le> now"
  shows "AuthenticateSCIMConnection h token now s =
    (case dbConnections s of
       [] \<Rightarrow> Inl ErrSCIMConnectionNotFound
     | conn # _ \<Rightarrow> if token \<noteq> [] \<and> token_valid (hist (scID conn)) now (h token) then Inr conn else Inl SCIMAuthenticationError)"
  by (rule authenticate_exact[OF assms])

definition sample_digest :: "string \<Rightarrow> string" where
  "sample_digest x = CHR ''h'' # x"

definition sample_options :: CreateSCIMConnectionOptions where
  "sample_options = \<lparr>coNamespace = ''ns'', coName = ''okta-auth-provider'', coGroupIDPrefix = ''okta/'', coOrigin = SCIMConnectionOriginMigrated,
     coIssueToken = True, coRequireNoGroupData = True\<rparr>"

definition empty_db :: db where
  "empty_db = \<lparr>dbConnections = [], dbUserBindings = [], dbGroups = [], dbGroupBindings = [], dbMemberships = [], dbEvents = [],
     dbPendingDeletions = [], dbReferenceWrites = [], dbRoleAssignments = [], dbCleanups = []\<rparr>"

theorem scim_token_lifetimes_witness:
  "\<exists>s conn old t new. CreateSCIMConnection sample_digest sample_options ''c'' (Some ''a'') 10 empty_db = Inr (s, conn, old)
    \<and> RotateSCIMConnectionToken sample_digest ''c'' (Some ''b'') 20 s = Inr (t, new)
    \<and> (\<exists>c. AuthenticateSCIMConnection sample_digest old 86419 t = Inr c)
    \<and> AuthenticateSCIMConnection sample_digest old 86420 t = Inl SCIMAuthenticationError"
proof -
  let ?token = "\<lambda>b. ''obot_scim_'' @ RawURLEncoding_EncodeToString b"
  obtain s conn where c: "CreateSCIMConnection sample_digest sample_options ''c'' (Some ''a'') 10 empty_db = Inr (s, conn, ?token ''a'')"
      "dbConnections s = [conn]" "scID conn = ''c''"
    by (auto simp: CreateSCIMConnection_def sample_options_def ForAuthProvider_def newSCIMToken_def Let_def empty_db_def
        authProviderGroupDataTx_def scimProviderGroupsTx_def GroupData_Empty_def order_by_def)
  obtain t where t: "RotateSCIMConnectionToken sample_digest ''c'' (Some ''b'') 20 s = Inr (t, ?token ''b'')" "map scID (dbConnections t) = [''c'']"
    using c(2,3) by (auto simp: RotateSCIMConnectionToken_def replaceSCIMConnectionToken_def newSCIMToken_def Let_def connection_tx_def
        update_connection_def case_prod_unfold)
  define old new where "old = ?token ''a''" and "new = ?token ''b''"
  have "old \<noteq> new"
  proof
    assume "old = new"
    then have "RawURLEncoding_DecodeString (RawURLEncoding_EncodeToString ''a'') = RawURLEncoding_DecodeString (RawURLEncoding_EncodeToString ''b'')"
      by (simp add: old_def new_def)
    then show False by simp
  qed
  then have run: "CreateSCIMConnection sample_digest sample_options ''c'' (Some ''a'') 10 empty_db = Inr (s, conn, old)"
    "RotateSCIMConnectionToken sample_digest ''c'' (Some ''b'') 20 s = Inr (t, new)" "map scID (dbConnections t) = [''c'']" "old \<noteq> []" "old \<noteq> new"
    using c(1) t by (simp_all add: old_def new_def)
  let ?hist = "(\<lambda>_. [])(''c'' := [Issued 10 (sample_digest old) False])"
  let ?hist' = "?hist(''c'' := Issued 20 (sample_digest new) True # ?hist ''c'')"
  have "token_step sample_digest (0, empty_db, \<lambda>_. []) (10, s, ?hist)"
    using token_step.create[OF _ _ run(1), of 0 "\<lambda>_. []"] by (simp add: sample_options_def)
  moreover have "token_step sample_digest (10, s, ?hist) (20, t, ?hist')" by (rule token_step.rotate[OF _ run(2)]) simp
  ultimately have steps: "(token_step sample_digest)\<^sup>*\<^sup>* (0, empty_db, \<lambda>_. []) (20, t, ?hist')"
    by (meson converse_rtranclp_into_rtranclp rtranclp.rtrancl_refl)
  have "\<forall>x. sample_digest x \<noteq> []" "dbConnections empty_db = []" by (simp_all add: sample_digest_def empty_db_def)
  from scim_token_lifetimes[OF this steps, of _ old] run(3-5)
  have "(\<exists>c. AuthenticateSCIMConnection sample_digest old 86419 t = Inr c)
    \<and> AuthenticateSCIMConnection sample_digest old 86420 t = Inl SCIMAuthenticationError"
    by (auto simp: token_valid_def sample_digest_def SCIMTokenLifetime_def scimPreviousTokenLifetime_def)
  with run(1,2) show ?thesis by blast
qed

end
