(* ===== verification/Scim_Authn.thy ===== *)
theory Scim_Authn
  imports Scim_Connection Authz
begin

text \<open>
  The authenticator of the SCIM endpoint (pkg/scim/authn.go, and the helpers of pkg/scim/handler.go it calls), and what it and the
  authorizer decide together.
\<close>

section \<open>Authentication\<close>

definition PathPrefix :: string where
  "PathPrefix = ''/scim/v2/''"

definition IsSCIMPath :: "string \<Rightarrow> bool" where
  "IsSCIMPath path = (path = TrimSuffix PathPrefix ''/'' \<or> HasPrefix path PathPrefix)"

definition bearerToken :: "Request \<Rightarrow> string \<times> bool" where
  "bearerToken r =
    (case Cut (Authorization r) CHR '' '' of
       None \<Rightarrow> ([], False)
     | Some (scheme, token) \<Rightarrow>
         if \<not> EqualFold scheme ''Bearer'' then ([], False)
         else let token = TrimSpace token in (token, token \<noteq> []))"

definition connectionPrincipalPrefix :: string where
  "connectionPrincipalPrefix = ''scim-connection:''"

definition anonymous_user :: user_info where
  "anonymous_user = \<lparr>GetName = ''anonymous'', GetUID = ''anonymous'', GetGroups = [UnauthenticatedGroup], GetExtra = (\<lambda>_. [])\<rparr>"

text \<open>
  The outcomes: the authenticator declines the request, yields a principal, reports that there is no connection, or fails.
\<close>

datatype authn_outcome = Declined | Authenticated user_info | UnavailableError | AuthnFailed

definition AuthenticateRequest :: "(string \<Rightarrow> string) \<Rightarrow> nat \<Rightarrow> db \<Rightarrow> Request \<Rightarrow> authn_outcome" where
  "AuthenticateRequest h now s req =
    (if \<not> IsSCIMPath (URL_Path req) then Declined
     else case AuthenticateSCIMConnection h (fst (bearerToken req)) now s of
            Inl e \<Rightarrow>
              if e = ErrSCIMConnectionNotFound then UnavailableError
              else if e = SCIMAuthenticationError then Authenticated anonymous_user
              else AuthnFailed
          | Inr conn \<Rightarrow>
              Authenticated \<lparr>GetName = connectionPrincipalPrefix @ scID conn, GetUID = scID conn, GetGroups = [GroupSCIM], GetExtra = (\<lambda>_. [])\<rparr>)"

definition IsConnectionPrincipal :: "user_info option \<Rightarrow> bool" where
  "IsConnectionPrincipal u = (case u of None \<Rightarrow> False | Some u \<Rightarrow> GroupSCIM \<in> set (GetGroups u))"

lemma IsSCIMPath_iff: "IsSCIMPath path \<longleftrightarrow> scim_path path"
  by (simp add: IsSCIMPath_def PathPrefix_def scim_path_def HasPrefix_iff TrimSuffix_def CutSuffix_def HasSuffix_def)

text \<open>The decision of the authorizer on the paths of the endpoint, and on the principal of a connection elsewhere.\<close>

lemma scim_decision:
  "(scim_path (URL_Path req) \<longrightarrow> Authorize a req u = Decided (GroupSCIM \<in> set (GetGroups u) \<and> GetUID u \<noteq> []))
    \<and> (\<not> scim_path (URL_Path req) \<and> GroupSCIM \<in> set (GetGroups u) \<longrightarrow> Authorize a req u = Decided False)"
proof -
  have "HasPrefix (URL_Path req) scimPathPrefix \<longleftrightarrow> (\<exists>rest. URL_Path req = ''/scim/v2/'' @ rest)"
    by (simp add: HasPrefix_iff scimPathPrefix_def)
  then show ?thesis unfolding scim_path_def by (auto simp: Authorize_def Let_def scim_prefix)
qed

end
