(* ===== verification/Scim_Group_Invariant.thy ===== *)
theory Scim_Group_Invariant
  imports Scim_Group_Store
begin

text \<open>
  The tables of SCIM groups keep their invariant (\<^verbatim>\<open>pkg/gateway/client/scimgroup.go\<close>): creating, updating, patching and
  deleting a group, and the cleanups that follow, each keep it, so that it holds in every state they reach.
\<close>

section \<open>Writes keep the invariant\<close>

definition groups_ok :: "db \<Rightarrow> bool" where
  "groups_ok s \<longleftrightarrow> bindings_ok s \<and> members_ok s"

lemma written_members:
  fixes gid us s
  assumes "distinct (dbMemberships s)"
  defines "t \<equiv> fst (replaceGroupMembershipsTx gid us s)"
  shows "set (dbMemberships t) = {m \<in> set (dbMemberships s). snd m \<noteq> gid} \<union> (\<lambda>u. (u, gid)) ` set us" "distinct (dbMemberships t)"
proof -
  let ?cur = "group_users s gid"
  let ?ch = "filter (\<lambda>u. u \<notin> set us) ?cur @ filter (\<lambda>u. u \<notin> set ?cur) us"
  let ?changes = "changes_of ?ch ?cur"
  have cur: "u \<in> set ?cur \<longleftrightarrow> (u, gid) \<in> set (dbMemberships s)" for u by (force simp: group_users_def)
  have removed: "set (map fst (filter snd ?changes)) = set ?cur - set us" by (auto simp: changes_of_def image_iff)
  have added: "set (map (\<lambda>c. (fst c, gid)) (filter (\<lambda>c. \<not> snd c) ?changes)) = (\<lambda>u. (u, gid)) ` (set us - set ?cur)"
    by (auto simp: changes_of_def image_iff)
  have "distinct (map fst ?changes)" by (simp add: changes_of_def comp_def)
  then have "distinct (map (\<lambda>c. (fst c, gid)) (filter (\<lambda>c. \<not> snd c) ?changes))"
    by (auto simp: distinct_map inj_on_def)
  then show "distinct (dbMemberships t)"
    using assms(1) by (auto simp: t_def replaceGroupMembershipsTx_def writeGroupMembershipChangesTx_def Let_def)
  have "dbMemberships t = filter (\<lambda>m. \<not> (snd m = gid \<and> fst m \<in> set (map fst (filter snd ?changes)))) (dbMemberships s)
      @ filter (\<lambda>m. m \<notin> set (filter (\<lambda>m. \<not> (snd m = gid \<and> fst m \<in> set (map fst (filter snd ?changes)))) (dbMemberships s)))
          (map (\<lambda>c. (fst c, gid)) (filter (\<lambda>c. \<not> snd c) ?changes))"
    by (simp add: t_def replaceGroupMembershipsTx_def writeGroupMembershipChangesTx_def Let_def)
  then have "set (dbMemberships t) = {m \<in> set (dbMemberships s). \<not> (snd m = gid \<and> fst m \<in> set ?cur - set us)} \<union> (\<lambda>u. (u, gid)) ` (set us - set ?cur)"
    using removed added by auto
  then show "set (dbMemberships t) = {m \<in> set (dbMemberships s). snd m \<noteq> gid} \<union> (\<lambda>u. (u, gid)) ` set us"
    using cur by auto
qed

text \<open>Writing bound users into a group whose bindings are of their connection.\<close>

lemma members_ok_write:
  assumes "members_ok s" "\<And>b. b \<in> set (dbGroupBindings s) \<Longrightarrow> live_group b \<Longrightarrow> gbGroupID b = gid \<Longrightarrow>
      \<forall>u\<in>set us. \<exists>ub\<in>set (dbUserBindings s). live_user ub \<and> ubConnectionID ub = gbConnectionID b \<and> ubUserID ub = u"
  shows "members_ok (recordMembershipReconcileEventsTx changes (fst (replaceGroupMembershipsTx gid us s)))"
proof -
  have d: "distinct (dbMemberships s)" using assms(1) by (simp add: members_ok_def)
  show ?thesis
    using assms written_members[OF d, of gid us] unfolding members_ok_def by (auto simp: image_iff)
qed

lemma resolved_bound:
  assumes "resolveSCIMMembersTx s c ids = Inr us" "u \<in> set us"
  shows "\<exists>ub\<in>set (dbUserBindings s). live_user ub \<and> ubConnectionID ub = c \<and> ubUserID ub = u"
  using assms by (auto simp: resolveSCIMMembersTx_def Let_def split: if_splits)

lemma bindings_okD:
  assumes "bindings_ok s"
  shows "distinct (map gbID (dbGroupBindings s))" "distinct (map grpID (dbGroups s))"
    "\<And>b. b \<in> set (dbGroupBindings s) \<Longrightarrow> live_group b \<Longrightarrow> gbNormalizedDisplayName b \<noteq> [] \<and>
       (\<exists>g\<in>set (dbGroups s). grpID g = gbGroupID b \<and> NormalizeSCIMGroupName (grpName g) = gbNormalizedDisplayName b)"
    "\<And>b b'. b \<in> set (dbGroupBindings s) \<Longrightarrow> b' \<in> set (dbGroupBindings s) \<Longrightarrow> live_group b \<Longrightarrow> live_group b' \<Longrightarrow>
       gbGroupID b = gbGroupID b' \<or> gbConnectionID b = gbConnectionID b' \<and> gbNormalizedDisplayName b = gbNormalizedDisplayName b' \<Longrightarrow>
       gbID b = gbID b'"
  using assms unfolding bindings_ok_def by blast+

lemma bindings_okI:
  assumes "set (dbGroupBindings t) = h ` B" "distinct (map gbID (dbGroupBindings t))" "distinct (map grpID (dbGroups t))"
    "\<And>b. b \<in> B \<Longrightarrow> live_group (h b) \<Longrightarrow> gbNormalizedDisplayName (h b) \<noteq> [] \<and>
       (\<exists>g\<in>set (dbGroups t). grpID g = gbGroupID (h b) \<and> NormalizeSCIMGroupName (grpName g) = gbNormalizedDisplayName (h b))"
    "\<And>b b'. b \<in> B \<Longrightarrow> b' \<in> B \<Longrightarrow> live_group (h b) \<Longrightarrow> live_group (h b') \<Longrightarrow>
       gbGroupID (h b) = gbGroupID (h b')
       \<or> gbConnectionID (h b) = gbConnectionID (h b') \<and> gbNormalizedDisplayName (h b) = gbNormalizedDisplayName (h b') \<Longrightarrow>
       gbID (h b) = gbID (h b')"
  shows "bindings_ok t"
  unfolding bindings_ok_def assms(1) ball_simps(9) using assms(2-5) by blast

text \<open>Updating the columns of a binding without its name, and with the name of its group.\<close>

definition same_binding :: "SCIMGroupBinding \<Rightarrow> SCIMGroupBinding \<Rightarrow> bool" where
  "same_binding b b' \<longleftrightarrow> gbID b' = gbID b \<and> gbConnectionID b' = gbConnectionID b \<and> gbGroupID b' = gbGroupID b \<and> gbRetiredAt b' = gbRetiredAt b"

lemma members_ok_update:
  assumes "members_ok s" "\<And>b. same_binding b (f b)"
  shows "members_ok (update_binding scimID f s)"
  using assms unfolding members_ok_def update_binding_def same_binding_def live_group_def by (auto split: if_splits)

lemma distinct_update:
  assumes "\<And>b. gbID (f b) = gbID b"
  shows "map gbID (dbGroupBindings (update_binding scimID f s)) = map gbID (dbGroupBindings s)"
  using assms by (simp add: update_binding_def)

lemma bindings_ok_update:
  assumes "bindings_ok s" "\<And>b. same_binding b (f b)"
    "\<And>b. b \<in> set (dbGroupBindings s) \<Longrightarrow> gbID b = scimID \<Longrightarrow> gbNormalizedDisplayName (f b) = gbNormalizedDisplayName b"
  shows "bindings_ok (update_binding scimID f s)"
proof -
  define h where "h = (\<lambda>b. if gbID b = scimID then f b else b)"
  have f: "gbID (h b) = gbID b" "gbConnectionID (h b) = gbConnectionID b" "gbGroupID (h b) = gbGroupID b" "live_group (h b) = live_group b" for b
    using assms(2)[of b] by (simp_all add: h_def same_binding_def live_group_def)
  have n: "gbNormalizedDisplayName (h b) = gbNormalizedDisplayName b" if "b \<in> set (dbGroupBindings s)" for b using assms(3)[OF that] by (simp add: h_def)
  have set: "set (dbGroupBindings (update_binding scimID f s)) = h ` set (dbGroupBindings s)" by (simp add: update_binding_def h_def)
  have ids: "map gbID (dbGroupBindings (update_binding scimID f s)) = map gbID (dbGroupBindings s)"
    by (rule distinct_update) (use assms(2) in \<open>simp add: same_binding_def\<close>)
  have groups: "dbGroups (update_binding scimID f s) = dbGroups s" by (simp add: update_binding_def)
  show ?thesis
  proof (rule bindings_okI[OF set], unfold ids groups f)
    show "distinct (map gbID (dbGroupBindings s))" "distinct (map grpID (dbGroups s))" by (rule bindings_okD[OF assms(1)])+
    show "gbNormalizedDisplayName (h b) \<noteq> [] \<and>
        (\<exists>g\<in>set (dbGroups s). grpID g = gbGroupID b \<and> NormalizeSCIMGroupName (grpName g) = gbNormalizedDisplayName (h b))"
      if "b \<in> set (dbGroupBindings s)" "live_group b" for b
      unfolding n[OF that(1)] by (rule bindings_okD(3)[OF assms(1) that])
    show "gbID b = gbID b'" if "b \<in> set (dbGroupBindings s)" "b' \<in> set (dbGroupBindings s)" "live_group b" "live_group b'"
        "gbGroupID b = gbGroupID b' \<or> gbConnectionID b = gbConnectionID b' \<and> gbNormalizedDisplayName (h b) = gbNormalizedDisplayName (h b')" for b b'
      by (rule bindings_okD(4)[OF assms(1) that(1-4)]) (use that(5) n[OF that(1)] n[OF that(2)] in simp)
  qed
qed

text \<open>A rename of the group of a binding together with the name of the binding.\<close>

lemma bindings_ok_rename:
  assumes "bindings_ok s" "b0 \<in> set (dbGroupBindings s)" "live_group b0" "gbID b0 = scimID" "\<And>b. same_binding b (f b)"
    "\<And>b. gbNormalizedDisplayName (f b) = NormalizeSCIMGroupName n" "NormalizeSCIMGroupName n \<noteq> []"
    "checkSCIMGroupNameTx s (gbConnectionID b0) (NormalizeSCIMGroupName n) scimID"
  shows "bindings_ok (update_binding scimID f (renameGroupTx (gbGroupID b0) n s))"
proof -
  define h where "h = (\<lambda>b. if gbID b = scimID then f b else b)"
  let ?g = "\<lambda>g. if grpID g = gbGroupID b0 then g\<lparr>grpName := n\<rparr> else g"
  have f: "gbID (h b) = gbID b" "gbConnectionID (h b) = gbConnectionID b" "gbGroupID (h b) = gbGroupID b" "live_group (h b) = live_group b" for b
    using assms(5)[of b] by (simp_all add: h_def same_binding_def live_group_def)
  have b0: "b = b0" if "b \<in> set (dbGroupBindings s)" "gbID b = scimID" for b
    using assms(1,2,4) that by (auto simp: bindings_ok_def distinct_map inj_on_def)
  let ?t = "update_binding scimID f (renameGroupTx (gbGroupID b0) n s)"
  have set: "set (dbGroupBindings ?t) = h ` set (dbGroupBindings s)" by (simp add: update_binding_def h_def)
  have groups: "dbGroups ?t = map ?g (dbGroups s)" by (simp add: update_binding_def renameGroupTx_def)
  have ids: "map gbID (dbGroupBindings ?t) = map gbID (dbGroupBindings s)"
    using distinct_update[of f scimID "renameGroupTx (gbGroupID b0) n s"] assms(5) by (simp add: same_binding_def)
  have gids: "map grpID (dbGroups ?t) = map grpID (dbGroups s)" by (simp add: groups)
  have free: "gbID b = scimID" if "b \<in> set (dbGroupBindings s)" "live_group b" "gbConnectionID b = gbConnectionID b0"
      "gbNormalizedDisplayName b = NormalizeSCIMGroupName n" for b
    using assms(8) that by (auto simp: checkSCIMGroupNameTx_def list_ex_iff)
  have group: "gbNormalizedDisplayName (h b) \<noteq> [] \<and>
      (\<exists>g\<in>set (dbGroups ?t). grpID g = gbGroupID b \<and> NormalizeSCIMGroupName (grpName g) = gbNormalizedDisplayName (h b))"
    if b: "b \<in> set (dbGroupBindings s)" "live_group b" for b
  proof -
    obtain g where g: "g \<in> set (dbGroups s)" "grpID g = gbGroupID b" "NormalizeSCIMGroupName (grpName g) = gbNormalizedDisplayName b"
      "gbNormalizedDisplayName b \<noteq> []"
      using assms(1) b by (auto simp: bindings_ok_def)
    have "gbID b = scimID \<longleftrightarrow> gbGroupID b = gbGroupID b0"
    proof
      assume "gbID b = scimID"
      then show "gbGroupID b = gbGroupID b0" using b0[OF b(1)] by simp
    next
      assume "gbGroupID b = gbGroupID b0"
      then show "gbID b = scimID" using assms(1-4) b unfolding bindings_ok_def by metis
    qed
    then have "?g g \<in> set (dbGroups ?t) \<and> grpID (?g g) = gbGroupID b \<and> NormalizeSCIMGroupName (grpName (?g g)) = gbNormalizedDisplayName (h b)"
      using g assms(6) by (auto simp: groups h_def)
    then show ?thesis using g(4) assms(6,7) by (auto simp: h_def)
  qed
  have unique: "gbID b = gbID b'" if "b \<in> set (dbGroupBindings s)" "b' \<in> set (dbGroupBindings s)" "live_group b" "live_group b'"
      "gbGroupID b = gbGroupID b' \<or> gbConnectionID b = gbConnectionID b' \<and> gbNormalizedDisplayName (h b) = gbNormalizedDisplayName (h b')" for b b'
  proof (cases "gbID b = scimID \<or> gbID b' = scimID")
    case True
    have name: "gbNormalizedDisplayName (h b) = (if gbID b = scimID then NormalizeSCIMGroupName n else gbNormalizedDisplayName b)" for b
      using assms(6) by (simp add: h_def)
    from that(5) show ?thesis
    proof
      assume "gbGroupID b = gbGroupID b'"
      with that(1-4) assms(1) show ?thesis unfolding bindings_ok_def by blast
    next
      assume c: "gbConnectionID b = gbConnectionID b' \<and> gbNormalizedDisplayName (h b) = gbNormalizedDisplayName (h b')"
      from True show ?thesis
      proof
        assume "gbID b = scimID"
        with c name free[OF that(2,4)] b0[OF that(1)] show ?thesis by (auto split: if_splits)
      next
        assume "gbID b' = scimID"
        with c name free[OF that(1,3)] b0[OF that(2)] show ?thesis by (auto split: if_splits)
      qed
    qed
  next
    case False
    then have "gbNormalizedDisplayName (h b) = gbNormalizedDisplayName b" "gbNormalizedDisplayName (h b') = gbNormalizedDisplayName b'"
      by (simp_all add: h_def)
    with that(5) show ?thesis by (intro bindings_okD(4)[OF assms(1) that(1-4)]) simp
  qed
  show ?thesis
  proof (rule bindings_okI[OF set], unfold ids gids f)
    show "distinct (map gbID (dbGroupBindings s))" "distinct (map grpID (dbGroups s))" by (rule bindings_okD[OF assms(1)])+
  qed (fact group unique)+
qed


section \<open>Updates and patches\<close>

lemma bindings_ok_cong: "dbGroupBindings s = dbGroupBindings t \<Longrightarrow> dbGroups s = dbGroups t \<Longrightarrow> bindings_ok s = bindings_ok t"
  by (simp add: bindings_ok_def)

lemma update_fields [simp]:
  "dbGroupBindings (update_binding i f s) = map (\<lambda>b. if gbID b = i then f b else b) (dbGroupBindings s)" "dbGroups (update_binding i f s) = dbGroups s"
  "dbMemberships (update_binding i f s) = dbMemberships s" "dbUserBindings (update_binding i f s) = dbUserBindings s"
  "dbConnections (update_binding i f s) = dbConnections s"
  by (simp_all add: update_binding_def)

lemma current_group:
  assumes "scimGroupTx env s c scimID inc = Inr cur" "bindings_ok s"
  obtains b where "b \<in> set (dbGroupBindings s)" "live_group b" "gbID b = scimID" "gbConnectionID b = c" "sgGroupID cur = gbGroupID b"
    "NormalizeSCIMGroupName (sgDisplayName cur) = gbNormalizedDisplayName b"
proof -
  obtain row rows where row: "filter (\<lambda>row. gbID (fst row) = scimID) (scimGroupQuery s c) = row # rows"
    and cur: "sgGroupID cur = gbGroupID (fst row)" "sgDisplayName cur = snd row"
    using assms(1) by (auto simp: scimGroupTx_def bind_ok_Inr scimGroupFromRow_def split: list.splits)
  show ?thesis using that[OF group_row(1)[OF row] group_row(4)[OF row] group_row(2)[OF row] group_row(3)[OF row]] cur row_name(1)[OF assms(2) row] by simp
qed

text \<open>What an update and a patch write: the name, the members, and the columns of the binding.\<close>

lemma group_written:
  fixes changes :: "(nat \<times> bool) list"
  assumes ok: "bindings_ok s" "members_ok s" and b0: "b0 \<in> set (dbGroupBindings s)" "live_group b0" "gbID b0 = scimID"
    and users: "\<And>u. u \<in> set us \<Longrightarrow> \<exists>ub\<in>set (dbUserBindings s). live_user ub \<and> ubConnectionID ub = gbConnectionID b0 \<and> ubUserID ub = u"
    and f: "\<And>b. same_binding b (f b)"
      "\<And>b. renamed \<Longrightarrow> gbNormalizedDisplayName (f b) = NormalizeSCIMGroupName n"
      "\<And>b. \<not> renamed \<Longrightarrow> b = b0 \<Longrightarrow> gbNormalizedDisplayName (f b) = gbNormalizedDisplayName b"
    and name: "renamed \<Longrightarrow> NormalizeSCIMGroupName n \<noteq> []"
      "renamed \<Longrightarrow> checkSCIMGroupNameTx s (gbConnectionID b0) (NormalizeSCIMGroupName n) scimID"
  defines "t \<equiv> recordMembershipReconcileEventsTx changes
      (fst (replaceGroupMembershipsTx (gbGroupID b0) us (if renamed then renameGroupTx (gbGroupID b0) n s else s)))"
  shows "groups_ok (update_binding scimID f t)" "\<not> renamed \<Longrightarrow> groups_ok t"
proof -
  let ?s = "if renamed then renameGroupTx (gbGroupID b0) n s else s"
  have ids: "b = b0" if "b \<in> set (dbGroupBindings s)" "gbID b = scimID" for b
    using bindings_okD(1)[OF ok(1)] b0 that by (auto simp: distinct_map inj_on_def)
  have "members_ok ?s" using ok(2) by (simp add: members_ok_def)
  then have m: "members_ok t"
    unfolding t_def
  proof (rule members_ok_write)
    fix b
    assume b: "b \<in> set (dbGroupBindings ?s)" "live_group b" "gbGroupID b = gbGroupID b0"
    have "b \<in> set (dbGroupBindings s)" using b(1) by (simp split: if_splits)
    from ids[OF this] bindings_okD(4)[OF ok(1) this b0(1) b(2) b0(2) disjI1[OF b(3)]] have "b = b0" by (simp add: b0(3))
    then show "\<forall>u\<in>set us. \<exists>ub\<in>set (dbUserBindings ?s). live_user ub \<and> ubConnectionID ub = gbConnectionID b \<and> ubUserID ub = u"
      using users by simp
  qed
  have same: "bindings_ok (update_binding scimID f t) = bindings_ok (update_binding scimID f ?s)" by (rule bindings_ok_cong) (simp_all add: t_def)
  have "bindings_ok (update_binding scimID f ?s)"
  proof (cases renamed)
    case True
    then show ?thesis using bindings_ok_rename[OF ok(1) b0 f(1) f(2) name] by simp
  next
    case False
    have "bindings_ok (update_binding scimID f s)" by (rule bindings_ok_update[OF ok(1) f(1)]) (use False f(3) ids in simp)
    with False show ?thesis by simp
  qed
  then show "groups_ok (update_binding scimID f t)" by (simp add: groups_ok_def same members_ok_update[OF m f(1)])
  show "groups_ok t" if "\<not> renamed"
    using m that ok(1) bindings_ok_cong[of t s] by (simp add: groups_ok_def t_def)
qed

lemma update_written:
  assumes "UpdateSCIMGroup env conn scimID mutate now s = Inr (t, d)"
  obtains cur us w r and inp :: SCIMGroupInput where "scimGroupTx env s (scID conn) scimID True = Inr cur"
    "resolveSCIMMembersTx s (scID conn) (giMemberIDs inp) = Inr us" "NormalizeSCIMGroupName (giDisplayName inp) \<noteq> []"
    "giDisplayName inp = sgDisplayName cur \<or> checkSCIMGroupNameTx s (scID conn) (NormalizeSCIMGroupName (giDisplayName inp)) scimID"
    "w = replaceGroupMembershipsTx (sgGroupID cur) us
      (if giDisplayName inp \<noteq> sgDisplayName cur then renameGroupTx (sgGroupID cur) (giDisplayName inp) s else s)"
    "r = recordMembershipReconcileEventsTx (snd w) (fst w)"
    "t = (if giDisplayName inp \<noteq> sgDisplayName cur \<or> snd w \<noteq> []
      then update_binding scimID (\<lambda>b. b\<lparr>gbNormalizedDisplayName := NormalizeSCIMGroupName (giDisplayName inp),
        gbRevision := gbRevision b + 1, gbUpdatedAt := now\<rparr>) r else r)"
proof -
  obtain cur where cur: "scimGroupTx env s (scID conn) scimID True = Inr cur" using assms by (auto simp: UpdateSCIMGroup_def bind_ok_Inr)
  obtain inp where inp: "mutate cur = Inr inp" using assms by (auto simp: UpdateSCIMGroup_def cur split: sum.splits)
  have name: "NormalizeSCIMGroupName (giDisplayName inp) \<noteq> []" using assms by (auto simp: UpdateSCIMGroup_def cur inp)
  obtain us where us: "resolveSCIMMembersTx s (scID conn) (giMemberIDs inp) = Inr us"
    using assms name by (auto simp: UpdateSCIMGroup_def cur inp Let_def bind_ok_Inr)
  have free: "giDisplayName inp = sgDisplayName cur \<or> checkSCIMGroupNameTx s (scID conn) (NormalizeSCIMGroupName (giDisplayName inp)) scimID"
    using assms name by (auto simp: UpdateSCIMGroup_def cur inp us Let_def split: if_splits)
  show ?thesis
    by (rule that[OF cur us name free, OF refl, OF refl])
      (use assms name free in \<open>cases "giDisplayName inp = sgDisplayName cur";
        auto simp: UpdateSCIMGroup_def cur inp us Let_def set_members_def case_prod_unfold\<close>)
qed

lemma update_keeps:
  assumes "groups_ok s" "UpdateSCIMGroup env conn scimID mutate now s = Inr (t, d)"
  shows "groups_ok t"
proof -
  have ok: "bindings_ok s" "members_ok s" using assms(1) by (simp_all add: groups_ok_def)
  obtain cur us w r and inp :: SCIMGroupInput where cur: "scimGroupTx env s (scID conn) scimID True = Inr cur"
    and us: "resolveSCIMMembersTx s (scID conn) (giMemberIDs inp) = Inr us" and name: "NormalizeSCIMGroupName (giDisplayName inp) \<noteq> []"
    and free: "giDisplayName inp = sgDisplayName cur \<or> checkSCIMGroupNameTx s (scID conn) (NormalizeSCIMGroupName (giDisplayName inp)) scimID"
    and w: "w = replaceGroupMembershipsTx (sgGroupID cur) us
      (if giDisplayName inp \<noteq> sgDisplayName cur then renameGroupTx (sgGroupID cur) (giDisplayName inp) s else s)"
    and r: "r = recordMembershipReconcileEventsTx (snd w) (fst w)"
    and t: "t = (if giDisplayName inp \<noteq> sgDisplayName cur \<or> snd w \<noteq> []
      then update_binding scimID (\<lambda>b. b\<lparr>gbNormalizedDisplayName := NormalizeSCIMGroupName (giDisplayName inp),
        gbRevision := gbRevision b + 1, gbUpdatedAt := now\<rparr>) r else r)"
    by (rule update_written[OF assms(2)])
  let ?renamed = "giDisplayName inp \<noteq> sgDisplayName cur"
  let ?f = "\<lambda>b. b\<lparr>gbNormalizedDisplayName := NormalizeSCIMGroupName (giDisplayName inp), gbRevision := gbRevision b + 1, gbUpdatedAt := now\<rparr>"
  obtain b where b: "b \<in> set (dbGroupBindings s)" "live_group b" "gbID b = scimID" "gbConnectionID b = scID conn" "sgGroupID cur = gbGroupID b"
    "NormalizeSCIMGroupName (sgDisplayName cur) = gbNormalizedDisplayName b"
    by (rule current_group[OF cur ok(1)])
  have "groups_ok (update_binding scimID ?f r)" "\<not> ?renamed \<Longrightarrow> groups_ok r"
    unfolding r w b(5)
    by (rule group_written[OF ok b(1-3)];
        use resolved_bound[OF us] name free b(4,6) in \<open>auto simp: same_binding_def\<close>)+
  then show ?thesis by (auto simp: t)
qed

text \<open>Patching the members replaces them by bound users: the members that stay are bound already.\<close>

lemma patched_members_bound:
  assumes "members_ok s" "b \<in> set (dbGroupBindings s)" "live_group b"
    "patch_members (gbConnectionID b) (gbGroupID b) patch s' = Inr (t, changes)"
    "dbUserBindings s' = dbUserBindings s" "dbMemberships s' = dbMemberships s"
  obtains us where "(t, changes) = replaceGroupMembershipsTx (gbGroupID b) us s'"
    "\<And>u. u \<in> set us \<Longrightarrow> \<exists>ub\<in>set (dbUserBindings s). live_user ub \<and> ubConnectionID ub = gbConnectionID b \<and> ubUserID ub = u"
proof -
  let ?c = "gbConnectionID b" and ?gid = "gbGroupID b"
  obtain us where us: "resolveSCIMMembersTx s' ?c (gpMemberIDs patch) = Inr us"
    using assms(4) by (auto simp: patch_members_def bind_ok_Inr split: if_splits)
  have added: "\<exists>ub\<in>set (dbUserBindings s). live_user ub \<and> ubConnectionID ub = ?c \<and> ubUserID ub = u" if "u \<in> set us" for u
    using resolved_bound[OF us that] assms(5) by simp
  show ?thesis
  proof (cases "gpReplaceMembers patch")
    case True
    then show ?thesis using that[of us] added assms(4) us by (simp add: patch_members_def)
  next
    case False
    let ?removed = "scimMemberUserIDsTx s' ?c (gpRemovedMemberIDs patch)"
    let ?us = "filter (\<lambda>u. u \<notin> set ?removed) (group_users s' ?gid) @ us"
    have "set ?us = set (group_users s' ?gid) - set ?removed \<union> set us" by auto
    from change_is_replace[OF this] have "(t, changes) = replaceGroupMembershipsTx ?gid ?us s'"
      using False assms(4) us by (simp add: patch_members_def)
    moreover have "\<exists>ub\<in>set (dbUserBindings s). live_user ub \<and> ubConnectionID ub = ?c \<and> ubUserID ub = u" if u: "u \<in> set ?us" for u
      using u added assms(1-3,6) by (auto simp: members_ok_def group_users_def)
    ultimately show ?thesis by (rule that)
  qed
qed

lemma patch_keeps:
  assumes "groups_ok s" "PatchSCIMGroup env conn scimID patch now s = Inr (t, d)"
  shows "groups_ok t"
proof -
  have ok: "bindings_ok s" "members_ok s" using assms(1) by (simp_all add: groups_ok_def)
  obtain cur where cur: "scimGroupTx env s (scID conn) scimID False = Inr cur" using assms(2) by (auto simp: PatchSCIMGroup_def bind_ok_Inr)
  obtain b where b: "b \<in> set (dbGroupBindings s)" "live_group b" "gbID b = scimID" "gbConnectionID b = scID conn" "sgGroupID cur = gbGroupID b"
    by (rule current_group[OF cur ok(1)])
  let ?renamed = "gpDisplayName patch \<noteq> [] \<and> gpDisplayName patch \<noteq> sgDisplayName cur"
  let ?n = "NormalizeSCIMGroupName (gpDisplayName patch)"
  let ?s = "if ?renamed then renameGroupTx (gbGroupID b) (gpDisplayName patch) s else s"
  let ?f = "\<lambda>b. b\<lparr>gbNormalizedDisplayName := (if ?renamed then ?n else gbNormalizedDisplayName b),
    gbRevision := gbRevision b + 1, gbUpdatedAt := now\<rparr>"
  have name: "?renamed \<Longrightarrow> ?n \<noteq> []" "?renamed \<Longrightarrow> checkSCIMGroupNameTx s (scID conn) ?n scimID"
    using assms(2) by (auto simp: PatchSCIMGroup_def cur Let_def split: if_splits)
  have fields: "dbUserBindings ?s = dbUserBindings s" "dbMemberships ?s = dbMemberships s" by simp_all
  obtain t' changes where p: "patch_members (scID conn) (gbGroupID b) patch ?s = Inr (t', changes)"
    and t: "t = (if \<not> ?renamed \<and> changes = [] then recordMembershipReconcileEventsTx changes t'
                 else update_binding scimID ?f (recordMembershipReconcileEventsTx changes t'))"
    using assms(2) name
    by (cases "patch_members (scID conn) (gbGroupID b) patch ?s") (auto simp: PatchSCIMGroup_def cur Let_def b(5) split: if_splits)
  from patched_members_bound[OF ok(2) b(1,2) p[folded b(4)] fields]
  obtain us where us: "(t', changes) = replaceGroupMembershipsTx (gbGroupID b) us ?s"
    "\<And>u. u \<in> set us \<Longrightarrow> \<exists>ub\<in>set (dbUserBindings s). live_user ub \<and> ubConnectionID ub = gbConnectionID b \<and> ubUserID ub = u"
    by blast
  have t': "t' = fst (replaceGroupMembershipsTx (gbGroupID b) us ?s)" by (simp flip: us(1))
  have "groups_ok (update_binding scimID ?f (recordMembershipReconcileEventsTx changes t'))"
    "\<not> ?renamed \<Longrightarrow> groups_ok (recordMembershipReconcileEventsTx changes t')"
    unfolding t'
    by (rule group_written[OF ok b(1-3)]; use us(2) name b(4) in \<open>auto simp: same_binding_def\<close>)+
  then show ?thesis by (auto simp: t)
qed

section \<open>Creating and deleting\<close>

text \<open>The group a new binding refers to has its name, and no binding that is not retired refers to it.\<close>

lemma bound_group:
  assumes ok: "bindings_ok s" and bind: "bind_group conn (NormalizeSCIMGroupName n) n newID s = Inr (t, gid, origin)"
  shows "dbGroupBindings t = dbGroupBindings s" "dbMemberships t = dbMemberships s" "dbUserBindings t = dbUserBindings s"
    "distinct (map grpID (dbGroups t))"
    "\<exists>g\<in>set (dbGroups t). grpID g = gid \<and> NormalizeSCIMGroupName (grpName g) = NormalizeSCIMGroupName n"
    "\<And>g. g \<in> set (dbGroups s) \<Longrightarrow> grpID g \<noteq> gid \<Longrightarrow> g \<in> set (dbGroups t)"
    "\<And>b. b \<in> set (dbGroupBindings s) \<Longrightarrow> live_group b \<Longrightarrow> gbGroupID b \<noteq> gid"
proof -
  let ?norm = NormalizeSCIMGroupName
  consider (created) "gid \<notin> grpID ` set (dbGroups s)"
      "t = s\<lparr>dbGroups := dbGroups s @ [\<lparr>grpID = gid, grpNamespace = scNamespace conn, grpAuthProviderName = scName conn, grpName = n\<rparr>]\<rparr>"
    | (existing) g where "g \<in> set (unboundGroupsNamedTx s conn (?norm n))" "gid = grpID g" "t = (if grpName g \<noteq> n then renameGroupTx gid n s else s)"
  proof (cases "unboundGroupsNamedTx s conn (?norm n)")
    case Nil
    with bind show ?thesis by (intro created) (auto simp: bind_group_def add_group_def Let_def split: if_splits)
  next
    case (Cons g gs)
    with bind have "gs = []" by (cases gs) (simp_all add: bind_group_def)
    with Cons bind show ?thesis by (intro existing[of g]) (auto simp: bind_group_def split: if_splits)
  qed
  then have "dbGroupBindings t = dbGroupBindings s \<and> dbMemberships t = dbMemberships s \<and> dbUserBindings t = dbUserBindings s
    \<and> distinct (map grpID (dbGroups t)) \<and> (\<exists>g\<in>set (dbGroups t). grpID g = gid \<and> ?norm (grpName g) = ?norm n)
    \<and> (\<forall>g\<in>set (dbGroups s). grpID g \<noteq> gid \<longrightarrow> g \<in> set (dbGroups t))
    \<and> (\<forall>b\<in>set (dbGroupBindings s). live_group b \<longrightarrow> gbGroupID b \<noteq> gid)"
  proof cases
    case created
    then show ?thesis using bindings_okD(2)[OF ok] by (auto simp: image_iff dest!: bindings_okD(3)[OF ok])
  next
    case existing
    have g: "g \<in> set (dbGroups s)" "?norm (grpName g) = ?norm n" and free: "\<forall>b\<in>set (dbGroupBindings s). live_group b \<longrightarrow> gbGroupID b \<noteq> grpID g"
      using existing(1) by (auto simp: unboundGroupsNamedTx_def list_ex_iff)
    have ids: "map grpID (dbGroups t) = map grpID (dbGroups s)" by (simp add: existing(2,3) renameGroupTx_def)
    let ?g = "if grpName g \<noteq> n then g\<lparr>grpName := n\<rparr> else g"
    have "?g \<in> set (dbGroups t)" "grpID ?g = gid" "?norm (grpName ?g) = ?norm n" using g by (auto simp: existing(2,3) renameGroupTx_def)
    then have "\<exists>g\<in>set (dbGroups t). grpID g = gid \<and> ?norm (grpName g) = ?norm n" by blast
    moreover have "\<forall>g\<in>set (dbGroups s). grpID g \<noteq> gid \<longrightarrow> g \<in> set (dbGroups t)" by (auto simp: existing(3) renameGroupTx_def image_iff)
    ultimately show ?thesis using free bindings_okD(2)[OF ok] ids by (simp add: existing(2,3))
  qed
  then show "dbGroupBindings t = dbGroupBindings s" "dbMemberships t = dbMemberships s" "dbUserBindings t = dbUserBindings s"
    "distinct (map grpID (dbGroups t))"
    "\<exists>g\<in>set (dbGroups t). grpID g = gid \<and> ?norm (grpName g) = ?norm n"
    "\<And>g. g \<in> set (dbGroups s) \<Longrightarrow> grpID g \<noteq> gid \<Longrightarrow> g \<in> set (dbGroups t)"
    "\<And>b. b \<in> set (dbGroupBindings s) \<Longrightarrow> live_group b \<Longrightarrow> gbGroupID b \<noteq> gid"
    by blast+
qed

lemma bindings_ok_add:
  assumes ok: "bindings_ok s" and bind: "bind_group conn (NormalizeSCIMGroupName n) n newID s = Inr (t, gbGroupID b, origin)"
    and b: "gbID b \<notin> gbID ` set (dbGroupBindings s)" "gbNormalizedDisplayName b = NormalizeSCIMGroupName n" "NormalizeSCIMGroupName n \<noteq> []"
      "checkSCIMGroupNameTx s (gbConnectionID b) (NormalizeSCIMGroupName n) []"
  shows "bindings_ok (t\<lparr>dbGroupBindings := dbGroupBindings t @ [b]\<rparr>)"
proof -
  note t = bound_group[OF ok bind]
  let ?t = "t\<lparr>dbGroupBindings := dbGroupBindings t @ [b]\<rparr>"
  have old: "gbGroupID b' \<noteq> gbGroupID b \<and> \<not> (gbConnectionID b' = gbConnectionID b \<and> gbNormalizedDisplayName b' = gbNormalizedDisplayName b)"
    if "b' \<in> set (dbGroupBindings s)" "live_group b'" for b'
    using t(7)[OF that] b(2,4) that by (auto simp: checkSCIMGroupNameTx_def list_ex_iff)
  have set: "set (dbGroupBindings ?t) = (\<lambda>b. b) ` insert b (set (dbGroupBindings s))" by (simp add: t(1))
  show ?thesis
  proof (rule bindings_okI[OF set])
    show "distinct (map gbID (dbGroupBindings ?t))" using bindings_okD(1)[OF ok] b(1) by (simp add: t(1))
    show "distinct (map grpID (dbGroups ?t))" using t(4) by simp
    show "gbNormalizedDisplayName b' \<noteq> [] \<and> (\<exists>g\<in>set (dbGroups ?t). grpID g = gbGroupID b' \<and> NormalizeSCIMGroupName (grpName g) = gbNormalizedDisplayName b')"
      if b': "b' \<in> insert b (set (dbGroupBindings s))" "live_group b'" for b'
    proof (cases "b' = b")
      case True
      then show ?thesis using t(5) b(2,3) by simp
    next
      case False
      with b' have m: "b' \<in> set (dbGroupBindings s)" by simp
      from bindings_okD(3)[OF ok m b'(2)] obtain g where "g \<in> set (dbGroups s)" "grpID g = gbGroupID b'"
        "NormalizeSCIMGroupName (grpName g) = gbNormalizedDisplayName b'" "gbNormalizedDisplayName b' \<noteq> []" by blast
      moreover from this t(7)[OF m b'(2)] have "g \<in> set (dbGroups ?t)" using t(6) by simp
      ultimately show ?thesis by blast
    qed
    show "gbID b1 = gbID b2" if "b1 \<in> insert b (set (dbGroupBindings s))" "b2 \<in> insert b (set (dbGroupBindings s))" "live_group b1" "live_group b2"
      "gbGroupID b1 = gbGroupID b2 \<or> gbConnectionID b1 = gbConnectionID b2 \<and> gbNormalizedDisplayName b1 = gbNormalizedDisplayName b2" for b1 b2
      using that(1,2)
    proof (elim insertE)
      assume "b1 \<in> set (dbGroupBindings s)" "b2 \<in> set (dbGroupBindings s)"
      then show ?thesis using bindings_okD(4)[OF ok _ _ that(3-5)] by blast
    qed (use old[of b1] old[of b2] that(3-5) in auto)
  qed
qed

lemma create_keeps:
  assumes "groups_ok s" "CreateSCIMGroup env conn inp newID now s = Inr (t, d, r)"
  shows "groups_ok t"
proof -
  have ok: "bindings_ok s" "members_ok s" using assms(1) by (simp_all add: groups_ok_def)
  let ?n = "NormalizeSCIMGroupName (giDisplayName inp)"
  have name: "?n \<noteq> []" "connectionAdapter conn" using assms(2) by (auto simp: CreateSCIMGroup_def Let_def split: if_splits)
  obtain conn' where conn: "connection_tx s (scID conn) = Inr conn'"
    using assms(2) name by (auto simp: CreateSCIMGroup_def Let_def bind_ok_Inr)
  have free: "checkSCIMGroupNameTx s (scID conn') ?n []" using assms(2) name by (auto simp: CreateSCIMGroup_def Let_def conn split: if_splits)
  obtain us where us: "resolveSCIMMembersTx s (scID conn') (giMemberIDs inp) = Inr us"
    using assms(2) name free by (auto simp: CreateSCIMGroup_def Let_def conn bind_ok_Inr)
  obtain t1 gid origin where t1: "bind_group conn' ?n (giDisplayName inp) newID s = Inr (t1, gid, origin)"
    using assms(2) name free by (auto simp: CreateSCIMGroup_def Let_def conn us bind_ok_Inr)
  have new: "newID \<notin> gbID ` set (dbGroupBindings t1)"
    using assms(2) name free by (auto simp: CreateSCIMGroup_def Let_def conn us t1 add_binding_def bind_ok_Inr)
  note bound = bound_group[OF ok(1) t1]
  let ?b = "\<lparr>gbID = newID, gbConnectionID = scID conn', gbGroupID = gid, gbNormalizedDisplayName = ?n, gbOrigin = origin,
    gbRevision = 1, gbCreatedAt = now, gbUpdatedAt = now, gbRetiredAt = None\<rparr>"
  let ?t = "t1\<lparr>dbGroupBindings := dbGroupBindings t1 @ [?b]\<rparr>"
  let ?w = "replaceGroupMembershipsTx gid us ?t"
  have t': "t = recordMembershipReconcileEventsTx (snd ?w) (fst ?w)"
    using assms(2) name free new by (simp add: CreateSCIMGroup_def Let_def conn us t1 add_binding_def set_members_def case_prod_unfold)
  have "bindings_ok ?t"
    by (rule bindings_ok_add[OF ok(1), where origin = origin]) (use t1 new bound(1) name free in auto)
  then have "bindings_ok t" using bindings_ok_cong[of t ?t] by (simp add: t')
  moreover have "members_ok t"
  proof -
    have d: "distinct (dbMemberships ?t)" using ok(2) by (simp add: members_ok_def bound(2))
    have "set (dbMemberships t) = {m \<in> set (dbMemberships s). snd m \<noteq> gid} \<union> (\<lambda>u. (u, gid)) ` set us" "distinct (dbMemberships t)"
      using written_members[OF d, of gid us] by (simp_all add: t' bound(2))
    moreover have "set (dbGroupBindings t) = insert ?b (set (dbGroupBindings s))" "dbUserBindings t = dbUserBindings s"
      by (simp_all add: t' bound(1,3))
    ultimately show ?thesis using ok(2) unfolding members_ok_def by (auto dest: resolved_bound[OF us] bound(7))
  qed
  ultimately show ?thesis by (simp add: groups_ok_def)
qed

text \<open>A write that only retires bindings, with fewer memberships, and deletes groups of retired bindings.\<close>

lemma groups_ok_retire:
  assumes "groups_ok s" "map gbID (dbGroupBindings t) = map gbID (dbGroupBindings s)" "distinct (map grpID (dbGroups t))"
    and live: "\<And>b. b \<in> set (dbGroupBindings t) \<Longrightarrow> live_group b \<Longrightarrow> b \<in> set (dbGroupBindings s)"
    and kept: "\<And>b g. b \<in> set (dbGroupBindings t) \<Longrightarrow> live_group b \<Longrightarrow> g \<in> set (dbGroups s) \<Longrightarrow> grpID g = gbGroupID b \<Longrightarrow> g \<in> set (dbGroups t)"
    and members: "distinct (dbMemberships t)" "set (dbMemberships t) \<subseteq> set (dbMemberships s)" "dbUserBindings t = dbUserBindings s"
  shows "groups_ok t"
proof -
  have ok: "bindings_ok s" "members_ok s" using assms(1) by (simp_all add: groups_ok_def)
  have set: "set (dbGroupBindings t) = (\<lambda>b. b) ` set (dbGroupBindings t)" by simp
  have "bindings_ok t"
  proof (rule bindings_okI[OF set])
    show "distinct (map gbID (dbGroupBindings t))" "distinct (map grpID (dbGroups t))" using bindings_okD(1)[OF ok(1)] assms(2,3) by simp_all
    show "gbNormalizedDisplayName b \<noteq> [] \<and> (\<exists>g\<in>set (dbGroups t). grpID g = gbGroupID b \<and> NormalizeSCIMGroupName (grpName g) = gbNormalizedDisplayName b)"
      if "b \<in> set (dbGroupBindings t)" "live_group b" for b
      using bindings_okD(3)[OF ok(1) live[OF that] that(2)] kept[OF that] by blast
    show "gbID b = gbID b'" if "b \<in> set (dbGroupBindings t)" "b' \<in> set (dbGroupBindings t)" "live_group b" "live_group b'"
      "gbGroupID b = gbGroupID b' \<or> gbConnectionID b = gbConnectionID b' \<and> gbNormalizedDisplayName b = gbNormalizedDisplayName b'" for b b'
      by (rule bindings_okD(4)[OF ok(1) live[OF that(1,3)] live[OF that(2,4)] that(3-5)])
  qed
  moreover have "members_ok t" using ok(2) members live unfolding members_ok_def by auto
  ultimately show ?thesis by (simp add: groups_ok_def)
qed

lemma delete_keeps:
  assumes "groups_ok s" "DeleteSCIMGroup conn scimID now s = Inr (t, d)"
  shows "groups_ok t"
proof -
  have ok: "bindings_ok s" "members_ok s" using assms(1) by (simp_all add: groups_ok_def)
  obtain conn' where conn: "connection_tx s (scID conn) = Inr conn'" using assms(2) by (auto simp: DeleteSCIMGroup_def bind_ok_Inr)
  obtain b0 where found: "find (\<lambda>b. gbID b = scimID \<and> gbConnectionID b = scID conn' \<and> live_group b) (dbGroupBindings s) = Some b0"
    using assms(2) by (auto simp: DeleteSCIMGroup_def conn split: option.splits)
  have b0: "b0 \<in> set (dbGroupBindings s)" "gbID b0 = scimID" "live_group b0"
    using found by (auto simp: find_Some_iff)
  let ?s = "update_binding scimID (\<lambda>b. b\<lparr>gbRetiredAt := Some now, gbUpdatedAt := now\<rparr>) s"
  let ?w = "replaceGroupMembershipsTx (gbGroupID b0) [] ?s"
  let ?r = "recordMembershipReconcileEventsTx (snd ?w) (fst ?w)"
  have t: "t = (if scState conn' = SCIMConnectionStateEnforced then deleteSCIMGroupTx conn' (gbGroupID b0) now ?r else ?r)"
    using assms(2) by (cases "scState conn'") (simp_all add: DeleteSCIMGroup_def conn found Let_def set_members_def case_prod_unfold)
  have d: "distinct (dbMemberships ?s)" using ok(2) by (simp add: members_ok_def)
  have r: "set (dbMemberships ?r) \<subseteq> set (dbMemberships s)" "distinct (dbMemberships ?r)" using written_members[OF d, of "gbGroupID b0" "[]"] by auto
  have bindings: "dbGroupBindings t = dbGroupBindings ?s" "dbUserBindings t = dbUserBindings s"
    by (simp_all add: t deleteSCIMGroupTx_def deleteGroupsTx_def Let_def)
  have groups: "set (dbGroups t) \<supseteq> {g \<in> set (dbGroups s). grpID g \<noteq> gbGroupID b0}" "distinct (map grpID (dbGroups t))"
    using bindings_okD(2)[OF ok(1)] by (auto simp: t deleteSCIMGroupTx_def deleteGroupsTx_def Let_def distinct_map_filter)
  have members: "set (dbMemberships t) \<subseteq> set (dbMemberships s)" "distinct (dbMemberships t)"
    using r by (auto simp: t deleteSCIMGroupTx_def deleteGroupsTx_def Let_def)
  have live: "b \<in> set (dbGroupBindings s) \<and> gbID b \<noteq> scimID" if "b \<in> set (dbGroupBindings t)" "live_group b" for b
    using that by (auto simp: bindings live_group_def)
  show ?thesis
  proof (rule groups_ok_retire[OF assms(1)])
    show "g \<in> set (dbGroups t)" if b: "b \<in> set (dbGroupBindings t)" "live_group b" "g \<in> set (dbGroups s)" "grpID g = gbGroupID b" for b g
    proof -
      have "gbGroupID b \<noteq> gbGroupID b0"
      proof
        assume same: "gbGroupID b = gbGroupID b0"
        from live[OF b(1,2)] have b': "b \<in> set (dbGroupBindings s)" "gbID b \<noteq> scimID" by simp_all
        from bindings_okD(4)[OF ok(1) b'(1) b0(1) b(2) b0(3) disjI1[OF same]] b'(2) b0(2) show False by simp
      qed
      with b(3,4) groups(1) show ?thesis by auto
    qed
    show "map gbID (dbGroupBindings t) = map gbID (dbGroupBindings s)" unfolding bindings by (rule distinct_update) simp
    show "b \<in> set (dbGroupBindings s)" if "b \<in> set (dbGroupBindings t)" "live_group b" for b using live[OF that] by simp
  qed (fact groups(2) members bindings(2))+
qed

section \<open>Every state the operations reach\<close>

text \<open>The operations that write; one that fails is rolled back and writes nothing.\<close>

inductive group_step :: "scim_env \<Rightarrow> db \<Rightarrow> db \<Rightarrow> bool" for env where
  create: "CreateSCIMGroup env conn inp newID now s = Inr (t, delivered, read) \<Longrightarrow> group_step env s t"
| update: "UpdateSCIMGroup env conn scimID mutate now s = Inr (t, delivered) \<Longrightarrow> group_step env s t"
| patch: "PatchSCIMGroup env conn scimID p now s = Inr (t, delivered) \<Longrightarrow> group_step env s t"
| delete: "DeleteSCIMGroup conn scimID now s = Inr (t, delivered) \<Longrightarrow> group_step env s t"
| claim: "ClaimSCIMGroupSubjectCleanups limit now s = (t, due) \<Longrightarrow> group_step env s t"
| complete: "CompleteSCIMGroupSubjectCleanup groupID s = t \<Longrightarrow> group_step env s t"
| fail: "FailSCIMGroupSubjectCleanup groupID cause s = t \<Longrightarrow> group_step env s t"

lemma cleanup_keeps:
  "groups_ok (fst (ClaimSCIMGroupSubjectCleanups limit now s)) = groups_ok s" "groups_ok (CompleteSCIMGroupSubjectCleanup groupID s) = groups_ok s"
  "groups_ok (FailSCIMGroupSubjectCleanup groupID cause s) = groups_ok s"
  by (simp_all add: groups_ok_def bindings_ok_def members_ok_def ClaimSCIMGroupSubjectCleanups_def CompleteSCIMGroupSubjectCleanup_def
      FailSCIMGroupSubjectCleanup_def Let_def)

lemma group_step_keeps: "group_step env s t \<Longrightarrow> groups_ok s \<Longrightarrow> groups_ok t"
proof (induction rule: group_step.induct)
  case (claim limit now s t due)
  then show ?case using cleanup_keeps(1)[of limit now s] by simp
qed (auto intro: create_keeps update_keeps patch_keeps delete_keeps simp: cleanup_keeps)

interpretation groups: invariant_steps "group_step env" groups_ok for env
  by unfold_locales (rule group_step_keeps)

text \<open>
  C17: Whatever operations an identity provider sends, in whatever order, each SCIM group stays bound to exactly one group,
  which exists and bears its name; names stay unique in the connection; and the group's members stay users that
  the same connection has provisioned and not retired.
\<close>

theorem reachable_groups_ok:
  assumes "bindings_ok s" "members_ok s" "(group_step env)\<^sup>*\<^sup>* s t"
  shows "bindings_ok t \<and> members_ok t"
  using groups.reachable_keeps[OF assms(3)] assms(1,2) by (simp add: groups_ok_def)

theorem reachable_groups_ok_witness:
  "\<exists>t d u e. PatchSCIMGroup sample_env sample_connection ''g1'' sample_plan 5 sample_db = Inr (t, d)
    \<and> DeleteSCIMGroup sample_connection ''g1'' 6 t = Inr (u, e) \<and> bindings_ok u \<and> members_ok u \<and> dbMemberships u = []"
proof -
  have "case PatchSCIMGroup sample_env sample_connection ''g1'' sample_plan 5 sample_db of Inl _ \<Rightarrow> False
      | Inr (t, d) \<Rightarrow> (case DeleteSCIMGroup sample_connection ''g1'' 6 t of Inl _ \<Rightarrow> False | Inr (u, e) \<Rightarrow> dbMemberships u = [])"
    by code_simp
  then obtain t d u e where run: "PatchSCIMGroup sample_env sample_connection ''g1'' sample_plan 5 sample_db = Inr (t, d)"
    "DeleteSCIMGroup sample_connection ''g1'' 6 t = Inr (u, e)" "dbMemberships u = []"
    by (auto split: sum.splits)
  have "(group_step sample_env)\<^sup>*\<^sup>* sample_db u"
    using group_step.patch[OF run(1)] group_step.delete[OF run(2), of sample_env] by (meson converse_rtranclp_into_rtranclp rtranclp.rtrancl_refl)
  moreover have "bindings_ok sample_db" by code_simp
  moreover have "members_ok sample_db" by (auto simp: members_ok_def sample_db_def sample_user_binding_def live_user_def)
  ultimately have "bindings_ok u \<and> members_ok u" by (intro reachable_groups_ok[of sample_db sample_env u])
  with run show ?thesis by blast
qed

end
