(* ===== verification/Scim_Deletion.thy ===== *)
theory Scim_Deletion
  imports Scim_Connection Scim_Group_Invariant
begin

text \<open>
  The deletion of groups that nothing references (pkg/gateway/client/scimsetup.go, pkg/scim/setup/enable.go). The references live
  in another store, which shares no transaction with the gateway database. A deletion therefore marks the groups, waits for
  the writes of references that may have missed the marks, reads the references again, and deletes the marked groups that
  still have none; writers record their write, check for marks, and only then save. Here the two run concurrently, with other
  deletions, the expiry of marks, the operations on groups, and the removal of the connection. What the code does in one transaction or
  one query is one step; the check of a writer runs outside a transaction and is a step for each query, and the references are
  read one kind of object at a time.
\<close>

section \<open>Marks\<close>

definition scimReferenceWriteLifetime :: nat where
  "scimReferenceWriteLifetime = 60"

definition scimDeletionMarkLifetime :: nat where
  "scimDeletionMarkLifetime = 10 * 60"

definition upsert_mark :: "SCIMPendingGroupDeletion \<Rightarrow> SCIMPendingGroupDeletion list \<Rightarrow> SCIMPendingGroupDeletion list" where
  "upsert_mark m marks =
    (if pdGroupID m \<in> pdGroupID ` set marks
     then map (\<lambda>x. if pdGroupID x = pdGroupID m then x\<lparr>pdRunID := pdRunID m, pdCreatedAt := pdCreatedAt m\<rparr> else x) marks
     else marks @ [m])"

definition MarkUnreferencedSCIMGroups :: "SCIMConnection \<Rightarrow> string set \<Rightarrow> string \<Rightarrow> nat \<Rightarrow> db \<Rightarrow> (db \<times> string list) store_result" where
  "MarkUnreferencedSCIMGroups conn referenced runID now s =
    bind_ok (connection_tx s (scID conn)) (\<lambda>conn.
      let groups = filter (\<lambda>g. \<not> (pgID g \<in> referenced \<or> pgSCIMID g \<noteq> [])) (scimProviderGroupsTx s (scNamespace conn) (scName conn));
          marks = map (\<lambda>g. \<lparr>pdGroupID = pgID g, pdConnectionID = scID conn, pdRunID = runID, pdCreatedAt = now\<rparr>) groups
      in Inr (s\<lparr>dbPendingDeletions := fold upsert_mark marks (dbPendingDeletions s)\<rparr>, map pgID groups))"

definition expireSCIMGroupDeletionMarks :: "nat \<Rightarrow> db \<Rightarrow> db" where
  "expireSCIMGroupDeletionMarks now s =
    s\<lparr>dbPendingDeletions := filter (\<lambda>m. \<not> pdCreatedAt m + scimDeletionMarkLifetime < now) (dbPendingDeletions s)\<rparr>"

definition otherSCIMGroupDeletionMarksTx :: "db \<Rightarrow> string \<Rightarrow> string \<Rightarrow> nat \<Rightarrow> bool" where
  "otherSCIMGroupDeletionMarksTx s connectionID runID now =
    list_ex (\<lambda>m. pdConnectionID m = connectionID \<and> pdRunID m \<noteq> runID \<and> now \<le> pdCreatedAt m + scimDeletionMarkLifetime) (dbPendingDeletions s)"

definition SCIMGroupDeletionInProgress :: "db \<Rightarrow> string \<Rightarrow> nat \<Rightarrow> bool" where
  "SCIMGroupDeletionInProgress s connectionID now = otherSCIMGroupDeletionMarksTx s connectionID [] now"

definition clearSCIMGroupDeletionMarksTx :: "string \<Rightarrow> string \<Rightarrow> db \<Rightarrow> db" where
  "clearSCIMGroupDeletionMarksTx connectionID runID s =
    s\<lparr>dbPendingDeletions := filter (\<lambda>m. \<not> (pdConnectionID m = connectionID \<and> pdRunID m = runID)) (dbPendingDeletions s)\<rparr>"

definition finishSCIMGroupDeletionTx :: "SCIMConnection \<Rightarrow> string \<Rightarrow> string set \<Rightarrow> db \<Rightarrow> db \<times> string list" where
  "finishSCIMGroupDeletionTx conn runID referenced s =
    (let s = s\<lparr>dbPendingDeletions := filter (\<lambda>m. \<not> (pdConnectionID m = scID conn \<and> pdGroupID m \<in> referenced)) (dbPendingDeletions s)\<rparr>;
         groups = scimProviderGroupsTx s (scNamespace conn) (scName conn);
         deleted = map pgID (filter (\<lambda>g. \<not> (\<not> pgPendingDeletion g \<or> pgPendingRunID g \<noteq> runID \<or> runID = [] \<or> pgSCIMID g \<noteq> [])
                                         \<and> pgID g \<notin> referenced) groups);
         s = deleteGroupsTx conn deleted s
     in (clearSCIMGroupDeletionMarksTx (scID conn) runID s, deleted))"

definition DeleteMarkedSCIMGroups :: "string \<Rightarrow> string \<Rightarrow> string set \<Rightarrow> db \<Rightarrow> (db \<times> string list) store_result" where
  "DeleteMarkedSCIMGroups connectionID runID referenced s =
    bind_ok (connection_tx s connectionID) (\<lambda>conn. Inr (finishSCIMGroupDeletionTx conn runID referenced s))"

section \<open>Writes of references\<close>

text \<open>The parts of \<open>WithNewSCIMGroupReferences\<close>: the record of the write, the check, and the removal of the record.\<close>

definition record_reference_write :: "string \<Rightarrow> nat \<Rightarrow> db \<Rightarrow> db" where
  "record_reference_write writeID now s =
    s\<lparr>dbReferenceWrites := dbReferenceWrites s @ [\<lparr>rwID = writeID, rwExpiresAt = now + scimReferenceWriteLifetime\<rparr>]\<rparr>"

definition remove_reference_write :: "string \<Rightarrow> db \<Rightarrow> db" where
  "remove_reference_write writeID s = s\<lparr>dbReferenceWrites := filter (\<lambda>w. rwID w \<noteq> writeID) (dbReferenceWrites s)\<rparr>"

definition scimMemberBatchSize :: nat where
  "scimMemberBatchSize = 500"

text \<open>\<open>slices.Chunk\<close>.\<close>

fun Chunk :: "nat \<Rightarrow> 'a list \<Rightarrow> 'a list list" where
  "Chunk n [] = []"
| "Chunk n (x # xs) = (if n = 0 then [] else (x # take (n - 1) xs) # Chunk n (drop (n - 1) xs))"

definition reference_candidates :: "string list \<Rightarrow> SCIMConnection \<Rightarrow> string list" where
  "reference_candidates groupIDs conn =
    add_unseen (\<lambda>i. i) [] (filter (\<lambda>i. scGroupIDPrefix conn \<noteq> [] \<and> HasPrefix i (scGroupIDPrefix conn)) groupIDs)"

text \<open>The two queries on a batch of group identifiers: the groups of the provider, and the marks of the connection.\<close>

definition existing_groups :: "db \<Rightarrow> SCIMConnection \<Rightarrow> string list \<Rightarrow> string set" where
  "existing_groups s conn batch =
    grpID ` set (filter (\<lambda>g. grpNamespace g = scNamespace conn \<and> grpAuthProviderName g = scName conn \<and> grpID g \<in> set batch) (dbGroups s))"

definition pending_groups :: "db \<Rightarrow> SCIMConnection \<Rightarrow> string list \<Rightarrow> string set" where
  "pending_groups s conn batch = pdGroupID ` set (filter (\<lambda>m. pdConnectionID m = scID conn \<and> pdGroupID m \<in> set batch) (dbPendingDeletions s))"

definition reference_problems :: "string list \<Rightarrow> SCIMConnection \<Rightarrow> string set \<Rightarrow> string set \<Rightarrow> string list \<times> string list" where
  "reference_problems groupIDs conn existing pending =
    (let candidates = reference_candidates groupIDs conn
     in (filter (\<lambda>i. i \<notin> existing) candidates, filter (\<lambda>i. i \<in> existing \<and> i \<in> pending) candidates))"

text \<open>
  Where a check stands: it has yet to list the connections; to read the groups, or then the marks, of a batch, for a connection, with the connections and
  batches that remain and what it has found; or it has its answer.
\<close>

datatype reference_check =
    ListConnections
  | ReadGroups SCIMConnection "SCIMConnection list" "string list" "string list list" "string set" "string set"
  | ReadMarks SCIMConnection "SCIMConnection list" "string list" "string list list" "string set" "string set"
  | Answered "unit store_result"

fun next_connection :: "string list \<Rightarrow> SCIMConnection list \<Rightarrow> reference_check" where
  "next_connection groupIDs [] = Answered (Inr ())"
| "next_connection groupIDs (conn # conns) =
    (case Chunk scimMemberBatchSize (reference_candidates groupIDs conn) of
       [] \<Rightarrow> next_connection groupIDs conns
     | batch # batches \<Rightarrow> ReadGroups conn conns batch batches {} {})"

fun next_batch ::
  "string list \<Rightarrow> SCIMConnection \<Rightarrow> SCIMConnection list \<Rightarrow> string list list \<Rightarrow> string set \<Rightarrow> string set \<Rightarrow> reference_check" where
  "next_batch groupIDs conn conns (batch # batches) existing pending = ReadGroups conn conns batch batches existing pending"
| "next_batch groupIDs conn conns [] existing pending =
    (case reference_problems groupIDs conn existing pending of (missing, pendingDeletion) \<Rightarrow>
       if missing \<noteq> [] \<or> pendingDeletion \<noteq> [] then Answered (Inl (SCIMGroupReferenceError missing pendingDeletion))
       else next_connection groupIDs conns)"

text \<open>The next query of a check, on the tables as they are then.\<close>

fun check_query :: "string list \<Rightarrow> db \<Rightarrow> reference_check \<Rightarrow> reference_check" where
  "check_query groupIDs s ListConnections = next_connection groupIDs (dbConnections s)"
| "check_query groupIDs s (ReadGroups conn conns batch batches existing pending) =
    ReadMarks conn conns batch batches (existing \<union> existing_groups s conn batch) pending"
| "check_query groupIDs s (ReadMarks conn conns batch batches existing pending) =
    next_batch groupIDs conn conns batches existing (pending \<union> pending_groups s conn batch)"
| "check_query groupIDs s (Answered r) = Answered r"

text \<open>The whole check on tables that do not change meanwhile.\<close>

fun check_references :: "db \<Rightarrow> string list \<Rightarrow> SCIMConnection list \<Rightarrow> unit store_result" where
  "check_references s groupIDs [] = Inr ()"
| "check_references s groupIDs (conn # conns) =
    (let candidates = reference_candidates groupIDs conn
     in case reference_problems groupIDs conn (existing_groups s conn candidates) (pending_groups s conn candidates) of (missing, pending) \<Rightarrow>
       if missing \<noteq> [] \<or> pending \<noteq> [] then Inl (SCIMGroupReferenceError missing pending) else check_references s groupIDs conns)"

definition checkNewSCIMGroupReferencesTx :: "db \<Rightarrow> string list \<Rightarrow> unit store_result" where
  "checkNewSCIMGroupReferencesTx s groupIDs = check_references s groupIDs (dbConnections s)"

text \<open>The parts of \<open>WaitForSCIMReferenceWrites\<close>: the writes in progress, and those of them that are left at a later time.\<close>

definition expire_reference_writes :: "nat \<Rightarrow> db \<Rightarrow> db" where
  "expire_reference_writes now s = s\<lparr>dbReferenceWrites := filter (\<lambda>w. \<not> rwExpiresAt w < now) (dbReferenceWrites s)\<rparr>"

definition list_reference_writes :: "db \<Rightarrow> string list" where
  "list_reference_writes s = map rwID (dbReferenceWrites s)"

definition poll_reference_writes :: "string list \<Rightarrow> nat \<Rightarrow> db \<Rightarrow> string list" where
  "poll_reference_writes ids now s =
    map rwID (filter (\<lambda>w. rwID w \<in> set ids \<and> now \<le> rwExpiresAt w) (dbReferenceWrites s))"

section \<open>Interleavings\<close>

text \<open>The kinds of objects that reference groups, in the order in which \<open>Find\<close> of pkg/groupref reads them.\<close>

datatype Kind =
    KindAccessControlRule
  | KindModelAccessPolicy
  | KindSkillAccessRule
  | KindMessagePolicy
  | KindVMCPProfile
  | KindMCPGuardrailFilter
  | KindGroupRoleAssignment

definition finder_kinds :: "Kind list" where
  "finder_kinds =
    [KindAccessControlRule, KindModelAccessPolicy, KindSkillAccessRule, KindMessagePolicy, KindVMCPProfile, KindMCPGuardrailFilter,
     KindGroupRoleAssignment]"

text \<open>
  A writer has recorded its write and is at some point of its check. A deletion has marked its groups; waits for writes, since
  a time; or reads the references, with the kinds that it has yet to read and the groups it has found referenced.
\<close>

record writer =
  wrGroups :: "string list"
  wrCheck :: reference_check
  wrExpires :: nat

datatype deletion = Marked | Waiting "string list" nat | Reading "Kind list" "string set"

text \<open>A deletion that marked no group waits for nothing.\<close>

definition after_marking :: "string list \<Rightarrow> nat \<Rightarrow> deletion" where
  "after_marking gids now = (if gids = [] then Waiting [] now else Marked)"

record world =
  wDb :: db
  wRefs :: "(Kind \<times> string) set"
  wClock :: nat
  wWriters :: "string \<Rightarrow> writer option"
  wRuns :: "string \<Rightarrow> deletion option"
  wUsed :: "string set"

text \<open>
  The clock of a step may have been read earlier. Identifiers are new. A writer saves its references, in an object of some kind, within the
  lifetime of its record, as the callers must. Every other change of the references takes some away. A deletion polls the
  writes that it waits for in batches.
\<close>

inductive deletion_step :: "scim_env \<Rightarrow> world \<Rightarrow> world \<Rightarrow> bool" for env where
  tick: "wClock w \<le> now \<Longrightarrow> deletion_step env w (w\<lparr>wClock := now\<rparr>)"
| record_write: "now \<le> wClock w \<Longrightarrow> wid \<notin> wUsed w \<Longrightarrow>
    deletion_step env w (w\<lparr>wDb := record_reference_write wid now (wDb w),
      wWriters := (wWriters w)(wid \<mapsto> \<lparr>wrGroups = gids, wrCheck = ListConnections, wrExpires = now + scimReferenceWriteLifetime\<rparr>),
      wUsed := insert wid (wUsed w)\<rparr>)"
| check_write: "wWriters w wid = Some x \<Longrightarrow>
    deletion_step env w (w\<lparr>wWriters := (wWriters w)(wid \<mapsto> x\<lparr>wrCheck := check_query (wrGroups x) (wDb w) (wrCheck x)\<rparr>)\<rparr>)"
| save_write: "wWriters w wid = Some x \<Longrightarrow> wrCheck x = Answered (Inr ()) \<Longrightarrow> wClock w \<le> wrExpires x \<Longrightarrow>
    deletion_step env w (w\<lparr>wRefs := wRefs w \<union> Pair kind ` set (wrGroups x)\<rparr>)"
| end_write: "deletion_step env w (w\<lparr>wDb := remove_reference_write wid (wDb w), wWriters := (wWriters w)(wid := None)\<rparr>)"
| unreference: "R \<subseteq> wRefs w \<Longrightarrow> deletion_step env w (w\<lparr>wRefs := R\<rparr>)"
| mark: "now \<le> wClock w \<Longrightarrow> run \<notin> wUsed w \<Longrightarrow> MarkUnreferencedSCIMGroups conn referenced run now (wDb w) = Inr (s, gids) \<Longrightarrow>
    deletion_step env w (w\<lparr>wDb := s, wRuns := (wRuns w)(run \<mapsto> after_marking gids (wClock w)), wUsed := insert run (wUsed w)\<rparr>)"
| expire_writes: "now \<le> wClock w \<Longrightarrow> deletion_step env w (w\<lparr>wDb := expire_reference_writes now (wDb w)\<rparr>)"
| list_writes: "wRuns w run = Some Marked \<Longrightarrow>
    deletion_step env w (w\<lparr>wRuns := (wRuns w)(run \<mapsto> Waiting (list_reference_writes (wDb w)) (wClock w))\<rparr>)"
| poll: "wRuns w run = Some (Waiting (polled @ batch @ unpolled) since) \<Longrightarrow> now \<le> wClock w \<Longrightarrow>
    deletion_step env w (w\<lparr>wRuns := (wRuns w)(run \<mapsto> Waiting (polled @ poll_reference_writes batch now (wDb w) @ unpolled) since)\<rparr>)"
| read_references: "wRuns w run = Some (Waiting [] since) \<Longrightarrow> deletion_step env w (w\<lparr>wRuns := (wRuns w)(run \<mapsto> Reading finder_kinds {})\<rparr>)"
| read_kind: "wRuns w run = Some (Reading (kind # kinds) R) \<Longrightarrow>
    deletion_step env w (w\<lparr>wRuns := (wRuns w)(run \<mapsto> Reading kinds (R \<union> {g. (kind, g) \<in> wRefs w}))\<rparr>)"
| finish: "wRuns w run = Some (Reading [] R) \<Longrightarrow> DeleteMarkedSCIMGroups cid run R (wDb w) = Inr (s, deleted) \<Longrightarrow>
    deletion_step env w (w\<lparr>wDb := s, wRuns := (wRuns w)(run := None)\<rparr>)"
| abandon: "deletion_step env w (w\<lparr>wDb := clearSCIMGroupDeletionMarksTx cid run (wDb w), wRuns := (wRuns w)(run := None)\<rparr>)"
| expire: "now \<le> wClock w \<Longrightarrow> deletion_step env w (w\<lparr>wDb := expireSCIMGroupDeletionMarks now (wDb w)\<rparr>)"
| group: "group_step env (wDb w) s \<Longrightarrow> deletion_step env w (w\<lparr>wDb := s\<rparr>)"
| disconnect: "deleteSCIMConnection namespace name allowed (wDb w) = Inr (s, d) \<Longrightarrow> deletion_step env w (w\<lparr>wDb := s\<rparr>)"

section \<open>Invariant\<close>

text \<open>The groups of the connection's provider have its prefix.\<close>

definition prefixed :: "db \<Rightarrow> bool" where
  "prefixed s \<longleftrightarrow> length (dbConnections s) \<le> 1 \<and>
    (\<forall>c\<in>set (dbConnections s). scGroupIDPrefix c \<noteq> [] \<and>
      (\<forall>g\<in>set (dbGroups s). grpNamespace g = scNamespace c \<and> grpAuthProviderName g = scName c \<longrightarrow> HasPrefix (grpID g) (scGroupIDPrefix c)))"

text \<open>Marks are of groups with the prefix of their connection, one for each group.\<close>

definition marks_checked :: "db \<Rightarrow> bool" where
  "marks_checked s \<longleftrightarrow>
    (\<forall>m\<in>set (dbPendingDeletions s). \<exists>c\<in>set (dbConnections s). scID c = pdConnectionID m
      \<and> scGroupIDPrefix c \<noteq> [] \<and> HasPrefix (pdGroupID m) (scGroupIDPrefix c))
    \<and> (\<forall>m\<in>set (dbPendingDeletions s). \<forall>m'\<in>set (dbPendingDeletions s). pdGroupID m = pdGroupID m' \<longrightarrow> m = m')"

definition writers_recorded :: "world \<Rightarrow> bool" where
  "writers_recorded w \<longleftrightarrow>
    (\<forall>wid x. wWriters w wid = Some x \<longrightarrow> wid \<in> wUsed w
      \<and> (wClock w \<le> wrExpires x \<longrightarrow> \<lparr>rwID = wid, rwExpiresAt = wrExpires x\<rparr> \<in> set (dbReferenceWrites (wDb w))))
    \<and> (\<forall>x\<in>set (dbReferenceWrites (wDb w)). rwID x \<in> wUsed w \<and> rwExpiresAt x \<le> wClock w + scimReferenceWriteLifetime)"

text \<open>A check in progress is of the one connection there is, and reads no group twice.\<close>

definition batches_ok :: "string list \<Rightarrow> string list list \<Rightarrow> string set \<Rightarrow> string set \<Rightarrow> bool" where
  "batches_ok gids batches existing pending \<longleftrightarrow>
    [] \<notin> set batches \<and> distinct (concat batches) \<and> set (concat batches) \<union> existing \<union> pending \<subseteq> set gids
    \<and> existing \<inter> set (concat batches) = {} \<and> pending \<inter> set (concat batches) = {}"

fun check_ok :: "db \<Rightarrow> string list \<Rightarrow> reference_check \<Rightarrow> bool" where
  "check_ok s gids (ReadGroups conn conns batch batches existing pending) \<longleftrightarrow>
    conns = [] \<and> set (dbConnections s) \<subseteq> {conn} \<and> batches_ok gids (batch # batches) existing pending"
| "check_ok s gids (ReadMarks conn conns batch batches existing pending) \<longleftrightarrow>
    conns = [] \<and> set (dbConnections s) \<subseteq> {conn} \<and> batches_ok gids (batch # batches) (existing - set batch) pending \<and> existing \<subseteq> set gids"
| "check_ok s gids _ \<longleftrightarrow> True"

text \<open>A check that has found a mark of the group, or has yet to look for one, or was refused.\<close>

fun heeds :: "string \<Rightarrow> reference_check \<Rightarrow> bool" where
  "heeds g ListConnections \<longleftrightarrow> True"
| "heeds g (ReadGroups conn conns batch batches existing pending) \<longleftrightarrow> g \<in> set batch \<or> g \<in> set (concat batches) \<or> g \<in> pending"
| "heeds g (ReadMarks conn conns batch batches existing pending) \<longleftrightarrow> g \<in> set batch \<or> g \<in> set (concat batches) \<or> g \<in> pending"
| "heeds g (Answered r) \<longleftrightarrow> r \<noteq> Inr ()"

text \<open>A writer that may save a reference to the group whatever marks it has now.\<close>

definition may_save :: "world \<Rightarrow> string \<Rightarrow> string \<Rightarrow> bool" where
  "may_save w wid g \<longleftrightarrow> (\<exists>x. wWriters w wid = Some x \<and> wClock w \<le> wrExpires x \<and> g \<in> set (wrGroups x) \<and> \<not> heeds g (wrCheck x))"

definition deletion_ok :: "world \<Rightarrow> string \<Rightarrow> deletion \<Rightarrow> bool" where
  "deletion_ok w run x \<longleftrightarrow> (case x of
     Marked \<Rightarrow> True
   | Waiting ids since \<Rightarrow>
       since \<le> wClock w \<and> set ids \<subseteq> wUsed w
       \<and> (\<forall>rw\<in>set (dbReferenceWrites (wDb w)). rwID rw \<in> set ids \<longrightarrow> rwExpiresAt rw \<le> since + scimReferenceWriteLifetime)
       \<and> (\<forall>m\<in>set (dbPendingDeletions (wDb w)). pdRunID m = run \<longrightarrow> (\<forall>wid. may_save w wid (pdGroupID m) \<longrightarrow> wid \<in> set ids))
   | Reading kinds R \<Rightarrow>
       \<forall>m\<in>set (dbPendingDeletions (wDb w)). pdRunID m = run \<longrightarrow>
         (\<forall>wid. \<not> may_save w wid (pdGroupID m)) \<and> (\<forall>kind. (kind, pdGroupID m) \<in> wRefs w \<longrightarrow> kind \<in> set kinds \<or> pdGroupID m \<in> R))"

definition world_ok :: "world \<Rightarrow> bool" where
  "world_ok w \<longleftrightarrow>
    prefixed (wDb w) \<and> marks_checked (wDb w) \<and> writers_recorded w
    \<and> (\<forall>m\<in>set (dbPendingDeletions (wDb w)). pdRunID m \<in> wUsed w)
    \<and> (\<forall>run x. wRuns w run = Some x \<longrightarrow> run \<in> wUsed w \<and> deletion_ok w run x)
    \<and> (\<forall>wid x. wWriters w wid = Some x \<longrightarrow> check_ok (wDb w) (wrGroups x) (wrCheck x))"

section \<open>What the operations on groups leave\<close>

text \<open>A group of the tables after an operation: it was there under the same identifier, or it is a new one of a connection.\<close>

definition known_group :: "db \<Rightarrow> Group \<Rightarrow> bool" where
  "known_group s g \<longleftrightarrow>
    (\<exists>g'\<in>set (dbGroups s). grpID g' = grpID g \<and> grpNamespace g' = grpNamespace g \<and> grpAuthProviderName g' = grpAuthProviderName g)
    \<or> (\<exists>c\<in>set (dbConnections s). grpNamespace g = scNamespace c \<and> grpAuthProviderName g = scName c \<and> HasPrefix (grpID g) (scGroupIDPrefix c))"

definition group_frame :: "db \<Rightarrow> db \<Rightarrow> bool" where
  "group_frame s t \<longleftrightarrow> dbReferenceWrites t = dbReferenceWrites s \<and> dbConnections t = dbConnections s
    \<and> set (dbPendingDeletions t) \<subseteq> set (dbPendingDeletions s) \<and> (\<forall>g\<in>set (dbGroups t). known_group s g)"

lemma group_frame_refl: "group_frame s s"
  by (auto simp: group_frame_def known_group_def)

lemma known_group_renamed: "known_group s (g\<lparr>grpName := n\<rparr>) = known_group s g"
  by (simp add: known_group_def)

lemma group_frame_blocks:
  assumes "group_frame s t"
  shows "group_frame s (renameGroupTx g n t)" "group_frame s (update_binding i f t)" "group_frame s (writeGroupMembershipChangesTx g changes t)"
    "group_frame s (recordMembershipReconcileEventsTx changes t)" "group_frame s (deleteSCIMGroupTx conn g now t)"
    "group_frame s (t\<lparr>dbGroupBindings := bs\<rparr>)" "group_frame s (t\<lparr>dbCleanups := cs\<rparr>)"
  using assms
  by (auto simp: group_frame_def renameGroupTx_def update_binding_def writeGroupMembershipChangesTx_def recordMembershipReconcileEventsTx_def
      deleteSCIMGroupTx_def deleteGroupsTx_def known_group_renamed Let_def split: if_splits)

lemma group_frame_members:
  assumes "group_frame s t"
  shows "group_frame s (fst (replaceGroupMembershipsTx g us t))" "group_frame s (fst (changeGroupMembershipsTx g added removed t))"
    "group_frame s (fst (set_members g us t))" "patch_members c g p t = Inr (t', ch) \<Longrightarrow> group_frame s t'"
  using assms
  by (auto simp: replaceGroupMembershipsTx_def changeGroupMembershipsTx_def set_members_def patch_members_def Let_def bind_ok_Inr
      intro: group_frame_blocks split: if_splits)

lemma known_groups:
  "g \<in> set (dbGroups s) \<Longrightarrow> known_group s g"
  "c \<in> set (dbConnections s) \<Longrightarrow> known_group s \<lparr>grpID = scGroupIDPrefix c @ x, grpNamespace = scNamespace c, grpAuthProviderName = scName c, grpName = n\<rparr>"
  by (fastforce simp: known_group_def HasPrefix_append)+

lemma bind_group_frame:
  assumes "conn \<in> set (dbConnections s)" "bind_group conn n d newID s = Inr (t, gid, origin)"
  shows "group_frame s t"
proof (cases "unboundGroupsNamedTx s conn n")
  case Nil
  with assms show ?thesis
    by (auto simp: bind_group_def add_group_def Let_def NewGroupID_def group_frame_def intro: known_groups split: if_splits)
next
  case (Cons g gs)
  with assms show ?thesis
    by (cases gs) (auto simp: bind_group_def intro: group_frame_blocks(1) group_frame_refl split: if_splits)
qed

lemma update_frame:
  assumes "UpdateSCIMGroup env conn scimID mutate now s = Inr (t, d)"
  shows "group_frame s t"
proof (rule update_written[OF assms])
  fix cur us w r and inp :: SCIMGroupInput
  assume w: "w = replaceGroupMembershipsTx (sgGroupID cur) us
      (if giDisplayName inp \<noteq> sgDisplayName cur then renameGroupTx (sgGroupID cur) (giDisplayName inp) s else s)"
    and r: "r = recordMembershipReconcileEventsTx (snd w) (fst w)"
    and t: "t = (if giDisplayName inp \<noteq> sgDisplayName cur \<or> snd w \<noteq> []
      then update_binding scimID (\<lambda>b. b\<lparr>gbNormalizedDisplayName := NormalizeSCIMGroupName (giDisplayName inp),
        gbRevision := gbRevision b + 1, gbUpdatedAt := now\<rparr>) r else r)"
  have "group_frame s (fst w)" unfolding w by (rule group_frame_members(1)) (simp add: group_frame_refl group_frame_blocks(1))
  then have "group_frame s r" unfolding r by (rule group_frame_blocks(4))
  then show ?thesis by (simp add: t group_frame_blocks(2))
qed

lemma patch_frame: "PatchSCIMGroup env conn scimID p now s = Inr (t, d) \<Longrightarrow> group_frame s t"
  by (auto simp: PatchSCIMGroup_def bind_ok_Inr Let_def split: if_splits
      intro!: group_frame_blocks group_frame_refl elim!: group_frame_members(4)[rotated])

lemma delete_frame: "DeleteSCIMGroup conn scimID now s = Inr (t, d) \<Longrightarrow> group_frame s t"
  by (auto simp: DeleteSCIMGroup_def bind_ok_Inr Let_def case_prod_unfold split: option.splits if_splits
      intro!: group_frame_blocks group_frame_members(1-3) group_frame_refl)

lemma connection_tx_set: "connection_tx s cid = Inr c \<Longrightarrow> c \<in> set (dbConnections s) \<and> scID c = cid"
  by (auto simp: connection_tx_def find_Some_iff split: option.splits)

lemma create_frame:
  assumes "CreateSCIMGroup env conn inp newID now s = Inr (t, d, r)"
  shows "group_frame s t"
  using assms
  by (auto simp: CreateSCIMGroup_def bind_ok_Inr Let_def case_prod_unfold add_binding_def split: if_splits
      dest!: connection_tx_set intro!: group_frame_blocks group_frame_members(1-3) intro: bind_group_frame)

lemma group_step_frame: "group_step env s t \<Longrightarrow> group_frame s t"
  by (induction rule: group_step.induct)
    (auto intro: create_frame update_frame patch_frame delete_frame simp: ClaimSCIMGroupSubjectCleanups_def CompleteSCIMGroupSubjectCleanup_def
      FailSCIMGroupSubjectCleanup_def Let_def intro!: group_frame_blocks(7) group_frame_refl)

section \<open>The invariant holds\<close>

lemma may_save_simps [simp]:
  "may_save (w\<lparr>wDb := s\<rparr>) = may_save w" "may_save (w\<lparr>wRuns := R\<rparr>) = may_save w" "may_save (w\<lparr>wUsed := U\<rparr>) = may_save w"
  "may_save (w\<lparr>wRefs := F\<rparr>) = may_save w"
  by (auto simp: may_save_def fun_eq_iff)

lemma prefixed_group:
  "prefixed s \<Longrightarrow> c \<in> set (dbConnections s) \<Longrightarrow> g \<in> set (dbGroups s) \<Longrightarrow> grpNamespace g = scNamespace c \<Longrightarrow> grpAuthProviderName g = scName c \<Longrightarrow>
    scGroupIDPrefix c \<noteq> [] \<and> HasPrefix (grpID g) (scGroupIDPrefix c)"
  unfolding prefixed_def by blast

lemma prefixed_frame:
  assumes "group_frame s t" "prefixed s"
  shows "prefixed t"
proof -
  have "HasPrefix (grpID g) (scGroupIDPrefix c)"
    if c: "c \<in> set (dbConnections t)" and g: "g \<in> set (dbGroups t)" "grpNamespace g = scNamespace c" "grpAuthProviderName g = scName c" for c g
  proof -
    have c': "c \<in> set (dbConnections s)" and k: "known_group s g" using assms(1) c g(1) by (auto simp: group_frame_def)
    have only: "c' = c" if "c' \<in> set (dbConnections s)" for c' using assms(2) c' that by (cases "dbConnections s") (auto simp: prefixed_def)
    from k consider (old) g' where "g' \<in> set (dbGroups s)" "grpID g' = grpID g" "grpNamespace g' = grpNamespace g" "grpAuthProviderName g' = grpAuthProviderName g"
      | (new) c' where "c' \<in> set (dbConnections s)" "HasPrefix (grpID g) (scGroupIDPrefix c')"
      by (auto simp: known_group_def)
    then show ?thesis
    proof cases
      case old
      with prefixed_group[OF assms(2) c' old(1)] g(2,3) show ?thesis by simp
    next
      case new
      with only show ?thesis by simp
    qed
  qed
  with assms show ?thesis by (simp add: prefixed_def group_frame_def)
qed

lemma marks_checked_fewer:
  "marks_checked s \<Longrightarrow> dbConnections t = dbConnections s \<Longrightarrow> set (dbPendingDeletions t) \<subseteq> set (dbPendingDeletions s) \<Longrightarrow> marks_checked t"
  by (auto simp: marks_checked_def)

lemma prefixed_fewer:
  "prefixed s \<Longrightarrow> dbConnections t = dbConnections s \<Longrightarrow> set (dbGroups t) \<subseteq> set (dbGroups s) \<Longrightarrow> prefixed t"
  by (auto simp: prefixed_def)

lemma disconnect_tables:
  assumes "deleteSCIMConnection ns name allowed s = Inr (t, d)" "prefixed s" "marks_checked s"
  shows "prefixed t" "marks_checked t" "dbReferenceWrites t = dbReferenceWrites s" "set (dbPendingDeletions t) \<subseteq> set (dbPendingDeletions s)"
    "set (dbConnections t) \<subseteq> set (dbConnections s)"
proof -
  consider "t = s" | c where "t = deleteSCIMConnectionTx c s"
    using assms(1) by (auto simp: deleteSCIMConnection_def bind_ok_Inr split: option.splits if_splits)
  then have "prefixed t \<and> marks_checked t \<and> dbReferenceWrites t = dbReferenceWrites s \<and> set (dbPendingDeletions t) \<subseteq> set (dbPendingDeletions s)
      \<and> set (dbConnections t) \<subseteq> set (dbConnections s)"
  proof cases
    case 1
    with assms(2,3) show ?thesis by simp
  next
    case (2 c)
    then show ?thesis
      using assms(2,3) by (fastforce simp: prefixed_def marks_checked_def deleteSCIMConnectionTx_def deleteAuthProviderGroupDataTx_def Let_def
          intro: le_trans[OF length_filter_le])
  qed
  then show "prefixed t" "marks_checked t" "dbReferenceWrites t = dbReferenceWrites s" "set (dbPendingDeletions t) \<subseteq> set (dbPendingDeletions s)"
    "set (dbConnections t) \<subseteq> set (dbConnections s)"
    by simp_all
qed

section \<open>The check by its queries\<close>

lemma concat_Chunk: "0 < n \<Longrightarrow> concat (Chunk n xs) = xs"
  by (induction n xs rule: Chunk.induct) auto

lemma Chunk_nonempty: "[] \<notin> set (Chunk n xs)"
  by (induction n xs rule: Chunk.induct) auto

lemma candidates_distinct: "distinct (reference_candidates gids conn)"
  using distinct_add_unseen[of "\<lambda>i. i" "[]"] by (simp add: reference_candidates_def)

lemma candidates_set: "set (reference_candidates gids conn) = {g \<in> set gids. scGroupIDPrefix conn \<noteq> [] \<and> HasPrefix g (scGroupIDPrefix conn)}"
  using add_unseen_keys[of "\<lambda>i. i" "[]" "filter (\<lambda>i. scGroupIDPrefix conn \<noteq> [] \<and> HasPrefix i (scGroupIDPrefix conn)) gids"]
  by (auto simp: reference_candidates_def)

lemma batches_concat: "concat (Chunk scimMemberBatchSize (reference_candidates gids conn)) = reference_candidates gids conn"
  by (rule concat_Chunk) (simp add: scimMemberBatchSize_def)

lemma then_queries: "(f ^^ n) x = y \<Longrightarrow> \<exists>m. (f ^^ m) y = z \<Longrightarrow> \<exists>k. (f ^^ k) x = z"
  by (metis comp_apply funpow_add)

lemma batches_alone:
  "\<exists>n. (check_query gids s ^^ n) (next_batch gids conn conns batches existing pending) =
    next_batch gids conn conns [] (existing \<union> existing_groups s conn (concat batches)) (pending \<union> pending_groups s conn (concat batches))"
proof (induction batches arbitrary: existing pending)
  case Nil
  show ?case by (rule exI[of _ 0]) (simp add: existing_groups_def pending_groups_def)
next
  case (Cons b bs)
  have "(check_query gids s ^^ 2) (next_batch gids conn conns (b # bs) existing pending) =
      next_batch gids conn conns bs (existing \<union> existing_groups s conn b) (pending \<union> pending_groups s conn b)"
    by (simp add: numeral_2_eq_2)
  moreover have "existing_groups s conn (b @ concat bs) = existing_groups s conn b \<union> existing_groups s conn (concat bs)"
    "pending_groups s conn (b @ concat bs) = pending_groups s conn b \<union> pending_groups s conn (concat bs)"
    by (auto simp: existing_groups_def pending_groups_def)
  ultimately show ?case
    using Cons.IH[of "existing \<union> existing_groups s conn b" "pending \<union> pending_groups s conn b"] by (auto intro: then_queries simp: Un_assoc)
qed

lemma connections_alone: "\<exists>n. (check_query gids s ^^ n) (next_connection gids conns) = Answered (check_references s gids conns)"
proof (induction conns)
  case Nil
  show ?case by (rule exI[of _ 0]) simp
next
  case (Cons conn conns)
  show ?case
  proof (cases "Chunk scimMemberBatchSize (reference_candidates gids conn)")
    case Nil
    with batches_concat[of gids conn] have "reference_candidates gids conn = []" by simp
    with Nil Cons.IH show ?thesis by (simp add: reference_problems_def)
  next
    case (Cons b bs)
    then have "next_connection gids (conn # conns) = next_batch gids conn conns (b # bs) {} {}" by simp
    then obtain n where n: "(check_query gids s ^^ n) (next_connection gids (conn # conns)) =
        next_batch gids conn conns [] (existing_groups s conn (reference_candidates gids conn)) (pending_groups s conn (reference_candidates gids conn))"
      using batches_alone[of gids s conn conns "b # bs" "{}" "{}"] batches_concat[of gids conn] Cons by auto
    show ?thesis
    proof (rule then_queries[OF n])
      show "\<exists>m. (check_query gids s ^^ m) (next_batch gids conn conns [] (existing_groups s conn (reference_candidates gids conn))
          (pending_groups s conn (reference_candidates gids conn))) = Answered (check_references s gids (conn # conns))"
        using Cons.IH by (auto simp: Let_def split: prod.split intro: exI[of _ 0])
    qed
  qed
qed

text \<open>
  The queries of a check come to an end, and on tables that nothing changes meanwhile they answer for all groups at once: a
  reference is refused exactly when it is of the prefix of a connection and its group does not exist or is marked.
\<close>

theorem check_queries_alone:
  "(\<exists>n. (check_query gids s ^^ n) ListConnections = Answered (checkNewSCIMGroupReferencesTx s gids))
    \<and> (checkNewSCIMGroupReferencesTx s gids = Inr () \<longleftrightarrow>
        (\<forall>conn\<in>set (dbConnections s). \<forall>g\<in>set gids. scGroupIDPrefix conn \<noteq> [] \<and> HasPrefix g (scGroupIDPrefix conn) \<longrightarrow>
          (\<exists>x\<in>set (dbGroups s). grpID x = g \<and> grpNamespace x = scNamespace conn \<and> grpAuthProviderName x = scName conn)
          \<and> (\<forall>m\<in>set (dbPendingDeletions s). pdConnectionID m = scID conn \<longrightarrow> pdGroupID m \<noteq> g)))"
proof (rule conjI)
  obtain n where "(check_query gids s ^^ n) (next_connection gids (dbConnections s)) = Answered (checkNewSCIMGroupReferencesTx s gids)"
    using connections_alone unfolding checkNewSCIMGroupReferencesTx_def by blast
  then show "\<exists>n. (check_query gids s ^^ n) ListConnections = Answered (checkNewSCIMGroupReferencesTx s gids)"
    by (intro exI[of _ "Suc n"]) (simp add: funpow_swap1)
  let ?ok = "\<lambda>conn. \<forall>g\<in>set gids. scGroupIDPrefix conn \<noteq> [] \<and> HasPrefix g (scGroupIDPrefix conn) \<longrightarrow>
      (\<exists>x\<in>set (dbGroups s). grpID x = g \<and> grpNamespace x = scNamespace conn \<and> grpAuthProviderName x = scName conn)
      \<and> (\<forall>m\<in>set (dbPendingDeletions s). pdConnectionID m = scID conn \<longrightarrow> pdGroupID m \<noteq> g)"
  have one: "reference_problems gids conn (existing_groups s conn (reference_candidates gids conn)) (pending_groups s conn (reference_candidates gids conn)) = ([], [])
      \<longleftrightarrow> ?ok conn" for conn
    by (auto simp: reference_problems_def Let_def filter_empty_conv candidates_set existing_groups_def pending_groups_def image_iff)
  have "check_references s gids conns = Inr () \<longleftrightarrow> (\<forall>conn\<in>set conns. ?ok conn)" for conns
    by (induction conns) (auto simp: Let_def one[symmetric] split: prod.splits)
  then show "checkNewSCIMGroupReferencesTx s gids = Inr () \<longleftrightarrow> (\<forall>conn\<in>set (dbConnections s). ?ok conn)"
    by (simp add: checkNewSCIMGroupReferencesTx_def)
qed

section \<open>The check of a marked group\<close>

lemma only_connection: "prefixed s \<Longrightarrow> c \<in> set (dbConnections s) \<Longrightarrow> dbConnections s = [c]"
  by (cases "dbConnections s") (auto simp: prefixed_def)

lemma first_batches:
  assumes "Chunk scimMemberBatchSize (reference_candidates gids conn) = batch # batches"
  shows "batches_ok gids (batch # batches) {} {}" "set batch \<union> set (concat batches) = set (reference_candidates gids conn)"
proof -
  have "reference_candidates gids conn = concat (batch # batches)" using batches_concat[of gids conn] assms by simp
  then show "batches_ok gids (batch # batches) {} {}" "set batch \<union> set (concat batches) = set (reference_candidates gids conn)"
    using candidates_distinct[of gids conn] candidates_set[of gids conn] Chunk_nonempty[of scimMemberBatchSize "reference_candidates gids conn"] assms
    by (auto simp: batches_ok_def)
qed

lemma later_batches:
  "batches_ok gids (batch # batches) (existing - set batch) pending \<Longrightarrow> existing \<subseteq> set gids \<Longrightarrow> found \<subseteq> set batch \<Longrightarrow>
    batches_ok gids batches existing (pending \<union> found)"
  by (auto simp: batches_ok_def simp del: set_concat)

lemma check_query_ok:
  assumes "length (dbConnections s) \<le> 1" "check_ok s gids check"
  shows "check_ok s gids (check_query gids s check)"
proof (cases check)
  case ListConnections
  with assms(1) show ?thesis by (cases "dbConnections s") (auto simp: first_batches(1) split: list.split)
next
  case (ReadGroups conn conns batch batches existing pending)
  then show ?thesis using assms(2) by (auto simp: batches_ok_def existing_groups_def)
next
  case (ReadMarks conn conns batch batches existing pending)
  have "pending_groups s conn batch \<subseteq> set batch" by (auto simp: pending_groups_def)
  with ReadMarks assms(2) later_batches[of gids batch batches existing pending "pending_groups s conn batch"] show ?thesis
    by (cases batches) (auto split: prod.split)
qed simp

text \<open>While a group is marked, a check that heeds the mark goes on to do so.\<close>

lemma heeds_query:
  assumes "prefixed s" "marks_checked s" "check_ok s gids check" "m \<in> set (dbPendingDeletions s)" "pdGroupID m \<in> set gids" "heeds (pdGroupID m) check"
  shows "heeds (pdGroupID m) (check_query gids s check)"
proof -
  obtain c where c: "dbConnections s = [c]" "scID c = pdConnectionID m" "pdGroupID m \<in> set (reference_candidates gids c)"
    using assms(2,4,5) only_connection[OF assms(1)] by (fastforce simp: marks_checked_def candidates_set)
  show ?thesis
  proof (cases check)
    case ListConnections
    show ?thesis
    proof (cases "Chunk scimMemberBatchSize (reference_candidates gids c)")
      case Nil
      with batches_concat[of gids c] c(3) show ?thesis by simp
    next
      case (Cons b bs)
      with first_batches(2)[OF Cons] c(1,3) ListConnections show ?thesis by auto
    qed
  next
    case (ReadGroups conn conns batch batches existing pending)
    with assms(6) show ?thesis by simp
  next
    case (ReadMarks conn conns batch batches existing pending)
    with assms(3) c(1) have [simp]: "conn = c" by simp
    have "pdGroupID m \<in> pending_groups s c batch" if "pdGroupID m \<in> set batch"
      using that assms(4) c(2) by (auto simp: pending_groups_def)
    then show ?thesis
      using assms(6) ReadMarks c(3) by (cases batches) (auto simp: reference_problems_def Let_def filter_empty_conv)
  next
    case (Answered r)
    with assms(6) show ?thesis by simp
  qed
qed

text \<open>
  A check is between its two queries on the group: it has found that the group exists, and has not looked for its mark. Every other check that heeds
  the mark of a group is refused once the group is gone.
\<close>

fun between_queries :: "string \<Rightarrow> reference_check \<Rightarrow> bool" where
  "between_queries g (ReadMarks conn conns batch batches existing pending) \<longleftrightarrow> g \<in> set batch \<and> g \<in> existing"
| "between_queries g _ \<longleftrightarrow> False"

definition gone :: "string \<Rightarrow> db \<Rightarrow> SCIMConnection \<Rightarrow> bool" where
  "gone g s conn \<longleftrightarrow> dbConnections s = [conn]
    \<and> \<not> list_ex (\<lambda>x. grpID x = g \<and> grpNamespace x = scNamespace conn \<and> grpAuthProviderName x = scName conn) (dbGroups s)"

fun doomed :: "string \<Rightarrow> SCIMConnection \<Rightarrow> reference_check \<Rightarrow> bool" where
  "doomed g c ListConnections \<longleftrightarrow> True"
| "doomed g c (ReadGroups conn conns batch batches existing pending) \<longleftrightarrow> conn = c \<and> (g \<in> existing \<longrightarrow> g \<in> pending)"
| "doomed g c (ReadMarks conn conns batch batches existing pending) \<longleftrightarrow> conn = c \<and> (g \<in> existing \<longrightarrow> g \<in> pending)"
| "doomed g c (Answered r) \<longleftrightarrow> r \<noteq> Inr ()"

lemma doomed_query:
  assumes "gone g s c" "g \<in> set (reference_candidates gids c)" "doomed g c check"
  shows "doomed g c (check_query gids s check)"
proof (cases check)
  case ListConnections
  show ?thesis
  proof (cases "Chunk scimMemberBatchSize (reference_candidates gids c)")
    case Nil
    with batches_concat[of gids c] assms(2) show ?thesis by simp
  next
    case (Cons b bs)
    with assms(1) ListConnections show ?thesis by (simp add: gone_def)
  qed
next
  case (ReadGroups conn conns batch batches existing pending)
  with assms(1,3) show ?thesis by (auto simp: gone_def existing_groups_def list_ex_iff)
next
  case (ReadMarks conn conns batch batches existing pending)
  with assms(2,3) show ?thesis by (cases batches) (auto simp: reference_problems_def Let_def filter_empty_conv)
next
  case (Answered r)
  with assms(3) show ?thesis by simp
qed

lemma doomed_refused:
  assumes "\<forall>s\<in>set ts. gone g s c" "g \<in> set (reference_candidates gids c)" "doomed g c check"
  shows "fold (check_query gids) ts check \<noteq> Answered (Inr ())"
proof -
  have "doomed g c (fold (check_query gids) ts check)"
    using assms by (induction ts arbitrary: check) (auto simp: doomed_query)
  then show ?thesis by auto
qed

lemma heeds_doomed:
  assumes "check_ok s gids check" "dbConnections s = [c]" "heeds g check" "\<not> between_queries g check"
  shows "doomed g c check"
  using assms by (cases check) (auto simp: batches_ok_def)

text \<open>Marking keeps the marks of other deletions, apart from those it takes over.\<close>

lemma upserted_marks:
  assumes "\<And>m. m \<in> set ms \<Longrightarrow> P m" "\<And>m. m \<in> set marks \<Longrightarrow> P m"
    "\<And>m x. P x \<Longrightarrow> m \<in> set ms \<Longrightarrow> pdGroupID x = pdGroupID m \<Longrightarrow> P (x\<lparr>pdRunID := pdRunID m, pdCreatedAt := pdCreatedAt m\<rparr>)"
  shows "\<forall>m\<in>set (fold upsert_mark ms marks). P m"
  using assms
proof (induction ms arbitrary: marks)
  case Nil
  then show ?case by simp
next
  case (Cons m ms)
  have "\<And>x. x \<in> set (upsert_mark m marks) \<Longrightarrow> P x" using Cons.prems by (auto simp: upsert_mark_def split: if_splits)
  then show ?case unfolding fold.simps comp_apply by (rule Cons.IH[rotated]) (use Cons.prems(1,3) in auto)
qed

lemma upserted_unique:
  assumes "\<forall>m\<in>set marks. \<forall>m'\<in>set marks. pdGroupID m = pdGroupID m' \<longrightarrow> m = m'"
  shows "\<forall>m\<in>set (fold upsert_mark ms marks). \<forall>m'\<in>set (fold upsert_mark ms marks). pdGroupID m = pdGroupID m' \<longrightarrow> m = m'"
  using assms
proof (induction ms arbitrary: marks)
  case (Cons m ms)
  have "\<forall>x\<in>set (upsert_mark m marks). \<forall>y\<in>set (upsert_mark m marks). pdGroupID x = pdGroupID y \<longrightarrow> x = y"
  proof (cases "pdGroupID m \<in> pdGroupID ` set marks")
    case True
    define f where "f x = (if pdGroupID x = pdGroupID m then x\<lparr>pdRunID := pdRunID m, pdCreatedAt := pdCreatedAt m\<rparr> else x)" for x :: SCIMPendingGroupDeletion
    have "pdGroupID (f x) = pdGroupID x" for x by (simp add: f_def)
    moreover have "set (upsert_mark m marks) = f ` set marks" using True by (simp add: upsert_mark_def f_def[abs_def])
    ultimately show ?thesis using Cons.prems by auto
  next
    case False
    then have "set (upsert_mark m marks) = insert m (set marks)" by (simp add: upsert_mark_def)
    with False Cons.prems show ?thesis by (metis image_eqI insertE)
  qed
  then show ?case using Cons.IH by simp
qed simp

lemma provider_group: "g \<in> set (scimProviderGroupsTx s ns name) \<Longrightarrow>
    \<exists>x\<in>set (dbGroups s). grpID x = pgID g \<and> grpNamespace x = ns \<and> grpAuthProviderName x = name"
  by (auto simp: scimProviderGroupsTx_def)

lemma marked_tables:
  assumes "MarkUnreferencedSCIMGroups conn referenced run now s = Inr (t, gids)" "prefixed s" "marks_checked s"
  shows "prefixed t" "marks_checked t" "dbReferenceWrites t = dbReferenceWrites s"
    "\<And>m. m \<in> set (dbPendingDeletions t) \<Longrightarrow> m \<in> set (dbPendingDeletions s) \<or> pdRunID m = run" "dbConnections t = dbConnections s"
proof -
  obtain c where c: "c \<in> set (dbConnections s)" and t: "t = s\<lparr>dbPendingDeletions := fold upsert_mark
      (map (\<lambda>g. \<lparr>pdGroupID = pgID g, pdConnectionID = scID c, pdRunID = run, pdCreatedAt = now\<rparr>)
        (filter (\<lambda>g. \<not> (pgID g \<in> referenced \<or> pgSCIMID g \<noteq> [])) (scimProviderGroupsTx s (scNamespace c) (scName c)))) (dbPendingDeletions s)\<rparr>"
    using assms(1) by (auto simp: MarkUnreferencedSCIMGroups_def bind_ok_Inr Let_def dest: connection_tx_set)
  let ?checked = "\<lambda>m. \<exists>c\<in>set (dbConnections s). scID c = pdConnectionID m \<and> scGroupIDPrefix c \<noteq> [] \<and> HasPrefix (pdGroupID m) (scGroupIDPrefix c)"
  have new: "\<exists>c'\<in>set (dbConnections s). scID c' = scID c \<and> scGroupIDPrefix c' \<noteq> [] \<and> HasPrefix (pgID g) (scGroupIDPrefix c')"
    if "g \<in> set (scimProviderGroupsTx s (scNamespace c) (scName c))" for g
    using provider_group[OF that] prefixed_group[OF assms(2) c] c by metis
  have "\<forall>m\<in>set (dbPendingDeletions t). ?checked m \<and> (m \<in> set (dbPendingDeletions s) \<or> pdRunID m = run)"
    unfolding t by simp (rule upserted_marks; use assms(3) c in \<open>auto simp: marks_checked_def dest: new\<close>)
  moreover have "\<forall>m\<in>set (dbPendingDeletions t). \<forall>m'\<in>set (dbPendingDeletions t). pdGroupID m = pdGroupID m' \<longrightarrow> m = m'"
    unfolding t using upserted_unique[of "dbPendingDeletions s"] assms(3) by (simp add: marks_checked_def)
  ultimately show "marks_checked t" "\<And>m. m \<in> set (dbPendingDeletions t) \<Longrightarrow> m \<in> set (dbPendingDeletions s) \<or> pdRunID m = run"
    unfolding marks_checked_def by (simp_all add: t)
  show "prefixed t" "dbReferenceWrites t = dbReferenceWrites s" "dbConnections t = dbConnections s" using assms(2) by (simp_all add: t prefixed_def)
qed

text \<open>What a step may change: time passes, identifiers are used, writes end or are new, marks are taken away or belong to a new deletion.\<close>

lemma deletion_ok_step:
  assumes "deletion_ok w run x" "wClock w \<le> wClock w'" "wUsed w \<subseteq> wUsed w'"
    "\<And>y. y \<in> set (dbReferenceWrites (wDb w')) \<Longrightarrow> y \<in> set (dbReferenceWrites (wDb w)) \<or> rwID y \<notin> wUsed w"
    "\<And>m. m \<in> set (dbPendingDeletions (wDb w')) \<Longrightarrow> pdRunID m = run \<Longrightarrow> m \<in> set (dbPendingDeletions (wDb w))
      \<and> (\<forall>i. may_save w' i (pdGroupID m) \<longrightarrow> may_save w i (pdGroupID m))
      \<and> (\<forall>kind. (kind, pdGroupID m) \<in> wRefs w' \<longrightarrow> (kind, pdGroupID m) \<in> wRefs w \<or> (\<exists>i. may_save w i (pdGroupID m)))"
  shows "deletion_ok w' run x"
proof (cases x)
  case Marked
  then show ?thesis by (simp add: deletion_ok_def)
next
  case (Waiting ids since)
  with assms show ?thesis unfolding deletion_ok_def by simp blast
next
  case (Reading kinds R)
  with assms(1,5) show ?thesis unfolding deletion_ok_def by simp blast
qed

lemma check_ok_fewer: "check_ok s gids check \<Longrightarrow> set (dbConnections t) \<subseteq> set (dbConnections s) \<Longrightarrow> check_ok t gids check"
  by (cases check) auto

lemma world_ok_step:
  assumes ok: "world_ok w" and new: "prefixed (wDb w')" "marks_checked (wDb w')" "writers_recorded w'"
    "\<And>run x. wRuns w' run = Some x \<Longrightarrow> wRuns w run = Some x \<or> run \<in> wUsed w' \<and> deletion_ok w' run x"
    "\<And>m. m \<in> set (dbPendingDeletions (wDb w')) \<Longrightarrow> m \<in> set (dbPendingDeletions (wDb w)) \<or> pdRunID m \<in> wUsed w' - wUsed w"
    and kept: "wClock w \<le> wClock w'" "wUsed w \<subseteq> wUsed w'"
    "\<And>y. y \<in> set (dbReferenceWrites (wDb w')) \<Longrightarrow> y \<in> set (dbReferenceWrites (wDb w)) \<or> rwID y \<notin> wUsed w"
    "\<And>m i. m \<in> set (dbPendingDeletions (wDb w)) \<Longrightarrow> may_save w' i (pdGroupID m) \<Longrightarrow> may_save w i (pdGroupID m)"
    "\<And>kind g. (kind, g) \<in> wRefs w' \<Longrightarrow> (kind, g) \<in> wRefs w \<or> (\<exists>i. may_save w i g)"
    "set (dbConnections (wDb w')) \<subseteq> set (dbConnections (wDb w))"
    and checks: "\<And>wid x. wWriters w' wid = Some x \<Longrightarrow> wWriters w wid = Some x \<or> check_ok (wDb w') (wrGroups x) (wrCheck x)"
  shows "world_ok w'"
proof -
  have "deletion_ok w' run x" if "wRuns w run = Some x" for run x
  proof (rule deletion_ok_step[OF _ kept(1-3)])
    show "deletion_ok w run x" using ok that by (simp add: world_ok_def)
    have "run \<in> wUsed w" using ok that by (simp add: world_ok_def)
    then show "m \<in> set (dbPendingDeletions (wDb w)) \<and> (\<forall>i. may_save w' i (pdGroupID m) \<longrightarrow> may_save w i (pdGroupID m))
        \<and> (\<forall>kind. (kind, pdGroupID m) \<in> wRefs w' \<longrightarrow> (kind, pdGroupID m) \<in> wRefs w \<or> (\<exists>i. may_save w i (pdGroupID m)))"
      if "m \<in> set (dbPendingDeletions (wDb w'))" "pdRunID m = run" for m
      using new(5)[OF that(1)] kept(4,5) that(2) by blast
  qed
  then have "run \<in> wUsed w' \<and> deletion_ok w' run x" if "wRuns w' run = Some x" for run x
    using new(4)[OF that] ok kept(2) by (auto simp: world_ok_def)
  moreover have "\<forall>m\<in>set (dbPendingDeletions (wDb w')). pdRunID m \<in> wUsed w'" using new(5) ok kept(2) by (auto simp: world_ok_def)
  moreover have "check_ok (wDb w') (wrGroups x) (wrCheck x)" if "wWriters w' wid = Some x" for wid x
    using checks[OF that] ok check_ok_fewer[OF _ kept(6)] unfolding world_ok_def by blast
  ultimately show ?thesis using new(1-3) by (simp add: world_ok_def)
qed

lemma world_okD:
  assumes "world_ok w"
  shows "prefixed (wDb w)" "marks_checked (wDb w)" "writers_recorded w" "wRuns w run = Some x \<Longrightarrow> run \<in> wUsed w \<and> deletion_ok w run x"
    "wWriters w wid = Some y \<Longrightarrow> check_ok (wDb w) (wrGroups y) (wrCheck y)"
  using assms by (simp_all add: world_ok_def)

lemma writers_recordedD:
  assumes "writers_recorded w" "wWriters w wid = Some x"
  shows "wid \<in> wUsed w" "wClock w \<le> wrExpires x \<Longrightarrow> \<lparr>rwID = wid, rwExpiresAt = wrExpires x\<rparr> \<in> set (dbReferenceWrites (wDb w))"
  using assms by (auto simp: writers_recorded_def)

lemma may_save_recorded:
  assumes "writers_recorded w" "may_save w wid g"
  obtains e where "\<lparr>rwID = wid, rwExpiresAt = e\<rparr> \<in> set (dbReferenceWrites (wDb w))" "wClock w \<le> e"
  using assms writers_recordedD(2)[OF assms(1)] by (fastforce simp: may_save_def)

section \<open>Each step\<close>

lemma tick_ok:
  assumes "world_ok w" "wClock w \<le> now"
  shows "world_ok (w\<lparr>wClock := now\<rparr>)"
proof (rule world_ok_step[OF assms(1)])
  show "writers_recorded (w\<lparr>wClock := now\<rparr>)"
    using assms(2) world_okD(3)[OF assms(1)] unfolding writers_recorded_def by simp (meson add_le_mono1 le_trans)
qed (use assms world_okD[OF assms(1)] in \<open>auto simp: may_save_def\<close>)

lemma record_ok:
  assumes "world_ok w" "now \<le> wClock w" "wid \<notin> wUsed w"
  shows "world_ok (w\<lparr>wDb := record_reference_write wid now (wDb w),
    wWriters := (wWriters w)(wid \<mapsto> \<lparr>wrGroups = gids, wrCheck = ListConnections, wrExpires = now + scimReferenceWriteLifetime\<rparr>),
    wUsed := insert wid (wUsed w)\<rparr>)" (is "world_ok ?w")
proof (rule world_ok_step[OF assms(1)])
  note ok = world_okD[OF assms(1)]
  show "writers_recorded ?w" using assms(2,3) ok(3) by (auto simp: writers_recorded_def record_reference_write_def)
  show "prefixed (wDb ?w)" "marks_checked (wDb ?w)" using ok(1,2) by (simp_all add: prefixed_def marks_checked_def record_reference_write_def)
qed (use assms(3) in \<open>auto simp: may_save_def record_reference_write_def split: if_splits\<close>)

lemma query_ok:
  assumes "world_ok w" "wWriters w wid = Some x"
  shows "world_ok (w\<lparr>wWriters := (wWriters w)(wid \<mapsto> x\<lparr>wrCheck := check_query (wrGroups x) (wDb w) (wrCheck x)\<rparr>)\<rparr>)" (is "world_ok ?w")
proof (rule world_ok_step[OF assms(1)])
  note ok = world_okD[OF assms(1)]
  show "writers_recorded ?w" using ok(3) writers_recordedD[OF ok(3) assms(2)] by (auto simp: writers_recorded_def)
  show "may_save w i (pdGroupID m)" if "m \<in> set (dbPendingDeletions (wDb w))" "may_save ?w i (pdGroupID m)" for m i
    using that(2) heeds_query[OF ok(1,2) ok(5)[OF assms(2)] that(1)] assms(2) by (auto simp: may_save_def split: if_splits)
  show "wWriters w i = Some y \<or> check_ok (wDb ?w) (wrGroups y) (wrCheck y)" if "wWriters ?w i = Some y" for i y
    using that check_query_ok[OF _ ok(5)[OF assms(2)]] ok(1) by (auto simp: prefixed_def split: if_splits)
qed (use world_okD[OF assms(1)] in auto)

lemma save_ok:
  assumes "world_ok w" "wWriters w wid = Some x" "wrCheck x = Answered (Inr ())" "wClock w \<le> wrExpires x"
  shows "world_ok (w\<lparr>wRefs := wRefs w \<union> Pair kind ` set (wrGroups x)\<rparr>)"
proof (rule world_ok_step[OF assms(1)])
  show "(k, g) \<in> wRefs w \<or> (\<exists>i. may_save w i g)" if "(k, g) \<in> wRefs (w\<lparr>wRefs := wRefs w \<union> Pair kind ` set (wrGroups x)\<rparr>)" for k g
  proof -
    have "may_save w wid g" if "g \<in> set (wrGroups x)" using that assms(2-4) unfolding may_save_def by (intro exI[of _ x]) simp
    with that show ?thesis by auto
  qed
qed (use world_okD[OF assms(1)] in \<open>auto simp: writers_recorded_def\<close>)

lemma end_ok:
  assumes "world_ok w"
  shows "world_ok (w\<lparr>wDb := remove_reference_write wid (wDb w), wWriters := (wWriters w)(wid := None)\<rparr>)" (is "world_ok ?w")
proof (rule world_ok_step[OF assms])
  note ok = world_okD[OF assms]
  show "writers_recorded ?w" using ok(3) by (auto simp: writers_recorded_def remove_reference_write_def)
  show "prefixed (wDb ?w)" "marks_checked (wDb ?w)" using ok(1,2) by (simp_all add: prefixed_def marks_checked_def remove_reference_write_def)
qed (auto simp: may_save_def remove_reference_write_def split: if_splits)

lemma unreference_ok:
  assumes "world_ok w" "R \<subseteq> wRefs w"
  shows "world_ok (w\<lparr>wRefs := R\<rparr>)"
  by (rule world_ok_step[OF assms(1)]) (use assms(2) world_okD[OF assms(1)] in \<open>auto simp: writers_recorded_def\<close>)

lemma no_marks: "MarkUnreferencedSCIMGroups conn referenced run now s = Inr (t, []) \<Longrightarrow> dbPendingDeletions t = dbPendingDeletions s"
  by (auto simp: MarkUnreferencedSCIMGroups_def bind_ok_Inr Let_def)

lemma mark_ok:
  assumes "world_ok w" "run \<notin> wUsed w" "MarkUnreferencedSCIMGroups conn referenced run now (wDb w) = Inr (s, gids)"
  shows "world_ok (w\<lparr>wDb := s, wRuns := (wRuns w)(run \<mapsto> after_marking gids (wClock w)), wUsed := insert run (wUsed w)\<rparr>)" (is "world_ok ?w")
proof (rule world_ok_step[OF assms(1)])
  note ok = world_okD[OF assms(1)] and t = marked_tables[OF assms(3) world_okD(1,2)[OF assms(1)]]
  show "prefixed (wDb ?w)" "marks_checked (wDb ?w)" using t(1,2) by simp_all
  show "writers_recorded ?w" using ok(3) t(3) by (auto simp: writers_recorded_def)
  show "m \<in> set (dbPendingDeletions (wDb w)) \<or> pdRunID m \<in> wUsed ?w - wUsed w" if "m \<in> set (dbPendingDeletions (wDb ?w))" for m
    using t(4)[of m] that assms(2) by auto
  show "y \<in> set (dbReferenceWrites (wDb w)) \<or> rwID y \<notin> wUsed w" if "y \<in> set (dbReferenceWrites (wDb ?w))" for y using that t(3) by simp
  show "set (dbConnections (wDb ?w)) \<subseteq> set (dbConnections (wDb w))" using t(5) by simp
  have "pdRunID m \<noteq> run" if "gids = []" "m \<in> set (dbPendingDeletions s)" for m
    using that assms no_marks[of conn referenced run now "wDb w" s] by (auto simp: world_ok_def)
  then have "deletion_ok ?w run (after_marking gids (wClock w))" by (simp add: deletion_ok_def after_marking_def)
  then show "wRuns w r = Some x \<or> r \<in> wUsed ?w \<and> deletion_ok ?w r x" if "wRuns ?w r = Some x" for r x using that by (auto split: if_splits)
qed auto

lemma expire_ok:
  assumes "world_ok w" "now \<le> wClock w"
  shows "world_ok (w\<lparr>wDb := expire_reference_writes now (wDb w)\<rparr>)" (is "world_ok ?w")
proof (rule world_ok_step[OF assms(1)])
  note ok = world_okD[OF assms(1)]
  show "writers_recorded ?w" using ok(3) assms(2) by (auto simp: writers_recorded_def expire_reference_writes_def)
  show "prefixed (wDb ?w)" "marks_checked (wDb ?w)" using ok(1,2) by (simp_all add: prefixed_def marks_checked_def expire_reference_writes_def)
qed (auto simp: expire_reference_writes_def)

text \<open>A step of a deletion that changes nothing but its own state.\<close>

lemma run_ok:
  assumes "world_ok w" "wRuns w run = Some x" "deletion_ok w run x \<Longrightarrow> deletion_ok w run y"
  shows "world_ok (w\<lparr>wRuns := (wRuns w)(run \<mapsto> y)\<rparr>)" (is "world_ok ?w")
proof (rule world_ok_step[OF assms(1)])
  note ok = world_okD[OF assms(1)]
  have "deletion_ok ?w run y" using assms(3) ok(4)[OF assms(2)] by (simp add: deletion_ok_def split: deletion.splits)
  then show "wRuns w r = Some z \<or> r \<in> wUsed ?w \<and> deletion_ok ?w r z" if "wRuns ?w r = Some z" for r z
    using that ok(4)[OF assms(2)] by (auto split: if_splits)
qed (use world_okD[OF assms(1)] in \<open>auto simp: writers_recorded_def\<close>)

lemma list_ok:
  assumes "world_ok w" "wRuns w run = Some Marked"
  shows "world_ok (w\<lparr>wRuns := (wRuns w)(run \<mapsto> Waiting (list_reference_writes (wDb w)) (wClock w))\<rparr>)"
proof (rule run_ok[OF assms])
  note rec = world_okD(3)[OF assms(1)]
  have "i \<in> set (list_reference_writes (wDb w))" if "may_save w i g" for i g
    by (rule may_save_recorded[OF rec that]) (force simp: list_reference_writes_def)
  then show "deletion_ok w run (Waiting (list_reference_writes (wDb w)) (wClock w))"
    using rec by (auto simp: deletion_ok_def writers_recorded_def list_reference_writes_def)
qed

lemma poll_ok:
  assumes "world_ok w" "wRuns w run = Some (Waiting (polled @ batch @ unpolled) since)" "now \<le> wClock w"
  shows "world_ok (w\<lparr>wRuns := (wRuns w)(run \<mapsto> Waiting (polled @ poll_reference_writes batch now (wDb w) @ unpolled) since)\<rparr>)"
proof (rule run_ok[OF assms(1,2)])
  assume ok: "deletion_ok w run (Waiting (polled @ batch @ unpolled) since)"
  have "i \<in> set (poll_reference_writes batch now (wDb w))" if save: "may_save w i g" and i: "i \<in> set batch" for i g
    by (rule may_save_recorded[OF world_okD(3)[OF assms(1)] save]) (use i assms(3) in \<open>force simp: poll_reference_writes_def\<close>)
  moreover have "set (poll_reference_writes batch now (wDb w)) \<subseteq> set batch" by (auto simp: poll_reference_writes_def)
  ultimately show "deletion_ok w run (Waiting (polled @ poll_reference_writes batch now (wDb w) @ unpolled) since)"
    using ok by (simp add: deletion_ok_def) blast
qed

lemma all_kinds: "kind \<in> set finder_kinds"
  by (cases kind) (simp_all add: finder_kinds_def)

lemma read_ok:
  assumes "world_ok w" "wRuns w run = Some (Waiting [] since)"
  shows "world_ok (w\<lparr>wRuns := (wRuns w)(run \<mapsto> Reading finder_kinds {})\<rparr>)"
  by (rule run_ok[OF assms]) (simp add: deletion_ok_def all_kinds)

lemma read_kind_ok:
  assumes "world_ok w" "wRuns w run = Some (Reading (kind # kinds) R)"
  shows "world_ok (w\<lparr>wRuns := (wRuns w)(run \<mapsto> Reading kinds (R \<union> {g. (kind, g) \<in> wRefs w}))\<rparr>)"
  by (rule run_ok[OF assms]) (auto simp: deletion_ok_def)

text \<open>Changes of the tables that take marks away, and may end deletions.\<close>

lemma tables_ok:
  assumes "world_ok w" "prefixed t" "marks_checked t" "dbReferenceWrites t = dbReferenceWrites (wDb w)"
    "set (dbPendingDeletions t) \<subseteq> set (dbPendingDeletions (wDb w))" "\<And>run x. R run = Some x \<Longrightarrow> wRuns w run = Some x"
    "set (dbConnections t) \<subseteq> set (dbConnections (wDb w))"
  shows "world_ok (w\<lparr>wDb := t, wRuns := R\<rparr>)"
  by (rule world_ok_step[OF assms(1)]) (use assms world_okD(3)[OF assms(1)] in \<open>auto simp: writers_recorded_def\<close>)

lemma pending_row: "row \<in> set (scimProviderGroupsTx s ns name) \<Longrightarrow> pgPendingDeletion row \<Longrightarrow>
    \<exists>m\<in>set (dbPendingDeletions s). pdGroupID m = pgID row \<and> pdRunID m = pgPendingRunID row"
  by (auto simp: scimProviderGroupsTx_def left_join_def split: if_splits)

text \<open>What the last step of a deletion deletes: groups that its own marks name and that were not read as referenced.\<close>

lemma finished_deletion:
  assumes "DeleteMarkedSCIMGroups cid run R s = Inr (t, deleted)"
  obtains c where "c \<in> set (dbConnections s)" "dbConnections t = dbConnections s" "dbReferenceWrites t = dbReferenceWrites s"
    "set (dbPendingDeletions t) \<subseteq> set (dbPendingDeletions s)"
    "set (dbGroups t) = {g \<in> set (dbGroups s). \<not> (grpNamespace g = scNamespace c \<and> grpAuthProviderName g = scName c \<and> grpID g \<in> set deleted)}"
    "\<And>g. g \<in> set deleted \<Longrightarrow> g \<notin> R \<and> (\<exists>m\<in>set (dbPendingDeletions s). pdGroupID m = g \<and> pdRunID m = run)"
    "\<And>m. m \<in> set (dbPendingDeletions t) \<Longrightarrow> pdConnectionID m = scID c \<Longrightarrow> pdRunID m \<noteq> run"
proof -
  obtain c where c: "c \<in> set (dbConnections s)" and t: "(t, deleted) = finishSCIMGroupDeletionTx c run R s"
    using assms by (auto simp: DeleteMarkedSCIMGroups_def bind_ok_Inr dest: connection_tx_set)
  let ?s = "s\<lparr>dbPendingDeletions := filter (\<lambda>m. \<not> (pdConnectionID m = scID c \<and> pdGroupID m \<in> R)) (dbPendingDeletions s)\<rparr>"
  have deleted: "deleted = map pgID (filter (\<lambda>g. \<not> (\<not> pgPendingDeletion g \<or> pgPendingRunID g \<noteq> run \<or> run = [] \<or> pgSCIMID g \<noteq> []) \<and> pgID g \<notin> R)
      (scimProviderGroupsTx ?s (scNamespace c) (scName c)))"
    and t': "t = clearSCIMGroupDeletionMarksTx (scID c) run (deleteGroupsTx c deleted ?s)"
    using t by (simp_all add: finishSCIMGroupDeletionTx_def Let_def)
  have "g \<notin> R \<and> (\<exists>m\<in>set (dbPendingDeletions s). pdGroupID m = g \<and> pdRunID m = run)" if "g \<in> set deleted" for g
    using that pending_row[of _ ?s "scNamespace c" "scName c"] unfolding deleted by fastforce
  then show ?thesis using c by (intro that[of c]) (auto simp: t' clearSCIMGroupDeletionMarksTx_def deleteGroupsTx_def)
qed

lemma finish_ok:
  assumes "world_ok w" "DeleteMarkedSCIMGroups cid run R (wDb w) = Inr (s, deleted)"
  shows "world_ok (w\<lparr>wDb := s, wRuns := (wRuns w)(run := None)\<rparr>)"
proof (rule finished_deletion[OF assms(2)])
  fix c
  assume t: "dbConnections s = dbConnections (wDb w)" "dbReferenceWrites s = dbReferenceWrites (wDb w)"
    "set (dbPendingDeletions s) \<subseteq> set (dbPendingDeletions (wDb w))"
    "set (dbGroups s) = {g \<in> set (dbGroups (wDb w)). \<not> (grpNamespace g = scNamespace c \<and> grpAuthProviderName g = scName c \<and> grpID g \<in> set deleted)}"
  show ?thesis
    by (rule tables_ok[OF assms(1)])
      (use t prefixed_fewer[OF world_okD(1)[OF assms(1)] t(1)] marks_checked_fewer[OF world_okD(2)[OF assms(1)] t(1,3)] in \<open>auto split: if_splits\<close>)
qed

lemma fewer_marks_ok:
  assumes "world_ok w" "s = (wDb w)\<lparr>dbPendingDeletions := filter P (dbPendingDeletions (wDb w))\<rparr>" "\<And>run x. R run = Some x \<Longrightarrow> wRuns w run = Some x"
  shows "world_ok (w\<lparr>wDb := s, wRuns := R\<rparr>)"
  by (rule tables_ok[OF assms(1) _ _ _ _ assms(3)])
    (use world_okD(1,2)[OF assms(1)] in \<open>auto simp: assms(2) prefixed_def marks_checked_def\<close>)

lemma deletion_step_keeps: "deletion_step env w w' \<Longrightarrow> world_ok w \<Longrightarrow> world_ok w'"
proof (induction rule: deletion_step.induct)
  case (abandon w cid run)
  then show ?case by (rule fewer_marks_ok) (auto simp: clearSCIMGroupDeletionMarksTx_def split: if_splits)
next
  case (expire now w)
  then show ?case using fewer_marks_ok[of w "expireSCIMGroupDeletionMarks now (wDb w)" _ "wRuns w"] by (simp add: expireSCIMGroupDeletionMarks_def)
next
  case (group w s)
  note frame = group_step_frame[OF group(1)]
  have "prefixed s" "marks_checked s"
    using prefixed_frame[OF frame] marks_checked_fewer[of "wDb w" s] world_okD(1,2)[OF group(2)] frame by (simp_all add: group_frame_def)
  then show ?case using tables_ok[OF group(2), of s "wRuns w"] frame by (simp add: group_frame_def)
next
  case (disconnect namespace name allowed w s d)
  note t = disconnect_tables[OF disconnect(1) world_okD(1,2)[OF disconnect(2)]]
  then show ?case using tables_ok[OF disconnect(2) t(1-4) _ t(5), of "wRuns w"] by simp
qed (auto intro: tick_ok record_ok query_ok save_ok end_ok unreference_ok mark_ok expire_ok list_ok poll_ok read_ok read_kind_ok finish_ok)

interpretation deletions: invariant_steps "deletion_step env" world_ok for env
  by unfold_locales (rule deletion_step_keeps)

text \<open>The start: no deletion and no write is in progress, and the groups of the provider have its prefix.\<close>

definition idle :: "world \<Rightarrow> bool" where
  "idle w \<longleftrightarrow> prefixed (wDb w) \<and> dbPendingDeletions (wDb w) = [] \<and> dbReferenceWrites (wDb w) = [] \<and> wWriters w = Map.empty \<and> wRuns w = Map.empty"

lemma idle_ok: "idle w \<Longrightarrow> world_ok w"
  by (simp add: idle_def world_ok_def marks_checked_def writers_recorded_def)

text \<open>The state in which a deletion deletes a group, and the tables that it leaves.\<close>

lemma deleting_state:
  assumes "idle start" "(deletion_step env)\<^sup>*\<^sup>* start w" "wRuns w run = Some (Reading [] R)"
    "DeleteMarkedSCIMGroups cid run R (wDb w) = Inr (t, deleted)" "g \<in> set deleted"
  obtains c where "world_ok w" "dbConnections (wDb w) = [c]" "gone g t c" "scGroupIDPrefix c \<noteq> []" "HasPrefix g (scGroupIDPrefix c)"
    "\<And>kind. (kind, g) \<notin> wRefs w" "\<And>wid. \<not> may_save w wid g" "\<And>m. m \<in> set (dbPendingDeletions t) \<Longrightarrow> pdGroupID m \<noteq> g"
proof (rule finished_deletion[OF assms(4)])
  have ok: "world_ok w" by (rule deletions.reachable_keeps[OF assms(2) idle_ok[OF assms(1)]])
  note okD = world_okD[OF ok]
  fix c
  assume c: "c \<in> set (dbConnections (wDb w))" "dbConnections t = dbConnections (wDb w)"
    and marks: "set (dbPendingDeletions t) \<subseteq> set (dbPendingDeletions (wDb w))"
    and groups: "set (dbGroups t) = {g \<in> set (dbGroups (wDb w)). \<not> (grpNamespace g = scNamespace c \<and> grpAuthProviderName g = scName c \<and> grpID g \<in> set deleted)}"
    and deleted: "\<And>g. g \<in> set deleted \<Longrightarrow> g \<notin> R \<and> (\<exists>m\<in>set (dbPendingDeletions (wDb w)). pdGroupID m = g \<and> pdRunID m = run)"
    and cleared: "\<And>m. m \<in> set (dbPendingDeletions t) \<Longrightarrow> pdConnectionID m = scID c \<Longrightarrow> pdRunID m \<noteq> run"
  note one = only_connection[OF okD(1) c(1)]
  obtain m where m: "m \<in> set (dbPendingDeletions (wDb w))" "pdGroupID m = g" "pdRunID m = run" and R: "g \<notin> R" using deleted[OF assms(5)] by blast
  have prefix: "scID c = pdConnectionID m" "scGroupIDPrefix c \<noteq> []" "HasPrefix g (scGroupIDPrefix c)"
    using okD(2) m(1,2) one by (auto simp: marks_checked_def)
  have "deletion_ok w run (Reading [] R)" using okD(4)[OF assms(3)] by simp
  with m R have free: "(kind, g) \<notin> wRefs w" "\<not> may_save w wid g" for kind wid by (auto simp: deletion_ok_def)
  have "gone g t c" using c one groups assms(5) by (auto simp: gone_def list_ex_iff)
  moreover have "pdGroupID m' \<noteq> g" if "m' \<in> set (dbPendingDeletions t)" for m'
  proof
    assume "pdGroupID m' = g"
    with that m marks okD(2) have "m' = m" unfolding marks_checked_def by blast
    with cleared[OF that] prefix(1) m(3) show False by simp
  qed
  ultimately show ?thesis using ok one prefix free that[of c] by blast
qed

text \<open>
  C8: A deletion takes no group away from a reference. Whatever writes of references, other deletions, changes of groups and
  expiries run concurrently, a group that a deletion deletes is referenced by nothing at that moment. A check of a write that begins
  later, or that is in progress, is then refused, whatever its later queries find of other groups, as long as the connection stays
  and the group is not created anew: with the one exception of a check that is between its two queries on the group.
\<close>

theorem deletion_spares_references:
  assumes "idle start" "(deletion_step env)\<^sup>*\<^sup>* start w" "wRuns w run = Some (Reading [] R)"
    "DeleteMarkedSCIMGroups cid run R (wDb w) = Inr (t, deleted)" "g \<in> set deleted"
  shows "(\<forall>kind. (kind, g) \<notin> wRefs w)
    \<and> (\<exists>c. gone g t c \<and> (\<forall>gids check ts. g \<in> set gids \<longrightarrow>
        check = ListConnections
        \<or> (\<exists>wid x. wWriters w wid = Some x \<and> wrGroups x = gids \<and> wrCheck x = check \<and> wClock w \<le> wrExpires x \<and> \<not> between_queries g check) \<longrightarrow>
        (\<forall>s\<in>set ts. gone g s c) \<longrightarrow> fold (check_query gids) ts check \<noteq> Answered (Inr ())))"
proof (rule deleting_state[OF assms])
  fix c
  assume ok: "world_ok w" and c: "dbConnections (wDb w) = [c]" "gone g t c" "scGroupIDPrefix c \<noteq> []" "HasPrefix g (scGroupIDPrefix c)"
    and free: "\<And>kind. (kind, g) \<notin> wRefs w" "\<And>wid. \<not> may_save w wid g"
  have "doomed g c (wrCheck x)" if "wWriters w wid = Some x" "g \<in> set (wrGroups x)" "wClock w \<le> wrExpires x" "\<not> between_queries g (wrCheck x)" for wid x
  proof (rule heeds_doomed[OF world_okD(5)[OF ok that(1)] c(1) _ that(4)])
    show "heeds g (wrCheck x)" using that(1-3) free(2)[of wid] by (auto simp: may_save_def)
  qed
  then have "fold (check_query gids) ts check \<noteq> Answered (Inr ())"
    if "g \<in> set gids" "check = ListConnections
        \<or> (\<exists>wid x. wWriters w wid = Some x \<and> wrGroups x = gids \<and> wrCheck x = check \<and> wClock w \<le> wrExpires x \<and> \<not> between_queries g check)"
      "\<forall>s\<in>set ts. gone g s c" for gids check ts
    using that(1,2) c(3,4) by (intro doomed_refused[OF that(3)]) (auto simp: candidates_set)
  with free(1) c(2) show ?thesis by blast
qed

text \<open>
  C40: The exception is real. When a deletion deletes a group while a write that references it alone is between its two queries, the write
  passes its check, since the group was there and its mark is gone, and saves a reference to the group that no longer exists.
\<close>

theorem reference_slips_between_queries:
  assumes "idle start" "(deletion_step env)\<^sup>*\<^sup>* start w" "wRuns w run = Some (Reading [] R)"
    "DeleteMarkedSCIMGroups cid run R (wDb w) = Inr (t, deleted)" "g \<in> set deleted"
    "wWriters w wid = Some x" "wrGroups x = [g]" "between_queries g (wrCheck x)" "wClock w \<le> wrExpires x"
  shows "\<exists>w' c. (deletion_step env)\<^sup>*\<^sup>* w w' \<and> (kind, g) \<in> wRefs w' \<and> gone g (wDb w') c"
proof (rule deleting_state[OF assms(1-5)])
  fix c
  assume ok: "world_ok w" and c: "dbConnections (wDb w) = [c]" "gone g t c" and unmarked: "\<And>m. m \<in> set (dbPendingDeletions t) \<Longrightarrow> pdGroupID m \<noteq> g"
  obtain conn conns batch batches existing pending where q: "wrCheck x = ReadMarks conn conns batch batches existing pending" "g \<in> set batch" "g \<in> existing"
    using assms(8) by (cases "wrCheck x") auto
  have "check_ok (wDb w) [g] (wrCheck x)" using world_okD(5)[OF ok assms(6)] assms(7) by simp
  with q have bs: "conns = []" "set batch = {g}" "batches_ok [g] (batch # batches) (existing - set batch) pending" by (auto simp: batches_ok_def)
  then have "batches = []" by (cases batches; cases "hd batches") (auto simp: batches_ok_def)
  moreover have "pending = {}" using bs by (auto simp: batches_ok_def)
  moreover have "pending_groups t conn batch = {}" using unmarked bs(2) by (auto simp: pending_groups_def)
  ultimately have pass: "check_query (wrGroups x) t (wrCheck x) = Answered (Inr ())"
    using q bs(1) assms(7) by (auto simp: reference_problems_def Let_def candidates_set filter_empty_conv)
  define w1 where "w1 = w\<lparr>wDb := t, wRuns := (wRuns w)(run := None)\<rparr>"
  define w2 where "w2 = w1\<lparr>wWriters := (wWriters w1)(wid \<mapsto> x\<lparr>wrCheck := check_query (wrGroups x) (wDb w1) (wrCheck x)\<rparr>)\<rparr>"
  define w3 where "w3 = w2\<lparr>wRefs := wRefs w2 \<union> Pair kind ` set (wrGroups x)\<rparr>"
  have "deletion_step env w w1" unfolding w1_def by (rule deletion_step.finish[OF assms(3,4)])
  moreover have "deletion_step env w1 w2" unfolding w2_def by (rule deletion_step.check_write) (simp add: w1_def assms(6))
  moreover have "deletion_step env w2 w3"
    using deletion_step.save_write[of w2 wid "x\<lparr>wrCheck := check_query (wrGroups x) (wDb w1) (wrCheck x)\<rparr>" env kind] assms(9) pass
    unfolding w3_def by (simp add: w2_def w1_def)
  ultimately have "(deletion_step env)\<^sup>*\<^sup>* w w3" by (meson converse_rtranclp_into_rtranclp rtranclp.rtrancl_refl)
  moreover have "(kind, g) \<in> wRefs w3" "wDb w3 = t" by (simp_all add: w3_def w2_def w1_def assms(7))
  ultimately show ?thesis using c(2) by blast
qed

definition sample_world :: world where
  "sample_world = \<lparr>wDb = empty_db\<lparr>dbConnections := [sample_connection],
      dbGroups := [\<lparr>grpID = ''okta/x2'', grpNamespace = ''ns'', grpAuthProviderName = ''okta'', grpName = ''Old''\<rparr>]\<rparr>,
     wRefs = {}, wClock = 0, wWriters = Map.empty, wRuns = Map.empty, wUsed = {}\<rparr>"

lemma sample_world_idle: "idle sample_world"
  by (simp add: idle_def sample_world_def empty_db_def sample_connection_def prefixed_def HasPrefix_def)

text \<open>A deletion marks the group and finds no write to wait for; then a write is recorded, and its check reads the groups.\<close>

definition sample_marked :: db where
  "sample_marked = (wDb sample_world)\<lparr>dbPendingDeletions := [\<lparr>pdGroupID = ''okta/x2'', pdConnectionID = ''c'', pdRunID = ''r1'', pdCreatedAt = 0\<rparr>]\<rparr>"

lemma sample_marks: "MarkUnreferencedSCIMGroups sample_connection {} ''r1'' 0 (wDb sample_world) = Inr (sample_marked, [''okta/x2''])"
  by (simp add: MarkUnreferencedSCIMGroups_def sample_marked_def sample_world_def connection_tx_def sample_connection_def scimProviderGroupsTx_def left_join_def
      order_by_def upsert_mark_def empty_db_def)

lemma read_kinds:
  "wRuns w run = Some (Reading kinds R) \<Longrightarrow>
    (deletion_step env)\<^sup>*\<^sup>* w (w\<lparr>wRuns := (wRuns w)(run \<mapsto> Reading [] (R \<union> {g. \<exists>kind\<in>set kinds. (kind, g) \<in> wRefs w}))\<rparr>)"
proof (induction kinds arbitrary: w R)
  case (Cons kind kinds)
  define A B where "A = {g. (kind, g) \<in> wRefs w}" and "B = {g. \<exists>kind\<in>set kinds. (kind, g) \<in> wRefs w}"
  have AB: "{g. \<exists>kind\<in>set (kind # kinds). (kind, g) \<in> wRefs w} = A \<union> B" by (auto simp: A_def B_def)
  have step: "deletion_step env w (w\<lparr>wRuns := (wRuns w)(run \<mapsto> Reading kinds (R \<union> A))\<rparr>)"
    unfolding A_def by (rule deletion_step.read_kind) (rule Cons.prems)
  show ?case
    unfolding AB using Cons.IH[of "w\<lparr>wRuns := (wRuns w)(run \<mapsto> Reading kinds (R \<union> A))\<rparr>" "R \<union> A"]
    by (intro converse_rtranclp_into_rtranclp[of "deletion_step env", OF step]) (simp add: B_def Un_assoc cong: if_cong)
qed (simp add: fun_upd_idem)

definition sample_writer :: "reference_check \<Rightarrow> writer" where
  "sample_writer check = \<lparr>wrGroups = [''okta/x2''], wrCheck = check, wrExpires = 60\<rparr>"

definition sample_race :: "nat \<Rightarrow> world" where
  "sample_race n = sample_world\<lparr>wDb := record_reference_write ''w1'' 0 sample_marked,
    wWriters := [''w1'' \<mapsto> sample_writer ((check_query [''okta/x2''] sample_marked ^^ n) ListConnections)],
    wRuns := [''r1'' \<mapsto> Reading [] {}], wUsed := {''w1'', ''r1''}\<rparr>"

lemma sample_queries:
  "(check_query [''okta/x2''] (record_reference_write ''w1'' 0 sample_marked)) = (check_query [''okta/x2''] sample_marked)"
proof
  fix check
  show "check_query [''okta/x2''] (record_reference_write ''w1'' 0 sample_marked) check = check_query [''okta/x2''] sample_marked check"
    by (cases check) (simp_all add: record_reference_write_def existing_groups_def pending_groups_def)
qed

lemma sample_race_reached: "(deletion_step sample_env)\<^sup>*\<^sup>* sample_world (sample_race n)"
proof -
  define w1 where "w1 = sample_world\<lparr>wDb := sample_marked, wRuns := [''r1'' \<mapsto> Marked], wUsed := {''r1''}\<rparr>"
  define w2 where "w2 = w1\<lparr>wRuns := [''r1'' \<mapsto> Waiting [] 0]\<rparr>"
  define w3 where "w3 = w2\<lparr>wDb := record_reference_write ''w1'' 0 sample_marked, wWriters := [''w1'' \<mapsto> sample_writer ListConnections], wUsed := {''w1'', ''r1''}\<rparr>"
  define w4 where "w4 = w3\<lparr>wRuns := [''r1'' \<mapsto> Reading finder_kinds {}]\<rparr>"
  have "deletion_step sample_env sample_world w1"
    using deletion_step.mark[of 0 sample_world "''r1''" sample_connection "{}" sample_marked "[''okta/x2'']" sample_env] sample_marks
    by (simp add: w1_def after_marking_def) (simp add: sample_world_def)
  moreover have "deletion_step sample_env w1 w2"
    using deletion_step.list_writes[of w1 "''r1''" sample_env]
    by (simp add: w2_def w1_def list_reference_writes_def sample_marked_def sample_world_def empty_db_def)
  moreover have "deletion_step sample_env w2 w3"
    using deletion_step.record_write[of 0 w2 "''w1''" sample_env "[''okta/x2'']"]
    by (simp add: w3_def w2_def w1_def sample_world_def sample_writer_def scimReferenceWriteLifetime_def)
  moreover have "deletion_step sample_env w3 w4"
    using deletion_step.read_references[of w3 "''r1''" 0 sample_env] by (simp add: w4_def w3_def w2_def)
  ultimately have "(deletion_step sample_env)\<^sup>*\<^sup>* sample_world w4" by (meson converse_rtranclp_into_rtranclp rtranclp.rtrancl_refl)
  also have "(deletion_step sample_env)\<^sup>*\<^sup>* w4 (sample_race 0)"
    using read_kinds[of w4 "''r1''" finder_kinds "{}" sample_env]
    by (simp add: w4_def w3_def w2_def w1_def sample_race_def sample_world_def)
  also have "(deletion_step sample_env)\<^sup>*\<^sup>* (sample_race 0) (sample_race n)"
  proof (induction n)
    case (Suc n)
    have "deletion_step sample_env (sample_race n) (sample_race (Suc n))"
      using deletion_step.check_write[of "sample_race n" "''w1''" _ sample_env]
      by (simp add: sample_race_def sample_writer_def sample_queries sample_world_def)
    with Suc show ?case by simp
  qed simp
  finally show ?thesis .
qed

lemma sample_deletes:
  "\<exists>t. DeleteMarkedSCIMGroups ''c'' ''r1'' {} (wDb (sample_race n)) = Inr (t, [''okta/x2''])"
  by (simp add: sample_race_def sample_marked_def record_reference_write_def DeleteMarkedSCIMGroups_def connection_tx_def sample_world_def sample_connection_def
      finishSCIMGroupDeletionTx_def scimProviderGroupsTx_def left_join_def order_by_def empty_db_def Let_def)

text \<open>After one query, the check of the write is refused; after two, it is between its queries.\<close>

lemma sample_check:
  "(check_query [''okta/x2''] sample_marked ^^ Suc 0) ListConnections = ReadGroups sample_connection [] [''okta/x2''] [] {} {}"
  "(check_query [''okta/x2''] sample_marked ^^ Suc (Suc 0)) ListConnections = ReadMarks sample_connection [] [''okta/x2''] [] {''okta/x2''} {}"
  by (simp_all add: sample_marked_def sample_world_def sample_connection_def reference_candidates_def HasPrefix_def scimMemberBatchSize_def
      existing_groups_def empty_db_def)

theorem deletion_spares_references_witness:
  "\<exists>t. DeleteMarkedSCIMGroups ''c'' ''r1'' {} (wDb (sample_race 1)) = Inr (t, [''okta/x2''])
    \<and> (KindSkillAccessRule, ''okta/x2'') \<notin> wRefs (sample_race 1)
    \<and> (\<exists>c. gone ''okta/x2'' t c
        \<and> fold (check_query [''okta/x2'']) [t, t] (ReadGroups sample_connection [] [''okta/x2''] [] {} {}) \<noteq> Answered (Inr ())
        \<and> fold (check_query [''okta/x2'']) [t, t, t] ListConnections \<noteq> Answered (Inr ()))"
proof -
  obtain t where t: "DeleteMarkedSCIMGroups ''c'' ''r1'' {} (wDb (sample_race 1)) = Inr (t, [''okta/x2''])" using sample_deletes by blast
  have run: "wRuns (sample_race 1) ''r1'' = Some (Reading [] {})" by (simp add: sample_race_def)
  have writer: "wWriters (sample_race 1) ''w1'' = Some (sample_writer (ReadGroups sample_connection [] [''okta/x2''] [] {} {}))"
    using sample_check(1) by (simp add: sample_race_def)
  have time: "wClock (sample_race 1) \<le> 60" by (simp add: sample_race_def sample_world_def)
  have g: "''okta/x2'' \<in> set [''okta/x2'']" by simp
  from deletion_spares_references[OF sample_world_idle sample_race_reached run t g]
  obtain c where c: "\<forall>kind. (kind, ''okta/x2'') \<notin> wRefs (sample_race 1)" "gone ''okta/x2'' t c"
    and refused: "\<And>gids check ts. ''okta/x2'' \<in> set gids \<Longrightarrow> check = ListConnections
        \<or> (\<exists>wid x. wWriters (sample_race 1) wid = Some x \<and> wrGroups x = gids \<and> wrCheck x = check \<and> wClock (sample_race 1) \<le> wrExpires x
            \<and> \<not> between_queries ''okta/x2'' check) \<Longrightarrow>
        \<forall>s\<in>set ts. gone ''okta/x2'' s c \<Longrightarrow> fold (check_query gids) ts check \<noteq> Answered (Inr ())" by blast
  have "fold (check_query [''okta/x2'']) [t, t] (ReadGroups sample_connection [] [''okta/x2''] [] {} {}) \<noteq> Answered (Inr ())"
    by (rule refused[OF _ disjI2, OF _ exI[of _ "''w1''"], OF _ exI, OF _ conjI[OF writer]]) (use time c(2) in \<open>simp_all add: sample_writer_def\<close>)
  moreover have "fold (check_query [''okta/x2'']) [t, t, t] ListConnections \<noteq> Answered (Inr ())"
    by (rule refused) (use c(2) in auto)
  ultimately show ?thesis using t c by blast
qed

theorem reference_slips_between_queries_witness:
  "\<exists>w' c. (deletion_step sample_env)\<^sup>*\<^sup>* sample_world w' \<and> (KindSkillAccessRule, ''okta/x2'') \<in> wRefs w' \<and> gone ''okta/x2'' (wDb w') c"
proof -
  obtain t where t: "DeleteMarkedSCIMGroups ''c'' ''r1'' {} (wDb (sample_race (Suc (Suc 0)))) = Inr (t, [''okta/x2''])" using sample_deletes by blast
  have run: "wRuns (sample_race (Suc (Suc 0))) ''r1'' = Some (Reading [] {})" by (simp add: sample_race_def)
  have writer: "wWriters (sample_race (Suc (Suc 0))) ''w1'' = Some (sample_writer (ReadMarks sample_connection [] [''okta/x2''] [] {''okta/x2''} {}))"
    unfolding sample_check(2)[symmetric] by (simp add: sample_race_def)
  obtain w' c where "(deletion_step sample_env)\<^sup>*\<^sup>* (sample_race (Suc (Suc 0))) w'" "(KindSkillAccessRule, ''okta/x2'') \<in> wRefs w'" "gone ''okta/x2'' (wDb w') c"
    using reference_slips_between_queries[OF sample_world_idle sample_race_reached run t _ writer, of "''okta/x2''" KindSkillAccessRule]
    by (auto simp: sample_writer_def sample_race_def sample_world_def)
  then show ?thesis using rtranclp_trans[OF sample_race_reached] by blast
qed

text \<open>
  C23: A deletion waits at most for the lifetime of a write: once it has passed since the writes in progress were listed, none of them is left.
\<close>

theorem deletion_wait_ends:
  assumes "idle start" "(deletion_step env)\<^sup>*\<^sup>* start w" "wRuns w run = Some (Waiting ids since)" "since + scimReferenceWriteLifetime < now"
  shows "poll_reference_writes ids now (wDb w) = []"
proof -
  have "world_ok w" by (rule deletions.reachable_keeps[OF assms(2) idle_ok[OF assms(1)]])
  then have "deletion_ok w run (Waiting ids since)" using world_okD(4)[OF _ assms(3)] by simp
  with assms(4) show ?thesis by (fastforce simp: deletion_ok_def poll_reference_writes_def filter_empty_conv)
qed

theorem deletion_wait_ends_witness:
  "\<exists>w. (deletion_step sample_env)\<^sup>*\<^sup>* sample_world w \<and> wRuns w ''r1'' = Some (Waiting [''w1''] 0) \<and> poll_reference_writes [''w1''] 61 (wDb w) = []"
proof -
  define w1 where "w1 = sample_world\<lparr>wDb := record_reference_write ''w1'' 0 (wDb sample_world),
    wWriters := [''w1'' \<mapsto> sample_writer ListConnections], wUsed := {''w1''}\<rparr>"
  define s where "s = (wDb w1)\<lparr>dbPendingDeletions := [\<lparr>pdGroupID = ''okta/x2'', pdConnectionID = ''c'', pdRunID = ''r1'', pdCreatedAt = 0\<rparr>]\<rparr>"
  define w2 where "w2 = w1\<lparr>wDb := s, wRuns := [''r1'' \<mapsto> Marked], wUsed := {''r1'', ''w1''}\<rparr>"
  define w3 where "w3 = w2\<lparr>wRuns := [''r1'' \<mapsto> Waiting [''w1''] 0]\<rparr>"
  have "deletion_step sample_env sample_world w1"
    using deletion_step.record_write[of 0 sample_world "''w1''" sample_env "[''okta/x2'']"]
    by (simp add: w1_def sample_world_def sample_writer_def scimReferenceWriteLifetime_def)
  moreover have "MarkUnreferencedSCIMGroups sample_connection {} ''r1'' 0 (wDb w1) = Inr (s, [''okta/x2''])"
    by (simp add: MarkUnreferencedSCIMGroups_def s_def w1_def record_reference_write_def sample_world_def connection_tx_def sample_connection_def
        scimProviderGroupsTx_def left_join_def order_by_def upsert_mark_def empty_db_def)
  then have "deletion_step sample_env w1 w2"
    using deletion_step.mark[of 0 w1 "''r1''" sample_connection "{}" s "[''okta/x2'']" sample_env]
    by (simp add: after_marking_def w2_def) (simp add: w1_def sample_world_def)
  moreover have "deletion_step sample_env w2 w3"
    using deletion_step.list_writes[of w2 "''r1''" sample_env]
    by (simp add: w3_def w2_def s_def w1_def list_reference_writes_def record_reference_write_def sample_world_def empty_db_def)
  ultimately have steps: "(deletion_step sample_env)\<^sup>*\<^sup>* sample_world w3" by (meson converse_rtranclp_into_rtranclp rtranclp.rtrancl_refl)
  have run: "wRuns w3 ''r1'' = Some (Waiting [''w1''] 0)" by (simp add: w3_def)
  from deletion_wait_ends[OF sample_world_idle steps run, of 61] steps run show ?thesis by (auto simp: scimReferenceWriteLifetime_def)
qed

end
