(* ===== verification/Spec2Isabelle.thy ===== *)
theory Spec2Isabelle
  imports Roles Access_Control_Rule Skill_Access_Rule Model_Access_Policy VMCP_Resolve System_IDs Authz Local_Auth Enforcement Duration Scim_Authn Scim_Deletion
begin

text \<open>
  \<^bold>\<open>A verification of the decision-making core of Obot\<close>, the platform that gives users access to MCP servers, virtual
  MCP servers (vMCPs), language models and skills. Paths below are under \<^verbatim>\<open>src/\<close>.

  \<^bold>\<open>The parts and how they interact.\<close>
  A request to the HTTP API carries a principal: a name, an identifier, groups, and extra values of the
  authenticator. The authorizer (\<^verbatim>\<open>pkg/api/authz\<close>) decides it before any handler runs. It isolates machine
  credentials, tries the pattern table of each group, matches the patterns that name resources, and
  then checks the resources one by one, with the rules of the access-control components. These are the access control rules of MCP servers
  (\<^verbatim>\<open>pkg/accesscontrolrule\<close>), skill access rules (\<^verbatim>\<open>pkg/skillaccessrule\<close>), model access policies
  (\<^verbatim>\<open>pkg/modelaccesspolicy\<close>) and vMCP profiles (\<^verbatim>\<open>pkg/vmcp\<close>), which all name subjects: users, groups, everyone.
  Principals come from authenticators, of which the built-in password provider (\<^verbatim>\<open>pkg/localauth\<close>) is modelled with
  its tables (\<^verbatim>\<open>pkg/gateway/client/localauth.go\<close>, \<^verbatim>\<open>credential.go\<close>). Users and groups may be provisioned by an identity
  provider over SCIM (\<^verbatim>\<open>pkg/scim\<close>, \<^verbatim>\<open>pkg/gateway/client/scimgroup.go\<close>); the groups it writes are the groups that rules
  name. The device policy (\<^verbatim>\<open>pkg/enforcement\<close>) decides the tool calls of managed devices. Durations
  (\<^verbatim>\<open>pkg/gateway/time\<close>) are parsed for several settings.

  \<^bold>\<open>Theories and sources.\<close> Definitions bear the names of the source; names in lower case with underscores are parts of a function,
  such as the body of a loop or a branch.

  \<^descr> \<open>Prelude\<close>: errors as values of a sum, principals, the functions of Go's \<^verbatim>\<open>strings\<close> and \<^verbatim>\<open>slices\<close> the source uses,
    UTF-8, generic lemmas, and the interface \<open>invariant_steps\<close>.
  \<^descr> \<open>Roles\<close>: \<^verbatim>\<open>apiclient/types/user.go\<close>, role bits at 64 bits. The stored role of a user decides the documented hierarchy.
  \<^descr> \<open>Subjects\<close>: subjects, stored objects, and the interface of the informer indexes with an implementation
    by lists; \<open>subject_matcher\<close> is the contract that every kind of rule meets.
  \<^descr> \<open>Access_Control_Rule\<close>, \<open>Skill_Access_Rule\<close>, \<open>Model_Access_Policy\<close>: the helpers of the three packages with their index functions
    (\<^verbatim>\<open>pkg/services/config.go\<close>). Each decision equals a specification that mentions only the stored rules, and never fails.
    Listings agree with single decisions, and names of models resolve to the newest, or to the preferred one.
  \<^descr> \<open>VMCP\<close>, \<open>VMCP_Config\<close>, \<open>VMCP_Resolve\<close>: \<^verbatim>\<open>apiclient/types/vmcp.go\<close> and \<^verbatim>\<open>pkg/vmcp\<close>: tool grants are exactly what the matching profiles
    and the selection allow; fixed configuration is moved out of the manifest exactly; a connection of another user is never resolved.
    Manifests have all fields that the digests of drift detection cover.
  \<^descr> \<open>System_IDs\<close>: the prefixes of \<^verbatim>\<open>pkg/system/ids.go\<close>.
  \<^descr> \<open>Paths\<close>, \<open>Serve_Mux\<close>: percent escapes, \<^verbatim>\<open>path.Clean\<close>, and the router of \<^verbatim>\<open>net/http\<close> that the authorizer matches patterns with;
    the path matcher of the authorizer agrees with the matching of single patterns.
  \<^descr> \<open>Authz_Rules\<close>, \<open>Authz_Access\<close>, \<open>Authz_Checks\<close>, \<open>Authz\<close>: the pattern tables, the access to vMCPs and connections with key scopes,
    the resource checks (each an instance of the interface \<open>resource_check\<close>), and the authorizer. Shown: what can authorize a principal at all,
    that machine credentials are confined to their endpoints, and that a request that passes names only resources granted to the user.
  \<^descr> \<open>Base64\<close>, \<open>Decimal\<close>: the encodings that credentials, hashes and tokens go through, with round trips.
  \<^descr> \<open>Login_Throttle\<close>, \<open>Local_Auth_Store\<close>, \<open>Credential_Store\<close>, \<open>Password\<close>, \<open>Redirect\<close>, \<open>Local_Auth\<close>: the password provider. Shown: a bound on
    password guesses and the end of a lockout, with the steps of concurrent logins on the throttle interleaved, integrity of the tables under any interleaving, revocation of sessions,
    what a login requires, the life of a session, secrets revealed as stored through the JSON column of their row and the encryption,
    redirects that stay on the site, and that a chosen password stays until an administrator resets it.
  \<^descr> \<open>Enforcement\<close>: \<^verbatim>\<open>pkg/enforcement\<close> and the allowlists of \<^verbatim>\<open>pkg/api/handlers/mdmconfigurations_enforcement.go\<close>. An entry for a URL admits only
    calls below its path; merging changes no decision on ASCII text.
  \<^descr> \<open>Duration\<close>: \<^verbatim>\<open>pkg/gateway/time/duration.go\<close> at 64 bits, where the accumulators can wrap.
  \<^descr> \<open>Scim_Schema\<close>, \<open>Scim_Filter\<close>, \<open>Scim_Resource\<close>, \<open>Scim_Patch\<close>: \<^verbatim>\<open>pkg/scim/schema.go\<close>, \<^verbatim>\<open>filter.go\<close>, \<^verbatim>\<open>resource.go\<close>, \<^verbatim>\<open>patch.go\<close>. The filter
    parser reads back what is printed; resources that are read are well typed, and users survive the round trip; a PATCH
    leaves read-only attributes and removes no required one; repeating an addition changes nothing.
  \<^descr> \<open>Scim_Group_Patch\<close>, \<open>Scim_Group_Store\<close>, \<open>Scim_Group_Invariant\<close>: \<^verbatim>\<open>pkg/scim/grouppatch.go\<close> and \<^verbatim>\<open>pkg/gateway/client/scimgroup.go\<close>. A planned patch
    refines the application of its operations to the whole group, the two paths write the same database, and the tables keep
    their invariant in every state the operations reach.
  \<^descr> \<open>Scim_Connection\<close>, \<open>Scim_Authn\<close>: \<^verbatim>\<open>pkg/gateway/client/scimconnection.go\<close> and \<^verbatim>\<open>pkg/scim/authn.go\<close>. The history of the tokens of a connection decides
    when each is valid: for its lifetime, after a rotation for the shorter period that was kept, and never after a revocation. The
    authenticator and the authorizer together serve a request exactly when its token is valid (last section below).
  \<^descr> \<open>Scim_Deletion\<close>: the marks and reference writes of \<^verbatim>\<open>pkg/gateway/client/scimsetup.go\<close>, and the protocol that \<^verbatim>\<open>pkg/scim/setup/enable.go\<close> runs
    over them. Deletions, writers of references, the operations on groups, the clock and the removal of the connection
    interleave in the relation \<open>deletion_step\<close>, where the check of a writer is a step for each of its queries, the references are read one
    kind at a time (\<^verbatim>\<open>pkg/groupref\<close>) and writes are polled in batches. Shown: a group that is deleted is referenced by nothing at that moment, and every
    later or unfinished check refuses it, except one that is between its two queries on the group, which can save a reference to the deleted group;
    and the wait for earlier writes ends within their lifetime. A writer saves within the lifetime of its record, as the source documents, and the groups of the provider
    have the prefix of the connection (a hypothesis, since writers look only at identifiers with the prefix).

  \<^bold>\<open>How the code is modelled.\<close>
  A function that updates its arguments returns them; a transaction is a function on the record of the tables that
  returns the new tables or an error. Error values are kept apart as far as callers tell them apart; their texts are abbreviated.
  Records have the fields that the modelled code reads or writes. A Go map is a map, or an association list in
  the order in which it is visited where the code ranges over it. The clock and random values are arguments. Integers that can
  overflow are words of their width. Lower case and case folding are those of ASCII, on which \<^verbatim>\<open>strings.ToLower\<close> and \<^verbatim>\<open>strings.EqualFold\<close> agree; where
  an argument rests on that agreement, the theorem says so.
  Concurrent requests are interleavings of store operations, each of which is one transaction or one statement, and of the critical sections of the
  throttle; writes over SCIM are serialized by the lock they take.

  \<^bold>\<open>Parameters.\<close> Code from outside the repository is an argument: the Kubernetes storage clients and informer
  indexes, the encryption transformers, argon2, HMAC, SHA-256 and bcrypt, UUIDs, the parsers of \<^verbatim>\<open>net/url\<close> and \<^verbatim>\<open>net/mail\<close>, \<^verbatim>\<open>strconv.ParseFloat\<close>,
  the JSON text of secret maps (which reads back as the same map when its strings are UTF-8), and the format of times. What the code relies on is a hypothesis (for example
  that a lookup returns the objects that have the key), and each is met by a concrete function in a witness.

  \<^bold>\<open>Termination and bounds.\<close> No fuel is used: every function is total. Loops recurse on their data or have a
  termination proof, among them the filter parser, whose functions consume tokens. The limits of the source
  (\<open>maxFilterLength\<close>, \<open>maxPatchOperations\<close>, \<open>MaxMatchedPathBytes\<close>, the limits of the throttle) are its constants.

  \<^bold>\<open>Not modelled.\<close>
  The MCP runtime (\<^verbatim>\<open>pkg/mcp\<close>), which drives Kubernetes and Docker; the controllers (\<^verbatim>\<open>pkg/controller\<close>), whose effect is what they
  write through the Kubernetes client and the caches behind it; the other handlers of the API and the gateway, which
  decode requests and call the storage; the storage backend and generated code; the command line and the user interface. Of SCIM,
  the HTTP routing, discovery, projection, metrics, the setup service with its staged and enforced connections, and the store of
  users are left out, except for what the modelled operations call. Failures of the database connection are not modelled.
\<close>

section \<open>Authentication and authorization together\<close>

text \<open>
  C7: The SCIM endpoint serves a request exactly when it bears a valid token of the connection. On its paths the
  authenticator yields a principal that the authorizer admits just then; otherwise the request is anonymous and refused, or there is no
  connection at all. Off its paths the authenticator declines, and the principal of a connection is refused.
\<close>

theorem scim_request_served:
  assumes "\<forall>x. h x \<noteq> []" "dbConnections s\<^sub>0 = []" "(token_step h)\<^sup>*\<^sup>* (begun, s\<^sub>0, \<lambda>_. []) (clock, s, hist)" "clock \<le> now"
    "\<forall>c\<in>set (dbConnections s). scID c \<noteq> []"
  shows "if scim_path (URL_Path req)
    then (\<exists>u. AuthenticateRequest h now s req = Authenticated u \<and> Authorize a req u = Decided True)
        \<longleftrightarrow> (\<exists>conn rest. dbConnections s = conn # rest \<and> fst (bearerToken req) \<noteq> []
              \<and> token_valid (hist (scID conn)) now (h (fst (bearerToken req))))
    else AuthenticateRequest h now s req = Declined \<and> (\<forall>u. IsConnectionPrincipal (Some u) \<longrightarrow> Authorize a req u = Decided False)"
proof (cases "scim_path (URL_Path req)")
  case True
  note exact = authenticate_exact[OF assms(1-4), of "fst (bearerToken req)"]
  have anonymous: "Authorize a req anonymous_user \<noteq> Decided True"
    using scim_decision[of req a anonymous_user] True by (simp add: anonymous_user_def UnauthenticatedGroup_def GroupSCIM_def)
  show ?thesis
  proof (cases "dbConnections s")
    case Nil
    with True exact show ?thesis by (simp add: AuthenticateRequest_def IsSCIMPath_iff)
  next
    case (Cons conn rest)
    let ?u = "\<lparr>GetName = connectionPrincipalPrefix @ scID conn, GetUID = scID conn, GetGroups = [GroupSCIM], GetExtra = (\<lambda>_. [])\<rparr>"
    have "Authorize a req ?u = Decided True" using scim_decision[of req a ?u] True assms(5) Cons by simp
    with True exact Cons anonymous show ?thesis by (simp add: AuthenticateRequest_def IsSCIMPath_iff)
  qed
next
  case False
  then show ?thesis
    using scim_decision[of req a] by (auto simp: AuthenticateRequest_def IsSCIMPath_iff IsConnectionPrincipal_def)
qed

definition sample_request :: Request where
  "sample_request = (example_request ''GET'' ''/scim/v2/Users'')\<lparr>Authorization := ''Bearer obot_scim_''\<rparr>"

theorem scim_request_served_witness:
  "\<exists>s conn u. CreateSCIMConnection sample_digest sample_options ''c'' (Some []) 10 empty_db = Inr (s, conn, ''obot_scim_'')
    \<and> AuthenticateRequest sample_digest 20 s sample_request = Authenticated u \<and> Authorize example_authorizer sample_request u = Decided True"
proof -
  have none: "RawURLEncoding_EncodeToString [] = []" by code_simp
  obtain s conn where c: "CreateSCIMConnection sample_digest sample_options ''c'' (Some []) 10 empty_db = Inr (s, conn, ''obot_scim_'')"
      "dbConnections s = [conn]" "scID conn = ''c''"
    by (auto simp: CreateSCIMConnection_def sample_options_def ForAuthProvider_def newSCIMToken_def Let_def empty_db_def none
        authProviderGroupDataTx_def scimProviderGroupsTx_def GroupData_Empty_def order_by_def)
  let ?hist = "(\<lambda>_. [])(''c'' := [Issued 10 (sample_digest ''obot_scim_'') False])"
  have "token_step sample_digest (0, empty_db, \<lambda>_. []) (10, s, ?hist)"
    using token_step.create[OF _ _ c(1), of 0 "\<lambda>_. []"] by (simp add: sample_options_def)
  then have run: "(token_step sample_digest)\<^sup>*\<^sup>* (0, empty_db, \<lambda>_. []) (10, s, ?hist)" by (rule r_into_rtranclp)
  have start: "\<forall>x. sample_digest x \<noteq> []" "dbConnections empty_db = []" by (simp_all add: sample_digest_def empty_db_def)
  have token: "fst (bearerToken sample_request) = ''obot_scim_''" by code_simp
  have "scim_path (URL_Path sample_request)" by (simp add: scim_path_def sample_request_def example_request_def)
  with scim_request_served[OF start run, of 20 sample_request example_authorizer] c token
  have "\<exists>u. AuthenticateRequest sample_digest 20 s sample_request = Authenticated u \<and> Authorize example_authorizer sample_request u = Decided True"
    by (simp add: token_valid_def SCIMTokenLifetime_def)
  with c(1) show ?thesis by blast
qed

end
